(* ===== verification/Gw_Prelude.thy ===== *)
theory Gw_Prelude
  imports Main "HOL-Library.Word" "HOL-Library.Sublist"
begin

text \<open>
  Shared vocabulary of the development: the fixed-width integer types of the C++ code, the
  model of an ordered \<^verbatim>\<open>std::map\<close> as an association list with strictly increasing keys,
  the \<^verbatim>\<open>insert\<close> of a map that keeps an existing entry, \<^verbatim>\<open>std::find_if\<close>, and the
  collections of rules that the component theories extend.
\<close>

section \<open>Fixed-width integers and byte buffers\<close>

type_synonym u8 = "8 word"
type_synonym u16 = "16 word"
type_synonym u32 = "32 word"
type_synonym u64 = "64 word"

type_synonym data_buf = "u8 list"

text \<open>Rules about single operations that keep a component's invariant, and rules about
  handlers that keep the contract every session operation has with the session.\<close>

named_theorems reg_inv_rules
named_theorems op_frame_rules
named_theorems op_defs
named_theorems frame_simps
named_theorems ping_simps

section \<open>Ordered maps\<close>

text \<open>
  \<^verbatim>\<open>std::map<K, V>\<close> is iterated in the order of its keys by the code, so it is a list of
  key/value pairs with strictly increasing keys. \<^verbatim>\<open>insert\<close> leaves an existing entry alone.
\<close>

abbreviation sorted_keys :: "('k::linorder \<times> 'v) list \<Rightarrow> bool" where
  "sorted_keys xs \<equiv> sorted_wrt (<) (map fst xs)"

fun smap_insert :: "'k::linorder \<Rightarrow> 'v \<Rightarrow> ('k \<times> 'v) list \<Rightarrow> ('k \<times> 'v) list" where
  "smap_insert k v [] = [(k, v)]"
| "smap_insert k v ((k', v') # xs) =
     (if k < k' then (k, v) # (k', v') # xs
      else if k = k' then (k', v') # xs
      else (k', v') # smap_insert k v xs)"

definition smap_erase :: "'k \<Rightarrow> ('k \<times> 'v) list \<Rightarrow> ('k \<times> 'v) list" where
  "smap_erase k xs = filter (\<lambda>p. fst p \<noteq> k) xs"

lemma set_smap_insert_fresh:
  "k \<notin> fst ` set xs \<Longrightarrow> set (smap_insert k v xs) = insert (k, v) (set xs)"
proof (induction xs)
  case (Cons p xs)
  then show ?case by (cases p) (simp add: insert_commute)
qed simp

lemma keys_smap_insert: "fst ` set (smap_insert k v xs) = insert k (fst ` set xs)"
proof (induction xs)
  case (Cons p xs)
  then show ?case by (cases p) (simp add: insert_commute)
qed simp

lemma sorted_keys_smap_insert: "sorted_keys xs \<Longrightarrow> sorted_keys (smap_insert k v xs)"
proof (induction xs)
  case (Cons p xs)
  obtain k' v' where p: "p = (k', v')" by fastforce
  have "\<forall>x \<in> fst ` set (smap_insert k v xs). k' < x" if "k' < k"
    using that Cons.prems by (auto simp: keys_smap_insert p)
  with Cons show ?case by (auto simp: p not_less le_less)
qed simp

lemma smap_insert_present:
  "sorted_keys xs \<Longrightarrow> k \<in> fst ` set xs \<Longrightarrow> smap_insert k v xs = xs"
proof (induction xs)
  case (Cons p xs)
  then show ?case by (cases p) force
qed simp

lemma sorted_keys_smap_erase: "sorted_keys xs \<Longrightarrow> sorted_keys (smap_erase k xs)"
  unfolding smap_erase_def by (induction xs) auto

lemma set_smap_erase: "set (smap_erase k xs) = {p \<in> set xs. fst p \<noteq> k}"
  by (simp add: smap_erase_def)

lemma sorted_keys_distinct: "sorted_keys xs \<Longrightarrow> distinct (map fst xs)"
  by (simp add: strict_sorted_iff)

lemma map_of_sorted_keys_iff:
  "sorted_keys xs \<Longrightarrow> map_of xs k = Some v \<longleftrightarrow> (k, v) \<in> set xs"
  by (simp add: map_of_eq_Some_iff sorted_keys_distinct)

lemma sorted_keys_last_max:
  "sorted_keys xs \<Longrightarrow> p \<in> set xs \<Longrightarrow> fst p \<le> fst (last xs)"
  by (induction xs) (auto, metis last_in_set less_imp_le fst_conv image_eqI)

lemma sorted_keys_hd_min:
  "sorted_keys xs \<Longrightarrow> p \<in> set xs \<Longrightarrow> fst (hd xs) \<le> fst p"
  by (cases xs) (auto intro: less_imp_le)

section \<open>Unordered maps and searches\<close>

text \<open>The same \<^verbatim>\<open>insert\<close> on a map whose order is never observed.\<close>

definition map_insert :: "'k \<Rightarrow> 'v \<Rightarrow> ('k \<rightharpoonup> 'v) \<Rightarrow> ('k \<rightharpoonup> 'v)" where
  "map_insert k v m = (case m k of None \<Rightarrow> m(k \<mapsto> v) | Some _ \<Rightarrow> m)"

lemma map_insert_fresh: "m k = None \<Longrightarrow> map_insert k v m = m(k \<mapsto> v)"
  by (simp add: map_insert_def)

lemma map_eqI:
  assumes "\<And>k v. m k = Some v \<longleftrightarrow> n k = Some v"
  shows "m = n"
proof
  fix k
  show "m k = n k"
  proof (cases "n k")
    case None
    then have "m k \<noteq> Some v" for v using assms [of k v] by simp
    with None show ?thesis by (cases "m k") auto
  next
    case (Some v)
    then show ?thesis using assms [of k v] by simp
  qed
qed

text \<open>Erasing the first element that satisfies a predicate, as \<^verbatim>\<open>std::list::erase\<close> of the
  iterator \<^verbatim>\<open>std::find_if\<close> returned.\<close>

fun erase_first :: "('a \<Rightarrow> bool) \<Rightarrow> 'a list \<Rightarrow> 'a list" where
  "erase_first P [] = []"
| "erase_first P (x # xs) = (if P x then xs else x # erase_first P xs)"

lemma erase_first_none: "\<forall>x \<in> set xs. \<not> P x \<Longrightarrow> erase_first P xs = xs"
  by (induction xs) auto

lemma length_erase_first: "length (erase_first P xs) \<le> length xs"
  by (induction xs) auto

lemma set_erase_first: "set (erase_first P xs) \<subseteq> set xs"
  by (induction xs) auto

text \<open>Writing through an iterator to the first element that satisfies a predicate.\<close>

fun update_first :: "('a \<Rightarrow> bool) \<Rightarrow> ('a \<Rightarrow> 'a) \<Rightarrow> 'a list \<Rightarrow> 'a list" where
  "update_first P f [] = []"
| "update_first P f (x # xs) = (if P x then f x # xs else x # update_first P f xs)"

lemma length_update_first [simp]: "length (update_first P f xs) = length xs"
  by (induction xs) auto

section \<open>Words\<close>

lemma u16_succ_unat: "unat (k :: u16) < 65535 \<Longrightarrow> unat (k + 1) = unat k + 1"
  by (simp add: unat_word_ariths)

lemma u16_pred_unat: "(0 :: u16) < k \<Longrightarrow> unat (k - 1) = unat k - 1"
  by (metis unat_minus_one word_neq_0_conv)

lemma u64_add_u32_unat:
  "unat (ts :: u64) < 2 ^ 63 \<Longrightarrow> unat (ts + ucast (ms :: u32)) = unat ts + unat ms"
proof -
  assume ts: "unat ts < 2 ^ 63"
  have "unat ms < 2 ^ LENGTH(32)" by (rule unsigned_less)
  then have ms: "unat ms < 2 ^ 32" by simp
  then have "unat (ucast ms :: u64) = unat ms"
    by (simp add: unsigned_ucast_eq take_bit_nat_eq_self)
  with ts ms show ?thesis by (simp add: unat_word_ariths)
qed

lemma u32_succ_unat: "(k :: u32) < n \<Longrightarrow> unat (k + 1) = unat k + 1"
proof -
  assume "k < n"
  then have "unat k + 1 \<le> unat n" by (simp add: word_less_nat_alt)
  also have "\<dots> < 2 ^ 32" using unsigned_less [of n] by simp
  finally show ?thesis by (simp add: unat_word_ariths)
qed

end
