(* ===== verification/Gw_Messages.thy ===== *)
theory Gw_Messages
  imports Gw_Prelude
begin

text \<open>
  The protocol messages the gateway session exchanges with its MQTT-SN client and with its
  MQTT broker. The message classes themselves are generated by another project and only their
  fields are visible in \<^verbatim>\<open>src/gateway/lib/src/messages.h\<close> and in the handlers; a message is
  therefore a value with exactly the fields the handlers read and write. Serialisation is no
  part of the model: the frames that turn bytes into messages are parameters of the session's
  entry points. The theory also holds the translations between the quality-of-service types
  from \<^verbatim>\<open>src/gateway/lib/src/common.h\<close>.
\<close>

section \<open>Field values\<close>

datatype topic_id_type = Normal | PredefinedTopicId | ShortTopicName | ReservedTopicIdType

datatype return_code = Accepted | Congestion | InvalidTopicId | NotSupported

text \<open>The MQTT-SN quality of service has a fourth value for publishing with no connection.\<close>

datatype sn_qos = SN_AtMostOnceDelivery | SN_AtLeastOnceDelivery | SN_ExactlyOnceDelivery
  | SN_NoGwPublish

datatype mqtt_qos = MQ_AtMostOnceDelivery | MQ_AtLeastOnceDelivery | MQ_ExactlyOnceDelivery

datatype qos = QoS_AtMostOnceDelivery | QoS_AtLeastOnceDelivery | QoS_ExactlyOnceDelivery

fun translateQosForBroker :: "qos \<Rightarrow> mqtt_qos" where
  "translateQosForBroker QoS_AtMostOnceDelivery = MQ_AtMostOnceDelivery"
| "translateQosForBroker QoS_AtLeastOnceDelivery = MQ_AtLeastOnceDelivery"
| "translateQosForBroker QoS_ExactlyOnceDelivery = MQ_ExactlyOnceDelivery"

fun translateQosForClient :: "qos \<Rightarrow> sn_qos" where
  "translateQosForClient QoS_AtMostOnceDelivery = SN_AtMostOnceDelivery"
| "translateQosForClient QoS_AtLeastOnceDelivery = SN_AtLeastOnceDelivery"
| "translateQosForClient QoS_ExactlyOnceDelivery = SN_ExactlyOnceDelivery"

fun translateQos_mqtt :: "mqtt_qos \<Rightarrow> qos" where
  "translateQos_mqtt MQ_AtMostOnceDelivery = QoS_AtMostOnceDelivery"
| "translateQos_mqtt MQ_AtLeastOnceDelivery = QoS_AtLeastOnceDelivery"
| "translateQos_mqtt MQ_ExactlyOnceDelivery = QoS_ExactlyOnceDelivery"

fun translateQos_sn :: "sn_qos \<Rightarrow> qos" where
  "translateQos_sn SN_NoGwPublish = QoS_AtMostOnceDelivery"
| "translateQos_sn SN_AtMostOnceDelivery = QoS_AtMostOnceDelivery"
| "translateQos_sn SN_AtLeastOnceDelivery = QoS_AtLeastOnceDelivery"
| "translateQos_sn SN_ExactlyOnceDelivery = QoS_ExactlyOnceDelivery"

section \<open>Messages\<close>

record sn_publish =
  sp_topicIdType :: topic_id_type
  sp_retain :: bool
  sp_qos :: sn_qos
  sp_dup :: bool
  sp_topicId :: u16
  sp_msgId :: u16
  sp_data :: data_buf

text \<open>The topic name and the topic id of SUBSCRIBE and UNSUBSCRIBE are optional fields; reading
  a missing topic id yields the default value of the field.\<close>

record sn_subscribe =
  ss_topicIdType :: topic_id_type
  ss_qos :: sn_qos
  ss_msgId :: u16
  ss_topicName :: "string option"
  ss_topicId :: "u16 option"

record sn_unsubscribe =
  su_topicIdType :: topic_id_type
  su_msgId :: u16
  su_topicName :: "string option"
  su_topicId :: "u16 option"

definition optional_id :: "u16 option \<Rightarrow> u16" where
  "optional_id f = (case f of None \<Rightarrow> 0 | Some v \<Rightarrow> v)"

datatype sn_msg =
    SearchgwMsg_SN (searchgw_radius: u8)
  | GwinfoMsg_SN (gwinfo_gwId: u8)
  | ConnectMsg_SN (connect_clientId: string) (connect_duration: u16) (connect_will: bool)
      (connect_clean: bool)
  | ConnackMsg_SN return_code
  | WilltopicreqMsg_SN
  | WilltopicMsg_SN string sn_qos bool
  | WillmsgreqMsg_SN
  | WillmsgMsg_SN data_buf
  | RegisterMsg_SN u16 u16 string
  | RegackMsg_SN u16 u16 return_code
  | PublishMsg_SN sn_publish
  | PubackMsg_SN u16 u16 return_code
  | PubrecMsg_SN u16
  | PubrelMsg_SN u16
  | PubcompMsg_SN u16
  | SubscribeMsg_SN sn_subscribe
  | SubackMsg_SN sn_qos u16 u16 return_code
  | UnsubscribeMsg_SN sn_unsubscribe
  | UnsubackMsg_SN u16
  | PingreqMsg_SN string
  | PingrespMsg_SN
  | DisconnectMsg_SN "u16 option"
  | WilltopicupdMsg_SN string sn_qos bool
  | WilltopicrespMsg_SN return_code
  | WillmsgupdMsg_SN data_buf
  | WillmsgrespMsg_SN return_code
  | FwdMsg_SN data_buf

text \<open>CONNECT to the broker: the will and the credentials are on the wire when their flags are
  set. PUBLISH carries a packet id when its quality of service is above zero, which is what
  \<^verbatim>\<open>doRefresh()\<close> establishes before the message is sent.\<close>

record mqtt_connect =
  mc_clientId :: string
  mc_keepAlive :: u16
  mc_cleanSession :: bool
  mc_willFlag :: bool
  mc_willTopic :: string
  mc_willMessage :: data_buf
  mc_willQos :: mqtt_qos
  mc_willRetain :: bool
  mc_userNameFlag :: bool
  mc_userName :: string
  mc_passwordFlag :: bool
  mc_password :: data_buf

definition mqtt_connect_default :: mqtt_connect where
  "mqtt_connect_default =
     \<lparr>mc_clientId = '''', mc_keepAlive = 0, mc_cleanSession = False, mc_willFlag = False,
      mc_willTopic = '''', mc_willMessage = [], mc_willQos = MQ_AtMostOnceDelivery,
      mc_willRetain = False, mc_userNameFlag = False, mc_userName = '''',
      mc_passwordFlag = False, mc_password = []\<rparr>"

record mqtt_publish =
  mp_retain :: bool
  mp_qos :: mqtt_qos
  mp_dup :: bool
  mp_topic :: string
  mp_packetId :: "u16 option"
  mp_payload :: data_buf

definition refresh_packetId :: "mqtt_qos \<Rightarrow> u16 \<Rightarrow> u16 option" where
  "refresh_packetId q pid = (if q = MQ_AtMostOnceDelivery then None else Some pid)"

datatype mqtt_msg =
    ConnectMsg mqtt_connect
  | ConnackMsg u8 bool
  | PublishMsg mqtt_publish
  | PubackMsg u16
  | PubrecMsg u16
  | PubrelMsg u16
  | PubcompMsg u16
  | SubscribeMsg u16 "(string \<times> mqtt_qos) list"
  | SubackMsg u16 "u8 list"
  | UnsubscribeMsg u16 "string list"
  | UnsubackMsg u16
  | PingreqMsg
  | PingrespMsg
  | DisconnectMsg

end
