(* ===== verification/Gw_Registry.thy ===== *)
theory Gw_Registry
  imports Gw_Messages
begin

text \<open>
  The interface the session operations rely on when they translate between topic strings and
  topic ids: a registry is a partial injective map from topics to ids, lookups never change it,
  a new topic gets an id that no other topic has. What follows from the interface alone is
  proved here once; the registration manager interprets it.
\<close>

locale topic_registry =
  fixes inv :: "'r \<Rightarrow> bool"
    and abs :: "'r \<Rightarrow> string \<rightharpoonup> u16"
    and can :: "'r \<Rightarrow> bool"
    and reserved :: "string \<Rightarrow> bool"
    and mapTopic :: "string \<Rightarrow> 'r \<Rightarrow> 'e + u16 \<times> 'r"
    and mapTopicId :: "u16 \<Rightarrow> 'r \<Rightarrow> 'e + string"
    and discard :: "u16 \<Rightarrow> 'r \<Rightarrow> 'e + 'r"
    and clear :: "'r \<Rightarrow> 'r"
  assumes abs_inj: "inv r \<Longrightarrow> abs r t = Some k \<Longrightarrow> abs r t' = Some k \<Longrightarrow> t = t'"
    and map_known: "inv r \<Longrightarrow> abs r t = Some k \<Longrightarrow> mapTopic t r = Inr (k, r)"
    and map_new: "inv r \<Longrightarrow> can r \<Longrightarrow> abs r t = None \<Longrightarrow> \<not> reserved t \<Longrightarrow>
      \<exists>k r'. mapTopic t r = Inr (k, r') \<and> inv r' \<and> abs r' = (abs r)(t \<mapsto> k) \<and>
        k \<notin> ran (abs r)"
    and lookup_known: "inv r \<Longrightarrow> abs r t = Some k \<Longrightarrow> mapTopicId k r = Inr t"
    and lookup_unknown: "inv r \<Longrightarrow> k \<notin> ran (abs r) \<Longrightarrow> mapTopicId k r = Inr ''''"
    and discard_law: "inv r \<Longrightarrow> \<exists>r'. discard k r = Inr r' \<and> inv r' \<and>
      (\<forall>t. abs r' t = (if abs r t = Some k then None else abs r t))"
    and clear_inv: "inv r \<Longrightarrow> inv (clear r)"
    and clear_sub: "inv r \<Longrightarrow> abs (clear r) \<subseteq>\<^sub>m abs r"
begin

text \<open>Registering a topic and asking for its id gives the topic back.\<close>

lemma map_lookup:
  assumes "inv r" "can r \<or> abs r t \<noteq> None" "\<not> reserved t"
  shows "\<exists>k r'. mapTopic t r = Inr (k, r') \<and> inv r' \<and> abs r' = (abs r)(t \<mapsto> k) \<and>
    mapTopicId k r' = Inr t"
proof (cases "abs r t")
  case None
  then obtain k r' where "mapTopic t r = Inr (k, r')" "inv r'" "abs r' = (abs r)(t \<mapsto> k)"
    using assms map_new by blast
  moreover from this have "mapTopicId k r' = Inr t" by (intro lookup_known) auto
  ultimately show ?thesis by blast
next
  case (Some k)
  then show ?thesis
    using assms(1) by (auto simp: map_known lookup_known map_upd_triv)
qed

text \<open>Asking again changes nothing.\<close>

lemma map_stable:
  assumes "inv r" "can r \<or> abs r t \<noteq> None" "\<not> reserved t" "mapTopic t r = Inr (k, r')"
  shows "mapTopic t r' = Inr (k, r')"
  using map_lookup [OF assms(1-3)] assms(4) by (auto intro: map_known)

text \<open>Two topics never share an id.\<close>

lemma map_distinct:
  assumes "inv r" "can r \<or> abs r t \<noteq> None" "\<not> reserved t" "mapTopic t r = Inr (k, r')"
    and "can r' \<or> abs r' t' \<noteq> None" "\<not> reserved t'" "mapTopic t' r' = Inr (k', r'')"
    and "t \<noteq> t'"
  shows "k \<noteq> k'"
proof -
  have r': "inv r'" "abs r' t = Some k"
    using map_lookup [OF assms(1-3)] assms(4) by auto
  have r'': "inv r''" "abs r'' = (abs r')(t' \<mapsto> k')"
    using map_lookup [OF r'(1) assms(5,6)] assms(7) by auto
  then have "abs r'' t = Some k" "abs r'' t' = Some k'" using r'(2) assms(8) by auto
  with r''(1) assms(8) show ?thesis using abs_inj by blast
qed

text \<open>A discarded id is unknown afterwards, and no other topic is affected.\<close>

lemma discard_lookup:
  assumes "inv r"
  shows "\<exists>r'. discard k r = Inr r' \<and> inv r' \<and> mapTopicId k r' = Inr '''' \<and>
    (\<forall>t j. abs r t = Some j \<longrightarrow> j \<noteq> k \<longrightarrow> mapTopicId j r' = Inr t)"
proof -
  obtain r' where r': "discard k r = Inr r'" "inv r'"
    "\<forall>t. abs r' t = (if abs r t = Some k then None else abs r t)"
    using discard_law [OF assms] by blast
  have "k \<notin> ran (abs r')" using r'(3) by (auto simp: ran_def split: if_splits)
  then have "mapTopicId k r' = Inr ''''" using r'(2) by (rule lookup_unknown [rotated])
  moreover have "mapTopicId j r' = Inr t" if "abs r t = Some j" "j \<noteq> k" for t j
    using that r'(2,3) by (intro lookup_known) auto
  ultimately show ?thesis using r' by blast
qed

end

end
