(* ===== verification/Gw_RegMgr.thy ===== *)
theory Gw_RegMgr
  imports Gw_Registry
begin

text \<open>
  The topic registration manager, \<^verbatim>\<open>src/gateway/lib/src/RegMgr.{h,cpp}\<close>. The list of
  registrations is a list of nodes with identities, because both maps of the class store
  iterators into that list and an iterator outlives the node it points to. Dereferencing an
  iterator to an erased node, or the end iterator of a map, is a fault value.
\<close>

unbundle bit_operations_syntax

section \<open>State\<close>

type_synonym reg_iter = nat

datatype reg_fault = DanglingIterator | EndIterator

record reg_info =
  ri_topic :: string
  ri_topicId :: u16
  ri_topicIdType :: topic_id_type

record topic_info =
  ti_topicId :: u16
  ti_topicIdType :: topic_id_type
  ti_newInsersion :: bool

definition topic_info_default :: topic_info where
  "topic_info_default = \<lparr>ti_topicId = 0, ti_topicIdType = Normal, ti_newInsersion = False\<rparr>"

record reg_mgr =
  rm_infos :: "(reg_iter \<times> reg_info) list"
  rm_nextNode :: reg_iter
  rm_map :: "string \<rightharpoonup> reg_iter"
  rm_rev :: "(u16 \<times> reg_iter) list"
  rm_minTopicId :: u16
  rm_maxTopicId :: u16

definition DefaultMinTopicId :: u16 where "DefaultMinTopicId = 1"

definition DefaultMaxTopicId :: u16 where "DefaultMaxTopicId = 0xfffe"

definition RegMgr_init :: reg_mgr where
  "RegMgr_init = \<lparr>rm_infos = [], rm_nextNode = 0, rm_map = Map.empty, rm_rev = [],
     rm_minTopicId = DefaultMinTopicId, rm_maxTopicId = DefaultMaxTopicId\<rparr>"

section \<open>Operations\<close>

definition isShortTopicName :: "string \<Rightarrow> bool" where
  "isShortTopicName topic \<longleftrightarrow>
     length topic = 2 \<and> CHR ''#'' \<notin> set topic \<and> CHR ''+'' \<notin> set topic"

text \<open>The shift is done in \<^verbatim>\<open>int\<close> and cut to 16 bits, so a negative first character only
  contributes its low byte.\<close>

definition shortTopicNameToId :: "string \<Rightarrow> u16" where
  "shortTopicNameToId topic = push_bit 8 (of_char (topic ! 0)) OR of_char (topic ! 1)"

definition RegMgr_setTopicIdAllocationRange ::
    "u16 \<Rightarrow> u16 \<Rightarrow> reg_mgr \<Rightarrow> bool \<times> reg_mgr" where
  "RegMgr_setTopicIdAllocationRange minVal maxVal r =
     (if maxVal < minVal then (False, r)
      else (True, r\<lparr>rm_minTopicId := max minVal DefaultMinTopicId,
                    rm_maxTopicId := min maxVal DefaultMaxTopicId\<rparr>))"

text \<open>\<^verbatim>\<open>push_back\<close> of a registration and the insertion of its iterator into both maps.\<close>

definition reg_push :: "reg_info \<Rightarrow> reg_mgr \<Rightarrow> reg_mgr" where
  "reg_push info r = r\<lparr>
     rm_infos := rm_infos r @ [(rm_nextNode r, info)],
     rm_nextNode := Suc (rm_nextNode r),
     rm_map := map_insert (ri_topic info) (rm_nextNode r) (rm_map r),
     rm_rev := smap_insert (ri_topicId info) (rm_nextNode r) (rm_rev r)\<rparr>"

definition reg_deref :: "reg_mgr \<Rightarrow> reg_iter \<Rightarrow> reg_info option" where
  "reg_deref r it = map_of (rm_infos r) it"

definition reg_erase_node :: "reg_iter \<Rightarrow> reg_mgr \<Rightarrow> reg_mgr" where
  "reg_erase_node it r = r\<lparr>rm_infos := filter (\<lambda>p. fst p \<noteq> it) (rm_infos r)\<rparr>"

definition RegMgr_regPredefined ::
    "string \<Rightarrow> u16 \<Rightarrow> reg_mgr \<Rightarrow> reg_fault + bool \<times> reg_mgr" where
  "RegMgr_regPredefined topic topicId r =
     (if topicId = 0 then Inr (False, r)
      else case (rm_map r topic, map_of (rm_rev r) topicId) of
        (None, None) \<Rightarrow>
          Inr (True, reg_push \<lparr>ri_topic = topic, ri_topicId = topicId,
                               ri_topicIdType = PredefinedTopicId\<rparr> r)
      | (Some it, Some revIt) \<Rightarrow>
          (if it \<noteq> revIt then Inr (False, r)
           else case reg_deref r it of
             None \<Rightarrow> Inl DanglingIterator
           | Some info \<Rightarrow>
               if ri_topic info \<noteq> topic \<or> ri_topicId info \<noteq> topicId then Inr (False, r)
               else Inr (True, r\<lparr>rm_infos :=
                      map (\<lambda>(a, i). (a, if a = it then i\<lparr>ri_topicIdType := PredefinedTopicId\<rparr>
                                         else i)) (rm_infos r)\<rparr>))
      | _ \<Rightarrow> Inl EndIterator)"

text \<open>The search for a gap: the expected id counts up from 1 with every visited element.\<close>

fun find_gap :: "u16 \<Rightarrow> u16 \<Rightarrow> u16 \<Rightarrow> u16 list \<Rightarrow> u16" where
  "find_gap minId maxId prevTopicId [] = 0"
| "find_gap minId maxId prevTopicId (k # ks) =
     (let expId = prevTopicId + 1 in
      if k \<noteq> expId \<and> minId \<le> expId \<and> expId \<le> maxId then expId
      else find_gap minId maxId expId ks)"

text \<open>The search for a registration to evict, in the order of the topic ids.\<close>

fun find_evictable :: "reg_mgr \<Rightarrow> (u16 \<times> reg_iter) list \<Rightarrow> reg_fault + (u16 \<times> reg_iter)" where
  "find_evictable r [] = Inl EndIterator"
| "find_evictable r ((k, it) # xs) =
     (case reg_deref r it of
        None \<Rightarrow> Inl DanglingIterator
      | Some info \<Rightarrow>
          if ri_topicIdType info \<noteq> PredefinedTopicId \<and> rm_minTopicId r \<le> ri_topicId info \<and>
             ri_topicId info \<le> rm_maxTopicId r
          then Inr (k, it) else find_evictable r xs)"

definition RegMgr_removeFromTopicMap :: "string \<Rightarrow> reg_iter \<Rightarrow> reg_mgr \<Rightarrow> reg_mgr" where
  "RegMgr_removeFromTopicMap topic info r =
     (if rm_map r topic = Some info then r\<lparr>rm_map := (rm_map r)(topic := None)\<rparr> else r)"

text \<open>The \<^verbatim>\<open>do ... while (false)\<close> block of \<^verbatim>\<open>mapTopic\<close>: the id for a new registration, and
  the manager after a possible eviction.\<close>

definition RegMgr_allocTopicId :: "string \<Rightarrow> reg_mgr \<Rightarrow> reg_fault + u16 \<times> reg_mgr" where
  "RegMgr_allocTopicId topic r =
     (if rm_infos r = [] then Inr (rm_minTopicId r, r)
      else if rm_rev r = [] then Inl EndIterator
      else
        let lastKey = fst (last (rm_rev r)); firstKey = fst (hd (rm_rev r));
            gap = find_gap (rm_minTopicId r) (rm_maxTopicId r) 0 (map fst (rm_rev r)) in
        if lastKey < rm_maxTopicId r then Inr (max (lastKey + 1) (rm_minTopicId r), r)
        else if rm_minTopicId r < firstKey then Inr (min (firstKey - 1) (rm_maxTopicId r), r)
        else if gap \<noteq> 0 then Inr (gap, r)
        else case find_evictable r (rm_rev r) of
          Inl e \<Rightarrow> Inl e
        | Inr (topicId, it) \<Rightarrow>
            let r1 = RegMgr_removeFromTopicMap topic it r;
                r2 = r1\<lparr>rm_rev := smap_erase topicId (rm_rev r1)\<rparr>
            in Inr (topicId, reg_erase_node it r2))"

text \<open>The two assertions that the entries found through one map are those of the other, here and in
  \<^verbatim>\<open>discardRegistration\<close>, follow from the invariant below and are left out.\<close>

definition RegMgr_mapTopic :: "string \<Rightarrow> reg_mgr \<Rightarrow> reg_fault + topic_info \<times> reg_mgr" where
  "RegMgr_mapTopic topic r =
     (case rm_map r topic of
        Some it \<Rightarrow>
          (case reg_deref r it of
             None \<Rightarrow> Inl DanglingIterator
           | Some info \<Rightarrow>
               Inr (\<lparr>ti_topicId = ri_topicId info, ti_topicIdType = ri_topicIdType info,
                     ti_newInsersion = False\<rparr>, r))
      | None \<Rightarrow>
          (if isShortTopicName topic then
             Inr (\<lparr>ti_topicId = shortTopicNameToId topic, ti_topicIdType = ShortTopicName,
                   ti_newInsersion = False\<rparr>, r)
           else case RegMgr_allocTopicId topic r of
             Inl e \<Rightarrow> Inl e
           | Inr (topicId, r') \<Rightarrow>
               Inr (\<lparr>ti_topicId = topicId, ti_topicIdType = Normal, ti_newInsersion = True\<rparr>,
                    reg_push \<lparr>ri_topic = topic, ri_topicId = topicId,
                              ri_topicIdType = Normal\<rparr> r')))"

definition RegMgr_mapTopicNoInfo :: "string \<Rightarrow> reg_mgr \<Rightarrow> reg_fault + u16 \<times> reg_mgr" where
  "RegMgr_mapTopicNoInfo topic r =
     (case RegMgr_mapTopic topic r of
        Inl e \<Rightarrow> Inl e
      | Inr (info, r') \<Rightarrow> Inr (ti_topicId info, r'))"

definition RegMgr_discardRegistration :: "u16 \<Rightarrow> reg_mgr \<Rightarrow> reg_fault + reg_mgr" where
  "RegMgr_discardRegistration topicId r =
     (case map_of (rm_rev r) topicId of
        None \<Rightarrow> Inr r
      | Some it \<Rightarrow>
          (case reg_deref r it of
             None \<Rightarrow> Inl DanglingIterator
           | Some info \<Rightarrow>
               (case rm_map r (ri_topic info) of
                  None \<Rightarrow> Inl EndIterator
                | Some _ \<Rightarrow>
                    Inr (reg_erase_node it
                      (r\<lparr>rm_map := (rm_map r)(ri_topic info := None),
                         rm_rev := smap_erase topicId (rm_rev r)\<rparr>)))))"

definition RegMgr_mapTopicId :: "u16 \<Rightarrow> reg_mgr \<Rightarrow> reg_fault + string" where
  "RegMgr_mapTopicId topicId r =
     (case map_of (rm_rev r) topicId of
        None \<Rightarrow> Inr ''''
      | Some it \<Rightarrow>
          (case reg_deref r it of
             None \<Rightarrow> Inl DanglingIterator
           | Some info \<Rightarrow> Inr (ri_topic info)))"

definition RegMgr_clearRegistrations :: "reg_mgr \<Rightarrow> reg_mgr" where
  "RegMgr_clearRegistrations r =
     (let kept = filter (\<lambda>(it, info). ri_topicIdType info = PredefinedTopicId) (rm_infos r) in
      if length kept = length (rm_infos r) then r\<lparr>rm_infos := kept\<rparr>
      else r\<lparr>rm_infos := kept,
             rm_map := fold (\<lambda>(it, info). map_insert (ri_topic info) it) kept Map.empty,
             rm_rev := fold (\<lambda>(it, info). smap_insert (ri_topicId info) it) kept []\<rparr>)"

section \<open>Invariant and abstraction\<close>

text \<open>The invariant: the nodes have distinct identities, no registration has the id 0, and both
  maps hold exactly the registrations of the list, each under its own key.\<close>

definition reg_inv :: "reg_mgr \<Rightarrow> bool" where
  "reg_inv r \<longleftrightarrow>
     distinct (map fst (rm_infos r)) \<and>
     (\<forall>it info. (it, info) \<in> set (rm_infos r) \<longrightarrow> it < rm_nextNode r \<and> ri_topicId info \<noteq> 0) \<and>
     (\<forall>t it. rm_map r t = Some it \<longleftrightarrow>
        (\<exists>info. (it, info) \<in> set (rm_infos r) \<and> ri_topic info = t)) \<and>
     sorted_keys (rm_rev r) \<and>
     (\<forall>k it. (k, it) \<in> set (rm_rev r) \<longleftrightarrow>
        (\<exists>info. (it, info) \<in> set (rm_infos r) \<and> ri_topicId info = k))"

definition reg_range :: "reg_mgr \<Rightarrow> bool" where
  "reg_range r \<longleftrightarrow> 1 \<le> rm_minTopicId r \<and> rm_minTopicId r \<le> rm_maxTopicId r \<and>
     rm_maxTopicId r \<le> DefaultMaxTopicId"

text \<open>The abstract registry: which topic has which id.\<close>

definition reg_abs :: "reg_mgr \<Rightarrow> string \<rightharpoonup> u16" where
  "reg_abs r t =
     (case rm_map r t of
        None \<Rightarrow> None
      | Some it \<Rightarrow> (case reg_deref r it of None \<Rightarrow> None | Some info \<Rightarrow> Some (ri_topicId info)))"

definition reg_keys :: "reg_mgr \<Rightarrow> u16 set" where
  "reg_keys r = fst ` set (rm_rev r)"

text \<open>When an id can be handed out with no eviction: at either edge of the used ids, or, when the
  range starts at 1, whenever some id of the range is not in use.\<close>

definition reg_can_alloc :: "reg_mgr \<Rightarrow> bool" where
  "reg_can_alloc r \<longleftrightarrow>
     rm_rev r = [] \<or> fst (last (rm_rev r)) < rm_maxTopicId r \<or>
     rm_minTopicId r < fst (hd (rm_rev r)) \<or>
     (rm_minTopicId r = 1 \<and> (\<exists>i. 1 \<le> i \<and> i \<le> rm_maxTopicId r \<and> i \<notin> reg_keys r))"

lemma reg_inv_deref:
  "reg_inv r \<Longrightarrow> reg_deref r it = Some info \<longleftrightarrow> (it, info) \<in> set (rm_infos r)"
  by (simp add: reg_inv_def reg_deref_def map_of_eq_Some_iff)

lemma reg_inv_map:
  "reg_inv r \<Longrightarrow> rm_map r t = Some it \<longleftrightarrow> (\<exists>info. (it, info) \<in> set (rm_infos r) \<and> ri_topic info = t)"
  by (simp add: reg_inv_def)

lemma reg_inv_rev:
  "reg_inv r \<Longrightarrow> map_of (rm_rev r) k = Some it \<longleftrightarrow>
     (\<exists>info. (it, info) \<in> set (rm_infos r) \<and> ri_topicId info = k)"
  by (simp add: reg_inv_def map_of_sorted_keys_iff)

lemma reg_inv_map_deref:
  assumes "reg_inv r" "rm_map r t = Some it"
  obtains info where "reg_deref r it = Some info" "(it, info) \<in> set (rm_infos r)" "ri_topic info = t"
  using assms by (auto simp: reg_inv_map reg_inv_deref)

lemma reg_inv_rev_deref:
  assumes "reg_inv r" "map_of (rm_rev r) k = Some it"
  obtains info where "reg_deref r it = Some info" "(it, info) \<in> set (rm_infos r)"
    "ri_topicId info = k" "rm_map r (ri_topic info) = Some it"
proof -
  from assms obtain info where n: "(it, info) \<in> set (rm_infos r)" "ri_topicId info = k"
    by (auto simp: reg_inv_rev)
  moreover from n assms(1) have "reg_deref r it = Some info" "rm_map r (ri_topic info) = Some it"
    by (auto simp: reg_inv_map reg_inv_deref)
  ultimately show thesis using that by blast
qed

lemma reg_inv_same_node:
  "reg_inv r \<Longrightarrow> (it, i) \<in> set (rm_infos r) \<Longrightarrow> (it, j) \<in> set (rm_infos r) \<Longrightarrow> i = j"
  by (metis option.inject reg_inv_deref)

lemma reg_inv_rev_empty: "reg_inv r \<Longrightarrow> rm_rev r = [] \<longleftrightarrow> rm_infos r = []"
proof -
  assume inv: "reg_inv r"
  have "rm_rev r \<noteq> [] \<Longrightarrow> rm_infos r \<noteq> []"
    using inv by (cases "rm_rev r") (force simp: reg_inv_def)+
  moreover have "rm_infos r \<noteq> [] \<Longrightarrow> rm_rev r \<noteq> []"
    using inv by (cases "rm_infos r") (force simp: reg_inv_def)+
  ultimately show ?thesis by blast
qed

lemma reg_abs_Some:
  assumes "reg_inv r"
  shows "reg_abs r t = Some k \<longleftrightarrow>
     (\<exists>it info. (it, info) \<in> set (rm_infos r) \<and> ri_topic info = t \<and> ri_topicId info = k)"
proof
  assume "reg_abs r t = Some k"
  then show "\<exists>it info. (it, info) \<in> set (rm_infos r) \<and> ri_topic info = t \<and> ri_topicId info = k"
    using assms by (fastforce simp: reg_abs_def split: option.splits elim: reg_inv_map_deref)
next
  assume "\<exists>it info. (it, info) \<in> set (rm_infos r) \<and> ri_topic info = t \<and> ri_topicId info = k"
  then obtain it info where n: "(it, info) \<in> set (rm_infos r)" "ri_topic info = t"
    "ri_topicId info = k" by blast
  with assms have "rm_map r t = Some it" "reg_deref r it = Some info"
    by (auto simp: reg_inv_map reg_inv_deref)
  with n show "reg_abs r t = Some k" by (simp add: reg_abs_def)
qed

lemma reg_keys_iff:
  assumes "reg_inv r"
  shows "k \<in> reg_keys r \<longleftrightarrow> k \<in> ran (reg_abs r)"
proof -
  have "k \<in> reg_keys r \<longleftrightarrow> (\<exists>it info. (it, info) \<in> set (rm_infos r) \<and> ri_topicId info = k)"
    unfolding reg_keys_def image_iff Bex_def using assms by (auto simp: reg_inv_def)
  also have "\<dots> \<longleftrightarrow> k \<in> ran (reg_abs r)"
    by (auto simp: ran_def reg_abs_Some [OF assms])
  finally show ?thesis .
qed

lemma reg_abs_inj:
  assumes "reg_inv r" "reg_abs r t = Some k" "reg_abs r t' = Some k"
  shows "t = t'"
proof -
  from assms obtain it info it' info' where
    n: "(it, info) \<in> set (rm_infos r)" "ri_topic info = t" "ri_topicId info = k"
       "(it', info') \<in> set (rm_infos r)" "ri_topic info' = t'" "ri_topicId info' = k"
    by (auto simp: reg_abs_Some)
  then have "map_of (rm_rev r) k = Some it" "map_of (rm_rev r) k = Some it'"
    using assms(1) by (auto simp: reg_inv_rev)
  then have "it = it'" by simp
  with n assms(1) show ?thesis using reg_inv_same_node by metis
qed

lemma reg_mapTopicId_abs:
  assumes "reg_inv r" "reg_abs r t = Some k"
  shows "RegMgr_mapTopicId k r = Inr t"
proof -
  from assms obtain it info where
    n: "(it, info) \<in> set (rm_infos r)" "ri_topic info = t" "ri_topicId info = k"
    by (auto simp: reg_abs_Some)
  then have "map_of (rm_rev r) k = Some it" "reg_deref r it = Some info"
    using assms(1) by (auto simp: reg_inv_rev reg_inv_deref)
  with n show ?thesis by (simp add: RegMgr_mapTopicId_def)
qed

lemma reg_mapTopicId_no_abs:
  assumes "reg_inv r" "k \<notin> ran (reg_abs r)"
  shows "RegMgr_mapTopicId k r = Inr ''''"
proof -
  have "k \<notin> fst ` set (rm_rev r)" using assms by (simp add: reg_keys_iff flip: reg_keys_def)
  then have "map_of (rm_rev r) k = None" by (simp add: map_of_eq_None_iff)
  then show ?thesis by (simp add: RegMgr_mapTopicId_def)
qed

section \<open>Keeping the invariant\<close>

lemma reg_inv_init [reg_inv_rules, simp]: "reg_inv RegMgr_init"
  by (simp add: reg_inv_def RegMgr_init_def)

lemma reg_range_init [simp]: "reg_range RegMgr_init"
  by (simp add: reg_range_def RegMgr_init_def DefaultMinTopicId_def DefaultMaxTopicId_def)

lemma reg_abs_init [simp]: "reg_abs RegMgr_init = Map.empty"
  by (simp add: fun_eq_iff reg_abs_def RegMgr_init_def)

lemma set_infos_push:
  "set (rm_infos (reg_push info r)) = insert (rm_nextNode r, info) (set (rm_infos r))"
  by (simp add: reg_push_def)

lemma reg_inv_push [reg_inv_rules]:
  assumes inv: "reg_inv r" and t: "rm_map r (ri_topic info) = None"
    and k: "ri_topicId info \<notin> reg_keys r" "ri_topicId info \<noteq> 0"
  shows "reg_inv (reg_push info r)"
proof -
  have fresh: "rm_nextNode r \<notin> fst ` set (rm_infos r)"
    using inv by (force simp: reg_inv_def)
  have rev: "set (smap_insert (ri_topicId info) (rm_nextNode r) (rm_rev r)) =
      insert (ri_topicId info, rm_nextNode r) (set (rm_rev r))"
    using k(1) by (simp add: set_smap_insert_fresh reg_keys_def)
  have no_t: "\<forall>it i. (it, i) \<in> set (rm_infos r) \<longrightarrow> ri_topic i \<noteq> ri_topic info"
    using inv t by (metis option.distinct(1) reg_inv_map)
  show ?thesis
    using inv fresh rev no_t k(2) t
    by (auto simp: reg_inv_def reg_push_def map_insert_fresh sorted_keys_smap_insert less_SucI)
qed

lemma reg_abs_push:
  assumes inv: "reg_inv r" and t: "rm_map r (ri_topic info) = None"
    and k: "ri_topicId info \<notin> reg_keys r" "ri_topicId info \<noteq> 0"
  shows "reg_abs (reg_push info r) = (reg_abs r)(ri_topic info \<mapsto> ri_topicId info)"
proof (rule map_eqI)
  fix t' k'
  have inv': "reg_inv (reg_push info r)" using assms by (rule reg_inv_push)
  have no_t: "\<forall>it i. (it, i) \<in> set (rm_infos r) \<longrightarrow> ri_topic i \<noteq> ri_topic info"
    using inv t by (metis option.distinct(1) reg_inv_map)
  show "reg_abs (reg_push info r) t' = Some k' \<longleftrightarrow>
      ((reg_abs r)(ri_topic info \<mapsto> ri_topicId info)) t' = Some k'"
    unfolding reg_abs_Some [OF inv'] set_infos_push fun_upd_apply using no_t
    by (auto simp: reg_abs_Some [OF inv])
qed

section \<open>Choosing an id\<close>

lemma u16_less_succ: "(p :: u16) < k \<Longrightarrow> p < p + 1 \<and> p + 1 \<le> k"
proof -
  assume "p < k"
  have "unat k < 2 ^ LENGTH(16)" by (rule unsigned_less)
  with \<open>p < k\<close> have "unat (p + 1) = unat p + 1"
    by (intro u16_succ_unat) (simp add: word_less_nat_alt)
  with \<open>p < k\<close> show ?thesis by (simp add: word_less_nat_alt word_le_nat_alt)
qed

lemma u16_less_pred: "(m :: u16) < k \<Longrightarrow> k - 1 < k \<and> m \<le> k - 1"
proof -
  assume "m < k"
  then have "0 < k" by (metis word_gt_0 word_not_simps(1))
  then have "unat (k - 1) = unat k - 1" "0 < unat k"
    by (auto simp: u16_pred_unat unat_gt_0 word_gt_0)
  with \<open>m < k\<close> show ?thesis by (auto simp: word_less_nat_alt word_le_nat_alt)
qed

lemma u16_one_le: "(1 :: u16) \<le> k \<longleftrightarrow> k \<noteq> 0"
  by (metis linorder_not_less word_less_1)

lemma find_gap_fresh:
  assumes "sorted_wrt (<) ks" "\<forall>k \<in> set ks. prev < k" "find_gap 1 maxId prev ks \<noteq> 0"
  shows "find_gap 1 maxId prev ks \<notin> set ks \<and> prev < find_gap 1 maxId prev ks \<and>
     find_gap 1 maxId prev ks \<le> maxId"
  using assms
proof (induction ks arbitrary: prev)
  case (Cons k ks)
  have step: "prev < prev + 1" "prev + 1 \<le> k" using Cons.prems(2) u16_less_succ by auto
  then have one: "1 \<le> prev + 1" by (auto simp: u16_one_le)
  show ?case
  proof (cases "k \<noteq> prev + 1 \<and> prev + 1 \<le> maxId")
    case True
    with step one Cons.prems(1) show ?thesis by (auto simp: Let_def)
  next
    case False
    let ?g = "find_gap 1 maxId (prev + 1) ks"
    have above: "\<forall>x \<in> set ks. prev + 1 < x" using step(2) Cons.prems(1) by auto
    have eq: "find_gap 1 maxId prev (k # ks) = ?g" using False by (auto simp: Let_def)
    have g: "?g \<notin> set ks" "prev + 1 < ?g" "?g \<le> maxId"
      using Cons.IH [OF _ above] Cons.prems(1,3) eq by auto
    have "?g \<noteq> k" using False g step(2) by auto
    with g step eq show ?thesis by auto
  qed
qed simp

lemma find_gap_complete:
  assumes "sorted_wrt (<) ks" "\<forall>k \<in> set ks. prev < k"
    and "prev < i" "i \<le> maxId" "i \<notin> set ks" "\<exists>k \<in> set ks. i < k"
  shows "find_gap 1 maxId prev ks \<noteq> 0"
  using assms
proof (induction ks arbitrary: prev)
  case (Cons k ks)
  have step: "prev < prev + 1" "prev + 1 \<le> k" "prev + 1 \<le> i"
    using Cons.prems u16_less_succ by auto
  have pos: "prev + 1 \<noteq> 0" using step(1) by auto
  show ?case
  proof (cases "k = prev + 1")
    case True
    have "\<forall>x \<in> set ks. prev + 1 < x" "prev + 1 < i" "\<exists>k \<in> set ks. i < k"
      using True Cons.prems step by auto
    with Cons True show ?thesis by (simp add: Let_def)
  next
    case False
    have "prev + 1 \<le> maxId" using step(3) Cons.prems(4) by simp
    moreover have "1 \<le> prev + 1" using pos by (simp add: u16_one_le)
    ultimately show ?thesis using False pos by (simp add: Let_def)
  qed
qed simp

lemma reg_rev_keys_pos: "reg_inv r \<Longrightarrow> \<forall>k \<in> set (map fst (rm_rev r)). 0 < k"
  by (fastforce simp: reg_inv_def word_gt_0)

text \<open>The id chosen for a new topic is not in use, lies in the configured range, and no
  registration is evicted for it.\<close>

lemma reg_alloc_fresh:
  assumes inv: "reg_inv r" and range: "reg_range r" and can: "reg_can_alloc r"
  shows "\<exists>i. RegMgr_allocTopicId t r = Inr (i, r) \<and> i \<notin> reg_keys r \<and> i \<noteq> 0 \<and>
     rm_minTopicId r \<le> i \<and> i \<le> rm_maxTopicId r"
proof -
  let ?mn = "rm_minTopicId r" and ?mx = "rm_maxTopicId r"
  let ?first = "fst (hd (rm_rev r))" and ?last = "fst (last (rm_rev r))"
  have mn: "1 \<le> ?mn" "?mn \<le> ?mx" using range by (auto simp: reg_range_def)
  have srt: "sorted_keys (rm_rev r)" using inv by (simp add: reg_inv_def)
  have nz: "i \<noteq> 0" if "?mn \<le> i" for i using mn(1) that by (metis order_trans u16_one_le)
  have upper: "k \<le> ?last" and lower: "?first \<le> k" if "k \<in> reg_keys r" for k
    using that sorted_keys_last_max [OF srt] sorted_keys_hd_min [OF srt]
    by (auto simp: reg_keys_def)
  consider (empty) "rm_rev r = []" | (high) "rm_rev r \<noteq> []" "?last < ?mx"
    | (low) "rm_rev r \<noteq> []" "\<not> ?last < ?mx" "?mn < ?first"
    | (gap) i where "rm_rev r \<noteq> []" "\<not> ?last < ?mx" "\<not> ?mn < ?first" "?mn = 1" "1 \<le> i" "i \<le> ?mx"
        "i \<notin> reg_keys r"
    using can unfolding reg_can_alloc_def by metis
  then show ?thesis
  proof cases
    case empty
    then have "rm_infos r = []" using inv by (simp add: reg_inv_rev_empty)
    with empty mn nz show ?thesis
      by (auto simp: RegMgr_allocTopicId_def reg_keys_def)
  next
    case high
    then have s: "?last < ?last + 1" "?last + 1 \<le> ?mx" using u16_less_succ by auto
    have "max (?last + 1) ?mn \<notin> reg_keys r"
      using upper s(1) by (meson max.cobounded1 leD order_le_less_trans order_trans)
    with high s mn nz inv show ?thesis
      by (simp add: RegMgr_allocTopicId_def Let_def reg_inv_rev_empty)
  next
    case low
    then have p: "?first - 1 < ?first" "?mn \<le> ?first - 1"
      using u16_less_pred [of ?mn ?first] by auto
    have "min (?first - 1) ?mx \<notin> reg_keys r"
      using lower p(1) by (meson min.cobounded1 leD order_le_less_trans)
    with low p mn nz inv show ?thesis
      by (simp add: RegMgr_allocTopicId_def Let_def reg_inv_rev_empty)
  next
    case gap
    let ?ks = "map fst (rm_rev r)" and ?g = "find_gap 1 ?mx 0 (map fst (rm_rev r))"
    have pos: "\<forall>k \<in> set ?ks. 0 < k" using inv by (rule reg_rev_keys_pos)
    have "?last \<in> set ?ks" using gap(1) by simp
    moreover from this have "i \<noteq> ?last" using gap(7) by (auto simp: reg_keys_def)
    then have "i < ?last" using gap(2,6) by simp
    ultimately have "\<exists>k \<in> set ?ks. i < k" by blast
    moreover have "0 < i" using gap(5) by (simp add: u16_one_le word_gt_0)
    ultimately have "?g \<noteq> 0"
      using find_gap_complete [OF srt pos, of i ?mx] gap(6,7) by (simp add: reg_keys_def)
    with find_gap_fresh [OF srt pos] gap inv show ?thesis
      by (simp add: RegMgr_allocTopicId_def Let_def reg_inv_rev_empty reg_keys_def u16_one_le)
  qed
qed

section \<open>The operations against the abstract registry\<close>

lemma reg_mapTopic_new:
  assumes inv: "reg_inv r" and range: "reg_range r" and can: "reg_can_alloc r"
    and t: "reg_abs r t = None" "\<not> isShortTopicName t"
  shows "\<exists>i r'. RegMgr_mapTopic t r =
       Inr (\<lparr>ti_topicId = i, ti_topicIdType = Normal, ti_newInsersion = True\<rparr>, r') \<and>
     reg_inv r' \<and> reg_abs r' = (reg_abs r)(t \<mapsto> i) \<and> i \<notin> ran (reg_abs r) \<and>
     rm_minTopicId r \<le> i \<and> i \<le> rm_maxTopicId r"
proof -
  have m: "rm_map r t = None"
    using t(1) inv by (cases "rm_map r t") (auto simp: reg_abs_def elim!: reg_inv_map_deref)
  obtain i where a: "RegMgr_allocTopicId t r = Inr (i, r)" and i: "i \<notin> reg_keys r" "i \<noteq> 0"
    "rm_minTopicId r \<le> i" "i \<le> rm_maxTopicId r"
    using reg_alloc_fresh [OF inv range can] by blast
  let ?info = "\<lparr>ri_topic = t, ri_topicId = i, ri_topicIdType = Normal\<rparr>"
  have p: "reg_inv (reg_push ?info r)" "reg_abs (reg_push ?info r) = (reg_abs r)(t \<mapsto> i)"
    using reg_inv_push [OF inv, of ?info] reg_abs_push [OF inv, of ?info] m i by auto
  have "RegMgr_mapTopic t r =
      Inr (\<lparr>ti_topicId = i, ti_topicIdType = Normal, ti_newInsersion = True\<rparr>, reg_push ?info r)"
    using m t(2) a by (simp add: RegMgr_mapTopic_def)
  with p i show ?thesis by (auto simp: reg_keys_iff [OF inv])
qed

lemma reg_mapTopic_known:
  assumes inv: "reg_inv r" and t: "reg_abs r t = Some i"
  shows "\<exists>ty. RegMgr_mapTopic t r =
     Inr (\<lparr>ti_topicId = i, ti_topicIdType = ty, ti_newInsersion = False\<rparr>, r)"
  using t by (auto simp: reg_abs_def RegMgr_mapTopic_def split: option.splits)

lemma reg_mapTopic_short:
  assumes inv: "reg_inv r" and t: "reg_abs r t = None" "isShortTopicName t"
  shows "RegMgr_mapTopic t r =
     Inr (\<lparr>ti_topicId = shortTopicNameToId t, ti_topicIdType = ShortTopicName,
           ti_newInsersion = False\<rparr>, r)"
proof -
  have "rm_map r t = None"
    using t(1) inv by (cases "rm_map r t") (auto simp: reg_abs_def elim!: reg_inv_map_deref)
  with t(2) show ?thesis by (simp add: RegMgr_mapTopic_def)
qed

lemma reg_range_push [simp]: "reg_range (reg_push info r) = reg_range r"
  by (simp add: reg_range_def reg_push_def)

lemma reg_erase_inv:
  assumes inv: "reg_inv r" and n: "(it, info) \<in> set (rm_infos r)"
  defines "r' \<equiv> reg_erase_node it (r\<lparr>rm_map := (rm_map r)(ri_topic info := None),
      rm_rev := smap_erase (ri_topicId info) (rm_rev r)\<rparr>)"
  shows "reg_inv r' \<and> reg_abs r' = (reg_abs r)(ri_topic info := None)"
proof
  have set': "set (rm_infos r') = {p \<in> set (rm_infos r). fst p \<noteq> it}"
    by (simp add: r'_def reg_erase_node_def)
  have uniq_t: "it' = it" if "(it', i) \<in> set (rm_infos r)" "ri_topic i = ri_topic info" for it' i
    using that n inv by (metis option.inject reg_inv_map)
  have uniq_k: "it' = it" if "(it', i) \<in> set (rm_infos r)" "ri_topicId i = ri_topicId info" for it' i
    using that n inv by (metis option.inject reg_inv_rev)
  have same: "i = info" if "(it, i) \<in> set (rm_infos r)" for i
    using that n inv reg_inv_same_node by blast
  show inv': "reg_inv r'"
    unfolding reg_inv_def
  proof (intro conjI allI)
    show "distinct (map fst (rm_infos r'))"
      using inv by (simp add: reg_inv_def r'_def reg_erase_node_def distinct_map_filter)
    show "(it', i) \<in> set (rm_infos r') \<longrightarrow> it' < rm_nextNode r' \<and> ri_topicId i \<noteq> 0" for it' i
      using inv by (auto simp: set' reg_inv_def) (simp add: r'_def reg_erase_node_def)
    show "rm_map r' t = Some it' \<longleftrightarrow> (\<exists>i. (it', i) \<in> set (rm_infos r') \<and> ri_topic i = t)" for t it'
    proof (cases "t = ri_topic info")
      case True
      then show ?thesis using uniq_t by (auto simp: set' r'_def reg_erase_node_def)
    next
      case False
      then have "rm_map r' t = rm_map r t" by (simp add: r'_def reg_erase_node_def)
      with False same show ?thesis by (auto simp: reg_inv_map [OF inv] set')
    qed
    show "sorted_keys (rm_rev r')"
      using inv by (simp add: reg_inv_def r'_def reg_erase_node_def sorted_keys_smap_erase)
    show "(k, it') \<in> set (rm_rev r') \<longleftrightarrow> (\<exists>i. (it', i) \<in> set (rm_infos r') \<and> ri_topicId i = k)"
      for k it'
    proof -
      have "(k, it') \<in> set (rm_rev r') \<longleftrightarrow> k \<noteq> ri_topicId info \<and> (k, it') \<in> set (rm_rev r)"
        by (auto simp: r'_def reg_erase_node_def set_smap_erase)
      moreover have "(k, it') \<in> set (rm_rev r) \<longleftrightarrow>
          (\<exists>i. (it', i) \<in> set (rm_infos r) \<and> ri_topicId i = k)"
        using inv by (simp add: reg_inv_def)
      moreover have "(\<exists>i. (it', i) \<in> set (rm_infos r') \<and> ri_topicId i = k) \<longleftrightarrow>
          k \<noteq> ri_topicId info \<and> (\<exists>i. (it', i) \<in> set (rm_infos r) \<and> ri_topicId i = k)"
        unfolding set' mem_Collect_eq fst_conv by (metis uniq_k same)
      ultimately show ?thesis by blast
    qed
  qed
  have "reg_abs r' t = Some k \<longleftrightarrow> ((reg_abs r)(ri_topic info := None)) t = Some k" for t k
  proof (cases "t = ri_topic info")
    case True
    then show ?thesis unfolding reg_abs_Some [OF inv'] set' using uniq_t by auto
  next
    case False
    then have "((reg_abs r)(ri_topic info := None)) t = Some k \<longleftrightarrow> reg_abs r t = Some k" by simp
    then show ?thesis
      unfolding reg_abs_Some [OF inv'] reg_abs_Some [OF inv] set' mem_Collect_eq fst_conv
      using False same by metis
  qed
  then show "reg_abs r' = (reg_abs r)(ri_topic info := None)" by (rule map_eqI)
qed

lemma reg_discard:
  assumes inv: "reg_inv r"
  shows "\<exists>r'. RegMgr_discardRegistration i r = Inr r' \<and> reg_inv r' \<and>
     (\<forall>t. reg_abs r' t = (if reg_abs r t = Some i then None else reg_abs r t))"
proof (cases "map_of (rm_rev r) i")
  case None
  then have "i \<notin> ran (reg_abs r)"
    using reg_keys_iff [OF inv, of i] by (simp add: map_of_eq_None_iff reg_keys_def)
  with None inv show ?thesis
    by (auto simp: RegMgr_discardRegistration_def ran_def)
next
  case (Some it)
  with inv obtain info where n: "reg_deref r it = Some info" "(it, info) \<in> set (rm_infos r)"
    "ri_topicId info = i" "rm_map r (ri_topic info) = Some it"
    by (rule reg_inv_rev_deref)
  then have "reg_abs r (ri_topic info) = Some i" by (simp add: reg_abs_def)
  then have "reg_abs r t = Some i \<longleftrightarrow> t = ri_topic info" for t
    using reg_abs_inj [OF inv] by blast
  then show ?thesis
    using Some n reg_erase_inv [OF inv n(2)] by (simp add: RegMgr_discardRegistration_def)
qed

lemma reg_inv_distinct_keys:
  assumes inv: "reg_inv r"
  shows "distinct (map (\<lambda>p. ri_topic (snd p)) (rm_infos r))"
    and "distinct (map (\<lambda>p. ri_topicId (snd p)) (rm_infos r))"
proof -
  have d: "distinct (rm_infos r)" using inv by (simp add: reg_inv_def distinct_map)
  have "p = q" if "p \<in> set (rm_infos r)" "q \<in> set (rm_infos r)"
    "ri_topic (snd p) = ri_topic (snd q)" for p q
    using that inv by (metis option.inject prod.collapse reg_inv_map reg_inv_same_node)
  with d show "distinct (map (\<lambda>p. ri_topic (snd p)) (rm_infos r))"
    by (auto simp: distinct_map inj_on_def)
  have "p = q" if "p \<in> set (rm_infos r)" "q \<in> set (rm_infos r)"
    "ri_topicId (snd p) = ri_topicId (snd q)" for p q
    using that inv by (metis option.inject prod.collapse reg_inv_rev reg_inv_same_node)
  with d show "distinct (map (\<lambda>p. ri_topicId (snd p)) (rm_infos r))"
    by (auto simp: distinct_map inj_on_def)
qed

lemma fold_map_insert:
  assumes "distinct (map (\<lambda>p. ri_topic (snd p)) xs)" "\<forall>p \<in> set xs. m (ri_topic (snd p)) = None"
  shows "fold (\<lambda>(it, info). map_insert (ri_topic info) it) xs m t = Some it' \<longleftrightarrow>
     m t = Some it' \<or> (\<exists>info. (it', info) \<in> set xs \<and> ri_topic info = t)"
  using assms
proof (induction xs arbitrary: m)
  case (Cons p xs)
  obtain a i where p: "p = (a, i)" by fastforce
  have m: "m (ri_topic i) = None" using Cons.prems(2) p by simp
  have new: "ri_topic i \<notin> (\<lambda>p. ri_topic (snd p)) ` set xs" using Cons.prems(1) p by simp
  then have fresh: "\<forall>p \<in> set xs. (m(ri_topic i \<mapsto> a)) (ri_topic (snd p)) = None"
    using Cons.prems(2) by (metis fun_upd_other image_eqI list.set_intros(2))
  have "fold (\<lambda>(it, info). map_insert (ri_topic info) it) xs (m(ri_topic i \<mapsto> a)) t = Some it' \<longleftrightarrow>
      (m(ri_topic i \<mapsto> a)) t = Some it' \<or> (\<exists>info. (it', info) \<in> set xs \<and> ri_topic info = t)"
    using Cons.prems(1) fresh by (intro Cons.IH) simp_all
  then show ?case using m by (simp add: p map_insert_fresh) (metis option.distinct(1))
qed simp

lemma fold_smap_insert:
  assumes "distinct (map (\<lambda>p. ri_topicId (snd p)) xs)"
    "\<forall>p \<in> set xs. ri_topicId (snd p) \<notin> fst ` set m"
  shows "set (fold (\<lambda>(it, info). smap_insert (ri_topicId info) it) xs m) =
     set m \<union> (\<lambda>(it, info). (ri_topicId info, it)) ` set xs"
  using assms
proof (induction xs arbitrary: m)
  case (Cons p xs)
  obtain a i where p: "p = (a, i)" by fastforce
  have "ri_topicId i \<notin> (\<lambda>p. ri_topicId (snd p)) ` set xs" using Cons.prems(1) p by simp
  then have "\<forall>p \<in> set xs. ri_topicId (snd p) \<notin> fst ` set (smap_insert (ri_topicId i) a m)"
    unfolding keys_smap_insert using Cons.prems(2)
    by (metis image_eqI insertE list.set_intros(2))
  with Cons.IH [of "smap_insert (ri_topicId i) a m"] Cons.prems show ?case
    by (simp add: p set_smap_insert_fresh)
qed simp

lemma sorted_fold_smap_insert:
  "sorted_keys m \<Longrightarrow> sorted_keys (fold (\<lambda>(it, info). smap_insert (ri_topicId info) it) xs m)"
  by (induction xs arbitrary: m) (auto simp: sorted_keys_smap_insert)

lemma reg_clear_infos:
  "rm_infos (RegMgr_clearRegistrations r) =
     filter (\<lambda>(it, info). ri_topicIdType info = PredefinedTopicId) (rm_infos r)"
  by (simp add: RegMgr_clearRegistrations_def Let_def)

lemma reg_inv_clear [reg_inv_rules]:
  assumes inv: "reg_inv r"
  shows "reg_inv (RegMgr_clearRegistrations r)"
proof -
  let ?kept = "filter (\<lambda>(it, info). ri_topicIdType info = PredefinedTopicId) (rm_infos r)"
  show ?thesis
  proof (cases "length ?kept = length (rm_infos r)")
    case True
    then have "?kept = rm_infos r" by (metis filter_id_conv length_filter_less less_irrefl)
    with inv True show ?thesis by (simp add: RegMgr_clearRegistrations_def Let_def)
  next
    case False
    have d: "distinct (map (\<lambda>p. ri_topic (snd p)) ?kept)"
      "distinct (map (\<lambda>p. ri_topicId (snd p)) ?kept)"
      using reg_inv_distinct_keys [OF inv] by (simp_all add: distinct_map_filter)
    have m: "rm_map (RegMgr_clearRegistrations r) =
        fold (\<lambda>(it, info). map_insert (ri_topic info) it) ?kept Map.empty"
      and rv: "rm_rev (RegMgr_clearRegistrations r) =
        fold (\<lambda>(it, info). smap_insert (ri_topicId info) it) ?kept []"
      using False by (simp_all add: RegMgr_clearRegistrations_def Let_def)
    have nx: "rm_nextNode (RegMgr_clearRegistrations r) = rm_nextNode r"
      by (simp add: RegMgr_clearRegistrations_def Let_def)
    show ?thesis
      unfolding reg_inv_def m rv reg_clear_infos nx
    proof (intro conjI allI)
      show "distinct (map fst ?kept)" using inv by (simp add: reg_inv_def distinct_map_filter)
      show "sorted_keys (fold (\<lambda>(it, info). smap_insert (ri_topicId info) it) ?kept [])"
        by (simp add: sorted_fold_smap_insert)
      show "fold (\<lambda>(it, info). map_insert (ri_topic info) it) ?kept Map.empty t = Some it \<longleftrightarrow>
          (\<exists>info. (it, info) \<in> set ?kept \<and> ri_topic info = t)" for t it
        using fold_map_insert [OF d(1), of Map.empty] by simp
      show "(k, it) \<in> set (fold (\<lambda>(it, info). smap_insert (ri_topicId info) it) ?kept []) \<longleftrightarrow>
          (\<exists>info. (it, info) \<in> set ?kept \<and> ri_topicId info = k)" for k it
        using fold_smap_insert [OF d(2), of "[]"] by (auto simp: image_iff)
      show "(it, info) \<in> set ?kept \<longrightarrow> it < rm_nextNode r \<and> ri_topicId info \<noteq> 0" for it info
        using inv by (auto simp: reg_inv_def)
    qed
  qed
qed

lemma reg_abs_clear:
  assumes inv: "reg_inv r"
  shows "reg_abs (RegMgr_clearRegistrations r) t = Some k \<longleftrightarrow>
     (\<exists>it info. (it, info) \<in> set (rm_infos r) \<and> ri_topic info = t \<and> ri_topicId info = k \<and>
        ri_topicIdType info = PredefinedTopicId)"
  unfolding reg_abs_Some [OF reg_inv_clear [OF inv]] reg_clear_infos by auto

lemma reg_clear_le:
  assumes inv: "reg_inv r"
  shows "reg_abs (RegMgr_clearRegistrations r) \<subseteq>\<^sub>m reg_abs r"
proof -
  have "reg_abs r t = Some k" if "reg_abs (RegMgr_clearRegistrations r) t = Some k" for t k
    using that unfolding reg_abs_clear [OF inv] reg_abs_Some [OF inv] by blast
  then show ?thesis by (fastforce simp: map_le_def dom_def)
qed

lemma reg_range_clear [simp]: "reg_range (RegMgr_clearRegistrations r) = reg_range r"
  by (simp add: reg_range_def RegMgr_clearRegistrations_def Let_def)

lemma rm_map_None_iff:
  assumes "reg_inv r"
  shows "rm_map r t = None \<longleftrightarrow> reg_abs r t = None"
proof (cases "rm_map r t")
  case (Some it)
  with assms obtain info where "reg_deref r it = Some info" by (rule reg_inv_map_deref)
  with Some show ?thesis by (simp add: reg_abs_def)
qed (simp add: reg_abs_def)

lemma rm_rev_None_iff:
  assumes "reg_inv r"
  shows "map_of (rm_rev r) k = None \<longleftrightarrow> k \<notin> ran (reg_abs r)"
  using reg_keys_iff [OF assms, of k] by (simp add: map_of_eq_None_iff reg_keys_def)

lemma reg_predefined_new:
  assumes inv: "reg_inv r" and k: "k \<noteq> 0" "k \<notin> ran (reg_abs r)" and t: "reg_abs r t = None"
  shows "\<exists>r'. RegMgr_regPredefined t k r = Inr (True, r') \<and> reg_inv r' \<and>
     reg_abs r' = (reg_abs r)(t \<mapsto> k)"
proof -
  let ?info = "\<lparr>ri_topic = t, ri_topicId = k, ri_topicIdType = PredefinedTopicId\<rparr>"
  have "rm_map r t = None" "k \<notin> reg_keys r" "map_of (rm_rev r) k = None"
    using inv t k by (simp_all add: rm_map_None_iff rm_rev_None_iff reg_keys_iff)
  then show ?thesis
    using reg_inv_push [OF inv, of ?info] reg_abs_push [OF inv, of ?info] k
    by (simp add: RegMgr_regPredefined_def)
qed

lemma reg_predefined_again:
  assumes inv: "reg_inv r" and k: "k \<noteq> 0" and t: "reg_abs r t = Some k"
  shows "\<exists>r'. RegMgr_regPredefined t k r = Inr (True, r') \<and> reg_inv r' \<and> reg_abs r' = reg_abs r"
proof -
  obtain it info where n: "(it, info) \<in> set (rm_infos r)" "ri_topic info = t" "ri_topicId info = k"
    using t inv by (auto simp: reg_abs_Some)
  let ?f = "\<lambda>(a, i). (a, if a = it then i\<lparr>ri_topicIdType := PredefinedTopicId\<rparr> else i)"
  let ?r = "r\<lparr>rm_infos := map ?f (rm_infos r)\<rparr>"
  have m: "rm_map r t = Some it" "map_of (rm_rev r) k = Some it" "reg_deref r it = Some info"
    using inv n by (auto simp: reg_inv_map reg_inv_rev reg_inv_deref)
  then have res: "RegMgr_regPredefined t k r = Inr (True, ?r)"
    using k n by (simp add: RegMgr_regPredefined_def)
  have fsts: "map (fst \<circ> ?f) (rm_infos r) = map fst (rm_infos r)" by auto
  have nodes: "(\<exists>i. (a, i) \<in> set (map ?f (rm_infos r)) \<and> P (ri_topic i) (ri_topicId i)) \<longleftrightarrow>
      (\<exists>i. (a, i) \<in> set (rm_infos r) \<and> P (ri_topic i) (ri_topicId i))" for a P
    by (auto split: if_splits)
  have inv': "reg_inv ?r"
    unfolding reg_inv_def using inv
    by (simp add: fsts nodes [of _ "\<lambda>x y. x = _"] nodes [of _ "\<lambda>x y. y = _"] reg_inv_def)
       (auto split: if_splits)
  have "reg_abs ?r t' = Some j \<longleftrightarrow> reg_abs r t' = Some j" for t' j
    unfolding reg_abs_Some [OF inv] reg_abs_Some [OF inv']
    using nodes [of _ "\<lambda>x y. x = t' \<and> y = j"] by simp
  then have "reg_abs ?r = reg_abs r" by (rule map_eqI)
  with res inv' show ?thesis by blast
qed

lemma find_evictable_hit:
  assumes inv: "reg_inv r" and sub: "set xs \<subseteq> set (rm_rev r)"
    and ex: "\<exists>k it info. (k, it) \<in> set xs \<and> reg_deref r it = Some info \<and>
       ri_topicIdType info \<noteq> PredefinedTopicId \<and> rm_minTopicId r \<le> ri_topicId info \<and>
       ri_topicId info \<le> rm_maxTopicId r"
  shows "\<exists>k it info. find_evictable r xs = Inr (k, it) \<and> (k, it) \<in> set (rm_rev r) \<and>
     reg_deref r it = Some info \<and> ri_topicIdType info \<noteq> PredefinedTopicId"
  using sub ex
proof (induction xs)
  case (Cons p xs)
  obtain k it where p: "p = (k, it)" by fastforce
  then have "map_of (rm_rev r) k = Some it"
    using Cons.prems(1) inv by (simp add: reg_inv_def map_of_sorted_keys_iff)
  with inv obtain info where d: "reg_deref r it = Some info" by (rule reg_inv_rev_deref)
  show ?case
  proof (cases "ri_topicIdType info \<noteq> PredefinedTopicId \<and> rm_minTopicId r \<le> ri_topicId info \<and>
      ri_topicId info \<le> rm_maxTopicId r")
    case True
    with p d Cons.prems(1) show ?thesis by auto
  next
    case False
    with p d Cons show ?thesis by auto
  qed
qed simp

lemma find_evictable_reg:
  assumes inv: "reg_inv r" and mn: "rm_minTopicId r = 1"
    and n: "(it, info) \<in> set (rm_infos r)" "ri_topicIdType info \<noteq> PredefinedTopicId"
      "ri_topicId info \<le> rm_maxTopicId r"
  shows "\<exists>k it. find_evictable r (rm_rev r) = Inr (k, it)"
proof -
  have "(ri_topicId info, it) \<in> set (rm_rev r)" "ri_topicId info \<noteq> 0"
    using inv n(1) by (auto simp: reg_inv_def)
  moreover have "reg_deref r it = Some info" using inv n(1) by (simp add: reg_inv_deref)
  ultimately show ?thesis
    using find_evictable_hit [OF inv subset_refl] n mn by (metis u16_one_le)
qed

lemma find_evictable_mem: "find_evictable r xs = Inr (k, it) \<Longrightarrow> (k, it) \<in> set xs"
proof (induction xs)
  case (Cons p xs)
  then show ?case by (cases p) (auto split: option.splits if_splits)
qed simp

lemma reg_alloc_full:
  assumes inv: "reg_inv r" and mn: "rm_minTopicId r = 1" "1 \<le> rm_maxTopicId r"
    and full: "\<forall>i. 1 \<le> i \<longrightarrow> i \<le> rm_maxTopicId r \<longrightarrow> i \<in> reg_keys r"
    and evict: "find_evictable r (rm_rev r) = Inr (k, it)" and t: "rm_map r t = None"
  shows "RegMgr_allocTopicId t r =
     Inr (k, reg_erase_node it (r\<lparr>rm_rev := smap_erase k (rm_rev r)\<rparr>))"
proof -
  have srt: "sorted_keys (rm_rev r)" using inv by (simp add: reg_inv_def)
  have "rm_maxTopicId r \<in> reg_keys r" "1 \<in> reg_keys r" using full mn by auto
  then have "rm_rev r \<noteq> []" "rm_maxTopicId r \<le> fst (last (rm_rev r))" "fst (hd (rm_rev r)) \<le> 1"
    using sorted_keys_last_max [OF srt] sorted_keys_hd_min [OF srt]
    by (force simp: reg_keys_def)+
  moreover have "find_gap 1 (rm_maxTopicId r) 0 (map fst (rm_rev r)) = 0"
    using find_gap_fresh [OF srt reg_rev_keys_pos [OF inv]] full
    by (force simp: reg_keys_def u16_one_le)
  ultimately show ?thesis
    using evict mn t reg_inv_rev_empty [OF inv]
    by (auto simp: RegMgr_allocTopicId_def RegMgr_removeFromTopicMap_def Let_def)
qed

section \<open>The manager is a topic registry\<close>

definition reg_ok :: "reg_mgr \<Rightarrow> bool" where
  "reg_ok r \<longleftrightarrow> reg_inv r \<and> reg_range r"

lemma reg_ok_init [simp]: "reg_ok RegMgr_init"
  by (simp add: reg_ok_def)

lemma reg_discard_range:
  "RegMgr_discardRegistration k r = Inr r' \<Longrightarrow> reg_range r' = reg_range r"
  by (auto simp: RegMgr_discardRegistration_def reg_range_def reg_erase_node_def
      split: option.splits)

lemma reg_mapTopic_new_ok:
  assumes "reg_ok r" "reg_can_alloc r" "reg_abs r t = None" "\<not> isShortTopicName t"
  shows "\<exists>k r'. RegMgr_mapTopicNoInfo t r = Inr (k, r') \<and> reg_ok r' \<and>
     reg_abs r' = (reg_abs r)(t \<mapsto> k) \<and> k \<notin> ran (reg_abs r)"
proof -
  have inv: "reg_inv r" and range: "reg_range r" using assms(1) by (auto simp: reg_ok_def)
  have m: "rm_map r t = None" using assms(3) inv by (simp add: rm_map_None_iff)
  obtain i where a: "RegMgr_allocTopicId t r = Inr (i, r)"
    using reg_alloc_fresh [OF inv range assms(2)] by blast
  obtain k r' where r': "RegMgr_mapTopic t r = Inr (\<lparr>ti_topicId = k, ti_topicIdType = Normal,
      ti_newInsersion = True\<rparr>, r')" "reg_inv r'" "reg_abs r' = (reg_abs r)(t \<mapsto> k)"
      "k \<notin> ran (reg_abs r)"
    using reg_mapTopic_new [OF inv range assms(2-4)] by blast
  have "reg_range r'"
    using r'(1) m a assms(4) range by (auto simp: RegMgr_mapTopic_def)
  with r' show ?thesis by (auto simp: RegMgr_mapTopicNoInfo_def reg_ok_def)
qed

interpretation reg: topic_registry reg_ok reg_abs reg_can_alloc isShortTopicName
  RegMgr_mapTopicNoInfo RegMgr_mapTopicId RegMgr_discardRegistration RegMgr_clearRegistrations
proof
  show "reg_ok r \<Longrightarrow> reg_abs r t = Some k \<Longrightarrow> reg_abs r t' = Some k \<Longrightarrow> t = t'" for r t k t'
    by (auto simp: reg_ok_def intro: reg_abs_inj)
  show "reg_ok r \<Longrightarrow> reg_abs r t = Some k \<Longrightarrow> RegMgr_mapTopicNoInfo t r = Inr (k, r)" for r t k
    by (auto simp: reg_ok_def RegMgr_mapTopicNoInfo_def dest: reg_mapTopic_known)
  show "reg_ok r \<Longrightarrow> reg_abs r t = Some k \<Longrightarrow> RegMgr_mapTopicId k r = Inr t" for r t k
    by (auto simp: reg_ok_def intro: reg_mapTopicId_abs)
  show "reg_ok r \<Longrightarrow> k \<notin> ran (reg_abs r) \<Longrightarrow> RegMgr_mapTopicId k r = Inr ''''" for r k
    by (auto simp: reg_ok_def intro: reg_mapTopicId_no_abs)
  show "reg_ok r \<Longrightarrow> \<exists>r'. RegMgr_discardRegistration k r = Inr r' \<and> reg_ok r' \<and>
      (\<forall>t. reg_abs r' t = (if reg_abs r t = Some k then None else reg_abs r t))" for r k
    using reg_discard [of r k] by (auto simp: reg_ok_def reg_discard_range)
  show "reg_ok r \<Longrightarrow> reg_ok (RegMgr_clearRegistrations r)" for r
    by (simp add: reg_ok_def reg_inv_clear)
  show "reg_ok r \<Longrightarrow> reg_abs (RegMgr_clearRegistrations r) \<subseteq>\<^sub>m reg_abs r" for r
    unfolding reg_ok_def by (auto intro: reg_clear_le)
qed (rule reg_mapTopic_new_ok)

section \<open>Properties\<close>

text \<open>C31. registering a topic string that has no id yet succeeds whenever an id can be handed out:
  the manager answers with an id of the configured range that no other topic has, marks it as a
  new insertion, keeps its invariant, changes the registry at that topic only, and a lookup of
  the id returns the topic.\<close>

theorem mapTopic_registers:
  assumes "reg_ok r" "reg_can_alloc r" "reg_abs r t = None" "\<not> isShortTopicName t"
  shows "\<exists>k r'. RegMgr_mapTopic t r =
       Inr (\<lparr>ti_topicId = k, ti_topicIdType = Normal, ti_newInsersion = True\<rparr>, r') \<and>
     reg_ok r' \<and> reg_abs r' = (reg_abs r)(t \<mapsto> k) \<and> k \<notin> ran (reg_abs r) \<and>
     rm_minTopicId r \<le> k \<and> k \<le> rm_maxTopicId r \<and> RegMgr_mapTopicId k r' = Inr t"
proof -
  have inv: "reg_inv r" "reg_range r" using assms(1) by (auto simp: reg_ok_def)
  obtain k r' where r': "RegMgr_mapTopic t r =
      Inr (\<lparr>ti_topicId = k, ti_topicIdType = Normal, ti_newInsersion = True\<rparr>, r')"
    "reg_inv r'" "reg_abs r' = (reg_abs r)(t \<mapsto> k)" "k \<notin> ran (reg_abs r)"
    "rm_minTopicId r \<le> k" "k \<le> rm_maxTopicId r"
    using reg_mapTopic_new [OF inv assms(2-4)] by blast
  have "reg_ok r'"
    using reg_mapTopic_new_ok [OF assms] r'(1) by (auto simp: RegMgr_mapTopicNoInfo_def)
  moreover have "RegMgr_mapTopicId k r' = Inr t"
    using r'(2,3) by (intro reg_mapTopicId_abs) auto
  ultimately show ?thesis using r' by blast
qed

lemma reg_can_alloc_init [simp]: "reg_can_alloc RegMgr_init"
  by (simp add: reg_can_alloc_def RegMgr_init_def)

theorem mapTopic_registers_witness:
  "\<exists>k r'. RegMgr_mapTopic ''a/b'' RegMgr_init =
     Inr (\<lparr>ti_topicId = k, ti_topicIdType = Normal, ti_newInsersion = True\<rparr>, r') \<and>
   RegMgr_mapTopicId k r' = Inr ''a/b''"
  using mapTopic_registers [of RegMgr_init "''a/b''"]
  by (auto simp: isShortTopicName_def)

text \<open>two different topics mapped one after the other never get the same id, as long as each
  is either known already or an id can be handed out for it.\<close>

theorem mapTopic_distinct_ids:
  assumes "reg_ok r" "reg_can_alloc r \<or> reg_abs r t \<noteq> None" "\<not> isShortTopicName t"
    and "RegMgr_mapTopicNoInfo t r = Inr (k, r')"
    and "reg_can_alloc r' \<or> reg_abs r' t' \<noteq> None" "\<not> isShortTopicName t'"
    and "RegMgr_mapTopicNoInfo t' r' = Inr (k', r'')" "t \<noteq> t'"
  shows "k \<noteq> k' \<and> RegMgr_mapTopicId k r'' = Inr t \<and> RegMgr_mapTopicId k' r'' = Inr t'"
proof -
  have "k \<noteq> k'" using assms by (rule reg.map_distinct)
  have r': "reg_ok r'" "reg_abs r' t = Some k"
    using reg.map_lookup [OF assms(1-3)] assms(4) by auto
  have r'': "reg_ok r''" "reg_abs r'' = (reg_abs r')(t' \<mapsto> k')"
    using reg.map_lookup [OF r'(1) assms(5,6)] assms(7) by auto
  then have "RegMgr_mapTopicId k r'' = Inr t" "RegMgr_mapTopicId k' r'' = Inr t'"
    using r'(2) assms(8) by (auto intro: reg.lookup_known)
  with \<open>k \<noteq> k'\<close> show ?thesis by blast
qed

lemma mapTopicNoInfo_first:
  "RegMgr_mapTopicNoInfo ''abc'' RegMgr_init =
     Inr (1, reg_push \<lparr>ri_topic = ''abc'', ri_topicId = 1, ri_topicIdType = Normal\<rparr> RegMgr_init)"
  by (simp add: RegMgr_mapTopicNoInfo_def RegMgr_mapTopic_def RegMgr_allocTopicId_def
      RegMgr_init_def isShortTopicName_def DefaultMinTopicId_def)

lemma reg_can_alloc_first:
  "reg_can_alloc
     (reg_push \<lparr>ri_topic = ''abc'', ri_topicId = 1, ri_topicIdType = Normal\<rparr> RegMgr_init)"
  by (simp add: reg_can_alloc_def reg_push_def RegMgr_init_def DefaultMaxTopicId_def)

theorem mapTopic_distinct_ids_witness:
  "\<exists>k' r''. RegMgr_mapTopicNoInfo ''xyz''
      (reg_push \<lparr>ri_topic = ''abc'', ri_topicId = 1, ri_topicIdType = Normal\<rparr> RegMgr_init) =
        Inr (k', r'') \<and> 1 \<noteq> k' \<and> RegMgr_mapTopicId 1 r'' = Inr ''abc''"
proof -
  let ?r = "reg_push \<lparr>ri_topic = ''abc'', ri_topicId = 1, ri_topicIdType = Normal\<rparr> RegMgr_init"
  have ok: "reg_ok ?r" and sh: "\<not> isShortTopicName ''abc''" "\<not> isShortTopicName ''xyz''"
    using reg.map_lookup [of RegMgr_init "''abc''"] mapTopicNoInfo_first
    by (auto simp: isShortTopicName_def)
  obtain k' r'' where m: "RegMgr_mapTopicNoInfo ''xyz'' ?r = Inr (k', r'')"
    using reg.map_lookup [OF ok _ sh(2)] reg_can_alloc_first by blast
  show ?thesis
    using mapTopic_distinct_ids [OF reg_ok_init _ sh(1) mapTopicNoInfo_first _ sh(2) m]
      reg_can_alloc_first m by simp
qed

text \<open>discarding the registration of an id (the answer to a PUBACK that calls the id
  invalid) never fails: afterwards the id is unknown, and every topic with another id still has
  it.\<close>

theorem discardRegistration_only_that_id:
  assumes "reg_ok r"
  shows "\<exists>r'. RegMgr_discardRegistration k r = Inr r' \<and> reg_ok r' \<and>
     RegMgr_mapTopicId k r' = Inr '''' \<and>
     (\<forall>t j. reg_abs r t = Some j \<longrightarrow> j \<noteq> k \<longrightarrow> RegMgr_mapTopicId j r' = Inr t)"
  using assms by (rule reg.discard_lookup)

theorem discardRegistration_only_that_id_witness:
  "\<exists>r'. RegMgr_discardRegistration 7 RegMgr_init = Inr r' \<and> RegMgr_mapTopicId 7 r' = Inr ''''"
  using discardRegistration_only_that_id [of RegMgr_init 7] by auto

text \<open>clearing the registrations keeps the invariant and keeps exactly the predefined
  topics, with their ids.\<close>

theorem clearRegistrations_keeps_predefined:
  assumes "reg_ok r"
  shows "reg_ok (RegMgr_clearRegistrations r) \<and>
     (\<forall>t k. reg_abs (RegMgr_clearRegistrations r) t = Some k \<longleftrightarrow>
        reg_abs r t = Some k \<and>
        (\<exists>it info. rm_map r t = Some it \<and> reg_deref r it = Some info \<and>
           ri_topicIdType info = PredefinedTopicId))"
proof -
  have inv: "reg_inv r" using assms by (simp add: reg_ok_def)
  have "reg_abs (RegMgr_clearRegistrations r) t = Some k \<longleftrightarrow> reg_abs r t = Some k \<and>
      (\<exists>it info. rm_map r t = Some it \<and> reg_deref r it = Some info \<and>
         ri_topicIdType info = PredefinedTopicId)" for t k
  proof -
    have "reg_abs r t = Some k \<longleftrightarrow>
        (\<exists>it info. rm_map r t = Some it \<and> reg_deref r it = Some info \<and> ri_topicId info = k)"
      by (auto simp: reg_abs_def split: option.splits)
    moreover have "(it, info) \<in> set (rm_infos r) \<and> ri_topic info = t \<longleftrightarrow>
        rm_map r t = Some it \<and> reg_deref r it = Some info" for it info
      using inv by (metis reg_inv_deref reg_inv_map reg_inv_same_node)
    ultimately show ?thesis
      unfolding reg_abs_clear [OF inv] by (metis option.inject)
  qed
  with assms show ?thesis by (simp add: reg.clear_inv)
qed

theorem clearRegistrations_keeps_predefined_witness:
  "reg_ok RegMgr_init \<and> reg_ok (RegMgr_clearRegistrations RegMgr_init)"
  using clearRegistrations_keeps_predefined [of RegMgr_init] by simp

text \<open>registering a predefined topic, on every branch. It is accepted for a pair that is new
  or already registered as it is, and refused when the topic and the id are both known but
  belong to different registrations. When exactly one of the two is known, the code compares
  through the end iterator of the other map.\<close>

theorem regPredefined_outcome:
  assumes "reg_inv r" "k \<noteq> 0"
  shows "case RegMgr_regPredefined t k r of
     Inl e \<Rightarrow> e = EndIterator \<and> (reg_abs r t = None) \<noteq> (k \<notin> ran (reg_abs r))
   | Inr (ok, r') \<Rightarrow> (reg_abs r t = None) = (k \<notin> ran (reg_abs r)) \<and> reg_inv r' \<and>
       reg_abs r' = (if ok then (reg_abs r)(t \<mapsto> k) else reg_abs r) \<and>
       (ok \<longleftrightarrow> reg_abs r t = None \<or> reg_abs r t = Some k)"
proof -
  consider (new) "reg_abs r t = None" "k \<notin> ran (reg_abs r)"
    | (one) "(reg_abs r t = None) \<noteq> (k \<notin> ran (reg_abs r))"
    | (same) "reg_abs r t = Some k"
    | (other) j where "reg_abs r t = Some j" "j \<noteq> k" "k \<in> ran (reg_abs r)"
    by fastforce
  then show ?thesis
  proof cases
    case new
    then obtain r' where "RegMgr_regPredefined t k r = Inr (True, r')" "reg_inv r'"
      "reg_abs r' = (reg_abs r)(t \<mapsto> k)"
      using reg_predefined_new [OF assms(1,2)] by blast
    with new show ?thesis by simp
  next
    case one
    then have "(rm_map r t = None) \<noteq> (map_of (rm_rev r) k = None)"
      using assms(1) by (simp add: rm_map_None_iff rm_rev_None_iff)
    then have "RegMgr_regPredefined t k r = Inl EndIterator"
      using assms(2) by (auto simp: RegMgr_regPredefined_def split: option.splits)
    with one show ?thesis by simp
  next
    case same
    then obtain r' where "RegMgr_regPredefined t k r = Inr (True, r')" "reg_inv r'"
      "reg_abs r' = reg_abs r"
      using reg_predefined_again [OF assms] by blast
    with same show ?thesis by (auto simp: ran_def map_upd_triv)
  next
    case other
    then obtain it it' where m: "rm_map r t = Some it" "map_of (rm_rev r) k = Some it'"
      using assms(1) by (metis not_Some_eq option.distinct(1) rm_map_None_iff rm_rev_None_iff)
    with assms(1) obtain info info' where d: "reg_deref r it = Some info"
      "reg_deref r it' = Some info'" "ri_topicId info' = k"
      by (metis reg_inv_map_deref reg_inv_rev_deref)
    have "ri_topicId info = j" using other(1) m(1) d(1) by (simp add: reg_abs_def)
    then have "it \<noteq> it'" using d other(2) by auto
    then have "RegMgr_regPredefined t k r = Inr (False, r)"
      using m assms(2) by (simp add: RegMgr_regPredefined_def)
    with other assms(1) show ?thesis by simp
  qed
qed

theorem regPredefined_outcome_witness:
  "RegMgr_regPredefined ''abc'' 5
     (reg_push \<lparr>ri_topic = ''abc'', ri_topicId = 1, ri_topicIdType = Normal\<rparr> RegMgr_init) =
     Inl EndIterator"
proof -
  let ?r = "reg_push \<lparr>ri_topic = ''abc'', ri_topicId = 1, ri_topicIdType = Normal\<rparr> RegMgr_init"
  have inv: "reg_inv ?r"
    by (rule reg_inv_push) (simp, simp_all add: RegMgr_init_def reg_keys_def)
  have "\<exists>e. RegMgr_regPredefined ''abc'' 5 ?r = Inl e"
    by (simp add: RegMgr_regPredefined_def reg_push_def RegMgr_init_def map_insert_def)
  then show ?thesis using regPredefined_outcome [OF inv, of 5 "''abc''"] by auto
qed

text \<open>when every id of the range 1 to the maximum is in use and a registration has to make
  room, the code removes the entry of the new topic from the topic map instead of the evicted
  one: the evicted topic keeps an iterator to an erased node, and mapping that topic again
  dereferences it.\<close>

theorem mapTopic_evicted_dangles:
  assumes "reg_inv r" "rm_minTopicId r = 1" "1 \<le> rm_maxTopicId r"
    and full: "\<forall>i. 1 \<le> i \<longrightarrow> i \<le> rm_maxTopicId r \<longrightarrow> i \<in> reg_keys r"
    and old: "(it0, info0) \<in> set (rm_infos r)" "ri_topicIdType info0 \<noteq> PredefinedTopicId"
      "ri_topicId info0 \<le> rm_maxTopicId r"
    and t: "reg_abs r t = None" "\<not> isShortTopicName t"
  shows "\<exists>k r' old. RegMgr_mapTopic t r =
       Inr (\<lparr>ti_topicId = k, ti_topicIdType = Normal, ti_newInsersion = True\<rparr>, r') \<and>
     reg_abs r old = Some k \<and> RegMgr_mapTopic old r' = Inl DanglingIterator"
proof -
  obtain k it where ev: "find_evictable r (rm_rev r) = Inr (k, it)"
    using find_evictable_reg [OF assms(1,2) old] by blast
  have m: "rm_map r t = None" using t(1) assms(1) by (simp add: rm_map_None_iff)
  have "map_of (rm_rev r) k = Some it"
    using find_evictable_mem [OF ev] assms(1) map_of_sorted_keys_iff [of "rm_rev r"]
    by (simp add: reg_inv_def)
  with assms(1) obtain info where n: "reg_deref r it = Some info" "(it, info) \<in> set (rm_infos r)"
    "ri_topicId info = k" "rm_map r (ri_topic info) = Some it"
    by (rule reg_inv_rev_deref)
  let ?r1 = "reg_erase_node it (r\<lparr>rm_rev := smap_erase k (rm_rev r)\<rparr>)"
  let ?r' = "reg_push \<lparr>ri_topic = t, ri_topicId = k, ri_topicIdType = Normal\<rparr> ?r1"
  have res: "RegMgr_mapTopic t r =
      Inr (\<lparr>ti_topicId = k, ti_topicIdType = Normal, ti_newInsersion = True\<rparr>, ?r')"
    using reg_alloc_full [OF assms(1-3) full ev m] m t(2) by (simp add: RegMgr_mapTopic_def)
  have "it < rm_nextNode r" using n(2) assms(1) by (auto simp: reg_inv_def)
  moreover have "map_of (filter (\<lambda>p. fst p \<noteq> it) (rm_infos r)) it = None"
    by (auto simp: map_of_eq_None_iff)
  ultimately have "reg_deref ?r' it = None"
    by (simp add: reg_deref_def reg_push_def reg_erase_node_def map_add_def)
  moreover have "rm_map ?r' (ri_topic info) = Some it"
    using n(4) m by (auto simp: reg_push_def reg_erase_node_def map_insert_def)
  ultimately have "RegMgr_mapTopic (ri_topic info) ?r' = Inl DanglingIterator"
    by (simp add: RegMgr_mapTopic_def)
  moreover have "reg_abs r (ri_topic info) = Some k" using n by (simp add: reg_abs_def)
  ultimately show ?thesis using res by blast
qed

definition reg_full_sample :: reg_mgr where
  "reg_full_sample =
     reg_push \<lparr>ri_topic = ''abc'', ri_topicId = 1, ri_topicIdType = Normal\<rparr>
       (RegMgr_init\<lparr>rm_maxTopicId := 1\<rparr>)"

lemma reg_inv_full_sample: "reg_inv reg_full_sample"
  unfolding reg_full_sample_def
  by (rule reg_inv_push) (simp_all add: RegMgr_init_def reg_keys_def reg_inv_def)

theorem mapTopic_evicted_dangles_witness:
  "\<exists>k r' old. RegMgr_mapTopic ''xyz'' reg_full_sample =
     Inr (\<lparr>ti_topicId = k, ti_topicIdType = Normal, ti_newInsersion = True\<rparr>, r') \<and>
   RegMgr_mapTopic old r' = Inl DanglingIterator"
proof -
  have keys: "\<forall>i. 1 \<le> i \<longrightarrow> i \<le> rm_maxTopicId reg_full_sample \<longrightarrow> i \<in> reg_keys reg_full_sample"
    by (simp add: reg_full_sample_def reg_push_def RegMgr_init_def reg_keys_def)
  have old: "(0, \<lparr>ri_topic = ''abc'', ri_topicId = 1, ri_topicIdType = Normal\<rparr>)
      \<in> set (rm_infos reg_full_sample)"
    by (simp add: reg_full_sample_def reg_push_def RegMgr_init_def)
  have "reg_abs reg_full_sample ''xyz'' = None"
    by (simp add: reg_full_sample_def reg_push_def RegMgr_init_def reg_abs_def map_insert_def)
  then show ?thesis
    using mapTopic_evicted_dangles [OF reg_inv_full_sample _ _ keys old, of "''xyz''"]
    by (auto simp: reg_full_sample_def reg_push_def RegMgr_init_def isShortTopicName_def
        DefaultMinTopicId_def)
qed

fun map_topics :: "string list \<Rightarrow> reg_mgr \<Rightarrow> reg_fault + u16 list \<times> reg_mgr" where
  "map_topics [] r = Inr ([], r)"
| "map_topics (t # ts) r =
     (case RegMgr_mapTopicNoInfo t r of
        Inl e \<Rightarrow> Inl e
      | Inr (k, r') \<Rightarrow> (case map_topics ts r' of Inl e \<Rightarrow> Inl e | Inr (ks, r'') \<Rightarrow> Inr (k # ks, r'')))"

text \<open>with an allocation range that starts above 1 the search for a gap compares the wrong
  ids: in the range 3 to 5, the fourth topic is given the id 3 that the first topic holds.\<close>

theorem mapTopic_duplicate_id:
  "\<exists>r'. map_topics [''top1'', ''top2'', ''top3'', ''top4'']
       (snd (RegMgr_setTopicIdAllocationRange 3 5 RegMgr_init)) = Inr ([3, 4, 5, 3], r') \<and>
     RegMgr_mapTopicId 3 r' = Inr ''top1''"
  by (simp add: RegMgr_setTopicIdAllocationRange_def RegMgr_init_def DefaultMinTopicId_def
      DefaultMaxTopicId_def RegMgr_mapTopicNoInfo_def RegMgr_mapTopic_def isShortTopicName_def
      RegMgr_allocTopicId_def reg_push_def map_insert_def RegMgr_mapTopicId_def reg_deref_def
      word_le_nat_alt)

end
