(* ===== verification/Gw_State.thy ===== *)
theory Gw_State
  imports Gw_RegMgr
begin

text \<open>
  The data of one gateway session: \<^verbatim>\<open>SessionState\<close> of \<^verbatim>\<open>src/gateway/lib/src/common.h\<close>, the
  private data of every session operation under \<^verbatim>\<open>src/gateway/lib/src/session_op/\<close>, and the
  callbacks and the output of the session.

  The session talks to its environment through callbacks. A callback that is only informed is an
  event appended to the session's output; a callback whose answer matters is a field of
  \<open>callbacks\<close>; the answer of the timer callback, which is different at every call, is a function
  of the output so far. A failed \<^verbatim>\<open>assert\<close> or an operation with no defined result is recorded in the
  field \<open>faults\<close>, and the execution goes on as the code does with assertions disabled.
\<close>

section \<open>Session data\<close>

record will_info =
  wi_topic :: string
  wi_msg :: data_buf
  wi_qos :: qos
  wi_retain :: bool

definition will_info_default :: will_info where
  "will_info_default =
     \<lparr>wi_topic = '''', wi_msg = [], wi_qos = QoS_AtMostOnceDelivery, wi_retain = False\<rparr>"

record pub_info =
  pi_topic :: string
  pi_msg :: data_buf
  pi_qos :: qos
  pi_retain :: bool
  pi_dup :: bool

datatype connection_status = Disconnected | Connected | Asleep

record session_state =
  m_retryPeriod :: u32
  m_retryCount :: u32
  m_tickReq :: u32
  m_callStackCount :: u32
  m_timestamp :: u64
  m_lastMsgTimestamp :: u64
  m_sleepPubAccLimit :: u64
  m_clientId :: string
  m_defaultClientId :: string
  m_username :: string
  m_password :: data_buf
  m_will :: will_info
  m_brokerPubs :: "pub_info list"
  m_regMgr :: reg_mgr
  m_connStatus :: connection_status
  m_keepAlive :: u16
  m_pubOnlyKeepAlive :: u16
  m_gwId :: u8
  m_running :: bool
  m_brokerConnected :: bool
  m_reconnectingBroker :: bool
  m_terminating :: bool
  m_pendingClientDisconnect :: bool
  m_clientConnectReported :: bool
  m_encapsulatedMsg :: bool

definition SessionState_init :: session_state where
  "SessionState_init =
     \<lparr>m_retryPeriod = 10 * 1000, m_retryCount = 3, m_tickReq = 0, m_callStackCount = 0,
      m_timestamp = 1000, m_lastMsgTimestamp = 1000, m_sleepPubAccLimit = - 1,
      m_clientId = '''', m_defaultClientId = '''', m_username = '''', m_password = [],
      m_will = will_info_default, m_brokerPubs = [], m_regMgr = RegMgr_init,
      m_connStatus = Disconnected, m_keepAlive = 0, m_pubOnlyKeepAlive = 60, m_gwId = 0,
      m_running = False, m_brokerConnected = False, m_reconnectingBroker = False,
      m_terminating = False, m_pendingClientDisconnect = False,
      m_clientConnectReported = False, m_encapsulatedMsg = False\<rparr>"

section \<open>Data of the session operations\<close>

type_synonym auth_info = "string \<times> data_buf"

record connect_state =
  cs_attempt :: u32
  cs_hasClientId :: bool
  cs_hasWillTopic :: bool
  cs_hasWillMsg :: bool
  cs_waitingForReconnect :: bool
  cs_pubOnlyClient :: bool

definition connect_state_default :: connect_state where
  "connect_state_default = \<lparr>cs_attempt = 0, cs_hasClientId = False, cs_hasWillTopic = False,
     cs_hasWillMsg = False, cs_waitingForReconnect = False, cs_pubOnlyClient = False\<rparr>"

record connect_op =
  co_clientId :: string
  co_authInfo :: auth_info
  co_will :: will_info
  co_keepAlive :: u16
  co_clean :: bool
  co_internalState :: connect_state

record asleep_op =
  as_attempt :: u32
  as_lastReq :: u64
  as_lastResp :: u64

record asleep_monitor_op =
  am_lastPing :: u64
  am_duration :: u32

record brok_pub_info =
  bp_topic :: string
  bp_msg :: data_buf
  bp_dup :: bool
  bp_retain :: bool
  bp_packetId :: u16
  bp_timestamp :: u64

record pub_recv_op =
  pr_recvMsgs :: "brok_pub_info list"

record pub_send_op =
  ps_attempt :: u32
  ps_nextMsgId :: u32
  ps_currPub :: "pub_info option"
  ps_currTopicInfo :: topic_info
  ps_currMsgId :: u16
  ps_registerCount :: u32
  ps_registered :: bool
  ps_acked :: bool
  ps_ping :: bool
  ps_disconnectAlreadySent :: bool

record sub_info =
  si_timestamp :: u64
  si_msgId :: u16
  si_topicId :: u16

record no_gw_pub_info =
  np_topicId :: u16
  np_data :: data_buf

record forward_op =
  fw_subs :: "sub_info list"
  fw_pubs :: "no_gw_pub_info list"
  fw_lastPubTopicId :: u16
  fw_pingInProgress :: bool

datatype will_op = WillOp_None | WillOp_TopicUpd | WillOp_MsgUpd

record will_update_op =
  wu_op :: will_op
  wu_will :: will_info
  wu_reconnectRequested :: bool
  wu_brokerConnectSent :: bool

record ping_op =
  pg_attempt :: u32

text \<open>The operations of a session, in the order in which its constructor creates them.\<close>

datatype op_id = OpConnect | OpDisconnect | OpAsleep | OpAsleepMonitor | OpPubRecv | OpPubSend
  | OpForward | OpWillUpdate | OpPing | OpEncapsulate

definition all_ops :: "op_id list" where
  "all_ops = [OpConnect, OpDisconnect, OpAsleep, OpAsleepMonitor, OpPubRecv, OpPubSend,
     OpForward, OpWillUpdate, OpPing, OpEncapsulate]"

section \<open>Callbacks, output and faults\<close>

text \<open>The output of a session. An event of a session that lives inside a forwarding one appears in
  the output of the latter with the node id in front; when it is a message for the client, this is
  the message in a forwarder encapsulation.\<close>

datatype event =
    ToClient sn_msg u32
  | ToBroker mqtt_msg
  | ProgramTick u32
  | CancelTick
  | TermReq
  | BrokerReconnectReq
  | ClientConnected string
  | ErrorReport string
  | FromSub data_buf event
  | FwdEncSessionCreated data_buf
  | FwdEncSessionDeleted data_buf

record callbacks =
  cb_nextTickProgram :: bool
  cb_cancelTick :: "(event list \<Rightarrow> u32) option"
  cb_sendToClient :: bool
  cb_sendToBroker :: bool
  cb_termReq :: bool
  cb_brokerReconnectReq :: bool
  cb_clientConnected :: bool
  cb_authInfoReq :: "(string \<Rightarrow> auth_info) option"
  cb_errorReport :: bool
  cb_fwdEncSessionCreated :: bool
  cb_fwdEncSessionDeleted :: bool

datatype fault = AssertFailed op_id string | SessionAssertFailed string | RegFault reg_fault
  | EmptyListPop | NullPointer | DanglingPointer

record session =
  st :: session_state
  cbs :: callbacks
  nextTicks :: "op_id \<Rightarrow> u64"
  connect :: connect_op
  asleep :: asleep_op
  asleepMonitor :: asleep_monitor_op
  pubRecv :: pub_recv_op
  pubSend :: pub_send_op
  forward :: forward_op
  willUpdate :: will_update_op
  ping :: ping_op
  out :: "event list"
  faults :: "fault list"

definition emit :: "event \<Rightarrow> session \<Rightarrow> session" where
  "emit e s = s\<lparr>out := out s @ [e]\<rparr>"

definition fault_if :: "bool \<Rightarrow> fault \<Rightarrow> session \<Rightarrow> session" where
  "fault_if bad f s = (if bad then s\<lparr>faults := faults s @ [f]\<rparr> else s)"

end
