(* ===== verification/Gw_SessionOp.thy ===== *)
theory Gw_SessionOp
  imports Gw_State
begin

text \<open>
  The base class of the session operations, \<^verbatim>\<open>src/gateway/lib/src/SessionOp.{h,cpp}\<close>: the timer
  of an operation, and the services of \<^verbatim>\<open>src/gateway/lib/src/SessionImpl.cpp\<close> it forwards to.
  The second half states what every handler of every operation keeps of the session, the
  contract on which the session's own entry points rely.
\<close>

section \<open>Timers of an operation\<close>

definition SessionOp_nextTickReq :: "op_id \<Rightarrow> u32 \<Rightarrow> session \<Rightarrow> session" where
  "SessionOp_nextTickReq op ms s =
     s\<lparr>nextTicks := (nextTicks s)(op := m_timestamp (st s) + ucast ms)\<rparr>"

definition SessionOp_cancelTick :: "op_id \<Rightarrow> session \<Rightarrow> session" where
  "SessionOp_cancelTick op s = s\<lparr>nextTicks := (nextTicks s)(op := 0)\<rparr>"

definition SessionOp_nextTick :: "op_id \<Rightarrow> session \<Rightarrow> u32" where
  "SessionOp_nextTick op s =
     (if nextTicks s op = 0 then - 1
      else if nextTicks s op \<le> m_timestamp (st s) then 1
      else ucast (nextTicks s op - m_timestamp (st s)))"

definition SessionOp_timestampUpdated ::
    "op_id \<Rightarrow> (session \<Rightarrow> session) \<Rightarrow> session \<Rightarrow> session" where
  "SessionOp_timestampUpdated op tickImpl s =
     (if nextTicks s op \<noteq> 0 \<and> nextTicks s op \<le> m_timestamp (st s)
      then tickImpl (SessionOp_cancelTick op s) else s)"

section \<open>Services of the session\<close>

definition SessionImpl_sendToClient :: "sn_msg \<Rightarrow> u32 \<Rightarrow> session \<Rightarrow> session" where
  "SessionImpl_sendToClient msg broadcastRadius s =
     (if \<not> cb_sendToClient (cbs s) then s else emit (ToClient msg broadcastRadius) s)"

definition SessionImpl_sendToBroker :: "mqtt_msg \<Rightarrow> session \<Rightarrow> session" where
  "SessionImpl_sendToBroker msg s =
     (if \<not> cb_sendToBroker (cbs s) then s else emit (ToBroker msg) s)"

definition SessionImpl_termRequest :: "session \<Rightarrow> session" where
  "SessionImpl_termRequest s =
     (if \<not> cb_termReq (cbs s) \<or> m_terminating (st s) then s
      else s\<lparr>st := (st s)\<lparr>m_terminating := True\<rparr>\<rparr>)"

definition SessionImpl_brokerReconnectRequest :: "session \<Rightarrow> session" where
  "SessionImpl_brokerReconnectRequest s =
     (if \<not> cb_brokerReconnectReq (cbs s) \<or> m_reconnectingBroker (st s) \<or> m_terminating (st s)
      then s
      else emit BrokerReconnectReq (s\<lparr>st := (st s)\<lparr>m_reconnectingBroker := True\<rparr>\<rparr>))"

definition SessionImpl_clientConnectedReport :: "string \<Rightarrow> session \<Rightarrow> session" where
  "SessionImpl_clientConnectedReport clientId s =
     (if cb_clientConnected (cbs s) then emit (ClientConnected clientId) s else s)"

definition SessionImpl_authInfoRequest :: "string \<Rightarrow> session \<Rightarrow> auth_info" where
  "SessionImpl_authInfoRequest clientId s =
     (case cb_authInfoReq (cbs s) of None \<Rightarrow> ('''', []) | Some f \<Rightarrow> f clientId)"

definition SessionImpl_reportError :: "string \<Rightarrow> session \<Rightarrow> session" where
  "SessionImpl_reportError str s =
     (if \<not> cb_errorReport (cbs s) then s else emit (ErrorReport str) s)"

abbreviation sendToClient :: "sn_msg \<Rightarrow> session \<Rightarrow> session" where
  "sendToClient msg \<equiv> SessionImpl_sendToClient msg 0"

abbreviation sendToBroker :: "mqtt_msg \<Rightarrow> session \<Rightarrow> session" where
  "sendToBroker \<equiv> SessionImpl_sendToBroker"

definition SessionOp_sendDisconnectToClient :: "session \<Rightarrow> session" where
  "SessionOp_sendDisconnectToClient s = sendToClient (DisconnectMsg_SN None) s"

section \<open>The contract of a handler\<close>

text \<open>What the handlers of the operations may not touch: the clock and the pending tick request,
  the depth of API calls, the configuration, the broker connection flag, the callbacks. They
  never withdraw a termination request, they only append output and faults, and they leave the
  timer callbacks and the termination callback to the session.\<close>

fun session_event :: "event \<Rightarrow> bool" where
  "session_event (ProgramTick _) = True"
| "session_event CancelTick = True"
| "session_event TermReq = True"
| "session_event _ = False"

fun session_fault :: "fault \<Rightarrow> bool" where
  "session_fault (SessionAssertFailed _) = True"
| "session_fault _ = False"

definition st_frame :: "session_state \<Rightarrow> session_state \<Rightarrow> bool" where
  "st_frame a b \<longleftrightarrow>
     m_timestamp b = m_timestamp a \<and> m_tickReq b = m_tickReq a \<and>
     m_callStackCount b = m_callStackCount a \<and> m_running b = m_running a \<and>
     m_retryPeriod b = m_retryPeriod a \<and> m_retryCount b = m_retryCount a \<and>
     m_sleepPubAccLimit b = m_sleepPubAccLimit a \<and> m_defaultClientId b = m_defaultClientId a \<and>
     m_pubOnlyKeepAlive b = m_pubOnlyKeepAlive a \<and> m_gwId b = m_gwId a \<and>
     m_brokerConnected b = m_brokerConnected a \<and>
     (m_terminating a \<longrightarrow> m_terminating b)"

text \<open>Locality: an operation changes only its own data and its own timer. The one exception is
  the ping operation, which is told about a new connection status by the operation that sets
  it: only the operations that connect and disconnect the client do so.\<close>

definition status_op :: "op_id \<Rightarrow> bool" where
  "status_op op \<longleftrightarrow> op \<in> {OpConnect, OpDisconnect, OpAsleep, OpPing}"

lemma status_ops [op_frame_rules]:
  "status_op OpConnect" "status_op OpDisconnect" "status_op OpAsleep" "status_op OpPing"
  by (simp_all add: status_op_def)

definition op_local :: "op_id \<Rightarrow> session \<Rightarrow> session \<Rightarrow> bool" where
  "op_local op s s' \<longleftrightarrow>
     (\<forall>op'. op' \<noteq> op \<longrightarrow> op' \<noteq> OpPing \<or> \<not> status_op op \<longrightarrow> nextTicks s' op' = nextTicks s op') \<and>
     (\<not> status_op op \<longrightarrow> m_connStatus (st s') = m_connStatus (st s) \<and> ping s' = ping s) \<and>
     (op \<noteq> OpConnect \<longrightarrow> connect s' = connect s) \<and> (op \<noteq> OpAsleep \<longrightarrow> asleep s' = asleep s) \<and>
     (op \<noteq> OpAsleepMonitor \<longrightarrow> asleepMonitor s' = asleepMonitor s) \<and>
     (op \<noteq> OpPubRecv \<longrightarrow> pubRecv s' = pubRecv s) \<and> (op \<noteq> OpPubSend \<longrightarrow> pubSend s' = pubSend s) \<and>
     (op \<noteq> OpForward \<longrightarrow> forward s' = forward s) \<and>
     (op \<noteq> OpWillUpdate \<longrightarrow> willUpdate s' = willUpdate s) \<and>
     (op \<noteq> OpEncapsulate \<longrightarrow> m_encapsulatedMsg (st s') = m_encapsulatedMsg (st s))"

text \<open>Timers: a handler disarms a timer, leaves it, or arms it less than \<open>2 ^ 32\<close> milliseconds
  ahead.\<close>

definition timer_frame :: "session \<Rightarrow> session \<Rightarrow> bool" where
  "timer_frame s s' \<longleftrightarrow>
     (\<forall>op. nextTicks s' op = nextTicks s op \<or> nextTicks s' op = 0 \<or>
           (\<exists>ms :: u32. nextTicks s' op = m_timestamp (st s) + ucast ms))"

definition op_frame :: "op_id \<Rightarrow> session \<Rightarrow> session \<Rightarrow> bool" where
  "op_frame op s s' \<longleftrightarrow>
     cbs s' = cbs s \<and> st_frame (st s) (st s') \<and> op_local op s s' \<and> timer_frame s s' \<and>
     (\<exists>es. out s' = out s @ es \<and> (\<forall>e \<in> set es. \<not> session_event e)) \<and>
     (\<exists>fs. faults s' = faults s @ fs \<and> (\<forall>f \<in> set fs. \<not> session_fault f))"

lemma st_frame_refl [simp]: "st_frame a a"
  by (simp add: st_frame_def)

lemma st_frame_trans: "st_frame a b \<Longrightarrow> st_frame b c \<Longrightarrow> st_frame a c"
  by (simp add: st_frame_def)

lemma op_local_refl [simp]: "op_local op s s"
  by (simp add: op_local_def)

lemma op_local_trans: "op_local op a b \<Longrightarrow> op_local op b c \<Longrightarrow> op_local op a c"
  by (simp add: op_local_def)

lemma timer_frame_refl [simp]: "timer_frame s s"
  by (simp add: timer_frame_def)

lemma timer_frame_trans:
  "st_frame (st a) (st b) \<Longrightarrow> timer_frame a b \<Longrightarrow> timer_frame b c \<Longrightarrow> timer_frame a c"
  unfolding timer_frame_def st_frame_def by metis

lemma op_frame_refl [simp]: "op_frame op s s"
  by (simp add: op_frame_def)

lemma op_frame_trans [trans]: "op_frame op a b \<Longrightarrow> op_frame op b c \<Longrightarrow> op_frame op a c"
  unfolding op_frame_def by (auto intro: st_frame_trans op_local_trans timer_frame_trans)

text \<open>Every rule has the form ``if the state so far is in the frame, so is the next one'', so that
  the frame of a handler follows from its text.\<close>

lemma op_frame_if [op_frame_rules]:
  "(b \<Longrightarrow> op_frame op s0 x) \<Longrightarrow> (\<not> b \<Longrightarrow> op_frame op s0 y) \<Longrightarrow> op_frame op s0 (if b then x else y)"
  by simp

lemma op_frame_Let [op_frame_rules]:
  "op_frame op s0 v \<Longrightarrow> (\<And>x. op_frame op s0 x \<Longrightarrow> op_frame op s0 (f x)) \<Longrightarrow> op_frame op s0 (Let v f)"
  by (simp add: Let_def)

lemma op_frame_Let_string [op_frame_rules]:
  "(\<And>x. op_frame op s0 (f x)) \<Longrightarrow> op_frame op s0 (Let (v :: string) f)"
  by (simp add: Let_def)

lemma op_frame_Let_u16 [op_frame_rules]:
  "(\<And>x. op_frame op s0 (f x)) \<Longrightarrow> op_frame op s0 (Let (v :: u16) f)"
  by (simp add: Let_def)

lemma op_frame_Let_u64 [op_frame_rules]:
  "(\<And>x. op_frame op s0 (f x)) \<Longrightarrow> op_frame op s0 (Let (v :: u64) f)"
  by (simp add: Let_def)

lemma op_frame_option [op_frame_rules]:
  "(v = None \<Longrightarrow> op_frame op s0 x) \<Longrightarrow> (\<And>y. v = Some y \<Longrightarrow> op_frame op s0 (f y)) \<Longrightarrow>
     op_frame op s0 (case v of None \<Rightarrow> x | Some y \<Rightarrow> f y)"
  by (cases v) auto

lemma op_frame_sum [op_frame_rules]:
  "(\<And>e. v = Inl e \<Longrightarrow> op_frame op s0 (g e)) \<Longrightarrow> (\<And>y. v = Inr y \<Longrightarrow> op_frame op s0 (f y)) \<Longrightarrow>
     op_frame op s0 (case v of Inl e \<Rightarrow> g e | Inr y \<Rightarrow> f y)"
  by (cases v) auto

lemma op_frame_pair [op_frame_rules]:
  "(\<And>x y. v = (x, y) \<Longrightarrow> op_frame op s0 (f x y)) \<Longrightarrow> op_frame op s0 (case v of (x, y) \<Rightarrow> f x y)"
  by (cases v) auto

lemma op_frame_st_upd:
  "op_frame op s0 s \<Longrightarrow> st_frame (st s) x \<Longrightarrow> m_encapsulatedMsg x = m_encapsulatedMsg (st s) \<Longrightarrow>
     status_op op \<or> m_connStatus x = m_connStatus (st s) \<Longrightarrow> op_frame op s0 (s\<lparr>st := x\<rparr>)"
  by (auto simp: op_frame_def op_local_def timer_frame_def intro: st_frame_trans)

lemma op_frame_st_updates [op_frame_rules]:
  assumes "op_frame op s0 s"
  shows "status_op op \<Longrightarrow> op_frame op s0 (s\<lparr>st := (st s)\<lparr>m_connStatus := v1\<rparr>\<rparr>)"
    and "op_frame op s0 (s\<lparr>st := (st s)\<lparr>m_regMgr := v2\<rparr>\<rparr>)"
    and "op_frame op s0 (s\<lparr>st := (st s)\<lparr>m_brokerPubs := v3\<rparr>\<rparr>)"
    and "op_frame op s0 (s\<lparr>st := (st s)\<lparr>m_will := v4\<rparr>\<rparr>)"
    and "op_frame op s0 (s\<lparr>st := (st s)\<lparr>m_pendingClientDisconnect := v5\<rparr>\<rparr>)"
    and "op_frame op s0 (s\<lparr>st := (st s)\<lparr>m_clientConnectReported := v7\<rparr>\<rparr>)"
  using assms by (auto intro!: op_frame_st_upd simp: st_frame_def)

lemma op_frame_op_updates [op_frame_rules]:
  "op_frame OpConnect s0 s \<Longrightarrow> op_frame OpConnect s0 (s\<lparr>connect := v1\<rparr>)"
  "op_frame OpAsleep s0 s \<Longrightarrow> op_frame OpAsleep s0 (s\<lparr>asleep := v2\<rparr>)"
  "op_frame OpAsleepMonitor s0 s \<Longrightarrow> op_frame OpAsleepMonitor s0 (s\<lparr>asleepMonitor := v3\<rparr>)"
  "op_frame OpPubRecv s0 s \<Longrightarrow> op_frame OpPubRecv s0 (s\<lparr>pubRecv := v4\<rparr>)"
  "op_frame OpPubSend s0 s \<Longrightarrow> op_frame OpPubSend s0 (s\<lparr>pubSend := v5\<rparr>)"
  "op_frame OpForward s0 s \<Longrightarrow> op_frame OpForward s0 (s\<lparr>forward := v6\<rparr>)"
  "op_frame OpWillUpdate s0 s \<Longrightarrow> op_frame OpWillUpdate s0 (s\<lparr>willUpdate := v7\<rparr>)"
  "op_frame op s0 s \<Longrightarrow> status_op op \<Longrightarrow> op_frame op s0 (s\<lparr>ping := v8\<rparr>)"
  "op_frame OpEncapsulate s0 s \<Longrightarrow>
     op_frame OpEncapsulate s0 (s\<lparr>st := (st s)\<lparr>m_encapsulatedMsg := v9\<rparr>\<rparr>)"
  by (simp_all add: op_frame_def op_local_def timer_frame_def st_frame_def)

lemma op_frame_timer_steps:
  "op_frame op s (SessionOp_nextTickReq op ms s)" "status_op op \<Longrightarrow> op_frame op s (SessionOp_nextTickReq OpPing ms s)"
  "op_frame op s (SessionOp_cancelTick op s)" "status_op op \<Longrightarrow> op_frame op s (SessionOp_cancelTick OpPing s)"
  by (auto simp: SessionOp_nextTickReq_def SessionOp_cancelTick_def op_frame_def op_local_def
      timer_frame_def st_frame_def)

lemma op_frame_timers [op_frame_rules]:
  assumes "op_frame op s0 s"
  shows "op_frame op s0 (SessionOp_nextTickReq op ms s)"
    and "status_op op \<Longrightarrow> op_frame op s0 (SessionOp_nextTickReq OpPing ms s)"
    and "op_frame op s0 (SessionOp_cancelTick op s)"
    and "status_op op \<Longrightarrow> op_frame op s0 (SessionOp_cancelTick OpPing s)"
  using op_frame_trans [OF assms] op_frame_timer_steps by blast+

lemma op_frame_emit: "op_frame op s0 s \<Longrightarrow> \<not> session_event e \<Longrightarrow> op_frame op s0 (emit e s)"
  by (auto simp: op_frame_def op_local_def timer_frame_def emit_def)

lemma op_frame_fault_if [op_frame_rules]:
  assumes "op_frame op s0 s"
  shows "op_frame op s0 (fault_if b (AssertFailed op' t) s)"
    and "op_frame op s0 (fault_if b (RegFault e) s)"
    and "op_frame op s0 (fault_if b EmptyListPop s)"
    and "op_frame op s0 (fault_if b NullPointer s)"
  using assms by (auto simp: op_frame_def op_local_def timer_frame_def fault_if_def)

lemma op_frame_services [op_frame_rules]:
  assumes "op_frame op s0 s"
  shows "op_frame op s0 (SessionImpl_sendToClient m r s)"
    and "op_frame op s0 (SessionImpl_sendToBroker b s)"
    and "op_frame op s0 (SessionImpl_termRequest s)"
    and "op_frame op s0 (SessionImpl_brokerReconnectRequest s)"
    and "op_frame op s0 (SessionImpl_clientConnectedReport c s)"
    and "op_frame op s0 (SessionImpl_reportError e s)"
    and "op_frame op s0 (SessionOp_sendDisconnectToClient s)"
  using assms
  by (auto simp: SessionImpl_sendToClient_def
      SessionImpl_sendToBroker_def SessionImpl_termRequest_def
      SessionImpl_brokerReconnectRequest_def SessionImpl_clientConnectedReport_def
      SessionImpl_reportError_def SessionOp_sendDisconnectToClient_def st_frame_def
      intro!: op_frame_emit op_frame_st_upd)

lemma op_frameD:
  assumes "op_frame op s s'"
  shows "m_timestamp (st s') = m_timestamp (st s)" "m_tickReq (st s') = m_tickReq (st s)"
    "m_callStackCount (st s') = m_callStackCount (st s)" "m_running (st s') = m_running (st s)"
    "m_retryPeriod (st s') = m_retryPeriod (st s)" "m_retryCount (st s') = m_retryCount (st s)"
    "m_brokerConnected (st s') = m_brokerConnected (st s)" "cbs s' = cbs s"
    "m_terminating (st s) \<Longrightarrow> m_terminating (st s')"
  using assms by (auto simp: op_frame_def st_frame_def)

section \<open>The interface of an operation\<close>

text \<open>The virtual functions of \<^verbatim>\<open>SessionOp\<close> and the contract the session relies on; every
  operation interprets the locale. What the session needs of an operation is proved here from the
  contract alone.\<close>

locale session_op =
  fixes op :: op_id
    and tickImpl :: "session \<Rightarrow> session"
    and brokerConnectionUpdatedImpl :: "session \<Rightarrow> session"
    and handle_sn :: "sn_msg \<Rightarrow> session \<Rightarrow> session"
    and handle_mqtt :: "mqtt_msg \<Rightarrow> session \<Rightarrow> session"
  assumes tick_contract: "op_frame op s (tickImpl s)"
    and broker_contract: "op_frame op s (brokerConnectionUpdatedImpl s)"
    and sn_contract: "op_frame op s (handle_sn m s)"
    and mqtt_contract: "op_frame op s (handle_mqtt b s)"
begin

lemma timestampUpdated_contract:
  "op_frame op s (SessionOp_timestampUpdated op tickImpl s)"
  unfolding SessionOp_timestampUpdated_def
  by (auto intro: op_frame_trans [OF op_frame_timers(3) tick_contract])

text \<open>A timer that is not due does not fire; a timer that fires is disarmed before the operation
  runs, so that it stays disarmed unless the operation arms it again.\<close>

lemma timestampUpdated_not_due:
  "nextTicks s op = 0 \<or> m_timestamp (st s) < nextTicks s op \<Longrightarrow>
     SessionOp_timestampUpdated op tickImpl s = s"
  by (auto simp: SessionOp_timestampUpdated_def)

lemma handlers_keep_termination:
  assumes "m_terminating (st s)"
  shows "m_terminating (st (tickImpl s))" "m_terminating (st (brokerConnectionUpdatedImpl s))"
    "m_terminating (st (handle_sn m s))" "m_terminating (st (handle_mqtt b s))"
  using assms tick_contract [of s] broker_contract [of s] sn_contract [of s m]
    mqtt_contract [of s b]
  by (simp_all add: op_frame_def st_frame_def)

text \<open>Another operation's handlers leave an operation's timer alone.\<close>

lemma timers_of_others:
  assumes "op' \<noteq> op" "op' \<noteq> OpPing \<or> \<not> status_op op"
  shows "nextTicks (handle_sn m s) op' = nextTicks s op'"
    "nextTicks (handle_mqtt b s) op' = nextTicks s op'"
    "nextTicks (tickImpl s) op' = nextTicks s op'"
    "nextTicks (brokerConnectionUpdatedImpl s) op' = nextTicks s op'"
  using assms tick_contract [of s] broker_contract [of s] sn_contract [of s m]
    mqtt_contract [of s b]
  by (simp_all add: op_frame_def op_local_def)

end

section \<open>The clock\<close>

text \<open>The clock starts above 0 and is far from its end, so that an armed timer is never 0.\<close>

definition clock_ok :: "session \<Rightarrow> bool" where
  "clock_ok s \<longleftrightarrow> 0 < m_timestamp (st s) \<and> unat (m_timestamp (st s)) < 2 ^ 63"

lemma clock_ok_frame: "op_frame op s s' \<Longrightarrow> clock_ok s \<Longrightarrow> clock_ok s'"
  by (simp add: clock_ok_def op_frame_def st_frame_def)

lemma nextTick_armed:
  assumes "clock_ok s"
  shows "nextTicks (SessionOp_nextTickReq op ms s) op \<noteq> 0"
proof -
  have "0 < unat (m_timestamp (st s)) + unat ms" using assms by (simp add: clock_ok_def word_less_nat_alt)
  then have "unat (m_timestamp (st s) + ucast ms) \<noteq> 0"
    using assms by (simp add: clock_ok_def u64_add_u32_unat)
  then show ?thesis by (auto simp: SessionOp_nextTickReq_def)
qed

end
