(* ===== verification/Gw_Ping.thy ===== *)
theory Gw_Ping
  imports Gw_SessionOp
begin

text \<open>
  The keep-alive monitor of the client, \<^verbatim>\<open>src/gateway/lib/src/session_op/Ping.{h,cpp}\<close>: while
  the client is connected, silence for the keep-alive period makes the gateway ping it, and
  unanswered pings end the session. It is the only operation that overrides
  \<^verbatim>\<open>connStatusUpdatedImpl\<close>, so it comes before the operations that change the status.
\<close>

section \<open>Operations\<close>

definition Ping_sendPing :: "session \<Rightarrow> session" where
  "Ping_sendPing s =
     (if m_retryCount (st s) \<le> pg_attempt (ping s) then SessionImpl_termRequest s
      else
        let s = s\<lparr>ping := (ping s)\<lparr>pg_attempt := pg_attempt (ping s) + 1\<rparr>\<rparr>;
            s = sendToClient (PingreqMsg_SN '''') s
        in SessionOp_nextTickReq OpPing (m_retryPeriod (st s)) s)"

definition Ping_tickImpl :: "session \<Rightarrow> session" where
  "Ping_tickImpl s = Ping_sendPing s"

definition Ping_restartPingTimer :: "session \<Rightarrow> session" where
  "Ping_restartPingTimer s =
     (if m_connStatus (st s) \<noteq> Connected then SessionOp_cancelTick OpPing s
      else
        let s = s\<lparr>ping := (ping s)\<lparr>pg_attempt := 0\<rparr>\<rparr>;
            s = fault_if (m_keepAlive (st s) = 0) (AssertFailed OpPing ''keepAlive'') s
        in SessionOp_nextTickReq OpPing (ucast (m_keepAlive (st s)) * 1000) s)"

definition Ping_connStatusUpdatedImpl :: "session \<Rightarrow> session" where
  "Ping_connStatusUpdatedImpl s = Ping_restartPingTimer s"

definition Ping_handle_MqttsnMessage :: "session \<Rightarrow> session" where
  "Ping_handle_MqttsnMessage s = Ping_restartPingTimer s"

definition SessionImpl_connStatusUpdated :: "session \<Rightarrow> session" where
  "SessionImpl_connStatusUpdated s = Ping_connStatusUpdatedImpl s"

section \<open>Dispatch and contract\<close>

definition Ping_handle_sn :: "sn_msg \<Rightarrow> session \<Rightarrow> session" where
  "Ping_handle_sn m s = Ping_handle_MqttsnMessage s"

lemma op_frame_Ping [op_frame_rules]:
  assumes "op_frame op s0 s" "status_op op"
  shows "op_frame op s0 (Ping_restartPingTimer s)" and "op_frame op s0 (Ping_sendPing s)"
    and "op_frame op s0 (Ping_tickImpl s)" and "op_frame op s0 (Ping_handle_MqttsnMessage s)"
    and "op_frame op s0 (Ping_connStatusUpdatedImpl s)" and "op_frame op s0 (SessionImpl_connStatusUpdated s)"
  unfolding Ping_restartPingTimer_def Ping_sendPing_def Ping_tickImpl_def
    Ping_handle_MqttsnMessage_def Ping_connStatusUpdatedImpl_def SessionImpl_connStatusUpdated_def
  using assms by - (assumption | rule op_frame_rules)+

section \<open>Interpretation\<close>

interpretation ping_op: session_op OpPing Ping_tickImpl "\<lambda>s. s" Ping_handle_sn "\<lambda>_ s. s"
  by unfold_locales (simp_all add: op_frame_rules Ping_handle_sn_def)

section \<open>The keep-alive timer\<close>

text \<open>While the client is connected its silence is watched: the timer of the operation is armed,
  or the session is terminating.\<close>

definition ping_armed :: "session \<Rightarrow> bool" where
  "ping_armed s \<longleftrightarrow> (m_connStatus (st s) = Connected \<longrightarrow>
     nextTicks s OpPing \<noteq> 0 \<or> m_terminating (st s))"

lemma ping_armed_services [ping_simps]:
  "op \<noteq> OpPing \<Longrightarrow> ping_armed (SessionOp_nextTickReq op ms s) = ping_armed s"
  "op \<noteq> OpPing \<Longrightarrow> ping_armed (SessionOp_cancelTick op s) = ping_armed s"
  "ping_armed (SessionImpl_sendToClient m rad s) = ping_armed s"
  "ping_armed (SessionImpl_sendToBroker b s) = ping_armed s"
  "ping_armed (SessionImpl_reportError e s) = ping_armed s"
  "ping_armed (SessionImpl_clientConnectedReport c s) = ping_armed s"
  "ping_armed (SessionImpl_brokerReconnectRequest s) = ping_armed s"
  "ping_armed (SessionOp_sendDisconnectToClient s) = ping_armed s"
  "ping_armed (fault_if x f s) = ping_armed s"
  "ping_armed s \<Longrightarrow> ping_armed (SessionImpl_termRequest s)"
  by (auto simp: ping_armed_def SessionOp_nextTickReq_def SessionOp_cancelTick_def fault_if_def
      SessionImpl_sendToClient_def SessionImpl_sendToBroker_def SessionImpl_reportError_def
      SessionImpl_clientConnectedReport_def SessionImpl_brokerReconnectRequest_def
      SessionOp_sendDisconnectToClient_def SessionImpl_termRequest_def emit_def)

lemma ping_armed_updates [ping_simps]:
  "ping_armed (s\<lparr>connect := v1\<rparr>) = ping_armed s" "ping_armed (s\<lparr>asleep := v2\<rparr>) = ping_armed s"
  "ping_armed (s\<lparr>willUpdate := v3\<rparr>) = ping_armed s"
  "ping_armed (s\<lparr>st := (st s)\<lparr>m_regMgr := r\<rparr>\<rparr>) = ping_armed s"
  "ping_armed (s\<lparr>st := (st s)\<lparr>m_pendingClientDisconnect := p\<rparr>\<rparr>) = ping_armed s"
  by (simp_all add: ping_armed_def)

lemma clock_ok_services [ping_simps]:
  "clock_ok (SessionOp_nextTickReq op ms s) = clock_ok s"
  "clock_ok (SessionOp_cancelTick op s) = clock_ok s"
  "clock_ok (SessionImpl_sendToClient m rad s) = clock_ok s"
  "clock_ok (SessionImpl_sendToBroker b s) = clock_ok s"
  "clock_ok (SessionImpl_reportError e s) = clock_ok s"
  "clock_ok (SessionImpl_clientConnectedReport c s) = clock_ok s"
  "clock_ok (SessionImpl_brokerReconnectRequest s) = clock_ok s"
  "clock_ok (SessionOp_sendDisconnectToClient s) = clock_ok s"
  "clock_ok (fault_if x f s) = clock_ok s"
  "clock_ok (SessionImpl_termRequest s) = clock_ok s"
  "m_timestamp v = m_timestamp (st s) \<Longrightarrow> clock_ok (s\<lparr>st := v\<rparr>) = clock_ok s"
  "clock_ok (s\<lparr>connect := v1\<rparr>) = clock_ok s" "clock_ok (s\<lparr>asleep := v2\<rparr>) = clock_ok s"
  "clock_ok (s\<lparr>ping := v3\<rparr>) = clock_ok s"
  by (simp_all add: clock_ok_def SessionOp_nextTickReq_def SessionOp_cancelTick_def fault_if_def
      SessionImpl_sendToClient_def SessionImpl_sendToBroker_def SessionImpl_reportError_def
      SessionImpl_clientConnectedReport_def SessionImpl_brokerReconnectRequest_def
      SessionOp_sendDisconnectToClient_def SessionImpl_termRequest_def emit_def)

lemma ping_armed_nextTick: "clock_ok s \<Longrightarrow> ping_armed (SessionOp_nextTickReq OpPing ms s)"
  by (simp add: ping_armed_def nextTick_armed)

lemma ping_armed_restart [ping_simps]:
  "clock_ok s \<Longrightarrow> ping_armed (Ping_restartPingTimer s)"
  "clock_ok s \<Longrightarrow> ping_armed (SessionImpl_connStatusUpdated s)"
  "clock_ok s \<Longrightarrow> ping_armed (Ping_handle_sn m s)"
  "clock_ok (SessionImpl_connStatusUpdated s) = clock_ok s"
proof -
  show r: "clock_ok s \<Longrightarrow> ping_armed (Ping_restartPingTimer s)" for s
  proof (cases "m_connStatus (st s) = Connected")
    case True
    assume "clock_ok s"
    then show ?thesis using True
      by (simp add: Ping_restartPingTimer_def Let_def ping_armed_nextTick ping_simps)
  qed (simp add: Ping_restartPingTimer_def ping_armed_def SessionOp_cancelTick_def)
  show "clock_ok s \<Longrightarrow> ping_armed (SessionImpl_connStatusUpdated s)"
    "clock_ok s \<Longrightarrow> ping_armed (Ping_handle_sn m s)"
    using r by (simp_all add: SessionImpl_connStatusUpdated_def Ping_connStatusUpdatedImpl_def
        Ping_handle_sn_def Ping_handle_MqttsnMessage_def)
  show "clock_ok (SessionImpl_connStatusUpdated s) = clock_ok s"
    by (simp add: SessionImpl_connStatusUpdated_def Ping_connStatusUpdatedImpl_def
        Ping_restartPingTimer_def Let_def ping_simps)
qed

lemma ping_armed_tick:
  assumes "clock_ok s" "cb_termReq (cbs s)"
  shows "ping_armed (Ping_tickImpl s)"
proof -
  have "ping_armed (SessionImpl_termRequest s)"
    using assms(2) by (simp add: ping_armed_def SessionImpl_termRequest_def)
  then show ?thesis using assms(1)
    by (simp add: Ping_tickImpl_def Ping_sendPing_def Let_def ping_armed_nextTick ping_simps)
qed

text \<open>An operation that neither connects nor disconnects the client keeps the timer.\<close>

lemma ping_armed_frame:
  "op_frame op s s' \<Longrightarrow> \<not> status_op op \<Longrightarrow> ping_armed s \<Longrightarrow> ping_armed s'"
  by (auto simp: ping_armed_def op_frame_def op_local_def st_frame_def status_op_def)

section \<open>A silent client\<close>

text \<open>Ticks of the operation, with no message from the client in between.\<close>

lemma ping_tick_counts:
  assumes "pg_attempt (ping s) < m_retryCount (st s)" "cb_sendToClient (cbs s)"
  shows "unat (pg_attempt (ping (Ping_tickImpl s))) = unat (pg_attempt (ping s)) + 1"
    "m_retryCount (st (Ping_tickImpl s)) = m_retryCount (st s)" "cbs (Ping_tickImpl s) = cbs s"
    "out (Ping_tickImpl s) = out s @ [ToClient (PingreqMsg_SN '''') 0]"
    "m_terminating (st (Ping_tickImpl s)) = m_terminating (st s)"
  using assms u32_succ_unat [OF assms(1)]
  by (simp_all add: Ping_tickImpl_def Ping_sendPing_def not_le [symmetric] Let_def emit_def
      SessionImpl_sendToClient_def SessionOp_nextTickReq_def)

text \<open>C22. A client that stays silent is given up: the supervision sends one PINGREQ for every attempt
  that is left, one per expiry of its timer, and the expiry after these requests the termination of the
  session.\<close>

theorem silent_client_terminated:
  assumes "pg_attempt (ping s) \<le> m_retryCount (st s)" "\<not> m_terminating (st s)"
    and "cb_termReq (cbs s)" "cb_sendToClient (cbs s)"
  shows "let n = unat (m_retryCount (st s)) - unat (pg_attempt (ping s)) in
    (\<forall>k. (k \<le> n \<longrightarrow> \<not> m_terminating (st ((Ping_tickImpl ^^ k) s)) \<and>
        out ((Ping_tickImpl ^^ k) s) = out s @ replicate k (ToClient (PingreqMsg_SN '''') 0))) \<and>
    m_terminating (st ((Ping_tickImpl ^^ Suc n) s))"
proof -
  define n where "n = unat (m_retryCount (st s)) - unat (pg_attempt (ping s))"
  have k: "\<not> m_terminating (st ((Ping_tickImpl ^^ k) s)) \<and>
      out ((Ping_tickImpl ^^ k) s) = out s @ replicate k (ToClient (PingreqMsg_SN '''') 0) \<and>
      unat (pg_attempt (ping ((Ping_tickImpl ^^ k) s))) = unat (pg_attempt (ping s)) + k \<and>
      m_retryCount (st ((Ping_tickImpl ^^ k) s)) = m_retryCount (st s) \<and>
      cbs ((Ping_tickImpl ^^ k) s) = cbs s" if "k \<le> n" for k
    using that
  proof (induction k)
    case (Suc k)
    then have "pg_attempt (ping ((Ping_tickImpl ^^ k) s)) < m_retryCount (st ((Ping_tickImpl ^^ k) s))"
      by (simp add: word_less_nat_alt n_def)
    from ping_tick_counts [OF this] Suc assms(4) show ?case by (simp add: replicate_append_same)
  qed (simp add: assms)
  have "\<not> pg_attempt (ping ((Ping_tickImpl ^^ n) s)) < m_retryCount (st ((Ping_tickImpl ^^ n) s))"
    using k [of n] assms(1) by (simp add: word_less_nat_alt word_le_nat_alt n_def)
  then have "m_terminating (st (Ping_tickImpl ((Ping_tickImpl ^^ n) s)))"
    using k [of n] assms(3) by (simp add: Ping_tickImpl_def Ping_sendPing_def not_less SessionImpl_termRequest_def)
  with k show ?thesis by (simp add: n_def Let_def)
qed

end
