(* ===== verification/Gw_Connect.thy ===== *)
theory Gw_Connect
  imports Gw_Ping
begin

text \<open>
  Connecting a client, \<^verbatim>\<open>src/gateway/lib/src/session_op/Connect.{h,cpp}\<close>: the operation
  collects the CONNECT, the will topic and the will message of the client, asks for what is
  missing with retries, forwards the connection request to the broker and translates the
  broker's answer. It also connects on behalf of a client that only publishes with
  quality of service -1.
\<close>

section \<open>Operations\<close>

text \<open>Return codes of the broker's CONNACK.\<close>

definition Connack_Accepted :: u8 where "Connack_Accepted = 0"

definition Connack_IdentifierRejected :: u8 where "Connack_IdentifierRejected = 2"

definition Connack_ServerUnavailable :: u8 where "Connack_ServerUnavailable = 3"

definition Connect_init :: connect_op where
  "Connect_init = \<lparr>co_clientId = '''', co_authInfo = ('''', []), co_will = will_info_default,
     co_keepAlive = 0, co_clean = False, co_internalState = connect_state_default\<rparr>"

definition Connect_clearConnectionInfo :: "bool \<Rightarrow> session \<Rightarrow> session" where
  "Connect_clearConnectionInfo clearClientId s =
     (let s = (if clearClientId
               then s\<lparr>st := (st s)\<lparr>m_clientId := '''', m_username := '''', m_password := []\<rparr>\<rparr>
               else s);
          s = s\<lparr>st := (st s)\<lparr>m_connStatus := Disconnected, m_keepAlive := 0,
                             m_will := will_info_default\<rparr>\<rparr>
      in SessionImpl_connStatusUpdated s)"

definition Connect_clearInternalState :: "session \<Rightarrow> session" where
  "Connect_clearInternalState s =
     s\<lparr>connect := (connect s)\<lparr>co_internalState := connect_state_default, co_clientId := '''',
         co_will := will_info_default, co_keepAlive := 0, co_clean := False,
         co_authInfo := ('''', [])\<rparr>\<rparr>"

definition Connect_RetCodeMap :: "return_code list" where
  "Connect_RetCodeMap =
     [Accepted, NotSupported, NotSupported, Congestion, NotSupported, NotSupported]"

definition Connect_retCode :: "u8 \<Rightarrow> return_code" where
  "Connect_retCode respCode =
     (if unat respCode < length Connect_RetCodeMap then Connect_RetCodeMap ! unat respCode
      else NotSupported)"

definition Connect_processAck :: "u8 \<Rightarrow> session \<Rightarrow> session" where
  "Connect_processAck respCode s =
     (let s = (if \<not> cs_pubOnlyClient (co_internalState (connect s))
               then sendToClient (ConnackMsg_SN (Connect_retCode respCode)) s
               else SessionOp_cancelTick OpConnect s)
      in
      if Connect_retCode respCode \<noteq> Accepted then
        Connect_clearInternalState (Connect_clearConnectionInfo True s)
      else
        let s = (if \<not> m_clientConnectReported (st s) then
                   SessionImpl_clientConnectedReport (co_clientId (connect s))
                     (s\<lparr>st := (st s)\<lparr>m_clientConnectReported := True\<rparr>\<rparr>)
                 else s);
            s = s\<lparr>st := (st s)\<lparr>m_clientId := co_clientId (connect s), m_connStatus := Connected,
                    m_keepAlive := co_keepAlive (connect s), m_will := co_will (connect s),
                    m_username := fst (co_authInfo (connect s)),
                    m_password := snd (co_authInfo (connect s))\<rparr>\<rparr>;
            s = Connect_clearInternalState s;
            s = SessionImpl_connStatusUpdated s
        in
        if co_clean (connect s)
        then s\<lparr>st := (st s)\<lparr>m_regMgr := RegMgr_clearRegistrations (m_regMgr (st s))\<rparr>\<rparr>
        else s)"

definition Connect_connectMsg :: "session \<Rightarrow> mqtt_connect" where
  "Connect_connectMsg s =
     (let c = connect s; username = fst (co_authInfo c); password = snd (co_authInfo c);
          msg = mqtt_connect_default\<lparr>mc_clientId := co_clientId c,
                  mc_keepAlive := co_keepAlive c, mc_cleanSession := co_clean c\<rparr>;
          msg = (if wi_topic (co_will c) \<noteq> '''' then
                   msg\<lparr>mc_willFlag := True, mc_willTopic := wi_topic (co_will c),
                       mc_willMessage := wi_msg (co_will c),
                       mc_willQos := translateQosForBroker (wi_qos (co_will c)),
                       mc_willRetain := wi_retain (co_will c)\<rparr>
                 else msg)
      in
      if username \<noteq> '''' then
        let msg = msg\<lparr>mc_userName := username, mc_userNameFlag := True\<rparr>
        in if password \<noteq> [] then msg\<lparr>mc_password := password, mc_passwordFlag := True\<rparr> else msg
      else msg)"

definition Connect_forwardConnectionReq :: "session \<Rightarrow> session" where
  "Connect_forwardConnectionReq s = sendToBroker (ConnectMsg (Connect_connectMsg s)) s"

text \<open>The comparison of the requested connection with the current one: the three \<^verbatim>\<open>break\<close>
  conditions before the pending disconnection is looked at.\<close>

definition Connect_sameClient :: "session \<Rightarrow> bool" where
  "Connect_sameClient s \<longleftrightarrow>
     \<not> (wi_topic (m_will (st s)) \<noteq> wi_topic (co_will (connect s))) \<and>
     \<not> (wi_topic (m_will (st s)) \<noteq> '''' \<and> wi_topic (co_will (connect s)) \<noteq> '''' \<and>
        m_will (st s) \<noteq> co_will (connect s)) \<and>
     \<not> (m_clientId (st s) \<noteq> co_clientId (connect s))"

text \<open>The part of \<^verbatim>\<open>doNextStep\<close> for a request that has everything it needs.\<close>

definition Connect_completeRequest :: "session \<Rightarrow> session" where
  "Connect_completeRequest s =
     (if m_clientId (st s) \<noteq> '''' \<and> m_clientId (st s) \<noteq> co_clientId (connect s) then
        Connect_processAck Connack_IdentifierRejected s
      else if Connect_sameClient s \<and> m_pendingClientDisconnect (st s) then
        Connect_processAck Connack_Accepted s
      else if Connect_sameClient s \<and> m_keepAlive (st s) = co_keepAlive (connect s) then
        let s = (if m_connStatus (st s) = Asleep \<and> m_brokerConnected (st s)
                 then sendToBroker PingreqMsg s else s);
            s = (if co_clean (connect s)
                 then s\<lparr>st := (st s)\<lparr>m_regMgr := RegMgr_clearRegistrations (m_regMgr (st s))\<rparr>\<rparr>
                 else s)
        in Connect_processAck Connack_Accepted s
      else if \<not> m_brokerConnected (st s) then
        Connect_processAck Connack_ServerUnavailable s
      else if m_connStatus (st s) \<noteq> Disconnected then
        let s = sendToBroker DisconnectMsg s;
            s = s\<lparr>connect := (connect s)\<lparr>co_internalState :=
                    (co_internalState (connect s))\<lparr>cs_waitingForReconnect := True\<rparr>\<rparr>\<rparr>;
            s = SessionOp_nextTickReq OpConnect (m_retryPeriod (st s)) s
        in SessionImpl_brokerReconnectRequest s
      else
        let s = s\<lparr>connect := (connect s)\<lparr>co_authInfo :=
                    (if co_clientId (connect s) \<noteq> m_clientId (st s) \<or>
                        m_clientId (st s) = '''' \<and> \<not> m_clientConnectReported (st s)
                     then SessionImpl_authInfoRequest (co_clientId (connect s)) s
                     else (m_username (st s), m_password (st s)))\<rparr>\<rparr>;
            s = Connect_forwardConnectionReq s
        in
        if cs_pubOnlyClient (co_internalState (connect s))
        then SessionOp_nextTickReq OpConnect (m_retryPeriod (st s)) s else s)"

definition Connect_doNextStep :: "session \<Rightarrow> session" where
  "Connect_doNextStep s =
     (let s = SessionOp_cancelTick OpConnect s in
      if m_retryCount (st s) \<le> cs_attempt (co_internalState (connect s)) then
        let s = s\<lparr>connect := (connect s)\<lparr>co_clientId := ''''\<rparr>\<rparr>;
            s = s\<lparr>st := (st s)\<lparr>m_connStatus := Disconnected\<rparr>\<rparr>
        in SessionImpl_connStatusUpdated s
      else
        let s = s\<lparr>connect := (connect s)\<lparr>co_internalState := (co_internalState (connect s))
                    \<lparr>cs_attempt := cs_attempt (co_internalState (connect s)) + 1\<rparr>\<rparr>\<rparr>
        in
        if cs_waitingForReconnect (co_internalState (connect s)) then
          SessionImpl_termRequest (Connect_processAck Connack_ServerUnavailable s)
        else if cs_hasWillMsg (co_internalState (connect s)) then
          let s = fault_if (\<not> cs_hasWillTopic (co_internalState (connect s)))
                    (AssertFailed OpConnect ''hasWillTopic'') s;
              s = fault_if (\<not> cs_hasClientId (co_internalState (connect s)))
                    (AssertFailed OpConnect ''hasClientId'') s
          in Connect_completeRequest s
        else
          let s = fault_if (\<not> cs_hasClientId (co_internalState (connect s)))
                    (AssertFailed OpConnect ''hasClientId'') s;
              s = (if cs_hasWillTopic (co_internalState (connect s))
                   then sendToClient WillmsgreqMsg_SN s else sendToClient WilltopicreqMsg_SN s)
          in SessionOp_nextTickReq OpConnect (m_retryPeriod (st s)) s)"

definition Connect_tickImpl :: "session \<Rightarrow> session" where
  "Connect_tickImpl s = Connect_doNextStep s"

definition Connect_brokerConnectionUpdatedImpl :: "session \<Rightarrow> session" where
  "Connect_brokerConnectionUpdatedImpl s =
     (if \<not> cs_waitingForReconnect (co_internalState (connect s)) then s
      else if \<not> m_brokerConnected (st s) then Connect_clearConnectionInfo False s
      else Connect_doNextStep (s\<lparr>connect := (connect s)\<lparr>co_internalState :=
             (co_internalState (connect s))\<lparr>cs_waitingForReconnect := False\<rparr>\<rparr>\<rparr>))"

definition Connect_handle_ConnectMsg_SN ::
    "string \<Rightarrow> u16 \<Rightarrow> bool \<Rightarrow> bool \<Rightarrow> session \<Rightarrow> session" where
  "Connect_handle_ConnectMsg_SN clientId duration will clean s =
     (let reqClientId = (if clientId = '''' then m_defaultClientId (st s) else clientId) in
      if m_connStatus (st s) \<noteq> Disconnected \<and> reqClientId \<noteq> m_clientId (st s) then
        let s = SessionImpl_reportError
                  ''Different client id reconnection in the same session'' s;
            s = SessionOp_sendDisconnectToClient s;
            s = s\<lparr>st := (st s)\<lparr>m_connStatus := Disconnected\<rparr>\<rparr>;
            s = SessionImpl_connStatusUpdated s
        in SessionImpl_termRequest s
      else
        let s = fault_if (\<not> (m_clientId (st s) = '''' \<or> m_clientId (st s) = reqClientId))
                  (AssertFailed OpConnect ''clientId'') s;
            s = (if cs_hasClientId (co_internalState (connect s))
                 then s\<lparr>connect := (connect s)\<lparr>co_internalState := connect_state_default\<rparr>\<rparr>
                 else s);
            s = s\<lparr>connect := (connect s)\<lparr>
                    co_internalState := (co_internalState (connect s))\<lparr>cs_hasClientId := True\<rparr>,
                    co_clientId := reqClientId, co_keepAlive := duration, co_clean := clean\<rparr>\<rparr>;
            s = (if will then s
                 else s\<lparr>connect := (connect s)\<lparr>
                        co_internalState := (co_internalState (connect s))
                          \<lparr>cs_hasWillTopic := True, cs_hasWillMsg := True\<rparr>,
                        co_will := (if clean then will_info_default else m_will (st s))\<rparr>\<rparr>)
        in
        if m_connStatus (st s) = Disconnected \<and> \<not> m_brokerConnected (st s) \<and>
           \<not> cs_waitingForReconnect (co_internalState (connect s)) \<and>
           \<not> m_pendingClientDisconnect (st s) then
          SessionOp_nextTickReq OpConnect (m_retryPeriod (st s))
            (s\<lparr>connect := (connect s)\<lparr>co_internalState :=
               (co_internalState (connect s))\<lparr>cs_waitingForReconnect := True\<rparr>\<rparr>\<rparr>)
        else Connect_doNextStep s)"

definition Connect_handle_WilltopicMsg_SN ::
    "string \<Rightarrow> sn_qos \<Rightarrow> bool \<Rightarrow> session \<Rightarrow> session" where
  "Connect_handle_WilltopicMsg_SN willTopic willQos willRetain s =
     (if \<not> cs_hasClientId (co_internalState (connect s)) \<or>
         cs_hasWillMsg (co_internalState (connect s)) then s
      else
        let s = s\<lparr>connect := (connect s)\<lparr>
                    co_internalState := (co_internalState (connect s))
                      \<lparr>cs_hasWillTopic := True, cs_attempt := 0\<rparr>,
                    co_will := (co_will (connect s))\<lparr>wi_topic := willTopic,
                      wi_qos := translateQos_sn willQos, wi_retain := willRetain\<rparr>\<rparr>\<rparr>;
            s = (if wi_topic (co_will (connect s)) = '''' then
                   s\<lparr>connect := (connect s)\<lparr>co_internalState :=
                       (co_internalState (connect s))\<lparr>cs_hasWillMsg := True\<rparr>\<rparr>\<rparr>
                 else if m_connStatus (st s) = Connected then sendToBroker PingreqMsg s
                 else s)
        in Connect_doNextStep s)"

definition Connect_handle_WillmsgMsg_SN :: "data_buf \<Rightarrow> session \<Rightarrow> session" where
  "Connect_handle_WillmsgMsg_SN willMsg s =
     (if \<not> cs_hasWillTopic (co_internalState (connect s)) then s
      else
        let s = fault_if (\<not> cs_hasClientId (co_internalState (connect s)))
                  (AssertFailed OpConnect ''hasClientId'') s;
            s = s\<lparr>connect := (connect s)\<lparr>
                    co_internalState := (co_internalState (connect s))
                      \<lparr>cs_hasWillMsg := True, cs_attempt := 0\<rparr>,
                    co_will := (co_will (connect s))\<lparr>wi_msg := willMsg\<rparr>\<rparr>\<rparr>
        in Connect_doNextStep s)"

definition Connect_handle_PublishMsg_SN :: "sn_publish \<Rightarrow> session \<Rightarrow> session" where
  "Connect_handle_PublishMsg_SN msg s =
     (if m_connStatus (st s) \<noteq> Disconnected \<or> m_pendingClientDisconnect (st s) \<or>
         m_clientId (st s) \<noteq> '''' \<or> co_clientId (connect s) \<noteq> '''' then s
      else if sp_qos msg \<noteq> SN_NoGwPublish then s
      else
        let s = Connect_clearInternalState s;
            s = s\<lparr>connect := (connect s)\<lparr>
                    co_clientId := m_defaultClientId (st s),
                    co_keepAlive := m_pubOnlyKeepAlive (st s), co_clean := True,
                    co_internalState := (co_internalState (connect s))\<lparr>cs_hasClientId := True,
                      cs_hasWillTopic := True, cs_hasWillMsg := True, cs_pubOnlyClient := True\<rparr>\<rparr>\<rparr>
        in
        if m_brokerConnected (st s) then Connect_doNextStep s
        else
          SessionOp_nextTickReq OpConnect (m_retryPeriod (st s))
            (s\<lparr>connect := (connect s)\<lparr>co_internalState :=
               (co_internalState (connect s))\<lparr>cs_waitingForReconnect := True\<rparr>\<rparr>\<rparr>))"

definition Connect_handle_ConnackMsg :: "u8 \<Rightarrow> session \<Rightarrow> session" where
  "Connect_handle_ConnackMsg returnCode s =
     (if \<not> cs_hasWillMsg (co_internalState (connect s)) then s
      else Connect_processAck returnCode s)"

section \<open>Dispatch of messages to the operation\<close>

fun Connect_handle_sn :: "sn_msg \<Rightarrow> session \<Rightarrow> session" where
  "Connect_handle_sn (ConnectMsg_SN cid dur will clean) s =
     Connect_handle_ConnectMsg_SN cid dur will clean s"
| "Connect_handle_sn (WilltopicMsg_SN t q r) s = Connect_handle_WilltopicMsg_SN t q r s"
| "Connect_handle_sn (WillmsgMsg_SN d) s = Connect_handle_WillmsgMsg_SN d s"
| "Connect_handle_sn (PublishMsg_SN p) s = Connect_handle_PublishMsg_SN p s"
| "Connect_handle_sn _ s = s"

fun Connect_handle_mqtt :: "mqtt_msg \<Rightarrow> session \<Rightarrow> session" where
  "Connect_handle_mqtt (ConnackMsg rc sp) s = Connect_handle_ConnackMsg rc s"
| "Connect_handle_mqtt _ s = s"

section \<open>Contract\<close>

lemma op_frame_Connect_steps [op_frame_rules]:
  assumes "op_frame OpConnect s0 s"
  shows "op_frame OpConnect s0 (Connect_clearConnectionInfo b s)"
    and "op_frame OpConnect s0 (Connect_clearInternalState s)"
    and "op_frame OpConnect s0 (Connect_forwardConnectionReq s)"
  unfolding Connect_clearConnectionInfo_def Connect_clearInternalState_def
    Connect_forwardConnectionReq_def
  using assms by (auto intro!: op_frame_rules op_frame_st_upd simp: st_frame_def)

lemma op_frame_Connect_processAck [op_frame_rules]:
  "op_frame OpConnect s0 s \<Longrightarrow> op_frame OpConnect s0 (Connect_processAck rc s)"
  unfolding Connect_processAck_def
  by (auto intro!: op_frame_rules op_frame_st_upd simp: st_frame_def)

lemma op_frame_Connect_completeRequest [op_frame_rules]:
  "op_frame OpConnect s0 s \<Longrightarrow> op_frame OpConnect s0 (Connect_completeRequest s)"
  unfolding Connect_completeRequest_def by (assumption | rule op_frame_rules)+

lemma op_frame_Connect_doNextStep [op_frame_rules]:
  "op_frame OpConnect s0 s \<Longrightarrow> op_frame OpConnect s0 (Connect_doNextStep s)"
  unfolding Connect_doNextStep_def by (assumption | rule op_frame_rules)+

lemma op_frame_Connect_tick [op_frame_rules]:
  "op_frame OpConnect s0 s \<Longrightarrow> op_frame OpConnect s0 (Connect_tickImpl s)"
  unfolding Connect_tickImpl_def by (rule op_frame_rules)

lemma op_frame_Connect_broker [op_frame_rules]:
  "op_frame OpConnect s0 s \<Longrightarrow> op_frame OpConnect s0 (Connect_brokerConnectionUpdatedImpl s)"
  unfolding Connect_brokerConnectionUpdatedImpl_def by (assumption | rule op_frame_rules)+

lemma op_frame_Connect_handlers [op_frame_rules]:
  assumes "op_frame OpConnect s0 s"
  shows "op_frame OpConnect s0 (Connect_handle_ConnectMsg_SN cid dur will clean s)"
    and "op_frame OpConnect s0 (Connect_handle_WilltopicMsg_SN t q r s)"
    and "op_frame OpConnect s0 (Connect_handle_WillmsgMsg_SN d s)"
    and "op_frame OpConnect s0 (Connect_handle_PublishMsg_SN p s)"
  unfolding Connect_handle_ConnectMsg_SN_def Connect_handle_WilltopicMsg_SN_def
    Connect_handle_WillmsgMsg_SN_def Connect_handle_PublishMsg_SN_def
  using assms by - (assumption | rule op_frame_rules)+

lemma op_frame_Connect_handle_sn [op_frame_rules]:
  "op_frame OpConnect s0 s \<Longrightarrow> op_frame OpConnect s0 (Connect_handle_sn m s)"
  by (cases m) (simp_all add: op_frame_rules)

lemma op_frame_Connect_handle_mqtt [op_frame_rules]:
  "op_frame OpConnect s0 s \<Longrightarrow> op_frame OpConnect s0 (Connect_handle_mqtt m s)"
  by (cases m) (simp_all add: Connect_handle_ConnackMsg_def op_frame_rules)

section \<open>Interpretation\<close>

interpretation connect_op: session_op OpConnect Connect_tickImpl Connect_brokerConnectionUpdatedImpl Connect_handle_sn Connect_handle_mqtt
  by unfold_locales (simp_all add: op_frame_rules)

section \<open>The keep-alive timer\<close>

lemma ping_armed_Connect_steps [ping_simps]:
  "clock_ok s \<Longrightarrow> ping_armed (Connect_clearConnectionInfo b s)"
  "ping_armed (Connect_clearInternalState s) = ping_armed s"
  "clock_ok (Connect_clearInternalState s) = clock_ok s"
  by (simp_all add: Connect_clearConnectionInfo_def Connect_clearInternalState_def Let_def ping_simps)

lemma ping_armed_Connect_processAck [ping_simps]:
  "clock_ok s \<Longrightarrow> ping_armed (Connect_processAck rc s)"
  by (simp add: Connect_processAck_def Let_def ping_simps)

lemma ping_armed_Connect_doNextStep [ping_simps]:
  "clock_ok s \<Longrightarrow> ping_armed s \<Longrightarrow> ping_armed (Connect_doNextStep s)"
  by (simp add: Connect_doNextStep_def Connect_completeRequest_def Connect_forwardConnectionReq_def
      Let_def ping_simps)

lemma ping_armed_Connect_sn:
  "clock_ok s \<Longrightarrow> ping_armed s \<Longrightarrow> ping_armed (Connect_handle_sn m s)"
  by (cases m) (simp_all add: Connect_handle_ConnectMsg_SN_def Connect_handle_WilltopicMsg_SN_def
      Connect_handle_WillmsgMsg_SN_def Connect_handle_PublishMsg_SN_def Let_def ping_simps)

lemma ping_armed_Connect_others:
  "clock_ok s \<Longrightarrow> ping_armed s \<Longrightarrow> ping_armed (Connect_handle_mqtt b s)"
  "clock_ok s \<Longrightarrow> ping_armed s \<Longrightarrow> ping_armed (Connect_tickImpl s)"
  "clock_ok s \<Longrightarrow> ping_armed s \<Longrightarrow> ping_armed (Connect_brokerConnectionUpdatedImpl s)"
  by (cases b) (simp_all add: Connect_handle_ConnackMsg_def Connect_tickImpl_def
      Connect_brokerConnectionUpdatedImpl_def ping_simps)

end
