(* ===== verification/Gw_Disconnect.thy ===== *)
theory Gw_Disconnect
  imports Gw_Ping
begin

text \<open>
  Disconnecting a client, \<^verbatim>\<open>src/gateway/lib/src/session_op/Disconnect.{h,cpp}\<close>: a DISCONNECT
  with no duration ends the session towards both sides; the loss of the broker ends it unless a
  reconnection is under way or the client is asleep, when the disconnection is kept for later.
\<close>

section \<open>Operations\<close>

definition Disconnect_sendDisconnectSn :: "session \<Rightarrow> session" where
  "Disconnect_sendDisconnectSn s =
     (let s = SessionOp_sendDisconnectToClient s;
          s = s\<lparr>st := (st s)\<lparr>m_connStatus := Disconnected\<rparr>\<rparr>
      in SessionImpl_connStatusUpdated s)"

definition Disconnect_brokerConnectionUpdatedImpl :: "session \<Rightarrow> session" where
  "Disconnect_brokerConnectionUpdatedImpl s =
     (if m_brokerConnected (st s) \<or> m_reconnectingBroker (st s) then s
      else if m_connStatus (st s) = Asleep
      then s\<lparr>st := (st s)\<lparr>m_pendingClientDisconnect := True\<rparr>\<rparr>
      else
        let s = (if m_connStatus (st s) = Connected then Disconnect_sendDisconnectSn s else s)
        in SessionImpl_termRequest s)"

definition Disconnect_handle_DisconnectMsg_SN :: "u16 option \<Rightarrow> session \<Rightarrow> session" where
  "Disconnect_handle_DisconnectMsg_SN duration s =
     (if duration \<noteq> None then s
      else
        let s = sendToBroker DisconnectMsg s;
            s = Disconnect_sendDisconnectSn s
        in SessionImpl_termRequest s)"

section \<open>Dispatch of messages to the operation\<close>

fun Disconnect_handle_sn :: "sn_msg \<Rightarrow> session \<Rightarrow> session" where
  "Disconnect_handle_sn (DisconnectMsg_SN d) s = Disconnect_handle_DisconnectMsg_SN d s"
| "Disconnect_handle_sn _ s = s"

section \<open>Contract\<close>

lemma op_frame_Disconnect_steps [op_frame_rules]:
  assumes "op_frame OpDisconnect s0 s"
  shows "op_frame OpDisconnect s0 (Disconnect_sendDisconnectSn s)"
  unfolding Disconnect_sendDisconnectSn_def
  using assms by - (assumption | rule op_frame_rules)+

lemma op_frame_Disconnect [op_frame_rules]:
  assumes "op_frame OpDisconnect s0 s"
  shows "op_frame OpDisconnect s0 (Disconnect_brokerConnectionUpdatedImpl s)"
    and "op_frame OpDisconnect s0 (Disconnect_handle_DisconnectMsg_SN d s)"
  unfolding Disconnect_brokerConnectionUpdatedImpl_def Disconnect_handle_DisconnectMsg_SN_def
  using assms by - (assumption | rule op_frame_rules)+

lemma op_frame_Disconnect_handle_sn [op_frame_rules]:
  "op_frame OpDisconnect s0 s \<Longrightarrow> op_frame OpDisconnect s0 (Disconnect_handle_sn m s)"
  by (cases m) (simp_all add: op_frame_rules)

section \<open>Interpretation\<close>

interpretation disconnect_op: session_op OpDisconnect "\<lambda>s. s" Disconnect_brokerConnectionUpdatedImpl Disconnect_handle_sn "\<lambda>_ s. s"
  by unfold_locales (simp_all add: op_frame_rules)

section \<open>The keep-alive timer\<close>

lemma ping_armed_Disconnect:
  assumes "clock_ok s" "ping_armed s"
  shows "ping_armed (Disconnect_brokerConnectionUpdatedImpl s)" "ping_armed (Disconnect_handle_sn m s)"
proof -
  show "ping_armed (Disconnect_brokerConnectionUpdatedImpl s)" using assms
    by (simp add: Disconnect_brokerConnectionUpdatedImpl_def Disconnect_sendDisconnectSn_def Let_def
        ping_simps)
  show "ping_armed (Disconnect_handle_sn m s)" using assms
    by (cases m) (simp_all add: Disconnect_handle_DisconnectMsg_SN_def Disconnect_sendDisconnectSn_def
        Let_def ping_simps)
qed

end
