(* ===== verification/Gw_Asleep.thy ===== *)
theory Gw_Asleep
  imports Gw_Ping
begin

text \<open>
  Keeping the broker connection of a sleeping client alive,
  \<^verbatim>\<open>src/gateway/lib/src/session_op/Asleep.{h,cpp}\<close>: a DISCONNECT with a duration puts the client
  to sleep, and the gateway pings the broker in its place.
\<close>

section \<open>Operations\<close>

definition Asleep_init :: asleep_op where
  "Asleep_init = \<lparr>as_attempt = 0, as_lastReq = 0, as_lastResp = 0\<rparr>"

definition Asleep_nextRetryTimestamp :: "session \<Rightarrow> u64" where
  "Asleep_nextRetryTimestamp s =
     (if as_lastResp (asleep s) < as_lastReq (asleep s)
      then as_lastReq (asleep s) + ucast (m_retryPeriod (st s)) else - 1)"

definition Asleep_nextKeepAliveTimestamp :: "session \<Rightarrow> u64" where
  "Asleep_nextKeepAliveTimestamp s =
     as_lastReq (asleep s) + ucast (m_keepAlive (st s)) * 1000"

definition Asleep_reqNextTick :: "session \<Rightarrow> session" where
  "Asleep_reqNextTick s =
     (let s = fault_if (as_lastReq (asleep s) = 0) (AssertFailed OpAsleep ''lastReq'') s;
          nextRetryTimestamp = Asleep_nextRetryTimestamp s;
          nextKeepAliveTimestamp = Asleep_nextKeepAliveTimestamp s
      in
      if as_lastResp (asleep s) < as_lastReq (asleep s) \<and>
         nextRetryTimestamp \<le> m_timestamp (st s) then
        SessionOp_nextTickReq OpAsleep 1 s
      else if nextKeepAliveTimestamp \<le> m_timestamp (st s) then
        SessionOp_nextTickReq OpAsleep 1 s
      else
        let nextTickTimestamp = min nextRetryTimestamp nextKeepAliveTimestamp;
            s = fault_if (\<not> m_timestamp (st s) < nextTickTimestamp)
                  (AssertFailed OpAsleep ''nextTickTimestamp'') s
        in SessionOp_nextTickReq OpAsleep (ucast (nextTickTimestamp - m_timestamp (st s))) s)"

definition Asleep_doPing :: "session \<Rightarrow> session" where
  "Asleep_doPing s =
     (if m_retryCount (st s) \<le> as_attempt (asleep s)
      then s\<lparr>st := (st s)\<lparr>m_pendingClientDisconnect := True\<rparr>\<rparr>
      else
        let s = sendToBroker PingreqMsg s;
            s = s\<lparr>asleep := (asleep s)\<lparr>as_lastReq := m_timestamp (st s)\<rparr>\<rparr>
        in Asleep_reqNextTick s)"

definition Asleep_tickImpl :: "session \<Rightarrow> session" where
  "Asleep_tickImpl s =
     (if m_pendingClientDisconnect (st s) \<or> m_connStatus (st s) \<noteq> Asleep then s
      else Asleep_doPing s)"

definition Asleep_brokerConnectionUpdatedImpl :: "session \<Rightarrow> session" where
  "Asleep_brokerConnectionUpdatedImpl s =
     (if \<not> m_brokerConnected (st s) \<and> \<not> m_reconnectingBroker (st s)
      then SessionOp_cancelTick OpAsleep s else s)"

definition Asleep_handle_DisconnectMsg_SN :: "u16 option \<Rightarrow> session \<Rightarrow> session" where
  "Asleep_handle_DisconnectMsg_SN duration s =
     (if duration = None then s
      else
        let s = SessionOp_sendDisconnectToClient s;
            s = s\<lparr>st := (st s)\<lparr>m_connStatus := Asleep\<rparr>\<rparr>;
            s = SessionImpl_connStatusUpdated s;
            s = s\<lparr>asleep := (asleep s)\<lparr>as_attempt := 0\<rparr>\<rparr>
        in Asleep_doPing s)"

text \<open>The two handlers for every other message of the client and of the broker.\<close>

definition Asleep_handle_MqttsnMessage :: "session \<Rightarrow> session" where
  "Asleep_handle_MqttsnMessage s =
     (if m_connStatus (st s) \<noteq> Asleep then SessionOp_cancelTick OpAsleep s else s)"

definition Asleep_handle_MqttMessage :: "session \<Rightarrow> session" where
  "Asleep_handle_MqttMessage s =
     (if m_connStatus (st s) \<noteq> Asleep then SessionOp_cancelTick OpAsleep s else s)"

definition Asleep_handle_PingrespMsg :: "session \<Rightarrow> session" where
  "Asleep_handle_PingrespMsg s =
     (if m_pendingClientDisconnect (st s) \<or> m_connStatus (st s) \<noteq> Asleep then s
      else
        let s = s\<lparr>asleep := (asleep s)\<lparr>as_lastResp := m_timestamp (st s), as_attempt := 0\<rparr>\<rparr>
        in Asleep_reqNextTick s)"

section \<open>Dispatch of messages to the operation\<close>

fun Asleep_handle_sn :: "sn_msg \<Rightarrow> session \<Rightarrow> session" where
  "Asleep_handle_sn (DisconnectMsg_SN d) s = Asleep_handle_DisconnectMsg_SN d s"
| "Asleep_handle_sn _ s = Asleep_handle_MqttsnMessage s"

fun Asleep_handle_mqtt :: "mqtt_msg \<Rightarrow> session \<Rightarrow> session" where
  "Asleep_handle_mqtt PingrespMsg s = Asleep_handle_PingrespMsg s"
| "Asleep_handle_mqtt _ s = Asleep_handle_MqttMessage s"

section \<open>Contract\<close>

lemma op_frame_Asleep_reqNextTick [op_frame_rules]:
  "op_frame OpAsleep s0 s \<Longrightarrow> op_frame OpAsleep s0 (Asleep_reqNextTick s)"
  unfolding Asleep_reqNextTick_def by (assumption | rule op_frame_rules)+

lemma op_frame_Asleep_doPing [op_frame_rules]:
  "op_frame OpAsleep s0 s \<Longrightarrow> op_frame OpAsleep s0 (Asleep_doPing s)"
  unfolding Asleep_doPing_def by (assumption | rule op_frame_rules)+

lemma op_frame_Asleep [op_frame_rules]:
  assumes "op_frame OpAsleep s0 s"
  shows "op_frame OpAsleep s0 (Asleep_tickImpl s)"
    and "op_frame OpAsleep s0 (Asleep_brokerConnectionUpdatedImpl s)"
    and "op_frame OpAsleep s0 (Asleep_handle_DisconnectMsg_SN d s)"
    and "op_frame OpAsleep s0 (Asleep_handle_MqttsnMessage s)"
    and "op_frame OpAsleep s0 (Asleep_handle_MqttMessage s)"
    and "op_frame OpAsleep s0 (Asleep_handle_PingrespMsg s)"
  unfolding Asleep_tickImpl_def Asleep_brokerConnectionUpdatedImpl_def
    Asleep_handle_DisconnectMsg_SN_def Asleep_handle_MqttsnMessage_def
    Asleep_handle_MqttMessage_def Asleep_handle_PingrespMsg_def
  using assms by - (assumption | rule op_frame_rules)+

lemma op_frame_Asleep_handle_sn [op_frame_rules]:
  "op_frame OpAsleep s0 s \<Longrightarrow> op_frame OpAsleep s0 (Asleep_handle_sn m s)"
  by (cases m) (simp_all add: op_frame_rules)

lemma op_frame_Asleep_handle_mqtt [op_frame_rules]:
  "op_frame OpAsleep s0 s \<Longrightarrow> op_frame OpAsleep s0 (Asleep_handle_mqtt m s)"
  by (cases m) (simp_all add: op_frame_rules)

section \<open>Interpretation\<close>

interpretation asleep_op: session_op OpAsleep Asleep_tickImpl Asleep_brokerConnectionUpdatedImpl Asleep_handle_sn Asleep_handle_mqtt
  by unfold_locales (simp_all add: op_frame_rules)

section \<open>The keep-alive timer\<close>

lemma ping_armed_Asleep_steps [ping_simps]:
  "ping_armed (Asleep_reqNextTick s) = ping_armed s"
  "ping_armed (Asleep_doPing s) = ping_armed s"
  by (simp_all add: Asleep_doPing_def Asleep_reqNextTick_def Let_def ping_simps)

lemma ping_armed_Asleep:
  assumes "clock_ok s" "ping_armed s"
  shows "ping_armed (Asleep_tickImpl s)" "ping_armed (Asleep_brokerConnectionUpdatedImpl s)"
    "ping_armed (Asleep_handle_sn m s)" "ping_armed (Asleep_handle_mqtt b s)"
proof -
  show "ping_armed (Asleep_tickImpl s)" "ping_armed (Asleep_brokerConnectionUpdatedImpl s)"
    using assms by (simp_all add: Asleep_tickImpl_def Asleep_brokerConnectionUpdatedImpl_def ping_simps)
  show "ping_armed (Asleep_handle_sn m s)" using assms
    by (cases m) (simp_all add: Asleep_handle_DisconnectMsg_SN_def Asleep_handle_MqttsnMessage_def
        Let_def ping_simps)
  show "ping_armed (Asleep_handle_mqtt b s)" using assms
    by (cases b) (simp_all add: Asleep_handle_PingrespMsg_def Asleep_handle_MqttMessage_def
        Let_def ping_simps)
qed

end
