(* ===== verification/Gw_AsleepMonitor.thy ===== *)
theory Gw_AsleepMonitor
  imports Gw_Ping
begin

text \<open>
  Supervision of a sleeping client,
  \<^verbatim>\<open>src/gateway/lib/src/session_op/AsleepMonitor.{h,cpp}\<close>: a client that does not wake up within
  one and a half of the sleep duration it announced is disconnected from the broker and its
  session is terminated.
\<close>

section \<open>Operations\<close>

definition AsleepMonitor_init :: asleep_monitor_op where
  "AsleepMonitor_init = \<lparr>am_lastPing = 0, am_duration = 0\<rparr>"

definition AsleepMonitor_reqNextTickInternal :: "session \<Rightarrow> session" where
  "AsleepMonitor_reqNextTickInternal s =
     (let s = fault_if (am_lastPing (asleepMonitor s) = 0)
                (AssertFailed OpAsleepMonitor ''lastPing'') s;
          nextTimestamp =
            am_lastPing (asleepMonitor s) + (ucast (am_duration (asleepMonitor s)) :: u64)
      in
      if nextTimestamp \<le> m_timestamp (st s) then SessionOp_nextTickReq OpAsleepMonitor 1 s
      else SessionOp_nextTickReq OpAsleepMonitor (ucast (nextTimestamp - m_timestamp (st s))) s)"

definition AsleepMonitor_checkTickRequired :: "session \<Rightarrow> session" where
  "AsleepMonitor_checkTickRequired s =
     (if m_connStatus (st s) \<noteq> Asleep then SessionOp_cancelTick OpAsleepMonitor s else s)"

definition AsleepMonitor_tickImpl :: "session \<Rightarrow> session" where
  "AsleepMonitor_tickImpl s =
     (if m_connStatus (st s) = Asleep
      then SessionImpl_termRequest (sendToBroker DisconnectMsg s) else s)"

definition AsleepMonitor_handle_DisconnectMsg_SN :: "u16 option \<Rightarrow> session \<Rightarrow> session" where
  "AsleepMonitor_handle_DisconnectMsg_SN duration s =
     (case duration of
        None \<Rightarrow> s
      | Some d \<Rightarrow>
          if m_connStatus (st s) \<noteq> Asleep
          then fault_if True (AssertFailed OpAsleepMonitor ''Should_not_happen'') s
          else AsleepMonitor_reqNextTickInternal
                 (s\<lparr>asleepMonitor := (asleepMonitor s)\<lparr>am_lastPing := m_timestamp (st s),
                     am_duration := (ucast d * 3000) div 2\<rparr>\<rparr>))"

definition AsleepMonitor_handle_PingreqMsg_SN :: "session \<Rightarrow> session" where
  "AsleepMonitor_handle_PingreqMsg_SN s =
     (let s = s\<lparr>asleepMonitor := (asleepMonitor s)\<lparr>am_lastPing := m_timestamp (st s)\<rparr>\<rparr>;
          s = SessionOp_cancelTick OpAsleepMonitor s
      in
      if m_connStatus (st s) = Asleep then AsleepMonitor_reqNextTickInternal s else s)"

definition AsleepMonitor_handle_MqttsnMessage :: "session \<Rightarrow> session" where
  "AsleepMonitor_handle_MqttsnMessage s = AsleepMonitor_checkTickRequired s"

definition AsleepMonitor_handle_MqttMessage :: "session \<Rightarrow> session" where
  "AsleepMonitor_handle_MqttMessage s = AsleepMonitor_checkTickRequired s"

section \<open>Dispatch of messages to the operation\<close>

fun AsleepMonitor_handle_sn :: "sn_msg \<Rightarrow> session \<Rightarrow> session" where
  "AsleepMonitor_handle_sn (DisconnectMsg_SN d) s = AsleepMonitor_handle_DisconnectMsg_SN d s"
| "AsleepMonitor_handle_sn (PingreqMsg_SN c) s = AsleepMonitor_handle_PingreqMsg_SN s"
| "AsleepMonitor_handle_sn _ s = AsleepMonitor_handle_MqttsnMessage s"

definition AsleepMonitor_handle_mqtt :: "mqtt_msg \<Rightarrow> session \<Rightarrow> session" where
  "AsleepMonitor_handle_mqtt m s = AsleepMonitor_handle_MqttMessage s"

section \<open>Contract\<close>

lemma op_frame_AsleepMonitor_steps [op_frame_rules]:
  assumes "op_frame OpAsleepMonitor s0 s"
  shows "op_frame OpAsleepMonitor s0 (AsleepMonitor_reqNextTickInternal s)"
    and "op_frame OpAsleepMonitor s0 (AsleepMonitor_checkTickRequired s)"
  unfolding AsleepMonitor_reqNextTickInternal_def AsleepMonitor_checkTickRequired_def
  using assms by - (assumption | rule op_frame_rules)+

lemma op_frame_AsleepMonitor [op_frame_rules]:
  assumes "op_frame OpAsleepMonitor s0 s"
  shows "op_frame OpAsleepMonitor s0 (AsleepMonitor_tickImpl s)"
    and "op_frame OpAsleepMonitor s0 (AsleepMonitor_handle_DisconnectMsg_SN d s)"
    and "op_frame OpAsleepMonitor s0 (AsleepMonitor_handle_PingreqMsg_SN s)"
    and "op_frame OpAsleepMonitor s0 (AsleepMonitor_handle_MqttsnMessage s)"
    and "op_frame OpAsleepMonitor s0 (AsleepMonitor_handle_MqttMessage s)"
  unfolding AsleepMonitor_tickImpl_def AsleepMonitor_handle_DisconnectMsg_SN_def
    AsleepMonitor_handle_PingreqMsg_SN_def AsleepMonitor_handle_MqttsnMessage_def
    AsleepMonitor_handle_MqttMessage_def
  using assms by - (assumption | rule op_frame_rules)+

lemma op_frame_AsleepMonitor_handle_sn [op_frame_rules]:
  "op_frame OpAsleepMonitor s0 s \<Longrightarrow> op_frame OpAsleepMonitor s0 (AsleepMonitor_handle_sn m s)"
  by (cases m) (simp_all add: op_frame_rules)

lemma op_frame_AsleepMonitor_handle_mqtt [op_frame_rules]:
  "op_frame OpAsleepMonitor s0 s \<Longrightarrow> op_frame OpAsleepMonitor s0 (AsleepMonitor_handle_mqtt m s)"
  by (simp add: AsleepMonitor_handle_mqtt_def op_frame_rules)

section \<open>Interpretation\<close>

interpretation asleep_monitor_op: session_op OpAsleepMonitor AsleepMonitor_tickImpl "\<lambda>s. s" AsleepMonitor_handle_sn AsleepMonitor_handle_mqtt
  by unfold_locales (simp_all add: op_frame_rules)

end
