(* ===== verification/Gw_PubRecv.thy ===== *)
theory Gw_PubRecv
  imports Gw_SessionOp
begin

text \<open>
  Receiving publications from the broker,
  \<^verbatim>\<open>src/gateway/lib/src/session_op/PubRecv.{h,cpp}\<close>: the operation acknowledges them, holds a
  publication with quality of service 2 until its release, and queues every complete one in
  \<open>m_brokerPubs\<close>, from which the sending operation takes it.
\<close>

section \<open>Operations\<close>

definition PubRecv_init :: pub_recv_op where
  "PubRecv_init = \<lparr>pr_recvMsgs = []\<rparr>"

text \<open>The loop that makes room for a publication; \<^verbatim>\<open>pop_front\<close> on the empty list, which happens
  when the limit is 0, has no defined result.\<close>

fun PubRecv_makeRoom :: "u64 \<Rightarrow> pub_info list \<Rightarrow> pub_info list option" where
  "PubRecv_makeRoom limit [] = (if unat limit \<le> 0 then None else Some [])"
| "PubRecv_makeRoom limit (p # ps) =
     (if unat limit \<le> length (p # ps) then PubRecv_makeRoom limit ps else Some (p # ps))"

definition PubRecv_addPubInfo :: "pub_info \<Rightarrow> session \<Rightarrow> session" where
  "PubRecv_addPubInfo info s =
     (case PubRecv_makeRoom (m_sleepPubAccLimit (st s)) (m_brokerPubs (st s)) of
        None \<Rightarrow> fault_if True EmptyListPop s
      | Some pubs \<Rightarrow> s\<lparr>st := (st s)\<lparr>m_brokerPubs := pubs @ [info]\<rparr>\<rparr>)"

definition PubRecv_cleanIncomplete :: "session \<Rightarrow> session" where
  "PubRecv_cleanIncomplete s =
     s\<lparr>pubRecv := (pubRecv s)\<lparr>pr_recvMsgs :=
        filter (\<lambda>elem. \<not> (bp_timestamp elem + ucast (m_retryPeriod (st s)) < m_timestamp (st s)))
          (pr_recvMsgs (pubRecv s))\<rparr>\<rparr>"

definition PubRecv_cleanPubs :: "u16 option \<Rightarrow> session \<Rightarrow> session" where
  "PubRecv_cleanPubs packetId s =
     (let s = PubRecv_cleanIncomplete s in
      case packetId of
        None \<Rightarrow> s
      | Some pid \<Rightarrow> s\<lparr>pubRecv := (pubRecv s)\<lparr>pr_recvMsgs :=
                      filter (\<lambda>elem. \<not> bp_packetId elem = pid) (pr_recvMsgs (pubRecv s))\<rparr>\<rparr>)"

definition PubRecv_handle_PublishMsg :: "mqtt_publish \<Rightarrow> session \<Rightarrow> session" where
  "PubRecv_handle_PublishMsg msg s =
     (let packetId = optional_id (mp_packetId msg);
          s = (if mp_qos msg = MQ_AtLeastOnceDelivery then
                 let s = fault_if (mp_packetId msg = None) (AssertFailed OpPubRecv ''packetId'') s
                 in sendToBroker (PubackMsg packetId) s
               else s)
      in
      if mp_qos msg \<noteq> MQ_ExactlyOnceDelivery then
        let s = PubRecv_cleanPubs (mp_packetId msg) s
        in PubRecv_addPubInfo \<lparr>pi_topic = mp_topic msg, pi_msg = mp_payload msg,
             pi_qos = translateQos_mqtt (mp_qos msg), pi_retain = mp_retain msg,
             pi_dup = mp_dup msg\<rparr> s
      else
        let s = fault_if (mp_packetId msg = None) (AssertFailed OpPubRecv ''packetId'') s in
        if mp_dup msg \<and> (\<exists>elem \<in> set (pr_recvMsgs (pubRecv s)). packetId = bp_packetId elem) then
          let s = s\<lparr>pubRecv := (pubRecv s)\<lparr>pr_recvMsgs :=
                      update_first (\<lambda>elem. packetId = bp_packetId elem)
                        (\<lambda>elem. elem\<lparr>bp_topic := mp_topic msg, bp_msg := mp_payload msg,
                           bp_dup := mp_dup msg, bp_retain := mp_retain msg,
                           bp_timestamp := m_timestamp (st s)\<rparr>)
                        (pr_recvMsgs (pubRecv s))\<rparr>\<rparr>;
              s = PubRecv_cleanIncomplete s
          in sendToBroker (PubrecMsg packetId) s
        else
          let s = PubRecv_cleanPubs (mp_packetId msg) s;
              s = s\<lparr>pubRecv := (pubRecv s)\<lparr>pr_recvMsgs := pr_recvMsgs (pubRecv s) @
                      [\<lparr>bp_topic = mp_topic msg, bp_msg = mp_payload msg, bp_dup = mp_dup msg,
                        bp_retain = mp_retain msg, bp_packetId = packetId,
                        bp_timestamp = m_timestamp (st s)\<rparr>]\<rparr>\<rparr>
          in sendToBroker (PubrecMsg packetId) s)"

definition PubRecv_handle_PubrelMsg :: "u16 \<Rightarrow> session \<Rightarrow> session" where
  "PubRecv_handle_PubrelMsg packetId s =
     (let s = (case find (\<lambda>elem. packetId = bp_packetId elem) (pr_recvMsgs (pubRecv s)) of
                 None \<Rightarrow> s
               | Some elem \<Rightarrow>
                   let s = PubRecv_addPubInfo \<lparr>pi_topic = bp_topic elem, pi_msg = bp_msg elem,
                             pi_qos = QoS_ExactlyOnceDelivery, pi_retain = bp_retain elem,
                             pi_dup = False\<rparr> s
                   in s\<lparr>pubRecv := (pubRecv s)\<lparr>pr_recvMsgs :=
                         erase_first (\<lambda>elem. packetId = bp_packetId elem)
                           (pr_recvMsgs (pubRecv s))\<rparr>\<rparr>)
      in sendToBroker (PubcompMsg packetId) s)"

section \<open>Dispatch of messages to the operation\<close>

fun PubRecv_handle_mqtt :: "mqtt_msg \<Rightarrow> session \<Rightarrow> session" where
  "PubRecv_handle_mqtt (PublishMsg p) s = PubRecv_handle_PublishMsg p s"
| "PubRecv_handle_mqtt (PubrelMsg pid) s = PubRecv_handle_PubrelMsg pid s"
| "PubRecv_handle_mqtt _ s = s"

section \<open>Contract\<close>

lemma op_frame_PubRecv_steps [op_frame_rules]:
  assumes "op_frame OpPubRecv s0 s"
  shows "op_frame OpPubRecv s0 (PubRecv_addPubInfo info s)"
    and "op_frame OpPubRecv s0 (PubRecv_cleanIncomplete s)"
  unfolding PubRecv_addPubInfo_def PubRecv_cleanIncomplete_def
  using assms by - (assumption | rule op_frame_rules)+

lemma op_frame_PubRecv_cleanPubs [op_frame_rules]:
  "op_frame OpPubRecv s0 s \<Longrightarrow> op_frame OpPubRecv s0 (PubRecv_cleanPubs pid s)"
  unfolding PubRecv_cleanPubs_def by (assumption | rule op_frame_rules)+

lemma op_frame_PubRecv [op_frame_rules]:
  assumes "op_frame OpPubRecv s0 s"
  shows "op_frame OpPubRecv s0 (PubRecv_handle_PublishMsg p s)"
    and "op_frame OpPubRecv s0 (PubRecv_handle_PubrelMsg pid s)"
  unfolding PubRecv_handle_PublishMsg_def PubRecv_handle_PubrelMsg_def
  using assms by - (assumption | rule op_frame_rules)+

lemma op_frame_PubRecv_handle_mqtt [op_frame_rules]:
  "op_frame OpPubRecv s0 s \<Longrightarrow> op_frame OpPubRecv s0 (PubRecv_handle_mqtt m s)"
  by (cases m) (simp_all add: op_frame_rules)

section \<open>Interpretation\<close>

interpretation pub_recv_op: session_op OpPubRecv "\<lambda>s. s" "\<lambda>s. s" "\<lambda>_ s. s" PubRecv_handle_mqtt
  by unfold_locales (simp_all add: op_frame_rules)

section \<open>The queue of publications\<close>

lemma PubRecv_makeRoom_drop:
  "0 < unat limit \<Longrightarrow>
     PubRecv_makeRoom limit ps = Some (drop (length ps - (unat limit - 1)) ps)"
  by (induction ps) (auto simp: Suc_diff_le not_le)

text \<open>C33. The queue of publications for the client holds the newest ones, at most as many as the
  limit: adding one appends it and drops only as many of the oldest as the limit requires.\<close>

theorem addPubInfo_keeps_newest:
  assumes "0 < m_sleepPubAccLimit (st s)"
  shows "m_brokerPubs (st (PubRecv_addPubInfo info s)) =
      (let all = m_brokerPubs (st s) @ [info]
       in drop (length all - unat (m_sleepPubAccLimit (st s))) all) \<and>
    length (m_brokerPubs (st (PubRecv_addPubInfo info s))) \<le> unat (m_sleepPubAccLimit (st s)) \<and>
    faults (PubRecv_addPubInfo info s) = faults s"
proof -
  have pos: "0 < unat (m_sleepPubAccLimit (st s))" using assms by (simp add: word_less_nat_alt)
  have "length (m_brokerPubs (st s)) - (unat (m_sleepPubAccLimit (st s)) - 1) =
      Suc (length (m_brokerPubs (st s))) - unat (m_sleepPubAccLimit (st s))" using pos by simp
  moreover have "\<dots> \<le> length (m_brokerPubs (st s))" using pos by simp
  ultimately show ?thesis
    using pos by (simp add: PubRecv_addPubInfo_def PubRecv_makeRoom_drop Let_def)
qed

section \<open>Delivery with quality of service 2\<close>

text \<open>The publications that wait for their release, as a map from packet ids.\<close>

definition recv_ids :: "session \<Rightarrow> u16 list" where
  "recv_ids s = map bp_packetId (pr_recvMsgs (pubRecv s))"

definition recv_inv :: "session \<Rightarrow> bool" where
  "recv_inv s \<longleftrightarrow> distinct (recv_ids s)"

definition recv_abs :: "session \<Rightarrow> u16 \<rightharpoonup> brok_pub_info" where
  "recv_abs s = map_of (map (\<lambda>e. (bp_packetId e, e)) (pr_recvMsgs (pubRecv s)))"

definition recv_expired :: "session \<Rightarrow> brok_pub_info \<Rightarrow> bool" where
  "recv_expired s e \<longleftrightarrow> bp_timestamp e + ucast (m_retryPeriod (st s)) < m_timestamp (st s)"

lemma recv_expired_pubRecv [simp]: "recv_expired (s\<lparr>pubRecv := x\<rparr>) = recv_expired s"
  by (rule ext) (simp add: recv_expired_def)

lemma recv_abs_find:
  "recv_abs s pid = find (\<lambda>e. pid = bp_packetId e) (pr_recvMsgs (pubRecv s))"
proof -
  have "map_of (map (\<lambda>e. (bp_packetId e, e)) es) pid = find (\<lambda>e. pid = bp_packetId e) es" for es
    by (induction es) auto
  then show ?thesis by (simp add: recv_abs_def)
qed

lemma find_filter_distinct:
  "distinct (map bp_packetId es) \<Longrightarrow> find (\<lambda>e. pid = bp_packetId e) (filter P es) =
     (case find (\<lambda>e. pid = bp_packetId e) es of Some e \<Rightarrow> if P e then Some e else None | None \<Rightarrow> None)"
proof (induction es)
  case (Cons e es)
  have "find (\<lambda>e. pid = bp_packetId e) (filter P es) = None" if "pid = bp_packetId e"
    using Cons.prems that by (auto simp: find_None_iff)
  then show ?case using Cons by auto
qed simp

lemma find_packetId: "find (\<lambda>e. pid = bp_packetId e) es = Some e \<Longrightarrow> bp_packetId e = pid"
  by (induction es) (auto split: if_splits)

lemma find_erase_first_distinct:
  "distinct (map bp_packetId es) \<Longrightarrow> find (\<lambda>e. pid = bp_packetId e)
     (erase_first (\<lambda>e. qid = bp_packetId e) es) =
     (if pid = qid then None else find (\<lambda>e. pid = bp_packetId e) es)"
  by (induction es) (auto simp: find_None_iff)

lemma distinct_erase_first:
  "distinct (map f es) \<Longrightarrow> distinct (map f (erase_first P es))"
  by (induction es) (auto dest: set_erase_first [THEN subsetD])

lemma distinct_update_first:
  "(\<And>e. f (g e) = f e) \<Longrightarrow> map f (update_first P g es) = map f es"
  by (induction es) auto

lemma find_update_first:
  "(\<And>e. bp_packetId (g e) = bp_packetId e) \<Longrightarrow>
   find (\<lambda>e. pid = bp_packetId e) (update_first (\<lambda>e. qid = bp_packetId e) g es) =
   (if pid = qid then map_option g (find (\<lambda>e. pid = bp_packetId e) es)
    else find (\<lambda>e. pid = bp_packetId e) es)"
  by (induction es) auto

definition recv_live :: "session \<Rightarrow> u16 \<rightharpoonup> brok_pub_info" where
  "recv_live s pid = (case recv_abs s pid of None \<Rightarrow> None
     | Some e \<Rightarrow> if recv_expired s e then None else Some e)"

lemma recv_abs_clean:
  assumes "recv_inv s"
  shows "recv_abs (PubRecv_cleanIncomplete s) = recv_live s"
    and "recv_abs (PubRecv_cleanPubs (Some pid) s) = (recv_live s)(pid := None)"
    and "recv_inv (PubRecv_cleanIncomplete s)" and "recv_inv (PubRecv_cleanPubs (Some pid) s)"
  using assms
  by (auto simp: recv_abs_find fun_eq_iff PubRecv_cleanIncomplete_def PubRecv_cleanPubs_def Let_def
      recv_live_def recv_inv_def recv_ids_def find_filter_distinct distinct_map_filter
      recv_expired_def split: option.splits dest: find_packetId)

definition recv_entry :: "mqtt_publish \<Rightarrow> session \<Rightarrow> brok_pub_info" where
  "recv_entry msg s = \<lparr>bp_topic = mp_topic msg, bp_msg = mp_payload msg, bp_dup = mp_dup msg,
     bp_retain = mp_retain msg, bp_packetId = optional_id (mp_packetId msg),
     bp_timestamp = m_timestamp (st s)\<rparr>"

lemma recv_entry_not_expired:
  "unat (m_timestamp (st s)) < 2 ^ 63 \<Longrightarrow> \<not> recv_expired s (recv_entry msg s)"
  using u64_add_u32_unat [of "m_timestamp (st s)" "m_retryPeriod (st s)"]
  by (simp add: recv_expired_def recv_entry_def word_less_nat_alt)

lemma find_append1:
  "find P (es @ [e]) = (case find P es of None \<Rightarrow> if P e then Some e else None | Some x \<Rightarrow> Some x)"
  by (induction es) auto

lemma recv_abs_append:
  assumes "recv_inv s" "recv_abs s (bp_packetId e) = None"
  shows "recv_abs (s\<lparr>pubRecv := (pubRecv s)\<lparr>pr_recvMsgs := pr_recvMsgs (pubRecv s) @ [e]\<rparr>\<rparr>) =
     (recv_abs s)(bp_packetId e \<mapsto> e)"
    and "recv_inv (s\<lparr>pubRecv := (pubRecv s)\<lparr>pr_recvMsgs := pr_recvMsgs (pubRecv s) @ [e]\<rparr>\<rparr>)"
proof -
  show "recv_abs (s\<lparr>pubRecv := (pubRecv s)\<lparr>pr_recvMsgs := pr_recvMsgs (pubRecv s) @ [e]\<rparr>\<rparr>) =
     (recv_abs s)(bp_packetId e \<mapsto> e)"
    using assms by (auto simp: recv_abs_find fun_eq_iff find_append1 split: option.split)
  have "bp_packetId e \<notin> set (recv_ids s)"
    using assms(2) by (auto simp: recv_abs_find find_None_iff recv_ids_def)
  then show "recv_inv (s\<lparr>pubRecv := (pubRecv s)\<lparr>pr_recvMsgs := pr_recvMsgs (pubRecv s) @ [e]\<rparr>\<rparr>)"
    using assms(1) by (simp add: recv_inv_def recv_ids_def)
qed

lemma recv_abs_update:
  assumes "recv_inv s" "recv_abs s pid \<noteq> None"
    "\<And>e. bp_packetId e = pid \<Longrightarrow> g e = e'" "\<And>e. bp_packetId (g e) = bp_packetId e"
  shows "recv_abs (s\<lparr>pubRecv := (pubRecv s)\<lparr>pr_recvMsgs :=
      update_first (\<lambda>e. pid = bp_packetId e) g (pr_recvMsgs (pubRecv s))\<rparr>\<rparr>) = (recv_abs s)(pid \<mapsto> e')"
    and "recv_inv (s\<lparr>pubRecv := (pubRecv s)\<lparr>pr_recvMsgs :=
      update_first (\<lambda>e. pid = bp_packetId e) g (pr_recvMsgs (pubRecv s))\<rparr>\<rparr>)"
  using assms
  by (auto simp: recv_abs_find find_update_first fun_eq_iff recv_inv_def recv_ids_def
      distinct_update_first find_Some_iff)

text \<open>A publication with quality of service 2 is held under its packet id until it is released,
  whether it is new or a repetition: it replaces what was held under the id, what waited longer
  than the retry period is dropped, nothing is queued for the client, and PUBREC is the answer.\<close>

theorem publish_qos2_held:
  assumes "recv_inv s" "mp_qos msg = MQ_ExactlyOnceDelivery" "mp_packetId msg = Some pid"
    and "unat (m_timestamp (st s)) < 2 ^ 63" "cb_sendToBroker (cbs s)"
  shows "recv_inv (PubRecv_handle_PublishMsg msg s) \<and>
    recv_abs (PubRecv_handle_PublishMsg msg s) = (recv_live s)(pid \<mapsto> recv_entry msg s) \<and>
    st (PubRecv_handle_PublishMsg msg s) = st s \<and>
    out (PubRecv_handle_PublishMsg msg s) = out s @ [ToBroker (PubrecMsg pid)]"
proof -
  have id: "optional_id (mp_packetId msg) = pid" by (simp add: assms(3) optional_id_def)
  let ?e = "recv_entry msg s"
  show ?thesis
  proof (cases "mp_dup msg \<and> recv_abs s pid \<noteq> None")
    case True
    let ?g = "\<lambda>elem. elem\<lparr>bp_topic := mp_topic msg, bp_msg := mp_payload msg, bp_dup := mp_dup msg,
      bp_retain := mp_retain msg, bp_timestamp := m_timestamp (st s)\<rparr>"
    let ?u = "s\<lparr>pubRecv := (pubRecv s)\<lparr>pr_recvMsgs :=
      update_first (\<lambda>e. pid = bp_packetId e) ?g (pr_recvMsgs (pubRecv s))\<rparr>\<rparr>"
    have "?g e = ?e" if "bp_packetId e = pid" for e
      using that id by (simp add: recv_entry_def)
    then have u: "recv_abs ?u = (recv_abs s)(pid \<mapsto> ?e)" "recv_inv ?u"
      using recv_abs_update [OF assms(1), of pid ?g ?e] True by simp_all
    have "recv_live ?u = (recv_live s)(pid \<mapsto> ?e)"
      using u(1) recv_entry_not_expired [OF assms(4), of msg]
      by (auto simp: fun_eq_iff recv_live_def split: option.split)
    then have c: "recv_abs (PubRecv_cleanIncomplete ?u) = (recv_live s)(pid \<mapsto> ?e)"
      "recv_inv (PubRecv_cleanIncomplete ?u)"
      using recv_abs_clean [OF u(2)] by simp_all
    have "\<exists>elem \<in> set (pr_recvMsgs (pubRecv s)). pid = bp_packetId elem"
      using True by (auto simp: recv_abs_find find_Some_iff)
    then have "PubRecv_handle_PublishMsg msg s = sendToBroker (PubrecMsg pid) (PubRecv_cleanIncomplete ?u)"
      using True assms(2,3) id by (simp add: PubRecv_handle_PublishMsg_def fault_if_def)
    then show ?thesis using c assms(5)
      by (simp add: SessionImpl_sendToBroker_def emit_def PubRecv_cleanIncomplete_def recv_inv_def
          recv_ids_def recv_abs_def)
  next
    case False
    let ?u = "PubRecv_cleanPubs (Some pid) s"
    have "\<not> (mp_dup msg \<and> (\<exists>elem \<in> set (pr_recvMsgs (pubRecv s)). pid = bp_packetId elem))"
      using False by (auto simp: recv_abs_find find_None_iff)
    moreover have ts: "st ?u = st s" "out ?u = out s" "cbs ?u = cbs s"
      by (simp_all add: PubRecv_cleanPubs_def PubRecv_cleanIncomplete_def Let_def)
    ultimately have "PubRecv_handle_PublishMsg msg s = sendToBroker (PubrecMsg pid)
        (?u\<lparr>pubRecv := (pubRecv ?u)\<lparr>pr_recvMsgs := pr_recvMsgs (pubRecv ?u) @ [?e]\<rparr>\<rparr>)"
      using assms(2,3) id
      by (auto simp: PubRecv_handle_PublishMsg_def fault_if_def recv_entry_def Let_def)
    moreover have "bp_packetId ?e = pid" by (simp add: recv_entry_def id)
    ultimately show ?thesis
      using recv_abs_append [of ?u ?e] recv_abs_clean(2,4) [OF assms(1), of pid] assms(5) ts
      by (simp add: SessionImpl_sendToBroker_def emit_def recv_inv_def recv_ids_def recv_abs_def)
  qed
qed

definition recv_pub :: "brok_pub_info \<Rightarrow> pub_info" where
  "recv_pub e = \<lparr>pi_topic = bp_topic e, pi_msg = bp_msg e, pi_qos = QoS_ExactlyOnceDelivery,
     pi_retain = bp_retain e, pi_dup = False\<rparr>"

lemma pubrel_abs:
  assumes "recv_inv s"
  shows "recv_inv (PubRecv_handle_PubrelMsg pid s)"
    and "recv_abs (PubRecv_handle_PubrelMsg pid s) = (recv_abs s)(pid := None)"
    and "m_brokerPubs (st (PubRecv_handle_PubrelMsg pid s)) = (case recv_abs s pid of
        None \<Rightarrow> m_brokerPubs (st s)
      | Some e \<Rightarrow> m_brokerPubs (st (PubRecv_addPubInfo (recv_pub e) s)))"
    and "cbs (PubRecv_handle_PubrelMsg pid s) = cbs s"
    and "cb_sendToBroker (cbs s) \<Longrightarrow>
      out (PubRecv_handle_PubrelMsg pid s) = out s @ [ToBroker (PubcompMsg pid)]"
proof -
  let ?u = "case recv_abs s pid of None \<Rightarrow> s | Some e \<Rightarrow> PubRecv_addPubInfo (recv_pub e) s"
  have frame: "pubRecv (PubRecv_addPubInfo i s) = pubRecv s" "cbs (PubRecv_addPubInfo i s) = cbs s"
    "out (PubRecv_addPubInfo i s) = out s" for i
    by (simp_all add: PubRecv_addPubInfo_def fault_if_def split: option.split)
  have none: "erase_first (\<lambda>e. pid = bp_packetId e) (pr_recvMsgs (pubRecv s)) = pr_recvMsgs (pubRecv s)"
    if "recv_abs s pid = None"
    using that by (intro erase_first_none) (auto simp: recv_abs_find find_None_iff)
  have eq: "PubRecv_handle_PubrelMsg pid s = sendToBroker (PubcompMsg pid)
      (?u\<lparr>pubRecv := (pubRecv s)\<lparr>pr_recvMsgs :=
        erase_first (\<lambda>e. pid = bp_packetId e) (pr_recvMsgs (pubRecv s))\<rparr>\<rparr>)"
    using none by (auto simp: PubRecv_handle_PubrelMsg_def recv_abs_find [symmetric] frame Let_def
        recv_pub_def split: option.split)
  show "recv_inv (PubRecv_handle_PubrelMsg pid s)"
    using assms by (simp add: eq SessionImpl_sendToBroker_def emit_def recv_inv_def recv_ids_def
        distinct_erase_first)
  show "recv_abs (PubRecv_handle_PubrelMsg pid s) = (recv_abs s)(pid := None)"
    using assms by (simp add: eq SessionImpl_sendToBroker_def emit_def recv_inv_def recv_ids_def
        recv_abs_find fun_eq_iff find_erase_first_distinct)
  show "m_brokerPubs (st (PubRecv_handle_PubrelMsg pid s)) = (case recv_abs s pid of
        None \<Rightarrow> m_brokerPubs (st s)
      | Some e \<Rightarrow> m_brokerPubs (st (PubRecv_addPubInfo (recv_pub e) s)))"
    by (simp add: eq SessionImpl_sendToBroker_def emit_def split: option.split)
  show "cbs (PubRecv_handle_PubrelMsg pid s) = cbs s"
    "cb_sendToBroker (cbs s) \<Longrightarrow>
      out (PubRecv_handle_PubrelMsg pid s) = out s @ [ToBroker (PubcompMsg pid)]"
    using frame by (simp_all add: eq SessionImpl_sendToBroker_def emit_def split: option.split)
qed

text \<open>C29. A release queues what is held under its packet id, once: the publication joins the queue
  for the client, nothing is held under the id any more and the other packet ids are not
  affected, PUBCOMP is the answer, and a repeated release queues nothing.\<close>

theorem pubrel_delivers_once:
  assumes "recv_inv s" "recv_abs s pid = Some e" "cb_sendToBroker (cbs s)"
    and "s1 = PubRecv_handle_PubrelMsg pid s" "s2 = PubRecv_handle_PubrelMsg pid s1"
  shows "m_brokerPubs (st s1) = m_brokerPubs (st (PubRecv_addPubInfo (recv_pub e) s)) \<and>
    recv_abs s1 = (recv_abs s)(pid := None) \<and> recv_inv s1 \<and>
    out s1 = out s @ [ToBroker (PubcompMsg pid)] \<and>
    m_brokerPubs (st s2) = m_brokerPubs (st s1) \<and> recv_abs s2 = recv_abs s1 \<and>
    out s2 = out s1 @ [ToBroker (PubcompMsg pid)]"
proof -
  note 1 = pubrel_abs [OF assms(1), of pid, folded assms(4)]
  note 2 = pubrel_abs [OF 1(1), of pid, folded assms(5)]
  show ?thesis using 1 2 assms(2,3) by simp
qed

end
