(* ===== verification/Gw_PubSend.thy ===== *)
theory Gw_PubSend
  imports Gw_SessionOp
begin

text \<open>
  Sending the queued publications to the client,
  \<^verbatim>\<open>src/gateway/lib/src/session_op/PubSend.{h,cpp}\<close>: one publication at a time is in flight; a
  topic the client does not know is registered first, every step is repeated when the client does
  not answer, and a client that sleeps gets its queue when it pings.

  \<open>checkSend\<close>, \<open>newSends\<close>, its loop, \<open>sendCurrent\<close> and \<open>doSend\<close> call each other as the code does:
  a publication with quality of service 0, or one that is given up, makes \<open>doSend\<close> start the next
  one below the loop that is still running. The straight-line parts of \<open>doSend\<close> are definitions of
  their own.
\<close>

section \<open>Operations\<close>

definition PubSend_init :: pub_send_op where
  "PubSend_init = \<lparr>ps_attempt = 0, ps_nextMsgId = 0, ps_currPub = None,
     ps_currTopicInfo = topic_info_default, ps_currMsgId = 0, ps_registerCount = 0,
     ps_registered = False, ps_acked = False, ps_ping = False, ps_disconnectAlreadySent = False\<rparr>"

definition PubSend_resetCurrPub :: "session \<Rightarrow> session" where
  "PubSend_resetCurrPub s = s\<lparr>pubSend := (pubSend s)\<lparr>ps_currPub := None\<rparr>\<rparr>"

text \<open>\<^verbatim>\<open>m_currMsgId = static_cast<decltype(m_currMsgId)>(allocMsgId())\<close>, the counter is wider than
  the id.\<close>

definition PubSend_allocMsgId :: "session \<Rightarrow> session" where
  "PubSend_allocMsgId s =
     s\<lparr>pubSend := (pubSend s)\<lparr>ps_nextMsgId := ps_nextMsgId (pubSend s) + 1,
                             ps_currMsgId := ucast (ps_nextMsgId (pubSend s) + 1)\<rparr>\<rparr>"

definition PubSend_sendDisconnect :: "session \<Rightarrow> session" where
  "PubSend_sendDisconnect s = SessionImpl_termRequest (SessionOp_sendDisconnectToClient s)"

definition PubSend_sendPubrel :: "session \<Rightarrow> session" where
  "PubSend_sendPubrel s =
     (let s = sendToClient (PubrelMsg_SN (ps_currMsgId (pubSend s))) s
      in SessionOp_nextTickReq OpPubSend (m_retryPeriod (st s)) s)"

definition PubSend_needsRegister :: "session \<Rightarrow> bool" where
  "PubSend_needsRegister s \<longleftrightarrow>
     ti_newInsersion (ps_currTopicInfo (pubSend s)) \<and>
     ti_topicIdType (ps_currTopicInfo (pubSend s)) = Normal \<and> \<not> ps_registered (pubSend s)"

definition PubSend_sendRegister :: "pub_info \<Rightarrow> session \<Rightarrow> session" where
  "PubSend_sendRegister pub s =
     (let s = PubSend_allocMsgId s;
          s = sendToClient (RegisterMsg_SN (ti_topicId (ps_currTopicInfo (pubSend s)))
                (ps_currMsgId (pubSend s)) (pi_topic pub)) s
      in SessionOp_nextTickReq OpPubSend (m_retryPeriod (st s)) s)"

definition PubSend_sendPublish :: "pub_info \<Rightarrow> session \<Rightarrow> session" where
  "PubSend_sendPublish pub s =
     (let s = (if pi_qos pub \<noteq> QoS_AtMostOnceDelivery \<and> ps_currMsgId (pubSend s) = 0
               then PubSend_allocMsgId s else s)
      in sendToClient (PublishMsg_SN
           \<lparr>sp_topicIdType = ti_topicIdType (ps_currTopicInfo (pubSend s)),
            sp_retain = pi_retain pub, sp_qos = translateQosForClient (pi_qos pub),
            sp_dup = pi_dup pub \<or> 1 < ps_attempt (pubSend s),
            sp_topicId = ti_topicId (ps_currTopicInfo (pubSend s)),
            sp_msgId = (if pi_qos pub \<noteq> QoS_AtMostOnceDelivery
                        then ps_currMsgId (pubSend s) else 0),
            sp_data = pi_msg pub\<rparr>) s)"

text \<open>What happens after the loop of \<^verbatim>\<open>newSends\<close>.\<close>

definition PubSend_newSendsEnd :: "session \<Rightarrow> session" where
  "PubSend_newSendsEnd s =
     (if m_brokerPubs (st s) \<noteq> [] then s
      else if m_pendingClientDisconnect (st s) then
        (if \<not> ps_disconnectAlreadySent (pubSend s) then
           let s = PubSend_sendDisconnect s
           in s\<lparr>pubSend := (pubSend s)\<lparr>ps_disconnectAlreadySent := True\<rparr>\<rparr>
         else s)
      else if ps_ping (pubSend s) then
        sendToClient PingrespMsg_SN (s\<lparr>pubSend := (pubSend s)\<lparr>ps_ping := False\<rparr>\<rparr>)
      else s)"

text \<open>\<^verbatim>\<open>m_currPub = std::move(front())\<close> and the reset of the registration counter.\<close>

definition PubSend_takeFront :: "session \<Rightarrow> session" where
  "PubSend_takeFront s =
     s\<lparr>pubSend := (pubSend s)\<lparr>ps_currPub := Some (hd (m_brokerPubs (st s))),
                             ps_registerCount := 0\<rparr>,
       st := (st s)\<lparr>m_brokerPubs := tl (m_brokerPubs (st s))\<rparr>\<rparr>"

function (sequential, domintros)
    PubSend_checkSend :: "session \<Rightarrow> session"
and PubSend_newSends :: "session \<Rightarrow> session"
and PubSend_newSends_loop :: "session \<Rightarrow> session"
and PubSend_sendCurrent :: "session \<Rightarrow> session"
and PubSend_doSend :: "session \<Rightarrow> session"
where
  "PubSend_checkSend s =
     (if ps_currPub (pubSend s) \<noteq> None \<or> m_connStatus (st s) = Disconnected then s
      else if m_connStatus (st s) = Asleep \<and> ps_ping (pubSend s) then PubSend_newSends s
      else if m_connStatus (st s) \<noteq> Connected then s
      else if m_brokerPubs (st s) \<noteq> [] \<or> m_pendingClientDisconnect (st s)
      then PubSend_newSends s else s)"
| "PubSend_newSends s =
     PubSend_newSendsEnd (PubSend_newSends_loop
       (fault_if (ps_currPub (pubSend s) \<noteq> None) (AssertFailed OpPubSend ''currPub'')
         (SessionOp_cancelTick OpPubSend s)))"
| "PubSend_newSends_loop s =
     (if m_brokerPubs (st s) \<noteq> [] \<and> ps_currPub (pubSend s) = None
      then PubSend_newSends_loop (PubSend_sendCurrent (PubSend_takeFront s)) else s)"
| "PubSend_sendCurrent s =
     (case ps_currPub (pubSend s) of
        None \<Rightarrow> fault_if True (AssertFailed OpPubSend ''currPub'') s
      | Some pub \<Rightarrow>
          (case RegMgr_mapTopic (pi_topic pub) (m_regMgr (st s)) of
             Inl e \<Rightarrow> fault_if True (RegFault e) s
           | Inr (info, r) \<Rightarrow>
               PubSend_doSend
                 ((fault_if (ti_topicId info = 0) (AssertFailed OpPubSend ''topicId'')
                   (PubSend_allocMsgId (s\<lparr>st := (st s)\<lparr>m_regMgr := r\<rparr>,
                      pubSend := (pubSend s)\<lparr>ps_attempt := 0, ps_currTopicInfo := info,
                        ps_registered := False, ps_acked := False\<rparr>\<rparr>))))))"
| "PubSend_doSend s =
     (if m_retryCount (st s) \<le> ps_attempt (pubSend s)
      then PubSend_checkSend (PubSend_resetCurrPub s)
      else case ps_currPub (pubSend s) of
        None \<Rightarrow> fault_if True NullPointer s
      | Some pub \<Rightarrow>
        (let s = s\<lparr>pubSend := (pubSend s)\<lparr>ps_attempt := ps_attempt (pubSend s) + 1\<rparr>\<rparr>;
             s = fault_if (ti_topicId (ps_currTopicInfo (pubSend s)) = 0)
                   (AssertFailed OpPubSend ''topicId'') s
         in
         if PubSend_needsRegister s then
           (if m_retryCount (st s) \<le> ps_registerCount (pubSend s)
            then PubSend_checkSend (PubSend_resetCurrPub s)
            else PubSend_sendRegister pub s)
         else
           (let s = PubSend_sendPublish pub s
            in if pi_qos pub = QoS_AtMostOnceDelivery
               then PubSend_checkSend (PubSend_resetCurrPub s)
               else SessionOp_nextTickReq OpPubSend (m_retryPeriod (st s)) s)))"
  by pat_completeness auto

section \<open>Termination\<close>

text \<open>The recursion ends because every turn of the loop takes a publication from the queue and
  nothing below it puts one there. The queue only shrinks along the calls whose termination is
  not known yet, so this is shown by induction on the domain of the functions first.\<close>

lemmas PubSend_straight_defs =
  PubSend_resetCurrPub_def PubSend_allocMsgId_def PubSend_sendDisconnect_def PubSend_sendPubrel_def
  PubSend_sendRegister_def PubSend_sendPublish_def PubSend_newSendsEnd_def
  SessionOp_nextTickReq_def SessionOp_cancelTick_def SessionImpl_sendToClient_def
  SessionImpl_termRequest_def SessionOp_sendDisconnectToClient_def emit_def fault_if_def

lemma PubSend_brokerPubs_frame [frame_simps]:
  "m_brokerPubs (st (PubSend_resetCurrPub s)) = m_brokerPubs (st s)"
  "m_brokerPubs (st (PubSend_allocMsgId s)) = m_brokerPubs (st s)"
  "m_brokerPubs (st (PubSend_sendRegister pub s)) = m_brokerPubs (st s)"
  "m_brokerPubs (st (PubSend_sendPublish pub s)) = m_brokerPubs (st s)"
  "m_brokerPubs (st (PubSend_newSendsEnd s)) = m_brokerPubs (st s)"
  "m_brokerPubs (st (PubSend_takeFront s)) = tl (m_brokerPubs (st s))"
  "m_brokerPubs (st (SessionOp_cancelTick op s)) = m_brokerPubs (st s)"
  "m_brokerPubs (st (SessionOp_nextTickReq op ms s)) = m_brokerPubs (st s)"
  "m_brokerPubs (st (fault_if b f s)) = m_brokerPubs (st s)"
  by (simp_all add: PubSend_straight_defs PubSend_takeFront_def Let_def)

abbreviation PubSend_queue :: "session \<Rightarrow> nat" where
  "PubSend_queue s \<equiv> length (m_brokerPubs (st s))"

abbreviation PubSend_dom :: "(session + session) + session + session + session \<Rightarrow> bool" where
  "PubSend_dom \<equiv> PubSend_checkSend_PubSend_newSends_PubSend_newSends_loop_PubSend_sendCurrent_PubSend_doSend_dom"

lemmas PubSend_pinduct =
  PubSend_checkSend_PubSend_newSends_PubSend_newSends_loop_PubSend_sendCurrent_PubSend_doSend.pinduct

lemma PubSend_queue_shrinks:
  "PubSend_dom (Inl (Inl s1)) \<Longrightarrow> PubSend_queue (PubSend_checkSend s1) \<le> PubSend_queue s1"
  "PubSend_dom (Inl (Inr s2)) \<Longrightarrow> PubSend_queue (PubSend_newSends s2) \<le> PubSend_queue s2"
  "PubSend_dom (Inr (Inl s3)) \<Longrightarrow> PubSend_queue (PubSend_newSends_loop s3) \<le> PubSend_queue s3"
  "PubSend_dom (Inr (Inr (Inl s4))) \<Longrightarrow> PubSend_queue (PubSend_sendCurrent s4) \<le> PubSend_queue s4"
  "PubSend_dom (Inr (Inr (Inr s5))) \<Longrightarrow> PubSend_queue (PubSend_doSend s5) \<le> PubSend_queue s5"
proof (induction s1 and s2 and s3 and s4 and s5 rule: PubSend_pinduct)
  case (1 s)
  then show ?case by (auto simp: PubSend_checkSend.psimps)
next
  case (2 s)
  then show ?case by (simp add: PubSend_newSends.psimps frame_simps)
next
  case (3 s)
  show ?case
  proof (cases "m_brokerPubs (st s) \<noteq> [] \<and> ps_currPub (pubSend s) = None")
    case True
    note 3(2,3) [OF True]
    then show ?thesis using 3(1) True by (simp add: PubSend_newSends_loop.psimps frame_simps)
  qed (use 3(1) in \<open>auto simp: PubSend_newSends_loop.psimps\<close>)
next
  case (4 s)
  then show ?case
    by (auto simp: PubSend_sendCurrent.psimps frame_simps split: option.split sum.split prod.split)
next
  case (5 s)
  then show ?case
    by (auto simp: PubSend_doSend.psimps frame_simps Let_def split: option.split)
qed

abbreviation PubSend_measure :: "(session + session) + session + session + session \<Rightarrow> nat" where
  "PubSend_measure x \<equiv> (case x of
      Inl (Inl s) \<Rightarrow> 5 * PubSend_queue s + 2 | Inl (Inr s) \<Rightarrow> 5 * PubSend_queue s + 1
    | Inr (Inl s) \<Rightarrow> 5 * PubSend_queue s | Inr (Inr (Inl s)) \<Rightarrow> 5 * PubSend_queue s + 4
    | Inr (Inr (Inr s)) \<Rightarrow> 5 * PubSend_queue s + 3)"

lemma PubSend_all_dom: "All PubSend_dom"
proof (rule "PubSend_checkSend_PubSend_newSends_PubSend_newSends_loop_PubSend_sendCurrent_PubSend_doSend.termination"
    [of "measure PubSend_measure"], goal_cases)
  case (5 s)
  then show ?case by (cases "m_brokerPubs (st s)") (auto simp: frame_simps)
next
  case (6 s)
  have "PubSend_queue (PubSend_sendCurrent (PubSend_takeFront s)) \<le> PubSend_queue (PubSend_takeFront s)"
    using 6(2) by (rule PubSend_queue_shrinks)
  with 6 show ?case by (cases "m_brokerPubs (st s)") (auto simp: frame_simps)
qed (auto simp: frame_simps)

termination PubSend_checkSend
  by (rule PubSend_all_dom)

lemmas PubSend_induct =
  PubSend_checkSend_PubSend_newSends_PubSend_newSends_loop_PubSend_sendCurrent_PubSend_doSend.induct

declare PubSend_checkSend.simps [simp del]
declare PubSend_newSends.simps [simp del]
declare PubSend_newSends_loop.simps [simp del]
declare PubSend_sendCurrent.simps [simp del]
declare PubSend_doSend.simps [simp del]

section \<open>Handlers\<close>

definition PubSend_tickImpl :: "session \<Rightarrow> session" where
  "PubSend_tickImpl s =
     (if ps_currPub (pubSend s) = None then PubSend_checkSend s
      else if \<not> ps_acked (pubSend s) then PubSend_doSend s
      else if m_retryCount (st s) \<le> ps_attempt (pubSend s)
      then PubSend_checkSend (PubSend_resetCurrPub s)
      else PubSend_sendPubrel
             (s\<lparr>pubSend := (pubSend s)\<lparr>ps_attempt := ps_attempt (pubSend s) + 1\<rparr>\<rparr>))"

definition PubSend_handle_RegackMsg_SN ::
    "u16 \<Rightarrow> u16 \<Rightarrow> return_code \<Rightarrow> session \<Rightarrow> session" where
  "PubSend_handle_RegackMsg_SN topicId msgId returnCode s =
     (if ps_currPub (pubSend s) = None \<or>
         topicId \<noteq> ti_topicId (ps_currTopicInfo (pubSend s)) \<or>
         msgId \<noteq> ps_currMsgId (pubSend s) then s
      else
        let s = SessionOp_cancelTick OpPubSend s in
        if returnCode \<noteq> Accepted then PubSend_checkSend (PubSend_resetCurrPub s)
        else
          let s = s\<lparr>pubSend := (pubSend s)\<lparr>ps_attempt := 0, ps_registered := True,
                      ps_registerCount := ps_registerCount (pubSend s) + 1\<rparr>\<rparr>;
              s = PubSend_allocMsgId s
          in PubSend_doSend s)"

text \<open>The registration an INVALID TOPIC ID answer discards.\<close>

definition PubSend_discardRegistration :: "u16 \<Rightarrow> session \<Rightarrow> session" where
  "PubSend_discardRegistration topicId s =
     (case RegMgr_discardRegistration topicId (m_regMgr (st s)) of
        Inl e \<Rightarrow> fault_if True (RegFault e) s
      | Inr r \<Rightarrow> s\<lparr>st := (st s)\<lparr>m_regMgr := r\<rparr>\<rparr>)"

definition PubSend_handle_PubackMsg_SN ::
    "u16 \<Rightarrow> u16 \<Rightarrow> return_code \<Rightarrow> session \<Rightarrow> session" where
  "PubSend_handle_PubackMsg_SN topicId msgId returnCode s =
     (let s = (if returnCode = InvalidTopicId then PubSend_discardRegistration topicId s else s) in
      case ps_currPub (pubSend s) of
        None \<Rightarrow> s
      | Some pub \<Rightarrow>
          if topicId \<noteq> ti_topicId (ps_currTopicInfo (pubSend s)) \<or>
             msgId \<noteq> ps_currMsgId (pubSend s) then s
          else if returnCode = Accepted \<and> pi_qos pub = QoS_ExactlyOnceDelivery then s
          else
            let s = SessionOp_cancelTick OpPubSend s in
            if returnCode = InvalidTopicId then PubSend_sendCurrent s
            else PubSend_checkSend (PubSend_resetCurrPub s))"

definition PubSend_handle_PubrecMsg_SN :: "u16 \<Rightarrow> session \<Rightarrow> session" where
  "PubSend_handle_PubrecMsg_SN msgId s =
     (if ps_currPub (pubSend s) = None \<or> msgId \<noteq> ps_currMsgId (pubSend s) then s
      else
        let s = SessionOp_cancelTick OpPubSend s;
            s = s\<lparr>pubSend := (pubSend s)\<lparr>ps_acked := True, ps_attempt := 0\<rparr>\<rparr>
        in PubSend_sendPubrel s)"

definition PubSend_handle_PubcompMsg_SN :: "u16 \<Rightarrow> session \<Rightarrow> session" where
  "PubSend_handle_PubcompMsg_SN msgId s =
     (if ps_currPub (pubSend s) = None \<or> msgId \<noteq> ps_currMsgId (pubSend s) then s
      else
        let s = SessionOp_cancelTick OpPubSend s
        in PubSend_checkSend (PubSend_resetCurrPub s))"

definition PubSend_handle_PingreqMsg_SN :: "string \<Rightarrow> session \<Rightarrow> session" where
  "PubSend_handle_PingreqMsg_SN clientId s =
     (if m_connStatus (st s) \<noteq> Asleep then s
      else if clientId \<noteq> m_clientId (st s) then s
      else PubSend_checkSend (s\<lparr>pubSend := (pubSend s)\<lparr>ps_ping := True\<rparr>\<rparr>))"

definition PubSend_handle_MqttsnMessage :: "session \<Rightarrow> session" where
  "PubSend_handle_MqttsnMessage s = PubSend_checkSend s"

definition PubSend_handle_MqttMessage :: "session \<Rightarrow> session" where
  "PubSend_handle_MqttMessage s = PubSend_checkSend s"

section \<open>Dispatch of messages to the operation\<close>

fun PubSend_handle_sn :: "sn_msg \<Rightarrow> session \<Rightarrow> session" where
  "PubSend_handle_sn (RegackMsg_SN tid mid rc) s = PubSend_handle_RegackMsg_SN tid mid rc s"
| "PubSend_handle_sn (PubackMsg_SN tid mid rc) s = PubSend_handle_PubackMsg_SN tid mid rc s"
| "PubSend_handle_sn (PubrecMsg_SN mid) s = PubSend_handle_PubrecMsg_SN mid s"
| "PubSend_handle_sn (PubcompMsg_SN mid) s = PubSend_handle_PubcompMsg_SN mid s"
| "PubSend_handle_sn (PingreqMsg_SN c) s = PubSend_handle_PingreqMsg_SN c s"
| "PubSend_handle_sn _ s = PubSend_handle_MqttsnMessage s"

definition PubSend_handle_mqtt :: "mqtt_msg \<Rightarrow> session \<Rightarrow> session" where
  "PubSend_handle_mqtt m s = PubSend_handle_MqttMessage s"

section \<open>Contract\<close>

lemma op_frame_PubSend_straight [op_frame_rules]:
  assumes "op_frame OpPubSend s0 s"
  shows "op_frame OpPubSend s0 (PubSend_resetCurrPub s)" and "op_frame OpPubSend s0 (PubSend_allocMsgId s)"
    and "op_frame OpPubSend s0 (PubSend_sendDisconnect s)" and "op_frame OpPubSend s0 (PubSend_sendPubrel s)"
    and "op_frame OpPubSend s0 (PubSend_takeFront s)"
    and "op_frame OpPubSend s0 (PubSend_discardRegistration t s)"
  unfolding PubSend_resetCurrPub_def PubSend_allocMsgId_def PubSend_sendDisconnect_def
    PubSend_sendPubrel_def PubSend_takeFront_def PubSend_discardRegistration_def
  using assms
  by (auto intro!: op_frame_rules op_frame_st_upd simp: st_frame_def Let_def split: sum.split)

lemma op_frame_PubSend_sends [op_frame_rules]:
  assumes "op_frame OpPubSend s0 s"
  shows "op_frame OpPubSend s0 (PubSend_sendRegister pub s)" and "op_frame OpPubSend s0 (PubSend_sendPublish pub s)"
    and "op_frame OpPubSend s0 (PubSend_newSendsEnd s)"
  unfolding PubSend_sendRegister_def PubSend_sendPublish_def PubSend_newSendsEnd_def
  using assms by - (assumption | rule op_frame_rules)+

lemma op_frame_PubSend_prepare:
  "op_frame OpPubSend s0 s \<Longrightarrow> op_frame OpPubSend s0 (s\<lparr>st := (st s)\<lparr>m_regMgr := r\<rparr>, pubSend := p\<rparr>)"
  using op_frame_op_updates(5) [OF op_frame_st_updates(2)] by simp

lemma op_frame_PubSend_rec [op_frame_rules]:
  "op_frame OpPubSend s0 s1 \<Longrightarrow> op_frame OpPubSend s0 (PubSend_checkSend s1)"
  "op_frame OpPubSend s0 s2 \<Longrightarrow> op_frame OpPubSend s0 (PubSend_newSends s2)"
  "op_frame OpPubSend s0 s3 \<Longrightarrow> op_frame OpPubSend s0 (PubSend_newSends_loop s3)"
  "op_frame OpPubSend s0 s4 \<Longrightarrow> op_frame OpPubSend s0 (PubSend_sendCurrent s4)"
  "op_frame OpPubSend s0 s5 \<Longrightarrow> op_frame OpPubSend s0 (PubSend_doSend s5)"
proof (induction s1 and s2 and s3 and s4 and s5 rule: PubSend_induct)
  case (1 s)
  then show ?case by (simp add: PubSend_checkSend.simps)
next
  case (2 s)
  then show ?case by (simp add: PubSend_newSends.simps op_frame_rules)
next
  case (3 s)
  then show ?case by (subst PubSend_newSends_loop.simps) (simp add: op_frame_rules)
next
  case (4 s)
  then show ?case
    by (auto simp: PubSend_sendCurrent.simps op_frame_rules op_frame_PubSend_prepare
        split: option.split sum.split)
next
  case (5 s)
  then show ?case
    by (auto simp: PubSend_doSend.simps op_frame_rules Let_def split: option.split)
qed

lemma op_frame_PubSend [op_frame_rules]:
  assumes "op_frame OpPubSend s0 s"
  shows "op_frame OpPubSend s0 (PubSend_tickImpl s)"
    and "op_frame OpPubSend s0 (PubSend_handle_RegackMsg_SN tid mid rc s)"
    and "op_frame OpPubSend s0 (PubSend_handle_PubackMsg_SN tid mid rc s)"
    and "op_frame OpPubSend s0 (PubSend_handle_PubrecMsg_SN mid s)"
    and "op_frame OpPubSend s0 (PubSend_handle_PubcompMsg_SN mid s)"
    and "op_frame OpPubSend s0 (PubSend_handle_PingreqMsg_SN c s)"
    and "op_frame OpPubSend s0 (PubSend_handle_MqttsnMessage s)"
    and "op_frame OpPubSend s0 (PubSend_handle_MqttMessage s)"
  unfolding PubSend_tickImpl_def PubSend_handle_RegackMsg_SN_def PubSend_handle_PubackMsg_SN_def
    PubSend_handle_PubrecMsg_SN_def PubSend_handle_PubcompMsg_SN_def
    PubSend_handle_PingreqMsg_SN_def PubSend_handle_MqttsnMessage_def
    PubSend_handle_MqttMessage_def
  using assms by - (assumption | rule op_frame_rules)+

lemma op_frame_PubSend_handle_sn [op_frame_rules]:
  "op_frame OpPubSend s0 s \<Longrightarrow> op_frame OpPubSend s0 (PubSend_handle_sn m s)"
  by (cases m) (simp_all add: op_frame_rules)

lemma op_frame_PubSend_handle_mqtt [op_frame_rules]:
  "op_frame OpPubSend s0 s \<Longrightarrow> op_frame OpPubSend s0 (PubSend_handle_mqtt m s)"
  by (simp add: PubSend_handle_mqtt_def op_frame_rules)

section \<open>Interpretation\<close>

interpretation pub_send_op: session_op OpPubSend PubSend_tickImpl "\<lambda>s. s" PubSend_handle_sn PubSend_handle_mqtt
  by unfold_locales (simp_all add: op_frame_rules)

section \<open>The retry timer\<close>

text \<open>A publication in flight has its retry timer armed (a fault of the registration manager ends
  the defined behaviour).\<close>

definition pubsend_armed :: "session \<Rightarrow> bool" where
  "pubsend_armed s \<longleftrightarrow> (ps_currPub (pubSend s) \<noteq> None \<longrightarrow>
     nextTicks s OpPubSend \<noteq> 0 \<or> (\<exists>e. RegFault e \<in> set (faults s)))"

lemma clock_ok_steps [simp]:
  "clock_ok (PubSend_resetCurrPub s) = clock_ok s" "clock_ok (PubSend_allocMsgId s) = clock_ok s"
  "clock_ok (PubSend_sendRegister pub s) = clock_ok s" "clock_ok (PubSend_takeFront s) = clock_ok s"
  "clock_ok (PubSend_sendPublish pub s) = clock_ok s"
  "clock_ok (SessionOp_cancelTick op s) = clock_ok s" "clock_ok (fault_if b f s) = clock_ok s"
  "clock_ok (s\<lparr>pubSend := p\<rparr>) = clock_ok s"
  "clock_ok (SessionImpl_sendToClient m rad s) = clock_ok s"
  "clock_ok (s\<lparr>st := (st s)\<lparr>m_regMgr := r\<rparr>\<rparr>) = clock_ok s"
  by (simp_all add: clock_ok_def PubSend_straight_defs PubSend_takeFront_def Let_def)

lemma pubsend_armed_nextTick:
  "clock_ok s \<Longrightarrow> pubsend_armed (SessionOp_nextTickReq OpPubSend ms s)"
  by (simp add: pubsend_armed_def nextTick_armed)

lemma pubsend_armed_sends:
  "clock_ok s \<Longrightarrow> pubsend_armed (PubSend_sendRegister pub s)"
  "clock_ok s \<Longrightarrow> pubsend_armed (PubSend_sendPubrel s)"
  by (simp_all add: PubSend_sendRegister_def PubSend_sendPubrel_def pubsend_armed_nextTick Let_def)

lemma pubsend_armed_others:
  "ps_currPub (pubSend s) = None \<Longrightarrow> pubsend_armed s"
  "pubsend_armed (fault_if True (RegFault e) s)"
  "pubsend_armed (PubSend_newSendsEnd s) = pubsend_armed s"
  by (auto simp: pubsend_armed_def fault_if_def PubSend_straight_defs Let_def)

lemmas pubsend_armed_simps = pubsend_armed_nextTick pubsend_armed_sends pubsend_armed_others

lemma currPub_steps [simp]:
  "ps_currPub (pubSend (SessionOp_cancelTick op s)) = ps_currPub (pubSend s)"
  "ps_currPub (pubSend (fault_if b f s)) = ps_currPub (pubSend s)"
  "ps_currPub (pubSend (PubSend_allocMsgId s)) = ps_currPub (pubSend s)"
  "ps_currPub (pubSend (PubSend_resetCurrPub s)) = None"
  "ps_currPub (pubSend (PubSend_takeFront s)) = Some (hd (m_brokerPubs (st s)))"
  by (simp_all add: PubSend_straight_defs PubSend_takeFront_def)

lemma pubsend_armed_rec:
  "clock_ok s1 \<Longrightarrow> pubsend_armed s1 \<Longrightarrow> pubsend_armed (PubSend_checkSend s1)"
  "clock_ok s2 \<Longrightarrow> ps_currPub (pubSend s2) = None \<Longrightarrow> pubsend_armed (PubSend_newSends s2)"
  "clock_ok s3 \<Longrightarrow> pubsend_armed s3 \<Longrightarrow> pubsend_armed (PubSend_newSends_loop s3)"
  "clock_ok s4 \<Longrightarrow> ps_currPub (pubSend s4) \<noteq> None \<Longrightarrow> pubsend_armed (PubSend_sendCurrent s4)"
  "clock_ok s5 \<Longrightarrow> ps_currPub (pubSend s5) \<noteq> None \<Longrightarrow> pubsend_armed (PubSend_doSend s5)"
proof (induction s1 and s2 and s3 and s4 and s5 rule: PubSend_induct)
  case (1 s)
  then show ?case by (auto simp: PubSend_checkSend.simps)
next
  case (2 s)
  then show ?case by (simp add: PubSend_newSends.simps pubsend_armed_simps)
next
  case (3 s)
  have "clock_ok (PubSend_sendCurrent (PubSend_takeFront s))"
    using op_frame_PubSend_rec(4) [OF op_frame_refl] 3(3) clock_ok_frame clock_ok_steps(4) by blast
  then show ?case using 3 by (subst PubSend_newSends_loop.simps) simp
next
  case (4 s)
  then show ?case
    by (auto simp: PubSend_sendCurrent.simps pubsend_armed_simps split: option.split sum.split)
next
  case (5 s)
  then show ?case
    by (auto simp: PubSend_doSend.simps pubsend_armed_simps Let_def split: option.split)
qed

lemma pubsend_armed_tick: "clock_ok s \<Longrightarrow> pubsend_armed (PubSend_tickImpl s)"
  by (auto simp: PubSend_tickImpl_def pubsend_armed_rec pubsend_armed_simps)

lemma pubsend_armed_sn:
  assumes "clock_ok s" "pubsend_armed s"
  shows "pubsend_armed (PubSend_handle_sn m s)"
proof -
  have discard: "clock_ok (PubSend_discardRegistration tid s)"
    "pubsend_armed (PubSend_discardRegistration tid s)" for tid
    using assms by (auto simp: PubSend_discardRegistration_def clock_ok_def pubsend_armed_def
        fault_if_def split: sum.split)
  have puback: "pubsend_armed (PubSend_handle_PubackMsg_SN tid mid rc s)" for tid mid rc
    unfolding PubSend_handle_PubackMsg_SN_def Let_def using assms discard
    by (auto simp: pubsend_armed_rec pubsend_armed_simps split: option.split)
  show ?thesis using assms puback
    by (cases m) (auto simp: PubSend_handle_RegackMsg_SN_def PubSend_handle_PubrecMsg_SN_def
        PubSend_handle_PubcompMsg_SN_def PubSend_handle_PingreqMsg_SN_def Let_def
        PubSend_handle_MqttsnMessage_def pubsend_armed_rec pubsend_armed_simps
        pubsend_armed_def [of "_\<lparr>pubSend := _\<rparr>"] pubsend_armed_def [of s])
qed

lemma pubsend_armed_mqtt:
  "clock_ok s \<Longrightarrow> pubsend_armed s \<Longrightarrow> pubsend_armed (PubSend_handle_mqtt m s)"
  by (simp add: PubSend_handle_mqtt_def PubSend_handle_MqttMessage_def pubsend_armed_rec)

section \<open>Giving up\<close>

text \<open>A session in which nothing waits behind the publication in flight.\<close>

definition nothing_waits :: "session \<Rightarrow> bool" where
  "nothing_waits s \<longleftrightarrow> m_brokerPubs (st s) = [] \<and> \<not> m_pendingClientDisconnect (st s) \<and>
     \<not> (m_connStatus (st s) = Asleep \<and> ps_ping (pubSend s))"

lemma checkSend_nothing:
  "nothing_waits s \<Longrightarrow> PubSend_checkSend s = s"
  by (auto simp: PubSend_checkSend.simps nothing_waits_def)

lemma nothing_waits_reset [simp]: "nothing_waits (PubSend_resetCurrPub s) = nothing_waits s"
  by (simp add: nothing_waits_def PubSend_resetCurrPub_def)

lemma tick_settings:
  "m_retryCount (st (PubSend_tickImpl s)) = m_retryCount (st s)" "m_timestamp (st (PubSend_tickImpl s)) = m_timestamp (st s)"
  "m_retryPeriod (st (PubSend_tickImpl s)) = m_retryPeriod (st s)"
  using op_frame_PubSend(1) [OF op_frame_refl [of OpPubSend s]] by (simp_all add: op_frameD)

text \<open>What is sent when the retry timer of a publication fires for the \<open>k\<close>-th time: PUBREL once the
  client has received it, REGISTER with a new id while the client has to learn the topic, else the publication
  with its id and marked as a duplicate.\<close>

definition resent :: "pub_info \<Rightarrow> session \<Rightarrow> nat \<Rightarrow> sn_msg" where
  "resent pub s k =
     (let info = ps_currTopicInfo (pubSend s)
      in if ps_acked (pubSend s) then PubrelMsg_SN (ps_currMsgId (pubSend s))
         else if ti_newInsersion info \<and> ti_topicIdType info = Normal \<and> \<not> ps_registered (pubSend s)
         then RegisterMsg_SN (ti_topicId info) (ucast (ps_nextMsgId (pubSend s) + of_nat k)) (pi_topic pub)
         else PublishMsg_SN
           \<lparr>sp_topicIdType = ti_topicIdType info, sp_retain = pi_retain pub, sp_qos = translateQosForClient (pi_qos pub),
            sp_dup = True, sp_topicId = ti_topicId info, sp_msgId = ps_currMsgId (pubSend s), sp_data = pi_msg pub\<rparr>)"

text \<open>A publication that waits for an answer of the client, with nothing behind it.\<close>

definition in_flight :: "pub_info \<Rightarrow> session \<Rightarrow> bool" where
  "in_flight pub s \<longleftrightarrow> nothing_waits s \<and> ps_currPub (pubSend s) = Some pub \<and> cb_sendToClient (cbs s) \<and>
     pi_qos pub \<noteq> QoS_AtMostOnceDelivery \<and> 0 < ps_attempt (pubSend s) \<and>
     (PubSend_needsRegister s \<longrightarrow> ps_registerCount (pubSend s) < m_retryCount (st s)) \<and>
     (\<not> PubSend_needsRegister s \<longrightarrow> ps_currMsgId (pubSend s) \<noteq> 0)"

text \<open>One more attempt, in each of the three phases.\<close>

lemma tick_phases:
  assumes "in_flight pub s" "ps_attempt (pubSend s) < m_retryCount (st s)"
    "u = s\<lparr>pubSend := (pubSend s)\<lparr>ps_attempt := ps_attempt (pubSend s) + 1\<rparr>\<rparr>"
    "v = fault_if (ti_topicId (ps_currTopicInfo (pubSend s)) = 0) (AssertFailed OpPubSend ''topicId'') u"
  shows "PubSend_tickImpl s =
    (if ps_acked (pubSend s) then PubSend_sendPubrel u
     else if PubSend_needsRegister s then PubSend_sendRegister pub v
     else SessionOp_nextTickReq OpPubSend (m_retryPeriod (st s)) (PubSend_sendPublish pub v))"
proof -
  have "PubSend_needsRegister v = PubSend_needsRegister s" "m_retryCount (st v) = m_retryCount (st s)"
    "ps_registerCount (pubSend v) = ps_registerCount (pubSend s)"
    "m_retryPeriod (st (PubSend_sendPublish pub v)) = m_retryPeriod (st s)"
    by (simp_all add: assms(3,4) PubSend_needsRegister_def PubSend_straight_defs Let_def)
  then show ?thesis
    using assms(1,2) by (simp add: in_flight_def PubSend_tickImpl_def PubSend_doSend.simps [of s] not_le [symmetric]
        assms(3) assms(4) [unfolded assms(3), symmetric] Let_def)
qed

lemma tick_resends:
  assumes "in_flight pub s" "ps_attempt (pubSend s) < m_retryCount (st s)"
  shows "in_flight pub (PubSend_tickImpl s)" "out (PubSend_tickImpl s) = out s @ [ToClient (resent pub s 1) 0]"
    "resent pub (PubSend_tickImpl s) k = resent pub s (Suc k)"
    "unat (ps_attempt (pubSend (PubSend_tickImpl s))) = unat (ps_attempt (pubSend s)) + 1"
    "nextTicks (PubSend_tickImpl s) OpPubSend = m_timestamp (st s) + ucast (m_retryPeriod (st s))"
proof -
  have more: "0 < ps_attempt (pubSend s) + 1" "1 < ps_attempt (pubSend s) + 1"
    using assms u32_succ_unat [OF assms(2)] by (simp_all add: in_flight_def word_less_nat_alt)
  show "in_flight pub (PubSend_tickImpl s)"
    using more assms(1) unfolding tick_phases [OF assms refl refl]
    by (auto simp: in_flight_def PubSend_needsRegister_def nothing_waits_def PubSend_straight_defs Let_def)
  show "out (PubSend_tickImpl s) = out s @ [ToClient (resent pub s 1) 0]"
    using more assms(1) unfolding tick_phases [OF assms refl refl]
    by (auto simp: in_flight_def resent_def PubSend_needsRegister_def PubSend_straight_defs Let_def)
  show "resent pub (PubSend_tickImpl s) k = resent pub s (Suc k)"
    using assms(1) unfolding tick_phases [OF assms refl refl]
    by (auto simp: in_flight_def resent_def PubSend_needsRegister_def PubSend_straight_defs Let_def add.assoc)
  show "unat (ps_attempt (pubSend (PubSend_tickImpl s))) = unat (ps_attempt (pubSend s)) + 1"
    using u32_succ_unat [OF assms(2)] unfolding tick_phases [OF assms refl refl]
    by (simp add: PubSend_straight_defs Let_def)
  show "nextTicks (PubSend_tickImpl s) OpPubSend = m_timestamp (st s) + ucast (m_retryPeriod (st s))"
    unfolding tick_phases [OF assms refl refl] by (simp add: PubSend_straight_defs Let_def)
qed

lemma tick_gives_up:
  assumes "in_flight pub s" "m_retryCount (st s) \<le> ps_attempt (pubSend s)"
  shows "PubSend_tickImpl s = PubSend_resetCurrPub s"
  using assms by (simp add: in_flight_def PubSend_tickImpl_def PubSend_doSend.simps checkSend_nothing)

text \<open>C32. A publication the client does not answer is sent again once for every attempt that is left, one
  message per expiry of the retry timer: PUBREL when the client has received it, REGISTER while it has to
  learn the topic, else the publication marked as a duplicate, and the timer is set again by the retry
  period. The expiry after these gives it up and sends
  nothing. This holds for a publication with quality of service 1 or 2 behind which nothing
  waits, and for a registration that is not repeated beyond its own limit.\<close>

theorem unacknowledged_publication_given_up:
  assumes "in_flight pub s" "ps_attempt (pubSend s) \<le> m_retryCount (st s)"
    "n = unat (m_retryCount (st s)) - unat (ps_attempt (pubSend s))"
  shows "(\<forall>k \<le> n. ps_currPub (pubSend ((PubSend_tickImpl ^^ k) s)) = Some pub \<and>
      out ((PubSend_tickImpl ^^ k) s) = out s @ map (\<lambda>i. ToClient (resent pub s i) 0) [1..<Suc k] \<and>
      (0 < k \<longrightarrow> nextTicks ((PubSend_tickImpl ^^ k) s) OpPubSend = m_timestamp (st s) + ucast (m_retryPeriod (st s)))) \<and>
    ps_currPub (pubSend ((PubSend_tickImpl ^^ Suc n) s)) = None \<and>
    out ((PubSend_tickImpl ^^ Suc n) s) = out ((PubSend_tickImpl ^^ n) s)"
proof -
  have k: "in_flight pub ((PubSend_tickImpl ^^ k) s) \<and> resent pub ((PubSend_tickImpl ^^ k) s) i = resent pub s (k + i) \<and>
      out ((PubSend_tickImpl ^^ k) s) = out s @ map (\<lambda>i. ToClient (resent pub s i) 0) [1..<Suc k] \<and>
      unat (ps_attempt (pubSend ((PubSend_tickImpl ^^ k) s))) = unat (ps_attempt (pubSend s)) + k \<and>
      m_retryCount (st ((PubSend_tickImpl ^^ k) s)) = m_retryCount (st s) \<and> m_timestamp (st ((PubSend_tickImpl ^^ k) s)) = m_timestamp (st s) \<and>
      m_retryPeriod (st ((PubSend_tickImpl ^^ k) s)) = m_retryPeriod (st s) \<and>
      (0 < k \<longrightarrow> nextTicks ((PubSend_tickImpl ^^ k) s) OpPubSend = m_timestamp (st s) + ucast (m_retryPeriod (st s)))" if "k \<le> n" for k i
    using that
  proof (induction k arbitrary: i)
    case (Suc k)
    let ?t = "(PubSend_tickImpl ^^ k) s"
    have IH: "in_flight pub ?t" "\<And>i. resent pub ?t i = resent pub s (k + i)"
      "out ?t = out s @ map (\<lambda>i. ToClient (resent pub s i) 0) [1..<Suc k]"
      "unat (ps_attempt (pubSend ?t)) = unat (ps_attempt (pubSend s)) + k" "m_retryCount (st ?t) = m_retryCount (st s)"
      "m_timestamp (st ?t) = m_timestamp (st s)" "m_retryPeriod (st ?t) = m_retryPeriod (st s)"
      using Suc by simp_all
    then have "ps_attempt (pubSend ?t) < m_retryCount (st ?t)" using Suc.prems by (simp add: word_less_nat_alt assms(3))
    note r = tick_resends [OF IH(1) this]
    show ?case using r IH tick_settings [of ?t] by simp
  qed (simp add: assms(1))
  have "in_flight pub ((PubSend_tickImpl ^^ n) s)" "m_retryCount (st ((PubSend_tickImpl ^^ n) s)) \<le> ps_attempt (pubSend ((PubSend_tickImpl ^^ n) s))"
    using k [of n] assms(2) by (simp_all add: word_le_nat_alt assms(3))
  note last = tick_gives_up [OF this]
  show ?thesis using k last by (auto simp: in_flight_def PubSend_resetCurrPub_def)
qed


section \<open>Emptying the queue\<close>

lemmas PubSend_queue_total =
  PubSend_queue_shrinks(1) [OF PubSend_all_dom [rule_format]] PubSend_queue_shrinks(4) [OF PubSend_all_dom [rule_format]]

lemma loop_drains:
  "ps_currPub (pubSend (PubSend_newSends_loop s)) \<noteq> None \<or>
   m_brokerPubs (st (PubSend_newSends_loop s)) = []"
proof (induction "PubSend_queue s" arbitrary: s rule: less_induct)
  case less
  have "PubSend_queue (PubSend_sendCurrent (PubSend_takeFront s)) < PubSend_queue s"
    if "m_brokerPubs (st s) \<noteq> []"
    using PubSend_queue_total(2) [of "PubSend_takeFront s"] that
    by (cases "m_brokerPubs (st s)") (simp_all add: frame_simps)
  then show ?case
    using less.hyps [of "PubSend_sendCurrent (PubSend_takeFront s)"]
    by (subst (1 2) PubSend_newSends_loop.simps) auto
qed

text \<open>The queue never waits for a free sender: after any message of the client or the broker
  that makes the operation look at its queue, with the client connected, a publication is in
  flight or the queue is empty.\<close>

theorem checkSend_no_idle_queue:
  assumes "m_connStatus (st s) = Connected"
  shows "ps_currPub (pubSend (PubSend_checkSend s)) \<noteq> None \<or>
    m_brokerPubs (st (PubSend_checkSend s)) = []"
proof -
  have "ps_currPub (pubSend (PubSend_newSendsEnd u)) = ps_currPub (pubSend u)" for u
    by (simp add: PubSend_straight_defs Let_def)
  then have "ps_currPub (pubSend (PubSend_newSends s)) \<noteq> None \<or>
      m_brokerPubs (st (PubSend_newSends s)) = []"
    using loop_drains by (simp add: PubSend_newSends.simps frame_simps)
  then show ?thesis using assms by (subst (1 2) PubSend_checkSend.simps) auto
qed

section \<open>Order of delivery\<close>

text \<open>A queue of publications with quality of service 0 whose topics the client knows, the ids
  given by \<open>f\<close>, in a session that can send them.\<close>

definition known_topic :: "reg_mgr \<Rightarrow> (string \<Rightarrow> topic_info) \<Rightarrow> string \<Rightarrow> bool" where
  "known_topic r f topic \<longleftrightarrow> RegMgr_mapTopic topic r = Inr (f topic, r) \<and> ti_topicId (f topic) \<noteq> 0 \<and>
     \<not> ti_newInsersion (f topic)"

definition qos0_ready :: "(string \<Rightarrow> topic_info) \<Rightarrow> session \<Rightarrow> bool" where
  "qos0_ready f s \<longleftrightarrow> m_connStatus (st s) = Connected \<and> ps_currPub (pubSend s) = None \<and>
     \<not> m_pendingClientDisconnect (st s) \<and> \<not> ps_ping (pubSend s) \<and> 0 < m_retryCount (st s) \<and>
     cb_sendToClient (cbs s) \<and>
     (\<forall>p \<in> set (m_brokerPubs (st s)). pi_qos p = QoS_AtMostOnceDelivery \<and>
        known_topic (m_regMgr (st s)) f (pi_topic p))"

definition qos0_publish :: "(string \<Rightarrow> topic_info) \<Rightarrow> pub_info \<Rightarrow> event" where
  "qos0_publish f p = ToClient (PublishMsg_SN
     \<lparr>sp_topicIdType = ti_topicIdType (f (pi_topic p)), sp_retain = pi_retain p,
      sp_qos = SN_AtMostOnceDelivery, sp_dup = pi_dup p, sp_topicId = ti_topicId (f (pi_topic p)),
      sp_msgId = 0, sp_data = pi_msg p\<rparr>) 0"

lemma qos0_step:
  assumes "qos0_ready f s" "m_brokerPubs (st s) = p # ps"
  shows "\<exists>v. PubSend_sendCurrent (PubSend_takeFront s) = PubSend_checkSend v \<and> qos0_ready f v \<and>
    m_brokerPubs (st v) = ps \<and> out v = out s @ [qos0_publish f p] \<and> faults v = faults s"
proof -
  have p: "RegMgr_mapTopic (pi_topic p) (m_regMgr (st s)) = Inr (f (pi_topic p), m_regMgr (st s))"
    "ti_topicId (f (pi_topic p)) \<noteq> 0" "\<not> ti_newInsersion (f (pi_topic p))"
    "pi_qos p = QoS_AtMostOnceDelivery" "\<not> m_retryCount (st s) \<le> 0"
    using assms by (auto simp: qos0_ready_def known_topic_def)
  let ?u = "PubSend_allocMsgId ((PubSend_takeFront s)\<lparr>st := (st (PubSend_takeFront s))\<lparr>m_regMgr := m_regMgr (st s)\<rparr>,
     pubSend := (pubSend (PubSend_takeFront s))\<lparr>ps_attempt := 0, ps_currTopicInfo := f (pi_topic p),
       ps_registered := False, ps_acked := False\<rparr>\<rparr>)"
  let ?v = "PubSend_resetCurrPub (PubSend_sendPublish p (?u\<lparr>pubSend := (pubSend ?u)\<lparr>ps_attempt := 1\<rparr>\<rparr>))"
  have "PubSend_sendCurrent (PubSend_takeFront s) = PubSend_doSend ?u"
    using p assms(2) by (simp add: PubSend_sendCurrent.simps PubSend_takeFront_def fault_if_def)
  also have "\<dots> = PubSend_checkSend ?v"
    using p assms(2)
    by (simp add: PubSend_doSend.simps PubSend_takeFront_def PubSend_allocMsgId_def fault_if_def
        PubSend_needsRegister_def Let_def)
  finally have "PubSend_sendCurrent (PubSend_takeFront s) = PubSend_checkSend ?v" .
  moreover have "qos0_ready f ?v" "m_brokerPubs (st ?v) = ps" "out ?v = out s @ [qos0_publish f p]"
    "faults ?v = faults s"
    using assms p by (auto simp: qos0_ready_def qos0_publish_def PubSend_straight_defs
        PubSend_takeFront_def Let_def)
  ultimately show ?thesis by blast
qed

lemma qos0_newSends:
  assumes "qos0_ready f s"
  shows "PubSend_newSends s = PubSend_newSendsEnd (PubSend_newSends_loop (SessionOp_cancelTick OpPubSend s))"
    and "qos0_ready f (SessionOp_cancelTick OpPubSend s)"
  using assms by (simp_all add: PubSend_newSends.simps qos0_ready_def fault_if_def SessionOp_cancelTick_def)

lemma qos0_all:
  assumes "qos0_ready f s"
  shows "qos0_ready f (PubSend_checkSend s) \<and> m_brokerPubs (st (PubSend_checkSend s)) = [] \<and>
    out (PubSend_checkSend s) = out s @ map (qos0_publish f) (m_brokerPubs (st s)) \<and>
    faults (PubSend_checkSend s) = faults s"
  using assms
proof (induction "PubSend_queue s" arbitrary: s)
  case 0
  then show ?case by (simp add: PubSend_checkSend.simps qos0_ready_def)
next
  case (Suc n)
  then obtain p ps where ps: "m_brokerPubs (st s) = p # ps" by (cases "m_brokerPubs (st s)") auto
  let ?s = "SessionOp_cancelTick OpPubSend s"
  have s': "qos0_ready f ?s" "m_brokerPubs (st ?s) = p # ps" "out ?s = out s" "faults ?s = faults s"
    using qos0_newSends(2) Suc.prems ps by (simp_all add: SessionOp_cancelTick_def)
  obtain v where v: "PubSend_sendCurrent (PubSend_takeFront ?s) = PubSend_checkSend v" "qos0_ready f v"
    "m_brokerPubs (st v) = ps" "out v = out s @ [qos0_publish f p]" "faults v = faults s"
    using qos0_step [OF s'(1,2)] s'(3,4) by auto
  let ?w = "PubSend_checkSend v"
  have w: "qos0_ready f ?w" "m_brokerPubs (st ?w) = []" "out ?w = out s @ map (qos0_publish f) (p # ps)"
    "faults ?w = faults s"
    using Suc.hyps(1) [OF _ v(2)] Suc.hyps(2) ps v(3-5) by simp_all
  have "PubSend_newSends_loop ?s = PubSend_newSends_loop ?w"
    using s'(1,2) v(1) by (subst PubSend_newSends_loop.simps) (simp add: qos0_ready_def)
  also have "\<dots> = ?w" using w(2) by (subst PubSend_newSends_loop.simps) simp
  finally have "PubSend_newSends s = PubSend_newSendsEnd ?w"
    using qos0_newSends(1) Suc.prems by simp
  also have "\<dots> = ?w" using w(1,2) by (simp add: PubSend_newSendsEnd_def qos0_ready_def)
  finally have "PubSend_checkSend s = ?w"
    using Suc.prems ps by (subst PubSend_checkSend.simps) (simp add: qos0_ready_def)
  then show ?case using w ps by simp
qed

text \<open>C30. Publications with quality of service 0 reach the client in the order in which the broker
  sent them, each exactly once, and leave the queue: a connected client that knows the topics gets
  one PUBLISH for every queued publication, with the topic id of its topic.\<close>

theorem qos0_delivered_in_order:
  assumes "qos0_ready f s"
  shows "out (PubSend_checkSend s) = out s @ map (qos0_publish f) (m_brokerPubs (st s)) \<and>
    m_brokerPubs (st (PubSend_checkSend s)) = [] \<and> faults (PubSend_checkSend s) = faults s"
  using qos0_all [OF assms] by simp

end
