(* ===== verification/Gw_Forward.thy ===== *)
theory Gw_Forward
  imports Gw_SessionOp
begin

text \<open>
  Forwarding between the client and the broker,
  \<^verbatim>\<open>src/gateway/lib/src/session_op/Forward.{h,cpp}\<close>: publications, subscriptions and pings of
  the client with their answers. Topic ids are translated to topic strings on the way to the
  broker, and a publication with quality of service -1 that arrives before the connection is
  kept until the broker accepts it.
\<close>

unbundle bit_operations_syntax

section \<open>Operations\<close>

definition Forward_init :: forward_op where
  "Forward_init = \<lparr>fw_subs = [], fw_pubs = [], fw_lastPubTopicId = 0, fw_pingInProgress = False\<rparr>"

definition Forward_sendPubackToClient ::
    "u16 \<Rightarrow> u16 \<Rightarrow> return_code \<Rightarrow> session \<Rightarrow> session" where
  "Forward_sendPubackToClient topicId msgId rc s = sendToClient (PubackMsg_SN topicId msgId rc) s"

definition Forward_publishMsg :: "string \<Rightarrow> sn_publish \<Rightarrow> mqtt_publish" where
  "Forward_publishMsg topic msg =
     (let fwdQos = translateQosForBroker (translateQos_sn (sp_qos msg))
      in \<lparr>mp_retain = sp_retain msg, mp_qos = fwdQos, mp_dup = sp_dup msg, mp_topic = topic,
          mp_packetId = refresh_packetId fwdQos (sp_msgId msg), mp_payload = sp_data msg\<rparr>)"

definition Forward_handle_PublishMsg_SN :: "sn_publish \<Rightarrow> session \<Rightarrow> session" where
  "Forward_handle_PublishMsg_SN msg s =
     (if sp_qos msg = SN_NoGwPublish \<and> m_connStatus (st s) = Disconnected then
        s\<lparr>forward := (forward s)\<lparr>fw_pubs := fw_pubs (forward s) @
            [\<lparr>np_topicId = sp_topicId msg, np_data = sp_data msg\<rparr>]\<rparr>\<rparr>
      else if sp_qos msg = SN_NoGwPublish \<and> m_connStatus (st s) \<noteq> Connected then s
      else if m_connStatus (st s) \<noteq> Connected then
        Forward_sendPubackToClient (sp_topicId msg) (sp_msgId msg) NotSupported
          (SessionImpl_reportError ''PUBLISH from client when not connected'' s)
      else if \<not> m_brokerConnected (st s) then
        Forward_sendPubackToClient (sp_topicId msg) (sp_msgId msg) Congestion s
      else
        (case RegMgr_mapTopicId (sp_topicId msg) (m_regMgr (st s)) of
           Inl e \<Rightarrow> fault_if True (RegFault e) s
         | Inr topic \<Rightarrow>
             if topic = '''' then
               let s = SessionImpl_reportError ''Invalid topic ID in PUBLISH'' s;
                   s = Forward_sendPubackToClient (sp_topicId msg) (sp_msgId msg)
                         InvalidTopicId s
               in sendToBroker PingreqMsg s
             else
               let s = s\<lparr>forward := (forward s)\<lparr>fw_lastPubTopicId := sp_topicId msg\<rparr>\<rparr>
               in sendToBroker (PublishMsg (Forward_publishMsg topic msg)) s))"

definition Forward_handle_PubrelMsg_SN :: "u16 \<Rightarrow> session \<Rightarrow> session" where
  "Forward_handle_PubrelMsg_SN msgId s = sendToBroker (PubrelMsg msgId) s"

definition Forward_handle_PingreqMsg_SN :: "session \<Rightarrow> session" where
  "Forward_handle_PingreqMsg_SN s =
     (if m_connStatus (st s) \<noteq> Connected then s
      else sendToBroker PingreqMsg
             (s\<lparr>forward := (forward s)\<lparr>fw_pingInProgress := True\<rparr>\<rparr>))"

text \<open>The two characters of a short topic name, as the handlers read them from its id.\<close>

definition shortTopicNameOf :: "u16 \<Rightarrow> string" where
  "shortTopicNameOf topicId =
     [char_of (unat (drop_bit 8 topicId AND 0xff)), char_of (unat (topicId AND 0xff))]"

definition Forward_sendSuback :: "sn_subscribe \<Rightarrow> return_code \<Rightarrow> session \<Rightarrow> session" where
  "Forward_sendSuback msg rc s =
     sendToClient (SubackMsg_SN (ss_qos msg) (optional_id (ss_topicId msg)) (ss_msgId msg) rc) s"

text \<open>A refused SUBSCRIBE: an error report, the answer to the client and a ping of the broker.\<close>

definition Forward_refuseSubscribe ::
    "string \<Rightarrow> sn_subscribe \<Rightarrow> return_code \<Rightarrow> session \<Rightarrow> session" where
  "Forward_refuseSubscribe err msg rc s =
     sendToBroker PingreqMsg (Forward_sendSuback msg rc (SessionImpl_reportError err s))"

text \<open>What follows the choice of the topic in the SUBSCRIBE handler.\<close>

definition Forward_forwardSubscribe ::
    "sn_subscribe \<Rightarrow> string \<Rightarrow> u16 \<Rightarrow> session \<Rightarrow> session" where
  "Forward_forwardSubscribe msg topic topicId s =
     (let s = s\<lparr>forward := (forward s)\<lparr>fw_subs := fw_subs (forward s) @
                [\<lparr>si_timestamp = m_timestamp (st s), si_msgId = ss_msgId msg,
                  si_topicId = topicId\<rparr>]\<rparr>\<rparr>;
          s = fault_if (topic = '''') (AssertFailed OpForward ''topic'') s
      in sendToBroker (SubscribeMsg (ss_msgId msg)
           [(topic, translateQosForBroker (translateQos_sn (ss_qos msg)))]) s)"

definition Forward_hasWildcards :: "string \<Rightarrow> bool" where
  "Forward_hasWildcards topic \<longleftrightarrow> CHR ''#'' \<in> set topic \<or> CHR ''+'' \<in> set topic"

definition Forward_handle_SubscribeMsg_SN :: "sn_subscribe \<Rightarrow> session \<Rightarrow> session" where
  "Forward_handle_SubscribeMsg_SN msg s =
     (if m_connStatus (st s) \<noteq> Connected then
        Forward_sendSuback msg NotSupported
          (SessionImpl_reportError ''SUBSCRIBE from client when not connected'' s)
      else
        case ss_topicName msg of
          Some topic \<Rightarrow>
            (let s = fault_if (ss_topicId msg \<noteq> None) (AssertFailed OpForward ''topicId'') s;
                 s = fault_if (ss_topicIdType msg \<noteq> Normal)
                       (AssertFailed OpForward ''topicIdType'') s
             in
             if topic = '''' then
               Forward_refuseSubscribe
                 ''Empty topic in the SUBSCRIBE message from the client'' msg NotSupported s
             else if Forward_hasWildcards topic then Forward_forwardSubscribe msg topic 0 s
             else
               (case RegMgr_mapTopicNoInfo topic (m_regMgr (st s)) of
                  Inl e \<Rightarrow> fault_if True (RegFault e) s
                | Inr (topicId, r) \<Rightarrow>
                    Forward_forwardSubscribe msg topic topicId
                      (s\<lparr>st := (st s)\<lparr>m_regMgr := r\<rparr>\<rparr>)))
        | None \<Rightarrow>
            if ss_topicIdType msg = ShortTopicName then
              let s = fault_if (ss_topicId msg = None) (AssertFailed OpForward ''topicId'') s
              in Forward_forwardSubscribe msg (shortTopicNameOf (optional_id (ss_topicId msg)))
                   (optional_id (ss_topicId msg)) s
            else if ss_topicIdType msg \<noteq> PredefinedTopicId then
              Forward_refuseSubscribe
                ''Unknown topic type in SUBSCRIBE message from the client'' msg NotSupported s
            else
              (let s = fault_if (ss_topicId msg = None) (AssertFailed OpForward ''topicId'') s in
               case RegMgr_mapTopicId (optional_id (ss_topicId msg)) (m_regMgr (st s)) of
                 Inl e \<Rightarrow> fault_if True (RegFault e) s
               | Inr topicStr \<Rightarrow>
                   if topicStr \<noteq> '''' then
                     Forward_forwardSubscribe msg topicStr (optional_id (ss_topicId msg)) s
                   else
                     Forward_refuseSubscribe
                       ''Invalid topic topic ID in SUBSCRIBE message from the client''
                       msg InvalidTopicId s))"

definition Forward_handle_UnsubscribeMsg_SN :: "sn_unsubscribe \<Rightarrow> session \<Rightarrow> session" where
  "Forward_handle_UnsubscribeMsg_SN msg s =
     (if m_connStatus (st s) \<noteq> Connected then s
      else
        case su_topicName msg of
          Some topic \<Rightarrow>
            (let s = fault_if (su_topicId msg \<noteq> None) (AssertFailed OpForward ''topicId'') s in
             if topic = '''' then s else sendToBroker (UnsubscribeMsg (su_msgId msg) [topic]) s)
        | None \<Rightarrow>
            (let s = fault_if (su_topicId msg = None) (AssertFailed OpForward ''topicId'') s in
             if su_topicIdType msg = ShortTopicName then
               sendToBroker (UnsubscribeMsg (su_msgId msg)
                 [shortTopicNameOf (optional_id (su_topicId msg))]) s
             else
               (case RegMgr_mapTopicId (optional_id (su_topicId msg)) (m_regMgr (st s)) of
                  Inl e \<Rightarrow> fault_if True (RegFault e) s
                | Inr topicStr \<Rightarrow>
                    if topicStr = '''' then s
                    else sendToBroker (UnsubscribeMsg (su_msgId msg) [topicStr]) s)))"

definition Forward_noGwPublishMsg :: "string \<Rightarrow> data_buf \<Rightarrow> mqtt_publish" where
  "Forward_noGwPublishMsg topic data =
     \<lparr>mp_retain = False, mp_qos = MQ_AtMostOnceDelivery, mp_dup = False, mp_topic = topic,
      mp_packetId = None, mp_payload = data\<rparr>"

text \<open>The loop over the kept publications: every turn ends with \<^verbatim>\<open>pop_front\<close>, by the scope
  guard.\<close>

primrec Forward_sendPubs :: "no_gw_pub_info list \<Rightarrow> session \<Rightarrow> session" where
  "Forward_sendPubs [] s = s"
| "Forward_sendPubs (pub # pubs) s =
     (case RegMgr_mapTopicId (np_topicId pub) (m_regMgr (st s)) of
        Inl e \<Rightarrow> fault_if True (RegFault e) s
      | Inr topic \<Rightarrow>
          let s = (if topic = '''' then s
                   else sendToBroker (PublishMsg (Forward_noGwPublishMsg topic (np_data pub))) s);
              s = s\<lparr>forward := (forward s)\<lparr>fw_pubs := pubs\<rparr>\<rparr>
          in Forward_sendPubs pubs s)"

definition Forward_handle_ConnackMsg :: "session \<Rightarrow> session" where
  "Forward_handle_ConnackMsg s =
     (if fw_pubs (forward s) = [] \<or> m_connStatus (st s) \<noteq> Connected \<or> \<not> m_brokerConnected (st s)
      then s else Forward_sendPubs (fw_pubs (forward s)) s)"

definition Forward_handle_PubackMsg :: "u16 \<Rightarrow> session \<Rightarrow> session" where
  "Forward_handle_PubackMsg packetId s =
     Forward_sendPubackToClient (fw_lastPubTopicId (forward s)) packetId Accepted s"

definition Forward_handle_PubrecMsg :: "u16 \<Rightarrow> session \<Rightarrow> session" where
  "Forward_handle_PubrecMsg packetId s = sendToClient (PubrecMsg_SN packetId) s"

definition Forward_handle_PubcompMsg :: "u16 \<Rightarrow> session \<Rightarrow> session" where
  "Forward_handle_PubcompMsg packetId s = sendToClient (PubcompMsg_SN packetId) s"

definition Forward_handle_PingrespMsg :: "session \<Rightarrow> session" where
  "Forward_handle_PingrespMsg s =
     (if \<not> fw_pingInProgress (forward s) then s
      else sendToClient PingrespMsg_SN (s\<lparr>forward := (forward s)\<lparr>fw_pingInProgress := False\<rparr>\<rparr>))"

text \<open>The return codes of SUBACK: the granted quality of service, or 0x80 for a failure.\<close>

definition SubackRetCode_Failure :: u8 where "SubackRetCode_Failure = 0x80"

definition SubackRetCode_Qos2 :: u8 where "SubackRetCode_Qos2 = 2"

definition mqtt_qos_of :: "u8 \<Rightarrow> mqtt_qos" where
  "mqtt_qos_of v = (if v = 0 then MQ_AtMostOnceDelivery
     else if v = 1 then MQ_AtLeastOnceDelivery else MQ_ExactlyOnceDelivery)"

definition Forward_subackResult :: "u8 list \<Rightarrow> sn_qos \<times> return_code" where
  "Forward_subackResult retCodesList =
     (case retCodesList of
        [] \<Rightarrow> (SN_AtMostOnceDelivery, NotSupported)
      | ackRetCode # _ \<Rightarrow>
          if ackRetCode = SubackRetCode_Failure then (SN_AtMostOnceDelivery, NotSupported)
          else (translateQosForClient (translateQos_mqtt
                  (mqtt_qos_of (min ackRetCode SubackRetCode_Qos2))), Accepted))"

definition Forward_handle_SubackMsg :: "u16 \<Rightarrow> u8 list \<Rightarrow> session \<Rightarrow> session" where
  "Forward_handle_SubackMsg msgId retCodesList s =
     (let topicId = (case find (\<lambda>elem. si_msgId elem = msgId) (fw_subs (forward s)) of
                       None \<Rightarrow> 0 | Some elem \<Rightarrow> si_topicId elem);
          s = s\<lparr>forward := (forward s)\<lparr>fw_subs :=
                erase_first (\<lambda>elem. si_msgId elem = msgId) (fw_subs (forward s))\<rparr>\<rparr>;
          s = s\<lparr>forward := (forward s)\<lparr>fw_subs :=
                filter (\<lambda>elem. \<not> (si_timestamp elem + ucast (m_retryPeriod (st s))
                                   < m_timestamp (st s))) (fw_subs (forward s))\<rparr>\<rparr>
      in sendToClient (SubackMsg_SN (fst (Forward_subackResult retCodesList)) topicId msgId
           (snd (Forward_subackResult retCodesList))) s)"

definition Forward_handle_UnsubackMsg :: "u16 \<Rightarrow> session \<Rightarrow> session" where
  "Forward_handle_UnsubackMsg packetId s = sendToClient (UnsubackMsg_SN packetId) s"

section \<open>Dispatch of messages to the operation\<close>

fun Forward_handle_sn :: "sn_msg \<Rightarrow> session \<Rightarrow> session" where
  "Forward_handle_sn (PublishMsg_SN p) s = Forward_handle_PublishMsg_SN p s"
| "Forward_handle_sn (PubrelMsg_SN mid) s = Forward_handle_PubrelMsg_SN mid s"
| "Forward_handle_sn (PingreqMsg_SN c) s = Forward_handle_PingreqMsg_SN s"
| "Forward_handle_sn (SubscribeMsg_SN m) s = Forward_handle_SubscribeMsg_SN m s"
| "Forward_handle_sn (UnsubscribeMsg_SN m) s = Forward_handle_UnsubscribeMsg_SN m s"
| "Forward_handle_sn _ s = s"

fun Forward_handle_mqtt :: "mqtt_msg \<Rightarrow> session \<Rightarrow> session" where
  "Forward_handle_mqtt (ConnackMsg rc sp) s = Forward_handle_ConnackMsg s"
| "Forward_handle_mqtt (PubackMsg pid) s = Forward_handle_PubackMsg pid s"
| "Forward_handle_mqtt (PubrecMsg pid) s = Forward_handle_PubrecMsg pid s"
| "Forward_handle_mqtt (PubcompMsg pid) s = Forward_handle_PubcompMsg pid s"
| "Forward_handle_mqtt PingrespMsg s = Forward_handle_PingrespMsg s"
| "Forward_handle_mqtt (SubackMsg pid rcs) s = Forward_handle_SubackMsg pid rcs s"
| "Forward_handle_mqtt (UnsubackMsg pid) s = Forward_handle_UnsubackMsg pid s"
| "Forward_handle_mqtt _ s = s"

section \<open>Contract\<close>

lemma op_frame_Forward_steps [op_frame_rules]:
  assumes "op_frame OpForward s0 s"
  shows "op_frame OpForward s0 (Forward_sendPubackToClient t m rc s)"
    and "op_frame OpForward s0 (Forward_sendSuback msg rc s)"
    and "op_frame OpForward s0 (Forward_refuseSubscribe err msg rc s)"
    and "op_frame OpForward s0 (Forward_forwardSubscribe msg topic topicId s)"
  unfolding Forward_sendPubackToClient_def Forward_sendSuback_def Forward_refuseSubscribe_def
    Forward_forwardSubscribe_def
  using assms by - (assumption | rule op_frame_rules)+

lemma op_frame_Forward_sendPubs [op_frame_rules]:
  "op_frame OpForward s0 s \<Longrightarrow> op_frame OpForward s0 (Forward_sendPubs pubs s)"
proof (induction pubs arbitrary: s)
  case (Cons pub pubs)
  show ?case
    unfolding Forward_sendPubs.simps using Cons.prems
    by - (assumption | rule op_frame_rules Cons.IH)+
qed simp

lemma op_frame_Forward [op_frame_rules]:
  assumes "op_frame OpForward s0 s"
  shows "op_frame OpForward s0 (Forward_handle_PublishMsg_SN p s)"
    and "op_frame OpForward s0 (Forward_handle_PubrelMsg_SN mid s)"
    and "op_frame OpForward s0 (Forward_handle_PingreqMsg_SN s)"
    and "op_frame OpForward s0 (Forward_handle_SubscribeMsg_SN sm s)"
    and "op_frame OpForward s0 (Forward_handle_UnsubscribeMsg_SN um s)"
    and "op_frame OpForward s0 (Forward_handle_ConnackMsg s)"
    and "op_frame OpForward s0 (Forward_handle_PubackMsg pid s)"
    and "op_frame OpForward s0 (Forward_handle_PubrecMsg pid s)"
    and "op_frame OpForward s0 (Forward_handle_PubcompMsg pid s)"
    and "op_frame OpForward s0 (Forward_handle_PingrespMsg s)"
    and "op_frame OpForward s0 (Forward_handle_SubackMsg pid rcs s)"
    and "op_frame OpForward s0 (Forward_handle_UnsubackMsg pid s)"
  unfolding Forward_handle_PublishMsg_SN_def Forward_handle_PubrelMsg_SN_def
    Forward_handle_PingreqMsg_SN_def Forward_handle_SubscribeMsg_SN_def
    Forward_handle_UnsubscribeMsg_SN_def Forward_handle_ConnackMsg_def
    Forward_handle_PubackMsg_def Forward_handle_PubrecMsg_def Forward_handle_PubcompMsg_def
    Forward_handle_PingrespMsg_def Forward_handle_SubackMsg_def Forward_handle_UnsubackMsg_def
  using assms by - (assumption | rule op_frame_rules)+

lemma op_frame_Forward_handle_sn [op_frame_rules]:
  "op_frame OpForward s0 s \<Longrightarrow> op_frame OpForward s0 (Forward_handle_sn m s)"
  by (cases m) (simp_all add: op_frame_rules)

lemma op_frame_Forward_handle_mqtt [op_frame_rules]:
  "op_frame OpForward s0 s \<Longrightarrow> op_frame OpForward s0 (Forward_handle_mqtt m s)"
  by (cases m) (simp_all add: op_frame_rules)

section \<open>Interpretation\<close>

interpretation forward_op: session_op OpForward "\<lambda>s. s" "\<lambda>s. s" Forward_handle_sn Forward_handle_mqtt
  by unfold_locales (simp_all add: op_frame_rules)

end
