(* ===== verification/Gw_WillUpdate.thy ===== *)
theory Gw_WillUpdate
  imports Gw_SessionOp
begin

text \<open>
  Updating the will of a connected client,
  \<^verbatim>\<open>src/gateway/lib/src/session_op/WillUpdate.{h,cpp}\<close>: MQTT cannot change the will of a
  connection, so the gateway disconnects from the broker, asks for a new connection and sends a
  CONNECT with the new will for the same MQTT session.
\<close>

section \<open>Operations\<close>

definition WillUpdate_init :: will_update_op where
  "WillUpdate_init = \<lparr>wu_op = WillOp_None, wu_will = will_info_default,
     wu_reconnectRequested = False, wu_brokerConnectSent = False\<rparr>"

definition WillUpdate_cancelOp :: "session \<Rightarrow> session" where
  "WillUpdate_cancelOp s =
     (let s = SessionOp_cancelTick OpWillUpdate s
      in s\<lparr>willUpdate := (willUpdate s)\<lparr>wu_op := WillOp_None\<rparr>\<rparr>)"

definition WillUpdate_sendTopicResp :: "return_code \<Rightarrow> session \<Rightarrow> session" where
  "WillUpdate_sendTopicResp rc s = sendToClient (WilltopicrespMsg_SN rc) s"

definition WillUpdate_sendMsgResp :: "return_code \<Rightarrow> session \<Rightarrow> session" where
  "WillUpdate_sendMsgResp rc s = sendToClient (WillmsgrespMsg_SN rc) s"

definition WillUpdate_sendResp :: "return_code \<Rightarrow> session \<Rightarrow> session" where
  "WillUpdate_sendResp rc s =
     (let s = fault_if (wu_op (willUpdate s) = WillOp_None) (AssertFailed OpWillUpdate ''op'') s in
      if wu_op (willUpdate s) = WillOp_TopicUpd then WillUpdate_sendTopicResp rc s
      else if wu_op (willUpdate s) = WillOp_MsgUpd then WillUpdate_sendMsgResp rc s
      else s)"

definition WillUpdate_connectMsg :: "session \<Rightarrow> mqtt_connect" where
  "WillUpdate_connectMsg s =
     (let will = wu_will (willUpdate s);
          msg = mqtt_connect_default\<lparr>mc_clientId := m_clientId (st s),
                  mc_keepAlive := m_keepAlive (st s)\<rparr>;
          msg = (if wi_topic will \<noteq> '''' then
                   msg\<lparr>mc_willFlag := True, mc_willTopic := wi_topic will,
                       mc_willMessage := wi_msg will,
                       mc_willQos := translateQosForBroker (wi_qos will),
                       mc_willRetain := wi_retain will\<rparr>
                 else msg)
      in
      if m_username (st s) \<noteq> '''' then
        let msg = msg\<lparr>mc_userName := m_username (st s), mc_userNameFlag := True\<rparr>
        in if m_password (st s) \<noteq> []
           then msg\<lparr>mc_password := m_password (st s), mc_passwordFlag := True\<rparr> else msg
      else msg)"

definition WillUpdate_sendConnectMsg :: "session \<Rightarrow> session" where
  "WillUpdate_sendConnectMsg s = sendToBroker (ConnectMsg (WillUpdate_connectMsg s)) s"

definition WillUpdate_sendFailureAndTerm :: "session \<Rightarrow> session" where
  "WillUpdate_sendFailureAndTerm s =
     (let s = WillUpdate_sendResp NotSupported s;
          s = WillUpdate_cancelOp s;
          s = SessionOp_sendDisconnectToClient s
      in SessionImpl_termRequest s)"

definition WillUpdate_doNextStage :: "session \<Rightarrow> session" where
  "WillUpdate_doNextStage s =
     (if wu_reconnectRequested (willUpdate s) then
        let s = fault_if (\<not> m_brokerConnected (st s))
                  (AssertFailed OpWillUpdate ''brokerConnected'') s;
            s = WillUpdate_sendConnectMsg s;
            s = s\<lparr>willUpdate := (willUpdate s)\<lparr>wu_brokerConnectSent := True\<rparr>\<rparr>
        in SessionOp_nextTickReq OpWillUpdate (m_retryPeriod (st s)) s
      else
        let s = sendToBroker DisconnectMsg s;
            s = SessionImpl_brokerReconnectRequest s;
            s = s\<lparr>willUpdate := (willUpdate s)\<lparr>wu_reconnectRequested := True\<rparr>\<rparr>
        in SessionOp_nextTickReq OpWillUpdate (m_retryPeriod (st s)) s)"

definition WillUpdate_startOp :: "will_op \<Rightarrow> session \<Rightarrow> session" where
  "WillUpdate_startOp op s =
     (let s = SessionOp_cancelTick OpWillUpdate s;
          s = s\<lparr>willUpdate := (willUpdate s)\<lparr>wu_op := op, wu_reconnectRequested := False,
                  wu_brokerConnectSent := False\<rparr>\<rparr>
      in WillUpdate_doNextStage s)"

definition WillUpdate_tickImpl :: "session \<Rightarrow> session" where
  "WillUpdate_tickImpl s =
     (if wu_op (willUpdate s) = WillOp_None then s else WillUpdate_sendFailureAndTerm s)"

definition WillUpdate_brokerConnectionUpdatedImpl :: "session \<Rightarrow> session" where
  "WillUpdate_brokerConnectionUpdatedImpl s =
     (if wu_op (willUpdate s) = WillOp_None then s
      else if m_brokerConnected (st s) \<and> wu_reconnectRequested (willUpdate s) \<and>
              \<not> wu_brokerConnectSent (willUpdate s)
      then WillUpdate_doNextStage (SessionOp_cancelTick OpWillUpdate s)
      else s)"

definition WillUpdate_handle_ConnectMsg_SN :: "session \<Rightarrow> session" where
  "WillUpdate_handle_ConnectMsg_SN s =
     (if wu_op (willUpdate s) \<noteq> WillOp_None then WillUpdate_cancelOp s else s)"

definition WillUpdate_handle_DisconnectMsg_SN :: "session \<Rightarrow> session" where
  "WillUpdate_handle_DisconnectMsg_SN s =
     (if wu_op (willUpdate s) \<noteq> WillOp_None then WillUpdate_cancelOp s else s)"

definition WillUpdate_handle_WilltopicupdMsg_SN ::
    "string \<Rightarrow> sn_qos \<Rightarrow> bool \<Rightarrow> session \<Rightarrow> session" where
  "WillUpdate_handle_WilltopicupdMsg_SN willTopic snQos retain s =
     (if m_connStatus (st s) \<noteq> Connected then
        WillUpdate_sendTopicResp NotSupported
          (SessionImpl_reportError ''WILLTOPICUPD message from the client when not connected'' s)
      else if wu_op (willUpdate s) = WillOp_MsgUpd then
        sendToBroker PingreqMsg (WillUpdate_sendTopicResp Congestion s)
      else if wu_op (willUpdate s) = WillOp_TopicUpd then sendToBroker PingreqMsg s
      else if wi_topic (m_will (st s)) = willTopic \<and>
              wi_qos (m_will (st s)) = translateQos_sn snQos \<and>
              wi_retain (m_will (st s)) = retain then
        sendToBroker PingreqMsg (WillUpdate_sendTopicResp Accepted s)
      else
        WillUpdate_startOp WillOp_TopicUpd (s\<lparr>willUpdate := (willUpdate s)\<lparr>wu_will :=
          \<lparr>wi_topic = willTopic, wi_msg = wi_msg (m_will (st s)),
           wi_qos = translateQos_sn snQos, wi_retain = retain\<rparr>\<rparr>\<rparr>))"

definition WillUpdate_handle_WillmsgupdMsg_SN :: "data_buf \<Rightarrow> session \<Rightarrow> session" where
  "WillUpdate_handle_WillmsgupdMsg_SN willData s =
     (if m_connStatus (st s) \<noteq> Connected then
        WillUpdate_sendMsgResp NotSupported
          (SessionImpl_reportError ''WILLMSGUPD message from the client when not connected'' s)
      else if wu_op (willUpdate s) = WillOp_TopicUpd then
        sendToBroker PingreqMsg (WillUpdate_sendMsgResp Congestion s)
      else if wu_op (willUpdate s) = WillOp_MsgUpd then sendToBroker PingreqMsg s
      else if willData = wi_msg (m_will (st s)) then
        sendToBroker PingreqMsg (WillUpdate_sendMsgResp Accepted s)
      else
        WillUpdate_startOp WillOp_MsgUpd (s\<lparr>willUpdate := (willUpdate s)\<lparr>wu_will :=
          \<lparr>wi_topic = wi_topic (m_will (st s)), wi_msg = willData,
           wi_qos = wi_qos (m_will (st s)), wi_retain = wi_retain (m_will (st s))\<rparr>\<rparr>\<rparr>))"

text \<open>The second argument is the session-present flag of CONNACK.\<close>

definition WillUpdate_handle_ConnackMsg :: "u8 \<Rightarrow> bool \<Rightarrow> session \<Rightarrow> session" where
  "WillUpdate_handle_ConnackMsg returnCode sp s =
     (if wu_op (willUpdate s) = WillOp_None then s
      else if returnCode \<noteq> 0 \<or> \<not> sp then WillUpdate_sendFailureAndTerm s
      else
        let s = s\<lparr>st := (st s)\<lparr>m_will := wu_will (willUpdate s)\<rparr>\<rparr>;
            s = WillUpdate_sendResp Accepted s
        in WillUpdate_cancelOp s)"

section \<open>Dispatch of messages to the operation\<close>

fun WillUpdate_handle_sn :: "sn_msg \<Rightarrow> session \<Rightarrow> session" where
  "WillUpdate_handle_sn (ConnectMsg_SN cid dur will clean) s = WillUpdate_handle_ConnectMsg_SN s"
| "WillUpdate_handle_sn (DisconnectMsg_SN d) s = WillUpdate_handle_DisconnectMsg_SN s"
| "WillUpdate_handle_sn (WilltopicupdMsg_SN t q r) s =
     WillUpdate_handle_WilltopicupdMsg_SN t q r s"
| "WillUpdate_handle_sn (WillmsgupdMsg_SN d) s = WillUpdate_handle_WillmsgupdMsg_SN d s"
| "WillUpdate_handle_sn _ s = s"

fun WillUpdate_handle_mqtt :: "mqtt_msg \<Rightarrow> session \<Rightarrow> session" where
  "WillUpdate_handle_mqtt (ConnackMsg rc sp) s = WillUpdate_handle_ConnackMsg rc sp s"
| "WillUpdate_handle_mqtt _ s = s"

section \<open>Contract\<close>

lemma op_frame_WillUpdate_sends [op_frame_rules]:
  assumes "op_frame OpWillUpdate s0 s"
  shows "op_frame OpWillUpdate s0 (WillUpdate_cancelOp s)" and "op_frame OpWillUpdate s0 (WillUpdate_sendTopicResp rc s)"
    and "op_frame OpWillUpdate s0 (WillUpdate_sendMsgResp rc s)" and "op_frame OpWillUpdate s0 (WillUpdate_sendConnectMsg s)"
  unfolding WillUpdate_cancelOp_def WillUpdate_sendTopicResp_def WillUpdate_sendMsgResp_def
    WillUpdate_sendConnectMsg_def
  using assms by - (assumption | rule op_frame_rules)+

lemma op_frame_WillUpdate_resp [op_frame_rules]:
  "op_frame OpWillUpdate s0 s \<Longrightarrow> op_frame OpWillUpdate s0 (WillUpdate_sendResp rc s)"
  unfolding WillUpdate_sendResp_def by (assumption | rule op_frame_rules)+

lemma op_frame_WillUpdate_steps [op_frame_rules]:
  assumes "op_frame OpWillUpdate s0 s"
  shows "op_frame OpWillUpdate s0 (WillUpdate_sendFailureAndTerm s)" and "op_frame OpWillUpdate s0 (WillUpdate_doNextStage s)"
  unfolding WillUpdate_sendFailureAndTerm_def WillUpdate_doNextStage_def
  using assms by - (assumption | rule op_frame_rules)+

lemma op_frame_WillUpdate_startOp [op_frame_rules]:
  "op_frame OpWillUpdate s0 s \<Longrightarrow> op_frame OpWillUpdate s0 (WillUpdate_startOp op s)"
  unfolding WillUpdate_startOp_def by (assumption | rule op_frame_rules)+

lemma op_frame_WillUpdate [op_frame_rules]:
  assumes "op_frame OpWillUpdate s0 s"
  shows "op_frame OpWillUpdate s0 (WillUpdate_tickImpl s)"
    and "op_frame OpWillUpdate s0 (WillUpdate_brokerConnectionUpdatedImpl s)"
    and "op_frame OpWillUpdate s0 (WillUpdate_handle_ConnectMsg_SN s)"
    and "op_frame OpWillUpdate s0 (WillUpdate_handle_DisconnectMsg_SN s)"
    and "op_frame OpWillUpdate s0 (WillUpdate_handle_WilltopicupdMsg_SN t q r s)"
    and "op_frame OpWillUpdate s0 (WillUpdate_handle_WillmsgupdMsg_SN d s)"
    and "op_frame OpWillUpdate s0 (WillUpdate_handle_ConnackMsg rc sp s)"
  unfolding WillUpdate_tickImpl_def WillUpdate_brokerConnectionUpdatedImpl_def
    WillUpdate_handle_ConnectMsg_SN_def WillUpdate_handle_DisconnectMsg_SN_def
    WillUpdate_handle_WilltopicupdMsg_SN_def WillUpdate_handle_WillmsgupdMsg_SN_def
    WillUpdate_handle_ConnackMsg_def
  using assms by - (assumption | rule op_frame_rules)+

lemma op_frame_WillUpdate_handle_sn [op_frame_rules]:
  "op_frame OpWillUpdate s0 s \<Longrightarrow> op_frame OpWillUpdate s0 (WillUpdate_handle_sn m s)"
  by (cases m) (simp_all add: op_frame_rules)

lemma op_frame_WillUpdate_handle_mqtt [op_frame_rules]:
  "op_frame OpWillUpdate s0 s \<Longrightarrow> op_frame OpWillUpdate s0 (WillUpdate_handle_mqtt m s)"
  by (cases m) (simp_all add: op_frame_rules)

section \<open>Interpretation\<close>

interpretation will_update_op: session_op OpWillUpdate WillUpdate_tickImpl WillUpdate_brokerConnectionUpdatedImpl WillUpdate_handle_sn WillUpdate_handle_mqtt
  by unfold_locales (simp_all add: op_frame_rules)

end
