(* ===== verification/Gw_Session.thy ===== *)
theory Gw_Session
  imports Gw_Connect Gw_Disconnect Gw_Asleep Gw_AsleepMonitor Gw_PubRecv Gw_PubSend Gw_Forward
    Gw_WillUpdate
begin

text \<open>
  The session itself, \<^verbatim>\<open>src/gateway/lib/src/SessionImpl.{h,cpp}\<close>: its construction, the settings,
  the dispatch of messages to the operations in the order of their creation, the clock, and the
  bracket every entry point of the API is enclosed in. The read loop over the client's bytes is
  in the theory of the encapsulating operation, because a loop can hand its bytes on to another
  session.
\<close>

section \<open>Construction and settings\<close>

definition no_callbacks :: callbacks where
  "no_callbacks = \<lparr>cb_nextTickProgram = False, cb_cancelTick = None, cb_sendToClient = False,
     cb_sendToBroker = False, cb_termReq = False, cb_brokerReconnectReq = False,
     cb_clientConnected = False, cb_authInfoReq = None, cb_errorReport = False,
     cb_fwdEncSessionCreated = False, cb_fwdEncSessionDeleted = False\<rparr>"

definition SessionImpl_init :: session where
  "SessionImpl_init = \<lparr>st = SessionState_init, cbs = no_callbacks, nextTicks = (\<lambda>_. 0),
     connect = Connect_init, asleep = Asleep_init, asleepMonitor = AsleepMonitor_init,
     pubRecv = PubRecv_init, pubSend = PubSend_init, forward = Forward_init,
     willUpdate = WillUpdate_init, ping = \<lparr>pg_attempt = 0\<rparr>, out = [], faults = []\<rparr>"

definition SessionImpl_setGatewayId :: "u8 \<Rightarrow> session \<Rightarrow> session" where
  "SessionImpl_setGatewayId v s = s\<lparr>st := (st s)\<lparr>m_gwId := v\<rparr>\<rparr>"

definition SessionImpl_setRetryPeriod :: "u32 \<Rightarrow> session \<Rightarrow> session" where
  "SessionImpl_setRetryPeriod v s =
     s\<lparr>st := (st s)\<lparr>m_retryPeriod := min (- 1 div 1000) v * 1000\<rparr>\<rparr>"

definition SessionImpl_getRetryPeriod :: "session \<Rightarrow> u32" where
  "SessionImpl_getRetryPeriod s = m_retryPeriod (st s)"

definition SessionImpl_setRetryCount :: "u32 \<Rightarrow> session \<Rightarrow> session" where
  "SessionImpl_setRetryCount v s = s\<lparr>st := (st s)\<lparr>m_retryCount := v\<rparr>\<rparr>"

text \<open>The first argument is \<^verbatim>\<open>max_size()\<close> of the list of publications.\<close>

definition SessionImpl_setSleepingClientMsgLimit :: "u64 \<Rightarrow> u64 \<Rightarrow> session \<Rightarrow> session" where
  "SessionImpl_setSleepingClientMsgLimit maxSize v s =
     s\<lparr>st := (st s)\<lparr>m_sleepPubAccLimit := min maxSize v\<rparr>\<rparr>"

definition SessionImpl_setDefaultClientId :: "string \<Rightarrow> session \<Rightarrow> session" where
  "SessionImpl_setDefaultClientId v s = s\<lparr>st := (st s)\<lparr>m_defaultClientId := v\<rparr>\<rparr>"

definition SessionImpl_setPubOnlyKeepAlive :: "u16 \<Rightarrow> session \<Rightarrow> session" where
  "SessionImpl_setPubOnlyKeepAlive v s = s\<lparr>st := (st s)\<lparr>m_pubOnlyKeepAlive := v\<rparr>\<rparr>"

definition SessionImpl_addPredefinedTopic :: "string \<Rightarrow> u16 \<Rightarrow> session \<Rightarrow> bool \<times> session" where
  "SessionImpl_addPredefinedTopic topic topicId s =
     (case RegMgr_regPredefined topic topicId (m_regMgr (st s)) of
        Inl e \<Rightarrow> (False, fault_if True (RegFault e) s)
      | Inr (ok, r) \<Rightarrow> (ok, s\<lparr>st := (st s)\<lparr>m_regMgr := r\<rparr>\<rparr>))"

definition SessionImpl_setTopicIdAllocationRange ::
    "u16 \<Rightarrow> u16 \<Rightarrow> session \<Rightarrow> bool \<times> session" where
  "SessionImpl_setTopicIdAllocationRange minVal maxVal s =
     (let (ok, r) = RegMgr_setTopicIdAllocationRange minVal maxVal (m_regMgr (st s))
      in (ok, s\<lparr>st := (st s)\<lparr>m_regMgr := r\<rparr>\<rparr>))"

definition SessionImpl_start :: "session \<Rightarrow> bool \<times> session" where
  "SessionImpl_start s =
     (if m_running (st s) \<or> \<not> cb_nextTickProgram (cbs s) \<or> cb_cancelTick (cbs s) = None \<or>
         \<not> cb_sendToClient (cbs s) \<or> \<not> cb_sendToBroker (cbs s) \<or> \<not> cb_termReq (cbs s) \<or>
         \<not> cb_brokerReconnectReq (cbs s) then
        (False, SessionImpl_reportError ''Not all \"must have\" callbacks have been set'' s)
      else if cb_fwdEncSessionCreated (cbs s) \<noteq> cb_fwdEncSessionDeleted (cbs s) then
        (False, SessionImpl_reportError
           ''Not all forward encapsulated session management callbacks have been set'' s)
      else (True, s\<lparr>st := (st s)\<lparr>m_running := True\<rparr>\<rparr>))"

definition SessionImpl_stop :: "session \<Rightarrow> session" where
  "SessionImpl_stop s = s\<lparr>st := (st s)\<lparr>m_running := False\<rparr>\<rparr>"

section \<open>Dispatch to the operations\<close>

text \<open>The part of the encapsulating operation that concerns the session's own state: the next
  bytes belong to another session.\<close>

definition Encapsulate_markEncapsulated :: "session \<Rightarrow> session" where
  "Encapsulate_markEncapsulated s =
     (let s = fault_if (m_encapsulatedMsg (st s)) (AssertFailed OpEncapsulate ''encapsulatedMsg'') s
      in s\<lparr>st := (st s)\<lparr>m_encapsulatedMsg := True\<rparr>\<rparr>)"

fun Encapsulate_handle_sn :: "sn_msg \<Rightarrow> session \<Rightarrow> session" where
  "Encapsulate_handle_sn (FwdMsg_SN nodeId) s = Encapsulate_markEncapsulated s"
| "Encapsulate_handle_sn _ s = s"

fun op_tickImpl :: "op_id \<Rightarrow> session \<Rightarrow> session" where
  "op_tickImpl OpConnect s = Connect_tickImpl s"
| "op_tickImpl OpAsleep s = Asleep_tickImpl s"
| "op_tickImpl OpAsleepMonitor s = AsleepMonitor_tickImpl s"
| "op_tickImpl OpPubSend s = PubSend_tickImpl s"
| "op_tickImpl OpWillUpdate s = WillUpdate_tickImpl s"
| "op_tickImpl OpPing s = Ping_tickImpl s"
| "op_tickImpl _ s = s"

fun op_brokerConnectionUpdatedImpl :: "op_id \<Rightarrow> session \<Rightarrow> session" where
  "op_brokerConnectionUpdatedImpl OpConnect s = Connect_brokerConnectionUpdatedImpl s"
| "op_brokerConnectionUpdatedImpl OpDisconnect s = Disconnect_brokerConnectionUpdatedImpl s"
| "op_brokerConnectionUpdatedImpl OpAsleep s = Asleep_brokerConnectionUpdatedImpl s"
| "op_brokerConnectionUpdatedImpl OpWillUpdate s = WillUpdate_brokerConnectionUpdatedImpl s"
| "op_brokerConnectionUpdatedImpl _ s = s"

fun op_handle_sn :: "op_id \<Rightarrow> sn_msg \<Rightarrow> session \<Rightarrow> session" where
  "op_handle_sn OpConnect m s = Connect_handle_sn m s"
| "op_handle_sn OpDisconnect m s = Disconnect_handle_sn m s"
| "op_handle_sn OpAsleep m s = Asleep_handle_sn m s"
| "op_handle_sn OpAsleepMonitor m s = AsleepMonitor_handle_sn m s"
| "op_handle_sn OpPubRecv m s = s"
| "op_handle_sn OpPubSend m s = PubSend_handle_sn m s"
| "op_handle_sn OpForward m s = Forward_handle_sn m s"
| "op_handle_sn OpWillUpdate m s = WillUpdate_handle_sn m s"
| "op_handle_sn OpPing m s = Ping_handle_sn m s"
| "op_handle_sn OpEncapsulate m s = Encapsulate_handle_sn m s"

fun op_handle_mqtt :: "op_id \<Rightarrow> mqtt_msg \<Rightarrow> session \<Rightarrow> session" where
  "op_handle_mqtt OpConnect m s = Connect_handle_mqtt m s"
| "op_handle_mqtt OpAsleep m s = Asleep_handle_mqtt m s"
| "op_handle_mqtt OpAsleepMonitor m s = AsleepMonitor_handle_mqtt m s"
| "op_handle_mqtt OpPubRecv m s = PubRecv_handle_mqtt m s"
| "op_handle_mqtt OpPubSend m s = PubSend_handle_mqtt m s"
| "op_handle_mqtt OpForward m s = Forward_handle_mqtt m s"
| "op_handle_mqtt OpWillUpdate m s = WillUpdate_handle_mqtt m s"
| "op_handle_mqtt _ m s = s"

definition SessionImpl_dispatchToOps_sn :: "sn_msg \<Rightarrow> session \<Rightarrow> session" where
  "SessionImpl_dispatchToOps_sn m s = fold (\<lambda>op. op_handle_sn op m) all_ops s"

definition SessionImpl_dispatchToOps_mqtt :: "mqtt_msg \<Rightarrow> session \<Rightarrow> session" where
  "SessionImpl_dispatchToOps_mqtt m s = fold (\<lambda>op. op_handle_mqtt op m) all_ops s"

definition SessionImpl_handle_SearchgwMsg_SN :: "u8 \<Rightarrow> session \<Rightarrow> session" where
  "SessionImpl_handle_SearchgwMsg_SN radius s =
     (let s = SessionImpl_sendToClient (GwinfoMsg_SN (m_gwId (st s))) (ucast radius) s
      in if m_connStatus (st s) \<noteq> Disconnected then sendToBroker PingreqMsg s else s)"

definition SessionImpl_handle_RegisterMsg_SN :: "u16 \<Rightarrow> string \<Rightarrow> session \<Rightarrow> session" where
  "SessionImpl_handle_RegisterMsg_SN msgId topicName s =
     (case RegMgr_mapTopicNoInfo topicName (m_regMgr (st s)) of
        Inl e \<Rightarrow> fault_if True (RegFault e) s
      | Inr (topicId, r) \<Rightarrow>
          let s = s\<lparr>st := (st s)\<lparr>m_regMgr := r\<rparr>\<rparr>;
              s = sendToClient (RegackMsg_SN topicId msgId
                    (if topicId = 0 then NotSupported else Accepted)) s
          in if m_connStatus (st s) \<noteq> Disconnected then sendToBroker PingreqMsg s else s)"

fun SessionImpl_handle_sn :: "sn_msg \<Rightarrow> session \<Rightarrow> session" where
  "SessionImpl_handle_sn (SearchgwMsg_SN radius) s = SessionImpl_handle_SearchgwMsg_SN radius s"
| "SessionImpl_handle_sn (RegisterMsg_SN topicId msgId topicName) s =
     SessionImpl_handle_RegisterMsg_SN msgId topicName s"
| "SessionImpl_handle_sn m s = SessionImpl_dispatchToOps_sn m s"

definition SessionImpl_handle_mqtt :: "mqtt_msg \<Rightarrow> session \<Rightarrow> session" where
  "SessionImpl_handle_mqtt m s = SessionImpl_dispatchToOps_mqtt m s"

section \<open>The clock and the API bracket\<close>

definition NoTimeout :: u32 where "NoTimeout = - 1"

definition SessionImpl_nextDelay :: "session \<Rightarrow> u32" where
  "SessionImpl_nextDelay s = fold (\<lambda>op delay. min delay (SessionOp_nextTick op s)) all_ops NoTimeout"

definition SessionImpl_programNextTimeout :: "session \<Rightarrow> session" where
  "SessionImpl_programNextTimeout s =
     (if \<not> m_running (st s) then s
      else
        let s = fault_if (m_tickReq (st s) \<noteq> 0) (SessionAssertFailed ''tickReq'') s;
            delay = SessionImpl_nextDelay s
        in
        if delay = NoTimeout then s
        else
          let s = fault_if (\<not> cb_nextTickProgram (cbs s)) NullPointer s;
              s = emit (ProgramTick delay) s
          in s\<lparr>st := (st s)\<lparr>m_tickReq := delay\<rparr>\<rparr>)"

definition SessionImpl_updateOps :: "session \<Rightarrow> session" where
  "SessionImpl_updateOps s =
     fold (\<lambda>op. SessionOp_timestampUpdated op (op_tickImpl op)) all_ops s"

definition SessionImpl_updateTimestamp :: "session \<Rightarrow> session" where
  "SessionImpl_updateTimestamp s =
     (if m_tickReq (st s) = 0 then s
      else case cb_cancelTick (cbs s) of
        None \<Rightarrow> fault_if True NullPointer s
      | Some answer \<Rightarrow>
          let s = emit CancelTick s;
              s = s\<lparr>st := (st s)\<lparr>m_timestamp := m_timestamp (st s) + ucast (answer (out s)),
                                 m_tickReq := 0\<rparr>\<rparr>
          in SessionImpl_updateOps s)"

definition SessionImpl_apiCall :: "session \<Rightarrow> session" where
  "SessionImpl_apiCall s =
     (let s = s\<lparr>st := (st s)\<lparr>m_callStackCount := m_callStackCount (st s) + 1\<rparr>\<rparr>
      in if m_callStackCount (st s) = 1 then SessionImpl_updateTimestamp s else s)"

definition SessionImpl_apiCallExit :: "session \<Rightarrow> session" where
  "SessionImpl_apiCallExit s =
     (let s = fault_if (m_callStackCount (st s) = 0)
                (SessionAssertFailed ''callStackCount'') s;
          s = s\<lparr>st := (st s)\<lparr>m_callStackCount := m_callStackCount (st s) - 1\<rparr>\<rparr>
      in
      if m_terminating (st s) then
        emit TermReq (fault_if (\<not> cb_termReq (cbs s)) NullPointer s)
      else if m_callStackCount (st s) = 0 then SessionImpl_programNextTimeout s
      else s)"

section \<open>Entry points\<close>

definition SessionImpl_tick :: "session \<Rightarrow> session" where
  "SessionImpl_tick s =
     (if \<not> m_running (st s) \<or> m_terminating (st s) then s
      else
        let s = s\<lparr>st := (st s)\<lparr>m_timestamp := m_timestamp (st s) + ucast (m_tickReq (st s)),
                               m_tickReq := 0\<rparr>\<rparr>;
            s = SessionImpl_apiCall s;
            s = SessionImpl_updateOps s
        in SessionImpl_apiCallExit s)"

text \<open>\<^verbatim>\<open>comms::processAllWithDispatch\<close> belongs to a library: the parameter gives the messages it
  finds in the bytes and the number of bytes it consumes.\<close>

definition SessionImpl_dataFromBroker ::
    "(data_buf \<Rightarrow> mqtt_msg list \<times> nat) \<Rightarrow> data_buf \<Rightarrow> session \<Rightarrow> nat \<times> session" where
  "SessionImpl_dataFromBroker processAll buf s =
     (if \<not> m_running (st s) \<or> m_terminating (st s) then (0, s)
      else
        let s = SessionImpl_apiCall s;
            (msgs, consumed) = processAll buf;
            s = fold SessionImpl_handle_mqtt msgs s
        in (consumed, SessionImpl_apiCallExit s))"

definition SessionImpl_setBrokerConnected :: "bool \<Rightarrow> session \<Rightarrow> session" where
  "SessionImpl_setBrokerConnected connected s =
     (if \<not> m_running (st s) \<or> m_brokerConnected (st s) = connected then s
      else
        let s = SessionImpl_apiCall s;
            s = (if connected \<and> m_reconnectingBroker (st s)
                 then s\<lparr>st := (st s)\<lparr>m_reconnectingBroker := False\<rparr>\<rparr> else s);
            s = s\<lparr>st := (st s)\<lparr>m_brokerConnected := connected\<rparr>\<rparr>;
            s = fold op_brokerConnectionUpdatedImpl all_ops s
        in SessionImpl_apiCallExit s)"

section \<open>What the operations leave to the session\<close>

interpretation encapsulate_op: session_op OpEncapsulate "\<lambda>s. s" "\<lambda>s. s" Encapsulate_handle_sn
  "\<lambda>_ s. s"
proof unfold_locales
  show "op_frame OpEncapsulate s (Encapsulate_handle_sn m s)" for s m
    by (cases m) (auto simp: Encapsulate_markEncapsulated_def Let_def intro!: op_frame_rules)
qed simp_all

lemma op_handle_sn_frame: "op_frame op s (op_handle_sn op m s)"
  by (cases op) (simp_all add: connect_op.sn_contract disconnect_op.sn_contract
      asleep_op.sn_contract asleep_monitor_op.sn_contract pub_send_op.sn_contract
      forward_op.sn_contract will_update_op.sn_contract ping_op.sn_contract
      encapsulate_op.sn_contract)

lemma op_handle_mqtt_frame: "op_frame op s (op_handle_mqtt op m s)"
  by (cases op) (simp_all add: connect_op.mqtt_contract asleep_op.mqtt_contract
      asleep_monitor_op.mqtt_contract pub_recv_op.mqtt_contract pub_send_op.mqtt_contract
      forward_op.mqtt_contract will_update_op.mqtt_contract)

lemma op_broker_frame: "op_frame op s (op_brokerConnectionUpdatedImpl op s)"
  by (cases op) (simp_all add: connect_op.broker_contract disconnect_op.broker_contract
      asleep_op.broker_contract will_update_op.broker_contract)

lemma op_tick_frame: "op_frame op s (op_tickImpl op s)"
  by (cases op) (simp_all add: connect_op.tick_contract asleep_op.tick_contract
      asleep_monitor_op.tick_contract pub_send_op.tick_contract will_update_op.tick_contract
      ping_op.tick_contract)

text \<open>The table of virtual functions satisfies the interface too.\<close>

interpretation any_op: session_op op "op_tickImpl op" "op_brokerConnectionUpdatedImpl op"
  "op_handle_sn op" "op_handle_mqtt op" for op
  by unfold_locales (rule op_tick_frame op_broker_frame op_handle_sn_frame op_handle_mqtt_frame)+

text \<open>What a sequence of handlers of different operations leaves alone.\<close>

definition ops_frame :: "session \<Rightarrow> session \<Rightarrow> bool" where
  "ops_frame s s' \<longleftrightarrow>
     cbs s' = cbs s \<and> st_frame (st s) (st s') \<and> timer_frame s s' \<and>
     (\<exists>es. out s' = out s @ es \<and> (\<forall>e \<in> set es. \<not> session_event e)) \<and>
     (\<exists>fs. faults s' = faults s @ fs \<and> (\<forall>f \<in> set fs. \<not> session_fault f))"

lemma ops_frame_refl [simp]: "ops_frame s s"
  by (simp add: ops_frame_def)

lemma ops_frame_trans [trans]: "ops_frame a b \<Longrightarrow> ops_frame b c \<Longrightarrow> ops_frame a c"
  unfolding ops_frame_def by (auto intro: st_frame_trans timer_frame_trans)

lemma op_frame_ops_frame: "op_frame op s s' \<Longrightarrow> ops_frame s s'"
  by (auto simp: op_frame_def ops_frame_def)

lemma ops_frame_fold:
  "(\<And>x s. ops_frame s (f x s)) \<Longrightarrow> ops_frame s (fold f xs s)"
  by (induction xs arbitrary: s) (auto intro: ops_frame_trans)

lemma ops_frame_dispatch_sn: "ops_frame s (SessionImpl_dispatchToOps_sn m s)"
  unfolding SessionImpl_dispatchToOps_sn_def
  by (rule ops_frame_fold) (rule op_frame_ops_frame, rule any_op.sn_contract)

lemma ops_frame_handle_mqtt: "ops_frame s (SessionImpl_handle_mqtt m s)"
  unfolding SessionImpl_handle_mqtt_def SessionImpl_dispatchToOps_mqtt_def
  by (rule ops_frame_fold) (rule op_frame_ops_frame, rule any_op.mqtt_contract)

lemma ops_frame_updateOps: "ops_frame s (SessionImpl_updateOps s)"
  unfolding SessionImpl_updateOps_def
  by (rule ops_frame_fold) (rule op_frame_ops_frame, rule any_op.timestampUpdated_contract)

lemma ops_frame_broker: "ops_frame s (fold op_brokerConnectionUpdatedImpl all_ops s)"
  by (rule ops_frame_fold) (rule op_frame_ops_frame, rule any_op.broker_contract)

lemma ops_frame_handle_sn: "ops_frame s (SessionImpl_handle_sn m s)"
proof -
  have "op_frame OpEncapsulate s (SessionImpl_handle_SearchgwMsg_SN r s)" for r
    unfolding SessionImpl_handle_SearchgwMsg_SN_def by (assumption | rule op_frame_rules op_frame_refl)+
  moreover have "op_frame OpEncapsulate s (SessionImpl_handle_RegisterMsg_SN mid t s)" for mid t
    unfolding SessionImpl_handle_RegisterMsg_SN_def by (assumption | rule op_frame_rules op_frame_refl)+
  ultimately show ?thesis
    by (cases m) (auto intro: op_frame_ops_frame ops_frame_dispatch_sn)
qed

section \<open>The API bracket\<close>

text \<open>Between two calls of the API the depth of calls is 0, a session that is terminating waits
  for no tick, and a running session has the callbacks \<^verbatim>\<open>start()\<close> asked for.\<close>

definition timer_callbacks :: "callbacks \<Rightarrow> bool" where
  "timer_callbacks c \<longleftrightarrow> cb_nextTickProgram c \<and> cb_cancelTick c \<noteq> None \<and> cb_termReq c"

definition api_idle :: "session \<Rightarrow> bool" where
  "api_idle s \<longleftrightarrow> m_callStackCount (st s) = 0 \<and> (m_terminating (st s) \<longrightarrow> m_tickReq (st s) = 0) \<and>
     (m_running (st s) \<longrightarrow> timer_callbacks (cbs s))"

text \<open>What a call of the API does to the outside: it cancels the pending tick at most once, the
  operations produce their output, and the last event is the termination request or the next
  tick. No assertion of the session fails.\<close>

definition last_event :: "session \<Rightarrow> event list" where
  "last_event s = (if m_terminating (st s) then [TermReq]
     else if SessionImpl_nextDelay s = NoTimeout then []
     else [ProgramTick (SessionImpl_nextDelay s)])"

definition api_result :: "session \<Rightarrow> session \<Rightarrow> bool" where
  "api_result s s' \<longleftrightarrow> api_idle s' \<and> cbs s' = cbs s \<and> m_running (st s') = m_running (st s) \<and>
     (m_terminating (st s) \<longrightarrow> m_terminating (st s')) \<and>
     (\<exists>c body. out s' = out s @ c @ body @ last_event s' \<and> c \<in> {[], [CancelTick]} \<and>
        (\<forall>e \<in> set body. \<not> session_event e)) \<and>
     (\<exists>fs. faults s' = faults s @ fs \<and> (\<forall>f \<in> set fs. \<not> session_fault f)) \<and>
     (\<not> m_terminating (st s') \<longrightarrow>
        m_tickReq (st s') = (if SessionImpl_nextDelay s' = NoTimeout then 0
                             else SessionImpl_nextDelay s'))"

text \<open>The bracket after its entry half: one call is running, the pending tick is taken back.\<close>

definition api_entered :: "session \<Rightarrow> session \<Rightarrow> bool" where
  "api_entered s s' \<longleftrightarrow> m_callStackCount (st s') = 1 \<and> m_tickReq (st s') = 0 \<and> cbs s' = cbs s \<and>
     m_running (st s') = m_running (st s) \<and> (m_terminating (st s) \<longrightarrow> m_terminating (st s')) \<and>
     (\<exists>c body. out s' = out s @ c @ body \<and> c \<in> {[], [CancelTick]} \<and>
        (\<forall>e \<in> set body. \<not> session_event e)) \<and>
     (\<exists>fs. faults s' = faults s @ fs \<and> (\<forall>f \<in> set fs. \<not> session_fault f))"

lemma api_entered_ops_frame:
  assumes "api_entered s s1" "ops_frame s1 s2"
  shows "api_entered s s2"
proof -
  obtain c body where o: "out s1 = out s @ c @ body" "c \<in> {[], [CancelTick]}"
    "\<forall>e \<in> set body. \<not> session_event e"
    using assms(1) by (auto simp: api_entered_def)
  obtain es where es: "out s2 = out s1 @ es" "\<forall>e \<in> set es. \<not> session_event e"
    using assms(2) by (auto simp: ops_frame_def)
  have "out s2 = out s @ c @ (body @ es)" "\<forall>e \<in> set (body @ es). \<not> session_event e"
    using o es by auto
  then have "\<exists>c body. out s2 = out s @ c @ body \<and> c \<in> {[], [CancelTick]} \<and>
      (\<forall>e \<in> set body. \<not> session_event e)" using o(2) by blast
  moreover have "\<exists>fs. faults s2 = faults s @ fs \<and> (\<forall>f \<in> set fs. \<not> session_fault f)"
    using assms by (fastforce simp: api_entered_def ops_frame_def)
  ultimately show ?thesis
    using assms by (simp add: api_entered_def ops_frame_def st_frame_def)
qed

lemma apiCall_entered:
  assumes "api_idle s" "m_running (st s)"
  shows "api_entered s (SessionImpl_apiCall s)"
proof -
  let ?s1 = "s\<lparr>st := (st s)\<lparr>m_callStackCount := 1\<rparr>\<rparr>"
  obtain answer where answer: "cb_cancelTick (cbs s) = Some answer"
    using assms by (auto simp: api_idle_def timer_callbacks_def)
  show ?thesis
  proof (cases "m_tickReq (st s) = 0")
    case True
    then show ?thesis using assms
      by (auto simp: SessionImpl_apiCall_def SessionImpl_updateTimestamp_def api_idle_def
          api_entered_def Let_def)
  next
    case False
    let ?s2 = "?s1\<lparr>out := out s @ [CancelTick], st := (st s)\<lparr>m_callStackCount := 1,
       m_timestamp := m_timestamp (st s) + ucast (answer (out s @ [CancelTick])), m_tickReq := 0\<rparr>\<rparr>"
    have "out ?s2 = out s @ [CancelTick] @ []" by simp
    then have "\<exists>c body. out ?s2 = out s @ c @ body \<and> c \<in> {[], [CancelTick]} \<and>
        (\<forall>e \<in> set body. \<not> session_event e)"
      by (intro exI [of _ "[CancelTick]"] exI [of _ "[]"]) simp
    then have "api_entered s ?s2"
      unfolding api_entered_def by simp
    moreover have "SessionImpl_apiCall s = SessionImpl_updateOps ?s2"
      using False assms answer
      by (simp add: SessionImpl_apiCall_def SessionImpl_updateTimestamp_def api_idle_def
          emit_def Let_def)
    ultimately show ?thesis
      by (simp only:) (rule api_entered_ops_frame [OF _ ops_frame_updateOps])
  qed
qed

lemma nextDelay_cong:
  "nextTicks s' = nextTicks s \<Longrightarrow> m_timestamp (st s') = m_timestamp (st s) \<Longrightarrow>
     SessionImpl_nextDelay s' = SessionImpl_nextDelay s"
  by (simp add: SessionImpl_nextDelay_def SessionOp_nextTick_def cong: if_cong)

lemma nextDelay_st [simp]:
  "m_timestamp x = m_timestamp (st s) \<Longrightarrow>
     SessionImpl_nextDelay (s\<lparr>st := x\<rparr>) = SessionImpl_nextDelay s"
  by (rule nextDelay_cong) simp_all

lemma apiCallExit_result:
  assumes "api_entered s s1" "m_running (st s)" "timer_callbacks (cbs s)"
  shows "api_result s (SessionImpl_apiCallExit s1)"
proof -
  obtain c body where o: "out s1 = out s @ c @ body" "c \<in> {[], [CancelTick]}"
    "\<forall>e \<in> set body. \<not> session_event e"
    using assms(1) by (auto simp: api_entered_def)
  note e = assms [unfolded api_entered_def timer_callbacks_def]
  let ?s' = "SessionImpl_apiCallExit s1"
  have s': "m_callStackCount (st ?s') = 0" "cbs ?s' = cbs s" "m_running (st ?s')"
    "m_terminating (st ?s') = m_terminating (st s1)" "faults ?s' = faults s1"
    "out ?s' = out s @ c @ body @ (if m_terminating (st s1) then [TermReq]
       else if SessionImpl_nextDelay s1 = NoTimeout then []
       else [ProgramTick (SessionImpl_nextDelay s1)])"
    "\<not> m_terminating (st ?s') \<Longrightarrow> m_tickReq (st ?s') =
       (if SessionImpl_nextDelay s1 = NoTimeout then 0 else SessionImpl_nextDelay s1)"
    "m_terminating (st ?s') \<Longrightarrow> m_tickReq (st ?s') = 0"
    "nextTicks ?s' = nextTicks s1" "m_timestamp (st ?s') = m_timestamp (st s1)"
    using e o(1)
    by (auto simp: SessionImpl_apiCallExit_def SessionImpl_programNextTimeout_def fault_if_def
        emit_def Let_def)
  have "SessionImpl_nextDelay ?s' = SessionImpl_nextDelay s1"
    using s' by (intro nextDelay_cong)
  then show ?thesis
    unfolding api_result_def api_idle_def last_event_def using s' o e
    by (simp add: timer_callbacks_def)
qed

lemma api_bracket:
  assumes "api_idle s" "m_running (st s)" "\<And>s. ops_frame s (f s)"
  shows "api_result s (SessionImpl_apiCallExit (f (SessionImpl_apiCall s)))"
  using assms by (intro apiCallExit_result api_entered_ops_frame [OF apiCall_entered])
    (simp_all add: api_idle_def)

lemma api_result_time:
  "api_result (s\<lparr>st := (st s)\<lparr>m_timestamp := ts, m_tickReq := r\<rparr>\<rparr>) s' = api_result s s'"
  by (simp add: api_result_def)

lemma tick_result:
  assumes "api_idle s" "m_running (st s)" "\<not> m_terminating (st s)"
  shows "api_result s (SessionImpl_tick s)"
proof -
  let ?s = "s\<lparr>st := (st s)\<lparr>m_timestamp := m_timestamp (st s) + ucast (m_tickReq (st s)),
                               m_tickReq := 0\<rparr>\<rparr>"
  have "api_result ?s (SessionImpl_apiCallExit (SessionImpl_updateOps (SessionImpl_apiCall ?s)))"
    by (rule api_bracket) (use assms ops_frame_updateOps in \<open>simp_all add: api_idle_def\<close>)
  then show ?thesis using assms by (simp add: SessionImpl_tick_def Let_def api_result_time)
qed

lemma dataFromBroker_result:
  assumes "api_idle s" "m_running (st s)" "\<not> m_terminating (st s)"
  shows "api_result s (snd (SessionImpl_dataFromBroker processAll buf s))"
proof -
  obtain msgs n where p: "processAll buf = (msgs, n)" by fastforce
  have "ops_frame s (fold SessionImpl_handle_mqtt msgs s)" for s
    by (rule ops_frame_fold) (rule ops_frame_handle_mqtt)
  then show ?thesis using assms
    by (simp add: SessionImpl_dataFromBroker_def p Let_def api_bracket)
qed

lemma api_entered_broker:
  "api_entered s s1 \<Longrightarrow> api_entered s (s1\<lparr>st := (st s1)\<lparr>m_brokerConnected := b\<rparr>\<rparr>)"
  "api_entered s s1 \<Longrightarrow> api_entered s (s1\<lparr>st := (st s1)\<lparr>m_reconnectingBroker := b\<rparr>\<rparr>)"
  by (simp_all add: api_entered_def)

lemma setBrokerConnected_result:
  assumes "api_idle s" "m_running (st s)" "m_brokerConnected (st s) \<noteq> connected"
  shows "api_result s (SessionImpl_setBrokerConnected connected s)"
proof -
  let ?s1 = "SessionImpl_apiCall s"
  let ?s2 = "if connected \<and> m_reconnectingBroker (st ?s1)
    then ?s1\<lparr>st := (st ?s1)\<lparr>m_reconnectingBroker := False\<rparr>\<rparr> else ?s1"
  let ?s3 = "?s2\<lparr>st := (st ?s2)\<lparr>m_brokerConnected := connected\<rparr>\<rparr>"
  have "api_entered s ?s2"
    using apiCall_entered [OF assms(1,2)] api_entered_broker(2) by simp
  then have "api_entered s ?s3" by (rule api_entered_broker)
  then have "api_entered s (fold op_brokerConnectionUpdatedImpl all_ops ?s3)"
    by (rule api_entered_ops_frame) (rule ops_frame_broker)
  then have "api_result s (SessionImpl_apiCallExit (fold op_brokerConnectionUpdatedImpl all_ops ?s3))"
    by (rule apiCallExit_result) (use assms in \<open>simp_all add: api_idle_def\<close>)
  then show ?thesis using assms by (simp add: SessionImpl_setBrokerConnected_def Let_def)
qed

section \<open>Timers\<close>

text \<open>No timer is further ahead than a tick can be.\<close>

definition timers_near :: "session \<Rightarrow> bool" where
  "timers_near s \<longleftrightarrow> (\<forall>op. unat (nextTicks s op) < unat (m_timestamp (st s)) + 2 ^ 32)"

lemma timers_near_frame:
  assumes "timer_frame s s'" "st_frame (st s) (st s')" "timers_near s"
    "unat (m_timestamp (st s)) < 2 ^ 63"
  shows "timers_near s'"
  unfolding timers_near_def
proof
  fix op
  consider "nextTicks s' op = nextTicks s op" | "nextTicks s' op = 0"
    | (arm) ms :: u32 where "nextTicks s' op = m_timestamp (st s) + ucast ms"
    using assms(1) unfolding timer_frame_def by blast
  then show "unat (nextTicks s' op) < unat (m_timestamp (st s')) + 2 ^ 32"
  proof cases
    case arm
    have "unat ms < 2 ^ 32" using unsigned_less [of ms] by simp
    with arm show ?thesis using assms(2,4) by (simp add: u64_add_u32_unat st_frame_def)
  qed (use assms in \<open>auto simp: timers_near_def st_frame_def\<close>)
qed

lemma nextTick_unat:
  assumes "timers_near s" "m_timestamp (st s) < nextTicks s op"
  shows "unat (SessionOp_nextTick op s) = unat (nextTicks s op) - unat (m_timestamp (st s))"
proof -
  have le: "unat (m_timestamp (st s)) < unat (nextTicks s op)"
    using assms(2) by (simp add: word_less_nat_alt)
  then have d: "unat (nextTicks s op - m_timestamp (st s)) =
      unat (nextTicks s op) - unat (m_timestamp (st s))"
    by (simp add: unat_sub word_le_nat_alt)
  moreover have "\<dots> < 2 ^ 32"
    using assms(1) [unfolded timers_near_def, rule_format, of op] le by linarith
  ultimately have "unat (ucast (nextTicks s op - m_timestamp (st s)) :: u32) =
      unat (nextTicks s op) - unat (m_timestamp (st s))"
    by (simp add: unsigned_ucast_eq take_bit_nat_eq_self)
  then show ?thesis using assms(2) le by (auto simp: SessionOp_nextTick_def not_le [symmetric])
qed

lemma fold_min_le_start: "fold (\<lambda>x d. min d (g x)) xs a \<le> (a :: u32)"
proof (induction xs arbitrary: a)
  case (Cons x xs)
  have "fold (\<lambda>x d. min d (g x)) xs (min a (g x)) \<le> min a (g x)" by (rule Cons.IH)
  then show ?case by simp
qed simp

lemma fold_min_le: "x \<in> set xs \<Longrightarrow> fold (\<lambda>x d. min d (g x)) xs (a :: u32) \<le> g x"
proof (induction xs arbitrary: a)
  case (Cons y xs)
  show ?case
  proof (cases "x \<in> set xs")
    case False
    then have "x = y" using Cons.prems by simp
    then show ?thesis using fold_min_le_start [of g xs "min a (g y)"] by simp
  qed (simp add: Cons.IH)
qed simp

lemma fold_min_reached:
  "fold (\<lambda>x d. min d (g x)) xs (a :: u32) = a \<or> (\<exists>x. fold (\<lambda>x d. min d (g x)) xs a = g x)"
proof (induction xs arbitrary: a)
  case (Cons y xs)
  show ?case using Cons.IH [of "min a (g y)"] by (cases "a \<le> g y") (auto simp: min_def)
qed simp

lemma all_ops_complete: "op \<in> set all_ops"
  by (cases op) (simp_all add: all_ops_def)

lemma nextDelay_le: "SessionImpl_nextDelay s \<le> SessionOp_nextTick op s"
  unfolding SessionImpl_nextDelay_def by (rule fold_min_le) (rule all_ops_complete)

lemma nextDelay_reached:
  "SessionImpl_nextDelay s \<noteq> NoTimeout \<Longrightarrow> \<exists>op. SessionImpl_nextDelay s = SessionOp_nextTick op s"
  unfolding SessionImpl_nextDelay_def
  using fold_min_reached [of "\<lambda>op. SessionOp_nextTick op s" all_ops NoTimeout] by auto

text \<open>The delay the session asks for: it is not 0, it ends no later than any armed timer, and
  some timer is due when it has passed.\<close>

lemma nextTick_pos: "timers_near s \<Longrightarrow> 0 < SessionOp_nextTick op s"
proof (cases "m_timestamp (st s) < nextTicks s op")
  case True
  assume "timers_near s"
  then have "0 < unat (SessionOp_nextTick op s)"
    using nextTick_unat [OF _ True] True by (simp add: word_less_nat_alt)
  then show ?thesis by (simp add: word_less_nat_alt)
qed (auto simp: SessionOp_nextTick_def not_less word_greater_zero_iff)

lemma nextDelay_covers:
  assumes "timers_near s" "nextTicks s op \<noteq> 0"
    "unat (nextTicks s op) \<noteq> unat (m_timestamp (st s)) + (2 ^ 32 - 1)"
  shows "SessionImpl_nextDelay s \<noteq> NoTimeout \<and>
    unat (m_timestamp (st s)) + unat (SessionImpl_nextDelay s) \<le>
      max (unat (nextTicks s op)) (unat (m_timestamp (st s)) + 1)"
proof -
  let ?d = "SessionOp_nextTick op s"
  have le: "unat (SessionImpl_nextDelay s) \<le> unat ?d"
    using nextDelay_le by (simp add: word_le_nat_alt)
  have max32: "unat (- 1 :: u32) = 2 ^ 32 - 1" by (simp add: unsigned_minus_1_eq_mask mask_eq_exp_minus_1)
  show ?thesis
  proof (cases "m_timestamp (st s) < nextTicks s op")
    case True
    note u = nextTick_unat [OF assms(1) True]
    have "unat (nextTicks s op) < unat (m_timestamp (st s)) + 2 ^ 32"
      using assms(1) by (simp add: timers_near_def)
    then have "unat ?d < 2 ^ 32 - 1" using assms(3) u True by (simp add: word_less_nat_alt)
    then have "SessionImpl_nextDelay s \<noteq> NoTimeout" using le max32 by (auto simp: NoTimeout_def)
    then show ?thesis using le u True by (simp add: word_less_nat_alt)
  next
    case False
    then have "?d = 1" using assms(2) by (simp add: SessionOp_nextTick_def not_less)
    then show ?thesis using le max32 by (auto simp: NoTimeout_def)
  qed
qed

lemma nextDelay_due:
  assumes "timers_near s" "unat (m_timestamp (st s)) < 2 ^ 63" "SessionImpl_nextDelay s \<noteq> NoTimeout"
  shows "0 < SessionImpl_nextDelay s \<and> (\<exists>op. nextTicks s op \<noteq> 0 \<and>
    unat (nextTicks s op) \<le> unat (m_timestamp (st s)) + unat (SessionImpl_nextDelay s))"
proof -
  obtain op where op: "SessionImpl_nextDelay s = SessionOp_nextTick op s"
    using nextDelay_reached assms(3) by blast
  then have "nextTicks s op \<noteq> 0" using assms(3) by (auto simp: SessionOp_nextTick_def NoTimeout_def)
  moreover have "unat (nextTicks s op) \<le> unat (m_timestamp (st s)) + unat (SessionOp_nextTick op s)"
    using nextTick_unat [OF assms(1), of op]
    by (cases "m_timestamp (st s) < nextTicks s op") (auto simp: word_le_nat_alt not_less)
  ultimately show ?thesis using op nextTick_pos [OF assms(1)] by auto
qed

lemma timers_near_exit:
  assumes "timers_near s"
  shows "timers_near (SessionImpl_apiCallExit s)"
  using assms by (simp add: timers_near_def SessionImpl_apiCallExit_def
      SessionImpl_programNextTimeout_def fault_if_def emit_def Let_def)

lemma timestamp_exit [simp]: "m_timestamp (st (SessionImpl_apiCallExit s)) = m_timestamp (st s)"
  by (simp add: SessionImpl_apiCallExit_def SessionImpl_programNextTimeout_def fault_if_def
      emit_def Let_def)

lemma tick_timers:
  assumes "api_idle s" "m_running (st s)" "\<not> m_terminating (st s)" "timers_near s"
    and clock: "unat (m_timestamp (st s)) + unat (m_tickReq (st s)) < 2 ^ 63"
  shows "unat (m_timestamp (st (SessionImpl_tick s))) =
      unat (m_timestamp (st s)) + unat (m_tickReq (st s))" (is ?time)
    and "timers_near (SessionImpl_tick s)" (is ?near)
proof -
  let ?t = "m_timestamp (st s) + ucast (m_tickReq (st s))"
  let ?s = "s\<lparr>st := (st s)\<lparr>m_timestamp := ?t, m_tickReq := 0, m_callStackCount := 1\<rparr>\<rparr>"
  have t: "unat ?t = unat (m_timestamp (st s)) + unat (m_tickReq (st s))"
    using clock by (intro u64_add_u32_unat) simp
  have near: "timers_near ?s"
    using assms(4) unfolding timers_near_def by (auto simp: t intro: less_le_trans)
  have eq: "SessionImpl_tick s = SessionImpl_apiCallExit (SessionImpl_updateOps ?s)"
    using assms(1-3) by (simp add: SessionImpl_tick_def SessionImpl_apiCall_def Let_def
        SessionImpl_updateTimestamp_def api_idle_def)
  have f: "timer_frame ?s (SessionImpl_updateOps ?s)" "st_frame (st ?s) (st (SessionImpl_updateOps ?s))"
    using ops_frame_updateOps [of ?s] by (simp_all add: ops_frame_def)
  show ?near unfolding eq
    by (intro timers_near_exit timers_near_frame [OF f near]) (use clock t in simp)
  show ?time using f(2) t by (simp add: eq st_frame_def)
qed

text \<open>C20. After a tick, the session waits for the earliest of its timers: as long as it is not
  terminating, every armed timer that is less than the longest possible tick ahead makes it
  program a tick that ends no later than the timer (or after one millisecond, when the timer is
  overdue), some armed timer is due when the programmed tick has passed, and the last callback of
  the call is the one that programs it.\<close>

theorem tick_programs_next_timer:
  assumes "api_idle s" "m_running (st s)" "\<not> m_terminating (st s)" "timers_near s"
    and "unat (m_timestamp (st s)) + unat (m_tickReq (st s)) < 2 ^ 63"
    and "s' = SessionImpl_tick s" "\<not> m_terminating (st s')" "nextTicks s' op \<noteq> 0"
    and "unat (nextTicks s' op) \<noteq> unat (m_timestamp (st s')) + (2 ^ 32 - 1)"
  shows "0 < m_tickReq (st s') \<and>
    unat (m_timestamp (st s')) + unat (m_tickReq (st s')) \<le>
      max (unat (nextTicks s' op)) (unat (m_timestamp (st s')) + 1) \<and>
    (\<exists>op. nextTicks s' op \<noteq> 0 \<and>
      unat (nextTicks s' op) \<le> unat (m_timestamp (st s')) + unat (m_tickReq (st s'))) \<and>
    last (out s') = ProgramTick (m_tickReq (st s'))"
proof -
  have r: "api_result s s'" using tick_result assms(1-3,6) by simp
  have near: "timers_near s'" and time: "unat (m_timestamp (st s')) < 2 ^ 63"
    using tick_timers [OF assms(1-5)] assms(5,6) by simp_all
  have d: "SessionImpl_nextDelay s' \<noteq> NoTimeout" and
    le: "unat (m_timestamp (st s')) + unat (SessionImpl_nextDelay s') \<le>
      max (unat (nextTicks s' op)) (unat (m_timestamp (st s')) + 1)"
    using nextDelay_covers [OF near assms(8,9)] by auto
  have req: "m_tickReq (st s') = SessionImpl_nextDelay s'"
    using r d assms(7) by (simp add: api_result_def)
  obtain c body where "out s' = out s @ c @ body @ last_event s'"
    using r by (auto simp: api_result_def)
  then have "last (out s') = ProgramTick (m_tickReq (st s'))"
    using d req assms(7) by (simp add: last_event_def)
  then show ?thesis using nextDelay_due [OF near time d] le req by auto
qed



text \<open>A session with all its callbacks, and the same session with a connected client.\<close>

definition sample_callbacks :: callbacks where
  "sample_callbacks = \<lparr>cb_nextTickProgram = True, cb_cancelTick = Some (\<lambda>_. 0),
     cb_sendToClient = True, cb_sendToBroker = True, cb_termReq = True,
     cb_brokerReconnectReq = True, cb_clientConnected = True, cb_authInfoReq = None,
     cb_errorReport = True, cb_fwdEncSessionCreated = True, cb_fwdEncSessionDeleted = True\<rparr>"

definition sample_session :: session where
  "sample_session = snd (SessionImpl_start (SessionImpl_init\<lparr>cbs := sample_callbacks\<rparr>))"

definition sample_connected :: session where
  "sample_connected = Connect_handle_ConnackMsg 0 (Connect_handle_ConnectMsg_SN ''client'' 60 False True
     (SessionImpl_setBrokerConnected True sample_session))"



lemma sample_connected_timers:
  "nextTicks sample_connected op = (if op = OpPing then 61000 else 0)"
  by (cases op; hypsubst; code_simp)

lemma sample_connected_state:
  "m_timestamp (st sample_connected) = 1000" "m_tickReq (st sample_connected) = 0"
  "m_running (st sample_connected)" "\<not> m_terminating (st sample_connected)"
  "api_idle sample_connected"
  by code_simp+

lemma timers_near_sample_connected: "timers_near sample_connected"
  by (simp add: timers_near_def sample_connected_timers sample_connected_state)

theorem tick_programs_next_timer_witness:
  "last (out (SessionImpl_tick sample_connected)) = ProgramTick 60000"
proof -
  let ?s = "SessionImpl_tick sample_connected"
  have s': "\<not> m_terminating (st ?s)" "nextTicks ?s OpPing = 61000" "m_timestamp (st ?s) = 1000"
    "m_tickReq (st ?s) = 60000"
    by code_simp+
  show ?thesis
    using tick_programs_next_timer [of sample_connected ?s OpPing] s' sample_connected_state
      timers_near_sample_connected
    by simp
qed

end
