(* ===== verification/Gw_Encapsulate.thy ===== *)
theory Gw_Encapsulate
  imports Gw_Session
begin

text \<open>
  Forwarder encapsulation, \<^verbatim>\<open>src/gateway/lib/src/session_op/Encapsulate.{h,cpp}\<close>, and the loop of
  \<^verbatim>\<open>SessionImpl::dataFromClient\<close> that reads the bytes of the client. A session owns a map of
  sessions, one for every node behind a forwarder, each of which can own sessions again: the state
  is a tree. A message of the kind FWD announces that the next bytes are for the session of a node.

  The frame that reads a message from bytes belongs to a library and is a parameter; so is what
  the application does with a new session before it accepts or refuses it.
\<close>

section \<open>State\<close>

datatype selected_session = NoSession | Selected data_buf | DanglingSession

datatype gw_session = GwSession (own: session) (subs: "(data_buf \<times> gw_session) list")
  (selected: selected_session)

datatype read_result = NotEnoughData | ProtocolError | OtherError nat | ReadSuccess sn_msg nat

type_synonym read_frame = "data_buf \<Rightarrow> read_result"
type_synonym session_created = "session \<Rightarrow> bool \<times> session"

definition on_own :: "(session \<Rightarrow> session) \<Rightarrow> gw_session \<Rightarrow> gw_session" where
  "on_own f t = GwSession (f (own t)) (subs t) (selected t)"

section \<open>Creation and removal of the inner sessions\<close>

text \<open>The node ids are keys of a \<^verbatim>\<open>std::map\<close> whose order is not observed.\<close>

definition subs_find :: "data_buf \<Rightarrow> gw_session \<Rightarrow> gw_session option" where
  "subs_find nodeId t = map_of (subs t) nodeId"

definition subs_put :: "data_buf \<Rightarrow> gw_session \<Rightarrow> gw_session \<Rightarrow> gw_session" where
  "subs_put nodeId c t = GwSession (own t) ((nodeId, c) # smap_erase nodeId (subs t)) (selected t)"

definition subs_erase :: "data_buf \<Rightarrow> gw_session \<Rightarrow> gw_session" where
  "subs_erase nodeId t = GwSession (own t) (smap_erase nodeId (subs t))
     (if selected t = Selected nodeId then DanglingSession else selected t)"

definition subs_select :: "selected_session \<Rightarrow> gw_session \<Rightarrow> gw_session" where
  "subs_select x t = GwSession (own t) (subs t) x"

text \<open>The settings a new inner session gets from its owner.\<close>

definition Encapsulate_newSession :: "u64 \<Rightarrow> session_state \<Rightarrow> session" where
  "Encapsulate_newSession maxSize p =
     (let c = SessionImpl_setGatewayId (m_gwId p) SessionImpl_init;
          c = SessionImpl_setRetryPeriod (m_retryPeriod p) c;
          c = SessionImpl_setRetryCount (m_retryCount p) c;
          c = SessionImpl_setSleepingClientMsgLimit maxSize (m_sleepPubAccLimit p) c;
          c = SessionImpl_setDefaultClientId (m_defaultClientId p) c
      in SessionImpl_setPubOnlyKeepAlive (m_pubOnlyKeepAlive p) c)"

definition Encapsulate_handle_FwdMsg_SN ::
    "u64 \<Rightarrow> session_created \<Rightarrow> data_buf \<Rightarrow> gw_session \<Rightarrow> gw_session" where
  "Encapsulate_handle_FwdMsg_SN maxSize created nodeId t =
     (if \<not> cb_fwdEncSessionCreated (cbs (own t)) then t
      else if subs_find nodeId t \<noteq> None then subs_select (Selected nodeId) t
      else
        let (ok, c) = created (Encapsulate_newSession maxSize (st (own t)));
            t = on_own (emit (FwdEncSessionCreated nodeId)) t
        in
        if \<not> ok then t
        else
          let c = c\<lparr>cbs := (cbs c)\<lparr>cb_sendToClient := True, cb_termReq := True\<rparr>\<rparr>;
              (started, c) = (if m_running (st c) then (True, c) else SessionImpl_start c)
          in
          if \<not> started then
            on_own (\<lambda>s. emit (FwdEncSessionDeleted nodeId)
              (SessionImpl_reportError ''Failed to start forward encapsulated session'' s)) t
          else subs_select (Selected nodeId) (subs_put nodeId (GwSession c [] NoSession) t))"

fun to_client_event :: "event \<Rightarrow> bool" where
  "to_client_event (ToClient m r) = True"
| "to_client_event (FromSub nodeId e) = to_client_event e"
| "to_client_event _ = False"

text \<open>What reaches the owner of an inner session after a call of the latter: the messages to the
  client are encapsulated and sent by the owner, and a termination request removes the session.\<close>

definition Encapsulate_sendDataClientReqFromSession ::
    "data_buf \<Rightarrow> event list \<Rightarrow> gw_session \<Rightarrow> gw_session" where
  "Encapsulate_sendDataClientReqFromSession nodeId es t =
     (let t = on_own (fault_if (\<not> cb_sendToClient (cbs (own t)) \<and> (\<exists>e \<in> set es. to_client_event e))
                NullPointer) t
      in on_own (\<lambda>s. s\<lparr>out := out s @ map (FromSub nodeId) es\<rparr>) t)"

definition Encapsulate_terminationReqFromSession :: "data_buf \<Rightarrow> gw_session \<Rightarrow> gw_session" where
  "Encapsulate_terminationReqFromSession nodeId t =
     subs_erase nodeId (on_own (emit (FwdEncSessionDeleted nodeId)) t)"

definition Encapsulate_afterCall ::
    "data_buf \<Rightarrow> event list \<Rightarrow> gw_session \<Rightarrow> gw_session \<Rightarrow> gw_session" where
  "Encapsulate_afterCall nodeId outBefore c t =
     (let new = drop (length outBefore) (out (own c));
          t = Encapsulate_sendDataClientReqFromSession nodeId new t
      in
      if TermReq \<in> set new then Encapsulate_terminationReqFromSession nodeId t
      else subs_put nodeId c t)"

section \<open>The read loop\<close>

definition SessionImpl_handleClientMsg ::
    "u64 \<Rightarrow> session_created \<Rightarrow> sn_msg \<Rightarrow> gw_session \<Rightarrow> gw_session" where
  "SessionImpl_handleClientMsg maxSize created m t =
     (let t = on_own (\<lambda>s. s\<lparr>st := (st s)\<lparr>m_lastMsgTimestamp := m_timestamp (st s)\<rparr>\<rparr>) t;
          t = on_own (SessionImpl_handle_sn m) t
      in case m of FwdMsg_SN nodeId \<Rightarrow> Encapsulate_handle_FwdMsg_SN maxSize created nodeId t | _ \<Rightarrow> t)"

definition setEncapsulated :: "bool \<Rightarrow> gw_session \<Rightarrow> gw_session" where
  "setEncapsulated b t = on_own (\<lambda>s. s\<lparr>st := (st s)\<lparr>m_encapsulatedMsg := b\<rparr>\<rparr>) t"

text \<open>The loop and the call of an inner session are mutually recursive. The first argument bounds
  the depth of the recursion, with no result when it is used up; the functions return the number
  of bytes consumed. \<^verbatim>\<open>len\<close> is the number of bytes the call got.\<close>

fun SessionImpl_dataFromClient ::
    "nat \<Rightarrow> u64 \<Rightarrow> read_frame \<Rightarrow> session_created \<Rightarrow> data_buf \<Rightarrow> gw_session \<Rightarrow> (nat \<times> gw_session) option"
and dataFromClient_loop ::
    "nat \<Rightarrow> u64 \<Rightarrow> read_frame \<Rightarrow> session_created \<Rightarrow> nat \<Rightarrow> data_buf \<Rightarrow> gw_session \<Rightarrow>
       (nat \<times> gw_session) option"
and Encapsulate_encapsulatedData ::
    "nat \<Rightarrow> u64 \<Rightarrow> read_frame \<Rightarrow> session_created \<Rightarrow> data_buf \<Rightarrow> gw_session \<Rightarrow> (nat \<times> gw_session) option"
where
  "SessionImpl_dataFromClient fuel maxSize read created buf t =
     (if \<not> m_running (st (own t)) \<or> m_terminating (st (own t)) then Some (0, t)
      else case dataFromClient_loop fuel maxSize read created (length buf) buf
                  (on_own SessionImpl_apiCall t) of
        None \<Rightarrow> None
      | Some (consumed, t) \<Rightarrow> Some (consumed, on_own SessionImpl_apiCallExit t))"
| "dataFromClient_loop 0 maxSize read created len rem t = None"
| "dataFromClient_loop (Suc fuel) maxSize read created len rem t =
     (if rem = [] then Some (len - length rem, setEncapsulated False t)
      else if m_encapsulatedMsg (st (own t)) then
        (case Encapsulate_encapsulatedData fuel maxSize read created rem t of
           None \<Rightarrow> None
         | Some (n, t) \<Rightarrow> dataFromClient_loop fuel maxSize read created len (drop n rem) t)
      else case read rem of
        NotEnoughData \<Rightarrow> Some (len - length rem, t)
      | ProtocolError \<Rightarrow>
          Some (len, on_own (SessionImpl_reportError
            ''Protocol error from the client side is detected'') t)
      | OtherError n \<Rightarrow> dataFromClient_loop fuel maxSize read created len (drop n rem) t
      | ReadSuccess m n \<Rightarrow>
          dataFromClient_loop fuel maxSize read created len (drop n rem)
            (SessionImpl_handleClientMsg maxSize created m t))"
| "Encapsulate_encapsulatedData fuel maxSize read created buf t =
     (let t = on_own (fault_if (\<not> m_encapsulatedMsg (st (own t)))
                (AssertFailed OpEncapsulate ''encapsulatedMsg'')) t;
          t = setEncapsulated False t
      in case selected t of
        NoSession \<Rightarrow> Some (length buf, t)
      | DanglingSession \<Rightarrow>
          Some (length buf, subs_select NoSession (on_own (fault_if True DanglingPointer) t))
      | Selected nodeId \<Rightarrow>
          (case subs_find nodeId t of
             None \<Rightarrow>
               Some (length buf, subs_select NoSession (on_own (fault_if True DanglingPointer) t))
           | Some c \<Rightarrow>
               (case SessionImpl_dataFromClient fuel maxSize read created buf c of
                  None \<Rightarrow> None
                | Some (n, c') \<Rightarrow>
                    Some (n, subs_select NoSession
                      (Encapsulate_afterCall nodeId (out (own c)) c' t)))))"

declare SessionImpl_dataFromClient.simps [simp del]
declare dataFromClient_loop.simps [simp del]
declare Encapsulate_encapsulatedData.simps [simp del]

lemmas Encapsulate_afterCall_defs = Encapsulate_afterCall_def
  Encapsulate_sendDataClientReqFromSession_def Encapsulate_terminationReqFromSession_def

section \<open>The loop ends\<close>

abbreviation encapsulated :: "gw_session \<Rightarrow> bool" where
  "encapsulated t \<equiv> m_encapsulatedMsg (st (own t))"

inductive quiet_subs :: "gw_session \<Rightarrow> bool" where
  "(\<And>nodeId c. (nodeId, c) \<in> set (subs t) \<Longrightarrow> \<not> encapsulated c \<and> quiet_subs c) \<Longrightarrow> quiet_subs t"

inductive_cases quiet_subsE: "quiet_subs t"

definition reads_progress :: "read_frame \<Rightarrow> bool" where
  "reads_progress read \<longleftrightarrow> (\<forall>b n. (read b = OtherError n \<or> (\<exists>m. read b = ReadSuccess m n)) \<longrightarrow>
     0 < n \<and> n \<le> length b)"

definition created_quiet :: "session_created \<Rightarrow> bool" where
  "created_quiet created \<longleftrightarrow> (\<forall>c. \<not> m_encapsulatedMsg (st c) \<longrightarrow>
     \<not> m_encapsulatedMsg (st (snd (created c))))"

lemma quiet_subs_iff:
  "quiet_subs t \<longleftrightarrow> (\<forall>(nodeId, c) \<in> set (subs t). \<not> encapsulated c \<and> quiet_subs c)"
  by (subst quiet_subs.simps) auto

lemma quiet_subs_GwSession [simp]:
  "quiet_subs (GwSession s cs x) \<longleftrightarrow> (\<forall>(nodeId, c) \<in> set cs. \<not> encapsulated c \<and> quiet_subs c)"
  by (subst quiet_subs_iff) simp

lemma quiet_subs_ops:
  "quiet_subs t \<Longrightarrow> quiet_subs (on_own f t)"
  "quiet_subs t \<Longrightarrow> quiet_subs (subs_select x t)"
  "quiet_subs t \<Longrightarrow> quiet_subs (setEncapsulated b t)"
  "quiet_subs t \<Longrightarrow> quiet_subs (subs_erase nodeId t)"
  "quiet_subs t \<Longrightarrow> quiet_subs c \<Longrightarrow> \<not> encapsulated c \<Longrightarrow> quiet_subs (subs_put nodeId c t)"
  by (cases t; auto simp: on_own_def subs_select_def setEncapsulated_def subs_erase_def
      subs_put_def set_smap_erase)+

lemma quiet_subs_find:
  "quiet_subs t \<Longrightarrow> subs_find nodeId t = Some c \<Longrightarrow> \<not> encapsulated c \<and> quiet_subs c"
  by (auto simp: subs_find_def quiet_subs_iff [of t] dest: map_of_SomeD)

lemma own_ops [simp]:
  "own (on_own f t) = f (own t)" "own (subs_select x t) = own t"
  "own (subs_put nodeId c t) = own t" "own (subs_erase nodeId t) = own t"
  "own (setEncapsulated b t) = (own t)\<lparr>st := (st (own t))\<lparr>m_encapsulatedMsg := b\<rparr>\<rparr>"
  by (simp_all add: on_own_def subs_select_def subs_put_def subs_erase_def setEncapsulated_def)

lemma encapsulated_fold:
  "(\<And>x s. m_encapsulatedMsg (st (f x s)) = m_encapsulatedMsg (st s)) \<Longrightarrow>
     m_encapsulatedMsg (st (fold f xs s)) = m_encapsulatedMsg (st s)"
  by (induction xs arbitrary: s) auto

lemma encapsulated_updateOps:
  "m_encapsulatedMsg (st (SessionImpl_updateOps s)) = m_encapsulatedMsg (st s)"
  unfolding SessionImpl_updateOps_def
proof (rule encapsulated_fold)
  fix op s
  show "m_encapsulatedMsg (st (SessionOp_timestampUpdated op (op_tickImpl op) s)) =
      m_encapsulatedMsg (st s)"
  proof (cases "op = OpEncapsulate")
    case True
    then show ?thesis by (simp add: SessionOp_timestampUpdated_def SessionOp_cancelTick_def)
  next
    case False
    then show ?thesis using any_op.timestampUpdated_contract [of op s]
      by (simp add: op_frame_def op_local_def)
  qed
qed

lemma encapsulated_bracket [simp]:
  "m_encapsulatedMsg (st (SessionImpl_apiCall s)) = m_encapsulatedMsg (st s)"
  "m_encapsulatedMsg (st (SessionImpl_apiCallExit s)) = m_encapsulatedMsg (st s)"
  by (auto simp: SessionImpl_apiCall_def SessionImpl_updateTimestamp_def
      SessionImpl_apiCallExit_def SessionImpl_programNextTimeout_def encapsulated_updateOps
      emit_def fault_if_def Let_def split: option.split)

lemma encapsulated_setups:
  "\<not> m_encapsulatedMsg (st (Encapsulate_newSession maxSize p))"
  "m_encapsulatedMsg (st (snd (SessionImpl_start s))) = m_encapsulatedMsg (st s)"
  by (simp_all add: Encapsulate_newSession_def SessionImpl_init_def SessionState_init_def Let_def
      SessionImpl_setGatewayId_def SessionImpl_setRetryPeriod_def SessionImpl_setRetryCount_def
      SessionImpl_setSleepingClientMsgLimit_def SessionImpl_setDefaultClientId_def
      SessionImpl_setPubOnlyKeepAlive_def SessionImpl_start_def SessionImpl_reportError_def emit_def)

lemma quiet_subs_FwdMsg:
  assumes "quiet_subs t" "created_quiet created"
  shows "quiet_subs (Encapsulate_handle_FwdMsg_SN maxSize created nodeId t)"
proof -
  obtain ok c where c: "created (Encapsulate_newSession maxSize (st (own t))) = (ok, c)"
    by fastforce
  define d where "d = c\<lparr>cbs := (cbs c)\<lparr>cb_sendToClient := True, cb_termReq := True\<rparr>\<rparr>"
  obtain started e where e: "(if m_running (st d) then (True, d) else SessionImpl_start d) = (started, e)"
    by fastforce
  have "\<not> m_encapsulatedMsg (st c)"
    using assms(2) encapsulated_setups(1) [of maxSize "st (own t)"] c
    unfolding created_quiet_def by (metis snd_conv)
  then have "\<not> m_encapsulatedMsg (st d)" by (simp add: d_def)
  then have quiet: "\<not> m_encapsulatedMsg (st e)"
    using e encapsulated_setups(2) [of d] by (auto split: if_splits)
  show ?thesis
    unfolding Encapsulate_handle_FwdMsg_SN_def c Let_def prod.case d_def [symmetric] e
    using assms(1) quiet by (simp add: quiet_subs_ops)
qed

lemma quiet_subs_handleClientMsg:
  assumes "quiet_subs t" "created_quiet created"
  shows "quiet_subs (SessionImpl_handleClientMsg maxSize created m t)"
  using assms unfolding SessionImpl_handleClientMsg_def Let_def
  by (cases m) (simp_all add: quiet_subs_ops quiet_subs_FwdMsg)

lemma own_afterCall:
  "encapsulated (Encapsulate_afterCall nodeId os c t) = encapsulated t"
  by (simp add: Encapsulate_afterCall_defs Let_def emit_def fault_if_def)

lemma quiet_subs_afterCall:
  "quiet_subs t \<Longrightarrow> quiet_subs c \<Longrightarrow> \<not> encapsulated c \<Longrightarrow>
     quiet_subs (Encapsulate_afterCall nodeId os c t)"
  by (simp add: Encapsulate_afterCall_defs Let_def quiet_subs_ops)

definition ends_well :: "nat \<Rightarrow> (nat \<times> gw_session) option \<Rightarrow> bool" where
  "ends_well len r \<longleftrightarrow> (\<exists>n t'. r = Some (n, t') \<and> n \<le> len \<and> \<not> encapsulated t' \<and> quiet_subs t')"

definition enough_fuel :: "nat \<Rightarrow> data_buf \<Rightarrow> gw_session \<Rightarrow> bool" where
  "enough_fuel fuel rem t \<longleftrightarrow> 2 * length rem + (if encapsulated t then 1 else 0) < fuel"

lemma dataFromClient_ends:
  assumes loop: "\<And>t rem len. quiet_subs t \<Longrightarrow> length rem \<le> len \<Longrightarrow> enough_fuel fuel rem t \<Longrightarrow>
      ends_well len (dataFromClient_loop fuel maxSize read created len rem t)"
    and t: "quiet_subs t" "\<not> encapsulated t" "2 * length buf < fuel"
  shows "ends_well (length buf) (SessionImpl_dataFromClient fuel maxSize read created buf t)"
proof (cases "\<not> m_running (st (own t)) \<or> m_terminating (st (own t))")
  case True
  then show ?thesis using t by (simp add: SessionImpl_dataFromClient.simps ends_well_def)
next
  case False
  have "ends_well (length buf) (dataFromClient_loop fuel maxSize read created (length buf) buf
      (on_own SessionImpl_apiCall t))"
    by (rule loop) (use t in \<open>simp_all add: quiet_subs_ops enough_fuel_def\<close>)
  then show ?thesis
    using False by (auto simp: SessionImpl_dataFromClient.simps ends_well_def quiet_subs_ops)
qed

lemma encapsulatedData_ends:
  assumes loop: "\<And>t rem len. quiet_subs t \<Longrightarrow> length rem \<le> len \<Longrightarrow> enough_fuel fuel rem t \<Longrightarrow>
      ends_well len (dataFromClient_loop fuel maxSize read created len rem t)"
    and t: "quiet_subs t" "2 * length buf < fuel"
  shows "ends_well (length buf) (Encapsulate_encapsulatedData fuel maxSize read created buf t)"
proof -
  define u where "u = setEncapsulated False (on_own (fault_if (\<not> m_encapsulatedMsg (st (own t)))
                (AssertFailed OpEncapsulate ''encapsulatedMsg'')) t)"
  have u: "quiet_subs u" "\<not> encapsulated u" using t by (simp_all add: u_def quiet_subs_ops)
  show ?thesis
  proof (cases "\<exists>nodeId c. selected u = Selected nodeId \<and> subs_find nodeId u = Some c")
    case True
    then obtain nodeId c where c: "selected u = Selected nodeId" "subs_find nodeId u = Some c"
      by blast
    have "quiet_subs c" "\<not> encapsulated c" using quiet_subs_find u c(2) by auto
    then obtain n c' where c': "SessionImpl_dataFromClient fuel maxSize read created buf c = Some (n, c')"
      "n \<le> length buf" "\<not> encapsulated c'" "quiet_subs c'"
      using dataFromClient_ends [OF loop] t(2) by (force simp: ends_well_def)
    then show ?thesis using c u
      by (simp add: Encapsulate_encapsulatedData.simps Let_def u_def [symmetric] ends_well_def
          quiet_subs_ops quiet_subs_afterCall own_afterCall)
  next
    case False
    then show ?thesis using u
      by (auto simp: Encapsulate_encapsulatedData.simps Let_def u_def [symmetric] ends_well_def
          quiet_subs_ops fault_if_def split: selected_session.split option.split)
  qed
qed

lemma dataFromClient_loop_ends:
  assumes "reads_progress read" "created_quiet created"
  shows "quiet_subs t \<Longrightarrow> length rem \<le> len \<Longrightarrow> enough_fuel fuel rem t \<Longrightarrow>
    ends_well len (dataFromClient_loop fuel maxSize read created len rem t)"
proof (induction fuel arbitrary: t rem len)
  case 0
  then show ?case by (simp add: enough_fuel_def)
next
  case (Suc fuel)
  have step: "ends_well len (dataFromClient_loop fuel maxSize read created len (drop n rem) t')"
    if "quiet_subs t'" "enough_fuel fuel (drop n rem) t'" for n t'
    by (rule Suc.IH) (use that Suc.prems(2) in auto)
  show ?case
  proof (cases "rem = [] \<or> \<not> encapsulated t")
    case False
    then have enc: "rem \<noteq> []" "encapsulated t" by auto
    have "ends_well (length rem) (Encapsulate_encapsulatedData fuel maxSize read created rem t)"
      by (rule encapsulatedData_ends [OF Suc.IH])
        (use Suc.prems enc in \<open>simp_all add: enough_fuel_def\<close>)
    then obtain n t' where t': "Encapsulate_encapsulatedData fuel maxSize read created rem t = Some (n, t')"
      "quiet_subs t'" "\<not> encapsulated t'"
      by (auto simp: ends_well_def)
    have "enough_fuel fuel (drop n rem) t'"
      using Suc.prems(3) enc t'(3) by (simp add: enough_fuel_def)
    then show ?thesis using step t' enc by (simp add: dataFromClient_loop.simps)
  next
    case True
    have less: "enough_fuel fuel (drop n rem) t'" if "0 < n" "rem \<noteq> []" for n t'
    proof -
      have "length (drop n rem) < length rem" using that by simp
      then show ?thesis using Suc.prems(3) by (simp add: enough_fuel_def split: if_splits)
    qed
    note prog = assms(1) [unfolded reads_progress_def, rule_format, of rem]
    show ?thesis
    proof (cases "read rem")
      case (OtherError n)
      then show ?thesis using True prog step less Suc.prems
        by (auto simp: dataFromClient_loop.simps ends_well_def quiet_subs_ops)
    next
      case (ReadSuccess m n)
      then show ?thesis using True prog step less Suc.prems assms(2)
        by (auto simp: dataFromClient_loop.simps ends_well_def quiet_subs_ops quiet_subs_handleClientMsg)
    qed (use True Suc.prems in \<open>auto simp: dataFromClient_loop.simps ends_well_def quiet_subs_ops
        SessionImpl_reportError_def emit_def\<close>)
  qed
qed

text \<open>C2. The read loop of a session ends and accounts for its bytes, inner sessions of any depth
  included: when the frame takes at least one byte for every message or error it skips, a call
  with \<open>len\<close> bytes returns after a recursion of depth at most \<open>2 * len + 1\<close>, says that it
  consumed at most \<open>len\<close> bytes, and leaves no session waiting for encapsulated bytes. (The
  application cannot put a session into that state.)\<close>

theorem dataFromClient_returns:
  assumes "reads_progress read" "created_quiet created" "quiet_subs t" "\<not> encapsulated t"
    and "2 * length buf < fuel"
  shows "\<exists>n t'. SessionImpl_dataFromClient fuel maxSize read created buf t = Some (n, t') \<and>
    n \<le> length buf \<and> quiet_subs t' \<and> \<not> encapsulated t'"
  using dataFromClient_ends [OF dataFromClient_loop_ends [OF assms(1,2)] assms(3-5)]
  unfolding ends_well_def by blast

section \<open>Reachable trees of sessions\<close>

text \<open>A session that no call of the API left in the middle of something, and in which no assertion
  of \<^verbatim>\<open>SessionImpl\<close> failed.\<close>

definition session_ok :: "session \<Rightarrow> bool" where
  "session_ok s \<longleftrightarrow> api_idle s \<and> (\<forall>f \<in> set (faults s). \<not> session_fault f)"

inductive tree_ok :: "gw_session \<Rightarrow> bool" where
  "session_ok (own t) \<Longrightarrow> (\<And>nodeId c. (nodeId, c) \<in> set (subs t) \<Longrightarrow> tree_ok c) \<Longrightarrow> tree_ok t"

inductive_simps tree_ok_iff: "tree_ok t"

definition subs_ok :: "gw_session \<Rightarrow> bool" where
  "subs_ok t \<longleftrightarrow> (\<forall>(nodeId, c) \<in> set (subs t). tree_ok c)"

text \<open>The application only uses the API of the session it is shown.\<close>

definition created_ok :: "session_created \<Rightarrow> bool" where
  "created_ok created \<longleftrightarrow> (\<forall>c. session_ok c \<longrightarrow> session_ok (snd (created c)))"

lemma tree_ok_parts: "tree_ok t \<longleftrightarrow> session_ok (own t) \<and> subs_ok t"
  by (subst tree_ok_iff) (auto simp: subs_ok_def)

lemma subs_ok_ops:
  "subs_ok t \<Longrightarrow> subs_ok (on_own f t)"
  "subs_ok t \<Longrightarrow> subs_ok (subs_select x t)"
  "subs_ok t \<Longrightarrow> subs_ok (setEncapsulated b t)"
  "subs_ok t \<Longrightarrow> subs_ok (subs_erase nodeId t)"
  "subs_ok t \<Longrightarrow> tree_ok c \<Longrightarrow> subs_ok (subs_put nodeId c t)"
  by (auto simp: on_own_def subs_select_def setEncapsulated_def subs_erase_def subs_put_def
      set_smap_erase subs_ok_def)

lemma subs_ok_find: "subs_ok t \<Longrightarrow> subs_find nodeId t = Some c \<Longrightarrow> tree_ok c"
  by (auto simp: subs_find_def subs_ok_def dest: map_of_SomeD)

lemma session_ok_api_result: "session_ok s \<Longrightarrow> api_result s s' \<Longrightarrow> session_ok s'"
  by (auto simp: session_ok_def api_result_def)

lemma session_ok_cong:
  "session_ok s \<Longrightarrow> faults s' = faults s \<Longrightarrow> m_callStackCount (st s') = m_callStackCount (st s) \<Longrightarrow>
     m_tickReq (st s') = m_tickReq (st s) \<Longrightarrow> m_terminating (st s') = m_terminating (st s) \<Longrightarrow>
     (m_running (st s') \<longrightarrow> timer_callbacks (cbs s')) \<Longrightarrow> session_ok s'"
  by (simp add: session_ok_def api_idle_def)

lemma session_ok_init: "session_ok SessionImpl_init"
  by (simp add: session_ok_def api_idle_def SessionImpl_init_def SessionState_init_def)

lemma session_ok_newSession: "session_ok (Encapsulate_newSession maxSize p)"
  by (simp add: session_ok_def api_idle_def Encapsulate_newSession_def SessionImpl_init_def
      SessionState_init_def Let_def SessionImpl_setGatewayId_def SessionImpl_setRetryPeriod_def
      SessionImpl_setRetryCount_def SessionImpl_setSleepingClientMsgLimit_def
      SessionImpl_setDefaultClientId_def SessionImpl_setPubOnlyKeepAlive_def)

lemma session_ok_start: "session_ok s \<Longrightarrow> session_ok (snd (SessionImpl_start s))"
  by (auto simp: SessionImpl_start_def SessionImpl_reportError_def emit_def session_ok_def
      api_idle_def timer_callbacks_def)

text \<open>Frames of the steps of the loop, seen from the owner.\<close>

lemma ops_frame_st_out:
  "st_frame (st s) (st s') \<Longrightarrow> cbs s' = cbs s \<Longrightarrow> nextTicks s' = nextTicks s \<Longrightarrow>
   out s' = out s @ es \<Longrightarrow> \<forall>e \<in> set es. \<not> session_event e \<Longrightarrow>
   faults s' = faults s @ fs \<Longrightarrow> \<forall>f \<in> set fs. \<not> session_fault f \<Longrightarrow> ops_frame s s'"
  by (auto simp: ops_frame_def timer_frame_def)

lemma ops_frame_loop_steps:
  "ops_frame s (s\<lparr>st := (st s)\<lparr>m_lastMsgTimestamp := ts\<rparr>\<rparr>)"
  "ops_frame s (s\<lparr>st := (st s)\<lparr>m_encapsulatedMsg := b\<rparr>\<rparr>)"
  "ops_frame s (emit (FwdEncSessionCreated nodeId) s)"
  "ops_frame s (emit (FwdEncSessionDeleted nodeId) s)"
  "ops_frame s (SessionImpl_reportError err s)"
  "ops_frame s (s\<lparr>out := out s @ map (FromSub nodeId) es\<rparr>)"
  "ops_frame s (fault_if c NullPointer s)"
  "ops_frame s (fault_if c DanglingPointer s)"
  "ops_frame s (fault_if c (AssertFailed op t) s)"
  by (auto simp: ops_frame_def timer_frame_def st_frame_def emit_def SessionImpl_reportError_def
      fault_if_def)

lemma FwdMsg_frame:
  assumes "subs_ok t" "created_ok created"
  shows "ops_frame (own t) (own (Encapsulate_handle_FwdMsg_SN maxSize created nodeId t)) \<and>
    subs_ok (Encapsulate_handle_FwdMsg_SN maxSize created nodeId t)"
proof -
  obtain ok c where c: "created (Encapsulate_newSession maxSize (st (own t))) = (ok, c)"
    by fastforce
  define d where "d = c\<lparr>cbs := (cbs c)\<lparr>cb_sendToClient := True, cb_termReq := True\<rparr>\<rparr>"
  obtain started e where e: "(if m_running (st d) then (True, d) else SessionImpl_start d) = (started, e)"
    by fastforce
  have "session_ok c"
    using assms(2) session_ok_newSession [of maxSize "st (own t)"] c
    unfolding created_ok_def by (metis snd_conv)
  then have "session_ok d"
    by (rule session_ok_cong)
      (use \<open>session_ok c\<close> in \<open>auto simp: d_def session_ok_def api_idle_def timer_callbacks_def\<close>)
  then have "session_ok e" using e session_ok_start [of d] by (auto split: if_splits)
  then have "tree_ok (GwSession e [] NoSession)" by (auto intro: tree_ok.intros)
  moreover note ops_frame_loop_steps(3) [of "own t" nodeId]
  moreover note ops_frame_trans [OF ops_frame_trans [OF ops_frame_loop_steps(3)
        ops_frame_loop_steps(5)] ops_frame_loop_steps(4), of "own t" nodeId
      "''Failed to start forward encapsulated session''" nodeId]
  ultimately show ?thesis
    unfolding Encapsulate_handle_FwdMsg_SN_def c Let_def prod.case d_def [symmetric] e
    using assms(1) by (simp add: subs_ok_ops)
qed

lemma handleClientMsg_frame:
  assumes "subs_ok t" "created_ok created"
  shows "ops_frame (own t) (own (SessionImpl_handleClientMsg maxSize created m t)) \<and>
    subs_ok (SessionImpl_handleClientMsg maxSize created m t)"
proof -
  let ?u = "on_own (SessionImpl_handle_sn m)
    (on_own (\<lambda>s. s\<lparr>st := (st s)\<lparr>m_lastMsgTimestamp := m_timestamp (st s)\<rparr>\<rparr>) t)"
  have u: "ops_frame (own t) (own ?u)" "subs_ok ?u"
    using assms(1) by (auto simp: subs_ok_ops
        intro: ops_frame_trans [OF ops_frame_loop_steps(1) ops_frame_handle_sn])
  show ?thesis
    using u FwdMsg_frame [OF u(2) assms(2)] unfolding SessionImpl_handleClientMsg_def Let_def
    by (cases m) (auto intro: ops_frame_trans)
qed

lemma afterCall_frame:
  assumes "subs_ok t" "tree_ok c"
  shows "ops_frame (own t) (own (Encapsulate_afterCall nodeId os c t)) \<and>
    subs_ok (Encapsulate_afterCall nodeId os c t)"
proof -
  let ?new = "drop (length os) (out (own c))"
  let ?f = "fault_if (\<not> cb_sendToClient (cbs (own t)) \<and> (\<exists>e \<in> set ?new. to_client_event e)) NullPointer"
  have 1: "ops_frame (own t) ((?f (own t))\<lparr>out := out (?f (own t)) @ map (FromSub nodeId) ?new\<rparr>)"
    by (rule ops_frame_trans [OF ops_frame_loop_steps(7) ops_frame_loop_steps(6)])
  then show ?thesis
    using assms ops_frame_trans [OF 1 ops_frame_loop_steps(4)]
    by (simp add: Encapsulate_afterCall_defs Let_def subs_ok_ops)
qed

definition keeps_frame :: "gw_session \<Rightarrow> (nat \<times> gw_session) option \<Rightarrow> bool" where
  "keeps_frame t r \<longleftrightarrow> (\<forall>n t'. r = Some (n, t') \<longrightarrow> ops_frame (own t) (own t') \<and> subs_ok t')"

lemma keeps_frame_trans:
  "ops_frame (own t) (own u) \<Longrightarrow> keeps_frame u r \<Longrightarrow> keeps_frame t r"
  unfolding keeps_frame_def by (blast intro: ops_frame_trans)

lemma dataFromClient_tree_ok:
  assumes loop: "\<And>len rem t. subs_ok t \<Longrightarrow>
      keeps_frame t (dataFromClient_loop fuel maxSize read created len rem t)"
    and t: "tree_ok t" "SessionImpl_dataFromClient fuel maxSize read created buf t = Some (n, t')"
  shows "tree_ok t'"
proof (cases "\<not> m_running (st (own t)) \<or> m_terminating (st (own t))")
  case True
  then show ?thesis using t by (simp add: SessionImpl_dataFromClient.simps)
next
  case False
  then obtain u where u: "dataFromClient_loop fuel maxSize read created (length buf) buf
      (on_own SessionImpl_apiCall t) = Some (n, u)" "t' = on_own SessionImpl_apiCallExit u"
    using t(2) by (auto simp: SessionImpl_dataFromClient.simps split: option.splits)
  have ok: "session_ok (own t)" "subs_ok t" using t(1) by (simp_all add: tree_ok_parts)
  then have "keeps_frame (on_own SessionImpl_apiCall t) (Some (n, u))"
    using loop [of "on_own SessionImpl_apiCall t" "length buf" buf] u(1)
    by (simp add: subs_ok_ops)
  then have f: "ops_frame (SessionImpl_apiCall (own t)) (own u)" "subs_ok u"
    by (simp_all add: keeps_frame_def)
  have idle: "api_idle (own t)" using ok(1) by (simp add: session_ok_def)
  have "api_result (own t) (SessionImpl_apiCallExit (own u))"
    using idle False by (intro apiCallExit_result api_entered_ops_frame [OF apiCall_entered f(1)])
      (simp_all add: api_idle_def)
  then show ?thesis
    using session_ok_api_result ok(1) f(2) by (auto simp: u(2) tree_ok_parts subs_ok_ops)
qed

lemma encapsulatedData_frame:
  assumes loop: "\<And>len rem t. subs_ok t \<Longrightarrow>
      keeps_frame t (dataFromClient_loop fuel maxSize read created len rem t)"
    and t: "subs_ok t"
  shows "keeps_frame t (Encapsulate_encapsulatedData fuel maxSize read created buf t)"
proof -
  define u where "u = setEncapsulated False (on_own (fault_if (\<not> m_encapsulatedMsg (st (own t)))
                (AssertFailed OpEncapsulate ''encapsulatedMsg'')) t)"
  have u: "subs_ok u" "ops_frame (own t) (own u)"
    using t by (auto simp: u_def subs_ok_ops
        intro: ops_frame_trans [OF ops_frame_loop_steps(9) ops_frame_loop_steps(2)])
  have fault: "ops_frame (own t) (fault_if True DanglingPointer (own u))"
    using u(2) by (rule ops_frame_trans) (rule ops_frame_loop_steps)
  have sub: "keeps_frame t (Some (n, subs_select NoSession
      (Encapsulate_afterCall nodeId (out (own c)) c' u)))"
    if "subs_find nodeId u = Some c"
      "SessionImpl_dataFromClient fuel maxSize read created buf c = Some (n, c')" for nodeId c n c'
  proof -
    have "tree_ok c'"
      using dataFromClient_tree_ok [OF loop] subs_ok_find [OF u(1)] that by blast
    from afterCall_frame [OF u(1) this, of nodeId "out (own c)"] u(2) show ?thesis
      by (auto simp: keeps_frame_def subs_ok_ops intro: ops_frame_trans)
  qed
  show ?thesis
    unfolding Encapsulate_encapsulatedData.simps Let_def u_def [symmetric]
    using u fault sub
    by (auto simp: keeps_frame_def subs_ok_ops split: selected_session.split option.split)
qed

lemma dataFromClient_loop_frame:
  assumes "created_ok created"
  shows "subs_ok t \<Longrightarrow> keeps_frame t (dataFromClient_loop fuel maxSize read created len rem t)"
proof (induction fuel arbitrary: t rem len)
  case 0
  then show ?case by (simp add: dataFromClient_loop.simps keeps_frame_def)
next
  case (Suc fuel)
  have step: "keeps_frame t (dataFromClient_loop fuel maxSize read created len rem' u)"
    if "ops_frame (own t) (own u)" "subs_ok u" for rem' u
    using keeps_frame_trans that Suc.IH by blast
  have enc: "keeps_frame t (Encapsulate_encapsulatedData fuel maxSize read created rem t)"
    by (rule encapsulatedData_frame [OF Suc.IH]) (use Suc.prems in simp_all)
  show ?case
  proof (cases "rem = [] \<or> \<not> encapsulated t")
    case False
    then have eq: "dataFromClient_loop (Suc fuel) maxSize read created len rem t =
        (case Encapsulate_encapsulatedData fuel maxSize read created rem t of None \<Rightarrow> None
         | Some (n, t) \<Rightarrow> dataFromClient_loop fuel maxSize read created len (drop n rem) t)"
      by (simp add: dataFromClient_loop.simps)
    show ?thesis
    proof (cases "Encapsulate_encapsulatedData fuel maxSize read created rem t")
      case (Some r)
      then have "ops_frame (own t) (own (snd r))" "subs_ok (snd r)"
        using enc by (cases r; simp add: keeps_frame_def)+
      then show ?thesis unfolding eq using Some step by (cases r) simp
    qed (simp add: eq keeps_frame_def)
  next
    case True
    then show ?thesis
      using Suc.prems step handleClientMsg_frame [OF Suc.prems assms] ops_frame_loop_steps(2,5)
      by (auto simp: dataFromClient_loop.simps keeps_frame_def [of _ "Some _"] subs_ok_ops
          split: read_result.split)
  qed
qed

text \<open>The calls an application makes on a session: its settings, the callbacks while it is not
  running, the entry points, and the same calls on an inner session it was shown.\<close>

inductive session_config :: "session \<Rightarrow> session \<Rightarrow> bool" where
  "\<not> m_running (st s) \<Longrightarrow> session_config s (s\<lparr>cbs := c\<rparr>)"
| "session_config s (SessionImpl_setGatewayId gwId s)"
| "session_config s (SessionImpl_setRetryPeriod p s)"
| "session_config s (SessionImpl_setRetryCount n s)"
| "session_config s (SessionImpl_setSleepingClientMsgLimit maxSize l s)"
| "session_config s (SessionImpl_setDefaultClientId cid s)"
| "session_config s (SessionImpl_setPubOnlyKeepAlive k s)"
| "session_config s (snd (SessionImpl_addPredefinedTopic topic topicId s))"
| "session_config s (snd (SessionImpl_setTopicIdAllocationRange minVal maxVal s))"
| "session_config s (snd (SessionImpl_start s))"
| "session_config s (SessionImpl_stop s)"

inductive gw_step :: "u64 \<Rightarrow> session_created \<Rightarrow> gw_session \<Rightarrow> gw_session \<Rightarrow> bool"
  for maxSize created where
  config: "session_config (own t) s' \<Longrightarrow> gw_step maxSize created t (on_own (\<lambda>_. s') t)"
| tick: "gw_step maxSize created t (on_own SessionImpl_tick t)"
| client: "SessionImpl_dataFromClient fuel maxSize read created buf t = Some (n, t') \<Longrightarrow>
    gw_step maxSize created t t'"
| broker: "gw_step maxSize created t
    (on_own (\<lambda>s. snd (SessionImpl_dataFromBroker processAll buf s)) t)"
| connected: "gw_step maxSize created t (on_own (SessionImpl_setBrokerConnected b) t)"
| sub: "subs_find nodeId t = Some c \<Longrightarrow> gw_step maxSize created c c' \<Longrightarrow>
    gw_step maxSize created t (Encapsulate_afterCall nodeId (out (own c)) c' t)"

abbreviation gw_init :: gw_session where
  "gw_init \<equiv> GwSession SessionImpl_init [] NoSession"

lemma session_ok_config: "session_config s s' \<Longrightarrow> session_ok s \<Longrightarrow> session_ok s'"
proof (induction rule: session_config.induct)
  case (8 s topic topicId)
  then show ?case
    by (auto simp: SessionImpl_addPredefinedTopic_def fault_if_def session_ok_def api_idle_def
        split: sum.split)
next
  case (9 s minVal maxVal)
  then show ?case
    by (auto simp: SessionImpl_setTopicIdAllocationRange_def session_ok_def api_idle_def
        split: prod.split)
next
  case (10 s)
  then show ?case by (simp add: session_ok_start)
qed (auto simp: session_ok_def api_idle_def SessionImpl_setGatewayId_def
    SessionImpl_setRetryPeriod_def SessionImpl_setRetryCount_def SessionImpl_stop_def
    SessionImpl_setSleepingClientMsgLimit_def SessionImpl_setDefaultClientId_def
    SessionImpl_setPubOnlyKeepAlive_def)

lemma session_ok_entry_points:
  assumes "session_ok s"
  shows "session_ok (SessionImpl_tick s)"
    and "session_ok (snd (SessionImpl_dataFromBroker processAll buf s))"
    and "session_ok (SessionImpl_setBrokerConnected b s)"
proof -
  note idle = assms [unfolded session_ok_def, THEN conjunct1]
  show "session_ok (SessionImpl_tick s)"
    using session_ok_api_result [OF assms tick_result [OF idle]] assms
    by (cases "m_running (st s) \<and> \<not> m_terminating (st s)") (auto simp: SessionImpl_tick_def)
  show "session_ok (snd (SessionImpl_dataFromBroker processAll buf s))"
    using session_ok_api_result [OF assms dataFromBroker_result [OF idle]] assms
    by (cases "m_running (st s) \<and> \<not> m_terminating (st s)")
      (auto simp: SessionImpl_dataFromBroker_def)
  show "session_ok (SessionImpl_setBrokerConnected b s)"
    using session_ok_api_result [OF assms setBrokerConnected_result [OF idle]] assms
    by (cases "m_running (st s) \<and> m_brokerConnected (st s) \<noteq> b")
      (auto simp: SessionImpl_setBrokerConnected_def)
qed

lemma tree_ok_on_own: "tree_ok t \<Longrightarrow> (session_ok (own t) \<Longrightarrow> session_ok (f (own t))) \<Longrightarrow> tree_ok (on_own f t)"
  unfolding tree_ok_parts by (simp add: subs_ok_ops)

lemma tree_ok_afterCall:
  assumes "tree_ok t" "tree_ok c"
  shows "tree_ok (Encapsulate_afterCall nodeId os c t)"
proof -
  have "session_ok (own (Encapsulate_afterCall nodeId os c t))"
    using assms(1)
    by (auto simp: tree_ok_parts Encapsulate_afterCall_defs Let_def emit_def fault_if_def
        session_ok_def api_idle_def)
  then show ?thesis using afterCall_frame assms unfolding tree_ok_parts by blast
qed

lemma gw_step_ok:
  assumes "created_ok created"
  shows "gw_step maxSize created t t' \<Longrightarrow> tree_ok t \<Longrightarrow> tree_ok t'"
proof (induction rule: gw_step.induct)
  case (config t s')
  then show ?case by (auto intro!: tree_ok_on_own intro: session_ok_config)
next
  case (client fuel read buf t n t')
  then show ?case using dataFromClient_tree_ok [OF dataFromClient_loop_frame [OF assms]] by blast
next
  case (sub nodeId t c c')
  then show ?case using tree_ok_afterCall subs_ok_find by (auto simp: tree_ok_parts [of t])
qed (auto intro: tree_ok_on_own session_ok_entry_points)

text \<open>C1. Whatever sequence of calls an application makes on a session and on the sessions inside
  it, every session of the tree is left idle: the depth of API calls is back at 0, a session that
  asked for its termination waits for no tick, and neither of the assertions on the bracket of a call
  (the pending tick is taken back before another one is programmed, a call that ends had begun) has
  failed. Callbacks that the application has not set are another matter and not covered.\<close>

theorem reachable_sessions_idle:
  assumes "created_ok created" "(gw_step maxSize created)\<^sup>*\<^sup>* gw_init t"
  shows "tree_ok t"
  using assms(2)
proof (induction rule: rtranclp_induct)
  case base
  then show ?case using session_ok_init by (auto intro: tree_ok.intros)
next
  case (step t t')
  then show ?case using gw_step_ok [OF assms(1)] by blast
qed

section \<open>Witnesses\<close>

text \<open>A frame with messages of one byte, and an application that accepts every session.\<close>

definition sample_read :: read_frame where
  "sample_read b = (case b of [] \<Rightarrow> NotEnoughData
     | x # _ \<Rightarrow> ReadSuccess (if x = 0 then PingreqMsg_SN '''' else FwdMsg_SN [x]) 1)"

definition sample_accept :: session_created where
  "sample_accept c = (True, c\<lparr>cbs := sample_callbacks\<rparr>)"

definition sample_refuse :: session_created where
  "sample_refuse c = (False, c)"

definition sample_tree :: gw_session where
  "sample_tree = GwSession sample_session [] NoSession"

lemma sample_read_progress: "reads_progress sample_read"
  by (auto simp: reads_progress_def sample_read_def split: list.splits if_splits)

lemma sample_accept_quiet: "created_quiet sample_accept"
  by (simp add: created_quiet_def sample_accept_def)

lemma sample_accept_ok: "created_ok sample_accept"
  by (auto simp: created_ok_def sample_accept_def session_ok_def api_idle_def timer_callbacks_def
      sample_callbacks_def)

lemma sample_tree_quiet: "quiet_subs sample_tree" "\<not> encapsulated sample_tree"
  by (simp add: sample_tree_def) code_simp

theorem dataFromClient_returns_witness:
  "\<exists>n t'. SessionImpl_dataFromClient 5 100 sample_read sample_accept [7, 0] sample_tree = Some (n, t') \<and>
    n \<le> 2"
  using dataFromClient_returns [OF sample_read_progress sample_accept_quiet sample_tree_quiet,
      of "[7, 0]" 5 100]
  by auto

theorem reachable_sessions_idle_witness:
  "tree_ok (on_own SessionImpl_tick sample_tree)"
proof -
  let ?c = "on_own (\<lambda>_. SessionImpl_init\<lparr>cbs := sample_callbacks\<rparr>) gw_init"
  have "gw_step 100 sample_accept gw_init ?c"
    by (rule gw_step.config) (use session_config.intros(1) [of SessionImpl_init sample_callbacks]
        in \<open>simp add: SessionImpl_init_def SessionState_init_def\<close>)
  moreover have "gw_step 100 sample_accept ?c sample_tree"
    using gw_step.config [of ?c sample_session 100 sample_accept]
      session_config.intros(10) [of "SessionImpl_init\<lparr>cbs := sample_callbacks\<rparr>"]
    by (simp add: sample_session_def sample_tree_def on_own_def)
  moreover have "gw_step 100 sample_accept sample_tree (on_own SessionImpl_tick sample_tree)"
    by (rule gw_step.tick)
  ultimately show ?thesis
    using reachable_sessions_idle [OF sample_accept_ok, of 100] by (meson rtranclp.intros)
qed

lemma FwdMsg_refused:
  assumes "subs_find b u = None" "\<And>d. \<not> fst (created d)"
  shows "selected (Encapsulate_handle_FwdMsg_SN maxSize created b u) = selected u"
    and "subs (Encapsulate_handle_FwdMsg_SN maxSize created b u) = subs u"
  using assms by (simp_all add: Encapsulate_handle_FwdMsg_SN_def on_own_def case_prod_beta)

text \<open>C40. A FWD message whose bytes end with it leaves its session selected, and when the
  application then refuses the session of another node, the bytes of that node are handed to the
  session selected before: \<^verbatim>\<open>m_selectedSession\<close> is only reset by the delivery of bytes.\<close>

theorem refused_node_bytes_misdelivered:
  assumes "\<not> encapsulated t" "cb_fwdEncSessionCreated (cbs (own t))"
    and "selected t = Selected a" "subs_find a t = Some c"
    and "a \<noteq> b" "subs_find b t = None" "\<And>d. \<not> fst (refuse d)"
    and "SessionImpl_dataFromClient fuel maxSize read refuse buf c = Some (n, c')"
    and "TermReq \<notin> set (drop (length (out (own c))) (out (own c')))"
  shows "\<exists>t'. Encapsulate_encapsulatedData fuel maxSize read refuse buf
      (SessionImpl_handleClientMsg maxSize refuse (FwdMsg_SN b) t) = Some (n, t') \<and>
    subs_find a t' = Some c'"
proof -
  let ?u = "SessionImpl_handleClientMsg maxSize refuse (FwdMsg_SN b) t"
  define v where "v = setEncapsulated False (on_own (fault_if (\<not> m_encapsulatedMsg (st (own ?u)))
                (AssertFailed OpEncapsulate ''encapsulatedMsg'')) ?u)"
  define w where "w = on_own (SessionImpl_handle_sn (FwdMsg_SN b))
    (on_own (\<lambda>s. s\<lparr>st := (st s)\<lparr>m_lastMsgTimestamp := m_timestamp (st s)\<rparr>\<rparr>) t)"
  have w: "subs_find b w = None" "selected w = Selected a" "subs w = subs t"
    using assms(3,6) by (simp_all add: w_def subs_find_def on_own_def)
  have "?u = Encapsulate_handle_FwdMsg_SN maxSize refuse b w"
    by (simp add: SessionImpl_handleClientMsg_def w_def Let_def)
  then have "selected ?u = Selected a" "subs ?u = subs t"
    using FwdMsg_refused [of b w refuse maxSize, OF w(1) assms(7)] w(2,3) by simp_all
  then have "selected v = Selected a" "subs v = subs t"
    by (simp_all add: v_def on_own_def setEncapsulated_def)
  then show ?thesis
    using assms(4,8,9) unfolding Encapsulate_encapsulatedData.simps Let_def v_def [symmetric]
    by (simp add: subs_find_def subs_select_def Encapsulate_afterCall_defs subs_put_def on_own_def Let_def)
qed

definition sample_selected :: gw_session where
  "sample_selected = GwSession sample_session [([7], sample_tree)] (Selected [7])"

theorem refused_node_bytes_misdelivered_witness:
  "\<exists>t' c'. Encapsulate_encapsulatedData 3 100 sample_read sample_refuse [0]
      (SessionImpl_handleClientMsg 100 sample_refuse (FwdMsg_SN [9]) sample_selected) = Some (1, t') \<and>
    subs_find [7] t' = Some c'"
proof -
  let ?r = "SessionImpl_dataFromClient 3 100 sample_read sample_refuse [0] sample_tree"
  have r: "map_option fst ?r = Some 1"
    "map_option (\<lambda>p. TermReq \<in> set (drop (length (out (own sample_tree))) (out (own (snd p))))) ?r =
       Some False"
    by code_simp+
  then obtain c' where c': "?r = Some (1, c')"
    "TermReq \<notin> set (drop (length (out (own sample_tree))) (out (own c')))"
    by (cases ?r) auto
  have s: "\<not> encapsulated sample_selected" "cb_fwdEncSessionCreated (cbs (own sample_selected))"
    "selected sample_selected = Selected [7]" "subs_find [7] sample_selected = Some sample_tree"
    "subs_find [9] sample_selected = None" "\<And>d. \<not> fst (sample_refuse d)"
    by (code_simp, code_simp, simp_all add: sample_selected_def subs_find_def sample_refuse_def)
  show ?thesis
    using refused_node_bytes_misdelivered [OF s(1-4) _ s(5,6) c'] by auto
qed

text \<open>An inner session is created with a retry period a thousand times that of its owner: the
  owner passes its period, which it keeps in milliseconds, to a setting that takes seconds.\<close>

theorem newSession_retryPeriod_scaled:
  assumes "unat (m_retryPeriod p) \<le> 4294967"
  shows "unat (m_retryPeriod (st (Encapsulate_newSession maxSize p))) = 1000 * unat (m_retryPeriod p)"
proof -
  have "m_retryPeriod p \<le> 4294967" using assms by (simp add: word_le_nat_alt)
  moreover have "(- 1 div 1000 :: u32) = 4294967" by simp
  ultimately have "m_retryPeriod (st (Encapsulate_newSession maxSize p)) = m_retryPeriod p * 1000"
    by (simp add: Encapsulate_newSession_def Let_def SessionImpl_setRetryPeriod_def
        SessionImpl_setRetryCount_def SessionImpl_setSleepingClientMsgLimit_def
        SessionImpl_setDefaultClientId_def SessionImpl_setPubOnlyKeepAlive_def min_def)
  then show ?thesis using assms by (simp add: unat_word_ariths)
qed

theorem newSession_retryPeriod_scaled_witness:
  "m_retryPeriod SessionState_init = 10000 \<and>
   unat (m_retryPeriod (st (Encapsulate_newSession 100 SessionState_init))) = 10000000"
  using newSession_retryPeriod_scaled [of SessionState_init 100] by (simp add: SessionState_init_def)

end
