(* ===== verification/Gw_Witnesses.thy ===== *)
theory Gw_Witnesses
  imports Gw_Encapsulate
begin

text \<open>
  Concrete sessions at which the properties of the operations apply: for every property of an
  operation that has hypotheses, an instance in which they hold, evaluated on the model.
\<close>

section \<open>Receiving publications\<close>

definition sample_info :: pub_info where
  "sample_info = \<lparr>pi_topic = ''topic'', pi_msg = [1, 2], pi_qos = QoS_AtMostOnceDelivery,
     pi_retain = False, pi_dup = False\<rparr>"

definition sample_limited :: session where
  "sample_limited = sample_connected\<lparr>st := (st sample_connected)\<lparr>m_sleepPubAccLimit := 1,
     m_brokerPubs := [sample_info]\<rparr>\<rparr>"

theorem addPubInfo_keeps_newest_witness:
  "m_brokerPubs (st (PubRecv_addPubInfo (sample_info\<lparr>pi_topic := ''new''\<rparr>) sample_limited)) =
     [sample_info\<lparr>pi_topic := ''new''\<rparr>]"
  using addPubInfo_keeps_newest [of sample_limited "sample_info\<lparr>pi_topic := ''new''\<rparr>"]
  by (simp add: sample_limited_def)

definition sample_publish :: mqtt_publish where
  "sample_publish = \<lparr>mp_retain = False, mp_qos = MQ_ExactlyOnceDelivery, mp_dup = False,
     mp_topic = ''topic'', mp_packetId = Some 5, mp_payload = [1, 2]\<rparr>"

lemma sample_recv_inv: "recv_inv sample_connected" "cb_sendToBroker (cbs sample_connected)"
  by code_simp+

theorem publish_qos2_held_witness:
  "recv_abs (PubRecv_handle_PublishMsg sample_publish sample_connected) 5 =
     Some (recv_entry sample_publish sample_connected)"
  using publish_qos2_held [of sample_connected sample_publish 5] sample_recv_inv
    sample_connected_state(1)
  by (simp add: sample_publish_def)

definition sample_holding :: session where
  "sample_holding = PubRecv_handle_PublishMsg sample_publish
     (sample_connected\<lparr>st := (st sample_connected)\<lparr>m_sleepPubAccLimit := 2\<rparr>\<rparr>)"

theorem pubrel_delivers_once_witness:
  "m_brokerPubs (st (PubRecv_handle_PubrelMsg 5 (PubRecv_handle_PubrelMsg 5 sample_holding))) =
     m_brokerPubs (st (PubRecv_handle_PubrelMsg 5 sample_holding)) \<and>
   length (m_brokerPubs (st (PubRecv_handle_PubrelMsg 5 sample_holding))) = 1"
proof -
  have s: "recv_inv sample_holding" "recv_abs sample_holding 5 \<noteq> None"
    "cb_sendToBroker (cbs sample_holding)"
    "length (m_brokerPubs (st (PubRecv_handle_PubrelMsg 5 sample_holding))) = 1"
    by code_simp+
  then obtain e where "recv_abs sample_holding 5 = Some e" by blast
  from pubrel_delivers_once [OF s(1) this s(3) refl refl] s(4) show ?thesis by simp
qed

section \<open>Sending publications\<close>

text \<open>A publication with quality of service 1 that has been sent once.\<close>

definition sample_inFlight :: session where
  "sample_inFlight = PubSend_checkSend (sample_connected\<lparr>st := (st sample_connected)
     \<lparr>m_brokerPubs := [sample_info\<lparr>pi_topic := ''ab'', pi_qos := QoS_AtLeastOnceDelivery\<rparr>]\<rparr>\<rparr>)"

theorem unacknowledged_publication_given_up_witness:
  "let pub = sample_info\<lparr>pi_topic := ''ab'', pi_qos := QoS_AtLeastOnceDelivery\<rparr> in
   out ((PubSend_tickImpl ^^ 3) sample_inFlight) =
     out sample_inFlight @ replicate 2 (ToClient (PublishMsg_SN
       \<lparr>sp_topicIdType = ShortTopicName, sp_retain = False, sp_qos = SN_AtLeastOnceDelivery, sp_dup = True,
        sp_topicId = 0x6162, sp_msgId = 1, sp_data = [1, 2]\<rparr>) 0) \<and>
   ps_currPub (pubSend ((PubSend_tickImpl ^^ 2) sample_inFlight)) = Some pub \<and>
   ps_currPub (pubSend ((PubSend_tickImpl ^^ 3) sample_inFlight)) = None"
proof -
  let ?pub = "sample_info\<lparr>pi_topic := ''ab'', pi_qos := QoS_AtLeastOnceDelivery\<rparr>"
  have s: "in_flight ?pub sample_inFlight" "ps_attempt (pubSend sample_inFlight) \<le> m_retryCount (st sample_inFlight)"
    "2 = unat (m_retryCount (st sample_inFlight)) - unat (ps_attempt (pubSend sample_inFlight))"
    by code_simp+
  have "map (\<lambda>i. ToClient (resent ?pub sample_inFlight i) 0) [1..<Suc 2] = replicate 2 (ToClient (PublishMsg_SN
       \<lparr>sp_topicIdType = ShortTopicName, sp_retain = False, sp_qos = SN_AtLeastOnceDelivery, sp_dup = True,
        sp_topicId = 0x6162, sp_msgId = 1, sp_data = [1, 2]\<rparr>) 0)"
    by code_simp
  moreover note unacknowledged_publication_given_up [OF s]
  ultimately show ?thesis by (simp add: numeral_3_eq_3 numeral_2_eq_2 Let_def del: funpow.simps upt_Suc)
qed

text \<open>Two publications of topics with short names, which need no registration.\<close>

definition sample_short :: "string \<Rightarrow> topic_info" where
  "sample_short topic = \<lparr>ti_topicId = shortTopicNameToId topic, ti_topicIdType = ShortTopicName,
     ti_newInsersion = False\<rparr>"

definition sample_queue :: session where
  "sample_queue = sample_connected\<lparr>st := (st sample_connected)\<lparr>m_brokerPubs :=
     [sample_info\<lparr>pi_topic := ''ab''\<rparr>, sample_info\<lparr>pi_topic := ''cd''\<rparr>]\<rparr>\<rparr>"

theorem checkSend_no_idle_queue_witness:
  "m_connStatus (st sample_queue) = Connected \<and> m_brokerPubs (st sample_queue) \<noteq> [] \<and>
   m_brokerPubs (st (PubSend_checkSend sample_queue)) = []"
proof -
  have "m_connStatus (st sample_queue) = Connected" "m_brokerPubs (st sample_queue) \<noteq> []"
    "ps_currPub (pubSend (PubSend_checkSend sample_queue)) = None"
    by code_simp+
  then show ?thesis using checkSend_no_idle_queue [of sample_queue] by simp
qed

lemma sample_short_known:
  assumes "rm_map r ''ab'' = None" "rm_map r ''cd'' = None"
  shows "known_topic r sample_short ''ab''" "known_topic r sample_short ''cd''"
proof -
  have "ti_topicId (sample_short ''ab'') \<noteq> 0" "ti_topicId (sample_short ''cd'') \<noteq> 0"
    by code_simp+
  then show "known_topic r sample_short ''ab''" "known_topic r sample_short ''cd''"
    using assms by (simp_all add: known_topic_def RegMgr_mapTopic_def sample_short_def
        isShortTopicName_def)
qed

theorem qos0_delivered_in_order_witness:
  "out (PubSend_checkSend sample_queue) = out sample_connected @
     [qos0_publish sample_short (sample_info\<lparr>pi_topic := ''ab''\<rparr>),
      qos0_publish sample_short (sample_info\<lparr>pi_topic := ''cd''\<rparr>)]"
proof -
  have "m_connStatus (st sample_connected) = Connected" "ps_currPub (pubSend sample_connected) = None"
    "\<not> m_pendingClientDisconnect (st sample_connected)" "\<not> ps_ping (pubSend sample_connected)"
    "m_retryCount (st sample_connected) = 3" "cb_sendToClient (cbs sample_connected)"
    "rm_map (m_regMgr (st sample_connected)) ''ab'' = None"
    "rm_map (m_regMgr (st sample_connected)) ''cd'' = None"
    by code_simp+
  then have "qos0_ready sample_short sample_queue"
    by (simp add: qos0_ready_def sample_queue_def sample_info_def sample_short_known)
  then show ?thesis using qos0_delivered_in_order [of sample_short sample_queue]
    by (simp add: sample_queue_def)
qed

end
