(* ===== verification/Gw_Flows.thy ===== *)
theory Gw_Flows
  imports Gw_Witnesses
begin

text \<open>
  Exchanges that go through several operations of a session: a client connects, registers a topic
  and publishes to it, and reconnects.
\<close>

section \<open>Connecting\<close>

text \<open>A session that has a broker and no client yet.\<close>

definition fresh_session :: "session \<Rightarrow> bool" where
  "fresh_session s \<longleftrightarrow> m_connStatus (st s) = Disconnected \<and> m_clientId (st s) = '''' \<and>
     m_brokerConnected (st s) \<and> \<not> m_pendingClientDisconnect (st s) \<and> \<not> m_clientConnectReported (st s) \<and>
     0 < m_retryCount (st s) \<and> m_will (st s) = will_info_default \<and> connect s = Connect_init \<and>
     cb_sendToBroker (cbs s) \<and> cb_sendToClient (cbs s) \<and> cb_clientConnected (cbs s)"

text \<open>The request the broker gets for a client without a will.\<close>

definition expected_connect :: "string \<Rightarrow> u16 \<Rightarrow> bool \<Rightarrow> auth_info \<Rightarrow> mqtt_connect" where
  "expected_connect cid dur clean auth = mqtt_connect_default\<lparr>mc_clientId := cid, mc_keepAlive := dur,
     mc_cleanSession := clean, mc_userNameFlag := fst auth \<noteq> '''', mc_userName := fst auth,
     mc_passwordFlag := fst auth \<noteq> '''' \<and> snd auth \<noteq> [],
     mc_password := (if fst auth \<noteq> '''' then snd auth else [])\<rparr>"

lemmas connect_flow_defs = Connect_completeRequest_def Connect_doNextStep_def
  Connect_forwardConnectionReq_def Connect_connectMsg_def Connect_sameClient_def Connect_init_def
  connect_state_default_def will_info_default_def SessionImpl_sendToBroker_def
  SessionImpl_sendToClient_def SessionOp_cancelTick_def emit_def

lemma connect_request:
  assumes "fresh_session s" "cid \<noteq> ''''"
  shows "Connect_handle_ConnectMsg_SN cid dur False clean s =
    s\<lparr>nextTicks := (nextTicks s)(OpConnect := 0),
      out := out s @ [ToBroker (ConnectMsg (expected_connect cid dur clean (SessionImpl_authInfoRequest cid s)))],
      connect := \<lparr>co_clientId = cid, co_authInfo = SessionImpl_authInfoRequest cid s,
        co_will = will_info_default, co_keepAlive = dur, co_clean = clean,
        co_internalState = connect_state_default\<lparr>cs_attempt := 1, cs_hasClientId := True,
          cs_hasWillTopic := True, cs_hasWillMsg := True\<rparr>\<rparr>\<rparr>"
proof -
  have "\<not> m_retryCount (st s) \<le> 0" using assms(1) by (simp add: fresh_session_def word_gt_0)
  moreover have "SessionImpl_authInfoRequest cid (s\<lparr>nextTicks := a, connect := b\<rparr>) = SessionImpl_authInfoRequest cid s" for a b
    by (simp add: SessionImpl_authInfoRequest_def)
  ultimately show ?thesis using assms
    by (simp add: fresh_session_def Connect_handle_ConnectMsg_SN_def connect_flow_defs Let_def fault_if_def
        expected_connect_def mqtt_connect_default_def)
qed

lemma retCode_Accepted: "Connect_retCode rc = Accepted \<longleftrightarrow> rc = 0"
proof -
  have n: "Connect_RetCodeMap ! n = Accepted \<longleftrightarrow> n = 0" if "n < 6" for n
  proof -
    have "n = 0 \<or> n = 1 \<or> n = 2 \<or> n = 3 \<or> n = 4 \<or> n = 5" using that by linarith
    then show ?thesis by (elim disjE) (simp_all add: Connect_RetCodeMap_def)
  qed
  have l: "length Connect_RetCodeMap = 6" by (simp add: Connect_RetCodeMap_def)
  show ?thesis
  proof (cases "unat rc < 6")
    case True
    then show ?thesis by (simp add: Connect_retCode_def l n unat_eq_0)
  next
    case False
    then have "rc \<noteq> 0" by (intro notI) simp
    with False show ?thesis by (simp add: Connect_retCode_def l)
  qed
qed

text \<open>C23. A client connects: its CONNECT without a will makes the gateway send the broker exactly one
  request, with the id, duration and clean flag of the client and the credentials the application has for it;
  the broker's answer is translated and sent to the client. When the broker accepts, the client is
  reported and connected with its duration supervised, otherwise the session is as without a client.\<close>

theorem connect_handshake:
  assumes "fresh_session s" "cid \<noteq> ''''" "dur \<noteq> 0"
  shows "let s' = Connect_handle_ConnackMsg rc (Connect_handle_ConnectMsg_SN cid dur False clean s);
      auth = SessionImpl_authInfoRequest cid s in
    out s' = out s @ [ToBroker (ConnectMsg (expected_connect cid dur clean auth)),
        ToClient (ConnackMsg_SN (Connect_retCode rc)) 0] @ (if rc = 0 then [ClientConnected cid] else []) \<and>
    faults s' = faults s \<and>
    (if rc = 0 then m_connStatus (st s') = Connected \<and> m_clientId (st s') = cid \<and>
       m_keepAlive (st s') = dur \<and> (m_username (st s'), m_password (st s')) = auth \<and>
       nextTicks s' OpPing = m_timestamp (st s) + ucast (ucast dur * 1000 :: u32)
     else m_connStatus (st s') = Disconnected \<and> m_clientId (st s') = '''' \<and> m_username (st s') = '''' \<and>
       nextTicks s' OpPing = 0)"
proof -
  have cb: "cb_sendToClient (cbs s)" "cb_clientConnected (cbs s)" "\<not> m_clientConnectReported (st s)"
    using assms(1) by (simp_all add: fresh_session_def)
  show ?thesis
    unfolding Let_def connect_request [OF assms(1,2)] using assms(3) cb
    by (simp add: Connect_handle_ConnackMsg_def Connect_processAck_def retCode_Accepted Let_def
        SessionImpl_sendToClient_def emit_def SessionImpl_clientConnectedReport_def
        Connect_clearInternalState_def Connect_clearConnectionInfo_def SessionImpl_connStatusUpdated_def
        Ping_connStatusUpdatedImpl_def Ping_restartPingTimer_def fault_if_def SessionOp_nextTickReq_def
        SessionOp_cancelTick_def connect_state_default_def)
qed

definition sample_fresh :: session where
  "sample_fresh = SessionImpl_setBrokerConnected True sample_session"

lemma sample_fresh_session: "fresh_session sample_fresh"
  by code_simp

theorem connect_handshake_witness:
  "m_connStatus (st (Connect_handle_ConnackMsg 0 (Connect_handle_ConnectMsg_SN ''dev'' 60 False True sample_fresh))) = Connected"
  using connect_handshake [OF sample_fresh_session, of "''dev''" 60 0 True] by (simp add: Let_def)

section \<open>Reconnecting\<close>

lemma no_credentials: "m_username (st s) = '''' \<Longrightarrow> \<not> mc_userNameFlag (WillUpdate_connectMsg s)"
  by (simp add: WillUpdate_connectMsg_def Let_def mqtt_connect_default_def)

text \<open>A client that repeats its CONNECT with the same id, will and duration while it is connected is
  accepted at once, but the credentials it connected with are dropped from the session, so that
  a later request to the broker on its behalf, the one of a will update, carries none.\<close>

theorem reconnect_drops_credentials:
  assumes "m_connStatus (st s) = Connected" "m_clientId (st s) = cid" "cid \<noteq> ''''"
    and "m_keepAlive (st s) = dur" "m_will (st s) = will_info_default" "\<not> m_pendingClientDisconnect (st s)"
    and "connect s = Connect_init" "0 < m_retryCount (st s)" "cb_sendToClient (cbs s)"
  shows "let s' = Connect_handle_ConnectMsg_SN cid dur False False s in
    m_connStatus (st s') = Connected \<and> m_username (st s') = '''' \<and> m_password (st s') = [] \<and>
    ToClient (ConnackMsg_SN Accepted) 0 \<in> set (out s') \<and>
    \<not> mc_userNameFlag (WillUpdate_connectMsg s')"
proof -
  have "\<not> m_retryCount (st s) \<le> 0" using assms(8) by (simp add: word_gt_0)
  moreover have "Connect_retCode 0 = Accepted" by (simp add: retCode_Accepted)
  ultimately show ?thesis using assms
    by (simp add: Connect_handle_ConnectMsg_SN_def connect_flow_defs Let_def fault_if_def Connack_Accepted_def
        Connect_processAck_def SessionImpl_clientConnectedReport_def
        Connect_clearInternalState_def SessionImpl_connStatusUpdated_def no_credentials
        Ping_connStatusUpdatedImpl_def Ping_restartPingTimer_def SessionOp_nextTickReq_def)
qed

definition sample_auth_session :: session where
  "sample_auth_session = Connect_handle_ConnackMsg 0 (Connect_handle_ConnectMsg_SN ''dev'' 60 False True
     (sample_fresh\<lparr>cbs := (cbs sample_fresh)\<lparr>cb_authInfoReq := Some (\<lambda>_. (''user'', [1]))\<rparr>\<rparr>))"

theorem reconnect_drops_credentials_witness:
  "m_username (st sample_auth_session) = ''user'' \<and>
   m_username (st (Connect_handle_ConnectMsg_SN ''dev'' 60 False False sample_auth_session)) = ''''"
proof -
  have s: "m_connStatus (st sample_auth_session) = Connected" "m_clientId (st sample_auth_session) = ''dev''"
    "m_keepAlive (st sample_auth_session) = 60" "m_will (st sample_auth_session) = will_info_default"
    "\<not> m_pendingClientDisconnect (st sample_auth_session)" "connect sample_auth_session = Connect_init"
    "0 < m_retryCount (st sample_auth_session)" "cb_sendToClient (cbs sample_auth_session)"
    "m_username (st sample_auth_session) = ''user''"
    by code_simp+
  show ?thesis using reconnect_drops_credentials [OF s(1,2) _ s(3-8)] s(9) by (simp add: Let_def)
qed

text \<open>The registrations of a client that connects with the clean flag survive: the
  acknowledgement resets the flag before it looks at it.\<close>

theorem clean_connect_keeps_registrations:
  "m_regMgr (st (Connect_processAck rc s)) = m_regMgr (st s)"
  by (simp add: Connect_processAck_def Let_def Connect_clearInternalState_def Connect_clearConnectionInfo_def
      SessionImpl_connStatusUpdated_def Ping_connStatusUpdatedImpl_def Ping_restartPingTimer_def
      SessionImpl_sendToClient_def emit_def SessionOp_cancelTick_def SessionOp_nextTickReq_def fault_if_def
      SessionImpl_clientConnectedReport_def)

section \<open>Registering and publishing\<close>

text \<open>C24. A topic that the client registers can be published to: REGACK carries an id of the configured
  range, and a PUBLISH with this id reaches the broker with the registered topic and the
  payload, quality of service and flags of the client.\<close>

theorem register_then_publish:
  assumes "reg_ok (m_regMgr (st s))" "reg_can_alloc (m_regMgr (st s))"
    and "reg_abs (m_regMgr (st s)) topic = None" "\<not> isShortTopicName topic" "topic \<noteq> ''''"
    and "m_connStatus (st s) = Connected" "m_brokerConnected (st s)"
    and "cb_sendToClient (cbs s)" "cb_sendToBroker (cbs s)" "sp_qos msg \<noteq> SN_NoGwPublish"
  shows "\<exists>k. let s1 = SessionImpl_handle_RegisterMsg_SN mid topic s;
      s2 = Forward_handle_PublishMsg_SN (msg\<lparr>sp_topicId := k\<rparr>) s1 in
    rm_minTopicId (m_regMgr (st s)) \<le> k \<and> k \<le> rm_maxTopicId (m_regMgr (st s)) \<and>
    out s1 = out s @ [ToClient (RegackMsg_SN k mid Accepted) 0, ToBroker PingreqMsg] \<and>
    out s2 = out s1 @ [ToBroker (PublishMsg (Forward_publishMsg topic msg))] \<and> faults s2 = faults s"
proof -
  let ?r = "m_regMgr (st s)"
  have inv: "reg_inv ?r" "reg_range ?r" using assms(1) by (auto simp: reg_ok_def)
  obtain k r' where r: "RegMgr_mapTopic topic ?r = Inr (\<lparr>ti_topicId = k, ti_topicIdType = Normal, ti_newInsersion = True\<rparr>, r')"
      "reg_inv r'" "reg_abs r' = (reg_abs ?r)(topic \<mapsto> k)" "rm_minTopicId ?r \<le> k" "k \<le> rm_maxTopicId ?r"
    using reg_mapTopic_new [OF inv assms(2-4)] by blast
  have k0: "k \<noteq> 0" using inv(2) r(4) by (auto simp: reg_range_def)
  have l: "RegMgr_mapTopicId k r' = Inr topic" using reg_mapTopicId_abs [OF r(2)] r(3) by simp
  let ?s1 = "SessionImpl_handle_RegisterMsg_SN mid topic s"
  have s1: "?s1 = s\<lparr>st := (st s)\<lparr>m_regMgr := r'\<rparr>,
      out := out s @ [ToClient (RegackMsg_SN k mid Accepted) 0, ToBroker PingreqMsg]\<rparr>"
    using assms(6,8,9) k0 by (simp add: SessionImpl_handle_RegisterMsg_SN_def RegMgr_mapTopicNoInfo_def r(1) Let_def
        SessionImpl_sendToClient_def SessionImpl_sendToBroker_def emit_def)
  have p: "Forward_publishMsg topic (msg\<lparr>sp_topicId := k\<rparr>) = Forward_publishMsg topic msg"
    by (simp add: Forward_publishMsg_def Let_def)
  show ?thesis
    by (rule exI [of _ k]) (use assms(5-10) r(4,5) in \<open>simp add: s1 Let_def Forward_handle_PublishMsg_SN_def l
        SessionImpl_sendToBroker_def emit_def p\<close>)
qed

text \<open>The PUBACK of the broker is sent to the client with the topic id of the client's latest
  publication, also when it acknowledges an earlier one with another topic.\<close>

theorem puback_topic_of_latest_publish:
  assumes "m_connStatus (st s) = Connected" "m_brokerConnected (st s)" "cb_sendToClient (cbs s)"
    and "RegMgr_mapTopicId (sp_topicId m1) (m_regMgr (st s)) = Inr t1" "t1 \<noteq> ''''" "sp_qos m1 = SN_AtLeastOnceDelivery"
    and "RegMgr_mapTopicId (sp_topicId m2) (m_regMgr (st s)) = Inr t2" "t2 \<noteq> ''''" "sp_qos m2 = SN_AtMostOnceDelivery"
  shows "let s' = Forward_handle_PublishMsg_SN m2 (Forward_handle_PublishMsg_SN m1 s) in
    out (Forward_handle_PubackMsg (sp_msgId m1) s') = out s' @ [ToClient (PubackMsg_SN (sp_topicId m2) (sp_msgId m1) Accepted) 0]"
  using assms by (simp add: Forward_handle_PublishMsg_SN_def Forward_handle_PubackMsg_def Let_def
      Forward_sendPubackToClient_def SessionImpl_sendToBroker_def SessionImpl_sendToClient_def emit_def)

definition sample_sn_publish :: sn_publish where
  "sample_sn_publish = \<lparr>sp_topicIdType = Normal, sp_retain = False, sp_qos = SN_AtMostOnceDelivery, sp_dup = False,
     sp_topicId = 0, sp_msgId = 0, sp_data = [1]\<rparr>"

definition sample_online :: session where
  "sample_online = sample_session\<lparr>st := (st sample_session)\<lparr>m_connStatus := Connected, m_brokerConnected := True\<rparr>\<rparr>"

theorem register_then_publish_witness:
  "\<exists>k. last (out (Forward_handle_PublishMsg_SN (sample_sn_publish\<lparr>sp_topicId := k\<rparr>)
      (SessionImpl_handle_RegisterMsg_SN 3 ''abc'' sample_online))) =
    ToBroker (PublishMsg (Forward_publishMsg ''abc'' sample_sn_publish))"
proof -
  have r: "m_regMgr (st sample_online) = RegMgr_init"
    by (simp add: sample_online_def sample_session_def SessionImpl_start_def SessionImpl_init_def
        SessionState_init_def sample_callbacks_def)
  have s: "m_connStatus (st sample_online) = Connected" "m_brokerConnected (st sample_online)"
    "cb_sendToClient (cbs sample_online)" "cb_sendToBroker (cbs sample_online)"
    "sp_qos sample_sn_publish \<noteq> SN_NoGwPublish" "\<not> isShortTopicName ''abc''" "''abc'' \<noteq> ''''"
    by code_simp+
  have "reg_ok (m_regMgr (st sample_online))" "reg_can_alloc (m_regMgr (st sample_online))"
    "reg_abs (m_regMgr (st sample_online)) ''abc'' = None"
    using reg_can_alloc_init by (simp_all add: r)
  from register_then_publish [OF this s(6,7,1-5), of 3] obtain k where
    "out (Forward_handle_PublishMsg_SN (sample_sn_publish\<lparr>sp_topicId := k\<rparr>)
      (SessionImpl_handle_RegisterMsg_SN 3 ''abc'' sample_online)) =
     out (SessionImpl_handle_RegisterMsg_SN 3 ''abc'' sample_online) @
       [ToBroker (PublishMsg (Forward_publishMsg ''abc'' sample_sn_publish))]"
    unfolding Let_def by blast
  then show ?thesis by (intro exI [of _ k]) simp
qed

theorem puback_topic_of_latest_publish_witness:
  "let m1 = sample_sn_publish\<lparr>sp_topicId := 1, sp_qos := SN_AtLeastOnceDelivery, sp_msgId := 9\<rparr>;
     m2 = sample_sn_publish\<lparr>sp_topicId := 2\<rparr>;
     s = snd (SessionImpl_addPredefinedTopic ''abc'' 1 (snd (SessionImpl_addPredefinedTopic ''def'' 2 sample_connected)));
     s' = Forward_handle_PublishMsg_SN m2 (Forward_handle_PublishMsg_SN m1 s) in
   last (out (Forward_handle_PubackMsg 9 s')) = ToClient (PubackMsg_SN 2 9 Accepted) 0"
proof -
  let ?m1 = "sample_sn_publish\<lparr>sp_topicId := 1, sp_qos := SN_AtLeastOnceDelivery, sp_msgId := 9\<rparr>"
  let ?m2 = "sample_sn_publish\<lparr>sp_topicId := 2\<rparr>"
  let ?s = "snd (SessionImpl_addPredefinedTopic ''abc'' 1 (snd (SessionImpl_addPredefinedTopic ''def'' 2 sample_connected)))"
  have "m_connStatus (st ?s) = Connected" "m_brokerConnected (st ?s)" "cb_sendToClient (cbs ?s)"
    "RegMgr_mapTopicId (sp_topicId ?m1) (m_regMgr (st ?s)) = Inr ''abc''" "''abc'' \<noteq> ''''" "sp_qos ?m1 = SN_AtLeastOnceDelivery"
    "RegMgr_mapTopicId (sp_topicId ?m2) (m_regMgr (st ?s)) = Inr ''def''" "''def'' \<noteq> ''''" "sp_qos ?m2 = SN_AtMostOnceDelivery"
    by code_simp+
  from puback_topic_of_latest_publish [OF this] show ?thesis by (simp add: Let_def sample_publish_def)
qed

section \<open>Short topic names\<close>

lemma of_char_u16: "(of_char c :: u16) = of_nat (of_char c)" "unat (of_char c :: u16) = of_char c"
  "take_bit 8 (of_char c :: u16) = of_char c"
proof -
  have "of_char c < (256 :: nat)" by simp
  moreover have "(256 :: nat) < 2 ^ 16" by simp
  ultimately have c: "of_char c < (256 :: nat)" "of_char c < (2 ^ 16 :: nat)" by linarith+
  show e: "(of_char c :: u16) = of_nat (of_char c)" by (rule of_nat_of_char [symmetric])
  show u: "unat (of_char c :: u16) = of_char c" unfolding e using c
    by (simp add: unsigned_of_nat take_bit_nat_eq_self del: of_nat_of_char)
  have "unat (take_bit 8 (of_char c :: u16)) = unat (of_char c :: u16)"
    using c by (simp add: unsigned_take_bit_eq u take_bit_nat_eq_self)
  then show "take_bit 8 (of_char c :: u16) = of_char c" by (simp only: word_unat_eq_iff)
qed

lemma high_byte: "take_bit 8 (drop_bit 8 (push_bit 8 x OR y)) = x" if "take_bit 8 x = x" "take_bit 8 y = y" for x y :: u16
proof -
  have "take_bit 8 (drop_bit 8 (push_bit 8 (take_bit 8 x) OR take_bit 8 y)) = take_bit 8 x"
    by (rule bit_word_eqI) (auto simp: bit_simps)
  then show ?thesis by (simp only: that)
qed

lemma bytes_of_u16: "push_bit 8 (take_bit 8 (drop_bit 8 x)) OR take_bit 8 x = x" for x :: u16
  by (rule bit_word_eqI) (auto simp: bit_simps)

text \<open>The id of a short topic name stands for the name: the two characters read back from the id
  are the name, and the id of the name read from any id is that id.\<close>

theorem short_topic_name_roundtrip:
  "shortTopicNameOf (shortTopicNameToId [a, b]) = [a, b] \<and> shortTopicNameToId (shortTopicNameOf k) = k"
proof -
  have m: "x AND 0xff = take_bit 8 x" for x :: u16
    by (simp add: take_bit_eq_mask mask_eq_exp_minus_1)
  have h: "of_char (char_of (unat (take_bit 8 x))) = take_bit 8 x" for x :: u16
  proof -
    have "unat (take_bit 8 x) < 256" using take_bit_nat_less_exp [of 8 "unat x"] by (simp add: unsigned_take_bit_eq)
    then show ?thesis unfolding of_char_u16(1) by (simp del: of_nat_of_char)
  qed
  show ?thesis
  proof
    have "take_bit 8 (push_bit 8 (of_char a) OR of_char b :: u16) = of_char b"
      by (simp add: take_bit_or take_bit_push_bit of_char_u16(3))
    moreover have "take_bit 8 (drop_bit 8 (push_bit 8 (of_char a) OR of_char b :: u16)) = of_char a"
      by (rule high_byte) (rule of_char_u16)+
    ultimately show "shortTopicNameOf (shortTopicNameToId [a, b]) = [a, b]"
      by (simp add: shortTopicNameOf_def shortTopicNameToId_def m of_char_u16(2))
    show "shortTopicNameToId (shortTopicNameOf k) = k"
      by (simp add: shortTopicNameOf_def shortTopicNameToId_def m h bytes_of_u16)
  qed
qed
end
