(* ===== verification/Gw_Supervision.thy ===== *)
theory Gw_Supervision
  imports Gw_Encapsulate
begin

text \<open>
  The supervision of a client across the operations: in every state the calls of an application
  lead to, the timer of the keep-alive operation runs while the client is connected, and the retry
  timer runs while a publication is in flight. The proofs use the contract of the operations, so that
  only the operations that set the connection status or own the timer are looked at.
\<close>

section \<open>Operations\<close>

definition supervised :: "session \<Rightarrow> bool" where
  "supervised s \<longleftrightarrow> ping_armed s \<and> pubsend_armed s"

definition well_supervised :: "session \<Rightarrow> bool" where
  "well_supervised s \<longleftrightarrow> clock_ok s \<and> cb_termReq (cbs s) \<and> supervised s"

lemma pubsend_armed_frame:
  "op_frame op s s' \<Longrightarrow> op \<noteq> OpPubSend \<Longrightarrow> pubsend_armed s \<Longrightarrow> pubsend_armed s'"
  by (auto simp: pubsend_armed_def op_frame_def op_local_def)

lemma supervised_frame:
  assumes "op_frame op s s'" "ping_armed s'" "op \<noteq> OpPubSend" "well_supervised s"
  shows "well_supervised s'"
  using assms pubsend_armed_frame [OF assms(1,3)] clock_ok_frame [OF assms(1)] op_frameD(8) [OF assms(1)]
  by (simp add: well_supervised_def supervised_def)

lemma supervised_pubsend:
  assumes "op_frame OpPubSend s s'" "pubsend_armed s'" "well_supervised s"
  shows "well_supervised s'"
  using assms ping_armed_frame [OF assms(1)] clock_ok_frame [OF assms(1)] op_frameD(8) [OF assms(1)]
  by (simp add: well_supervised_def supervised_def status_op_def)

lemma well_supervisedD:
  assumes "well_supervised s"
  shows "clock_ok s" "cb_termReq (cbs s)" "ping_armed s" "pubsend_armed s"
  using assms by (simp_all add: well_supervised_def supervised_def)

lemma op_sn_supervised: "well_supervised s \<Longrightarrow> well_supervised (op_handle_sn op m s)"
proof -
  assume w: "well_supervised s"
  note d = well_supervisedD [OF w]
  show ?thesis
  proof (cases "op = OpPubSend")
    case True
    then show ?thesis using supervised_pubsend [OF _ _ w] any_op.sn_contract [of OpPubSend s m]
        pubsend_armed_sn [OF d(1,4)] by simp
  next
    case False
    have "ping_armed (op_handle_sn op m s)"
    proof (cases "status_op op")
      case True
      then show ?thesis using d ping_armed_Connect_sn ping_armed_Disconnect(2) ping_armed_Asleep(3)
          ping_armed_restart(3) by (auto simp: status_op_def)
    next
      case False
      then show ?thesis using ping_armed_frame [OF any_op.sn_contract _ d(3)] by blast
    qed
    then show ?thesis using supervised_frame [OF any_op.sn_contract _ False w] by blast
  qed
qed

lemma op_mqtt_supervised: "well_supervised s \<Longrightarrow> well_supervised (op_handle_mqtt op m s)"
proof -
  assume w: "well_supervised s"
  note d = well_supervisedD [OF w]
  show ?thesis
  proof (cases "op = OpPubSend")
    case True
    then show ?thesis using supervised_pubsend [OF _ _ w] any_op.mqtt_contract [of OpPubSend s m]
        pubsend_armed_mqtt [OF d(1,4)] by simp
  next
    case False
    have "ping_armed (op_handle_mqtt op m s)"
    proof (cases "status_op op")
      case True
      then show ?thesis using d ping_armed_Connect_others(1) ping_armed_Asleep(4)
        by (auto simp: status_op_def)
    next
      case False
      then show ?thesis using ping_armed_frame [OF any_op.mqtt_contract _ d(3)] by blast
    qed
    then show ?thesis using supervised_frame [OF any_op.mqtt_contract _ False w] by blast
  qed
qed

lemma op_broker_supervised: "well_supervised s \<Longrightarrow> well_supervised (op_brokerConnectionUpdatedImpl op s)"
proof -
  assume w: "well_supervised s"
  note d = well_supervisedD [OF w]
  show ?thesis
  proof (cases "op = OpPubSend")
    case False
    have "ping_armed (op_brokerConnectionUpdatedImpl op s)"
    proof (cases "status_op op")
      case True
      then show ?thesis using d ping_armed_Connect_others(3) ping_armed_Disconnect(1) ping_armed_Asleep(2)
        by (auto simp: status_op_def)
    next
      case False
      then show ?thesis using ping_armed_frame [OF any_op.broker_contract _ d(3)] by blast
    qed
    then show ?thesis using supervised_frame [OF any_op.broker_contract _ False w] by blast
  qed (use w in simp)
qed

text \<open>An operation whose timer has expired runs with the timer disarmed and arms it again.\<close>

lemma op_timer_supervised:
  assumes "well_supervised s"
  shows "well_supervised (SessionOp_timestampUpdated op (op_tickImpl op) s)"
proof (cases "nextTicks s op = 0 \<or> m_timestamp (st s) < nextTicks s op")
  case True
  then show ?thesis using assms any_op.timestampUpdated_not_due by simp
next
  case False
  note d = well_supervisedD [OF assms]
  let ?s = "SessionOp_cancelTick op s"
  have s': "SessionOp_timestampUpdated op (op_tickImpl op) s = op_tickImpl op ?s"
    using False by (simp add: SessionOp_timestampUpdated_def not_less)
  have f: "op_frame op s (op_tickImpl op ?s)"
    using any_op.timestampUpdated_contract [of op s] by (simp only: s')
  have c: "clock_ok ?s" "cb_termReq (cbs ?s)"
    using d(1,2) by (simp_all add: clock_ok_def SessionOp_cancelTick_def)
  show ?thesis
  proof (cases "op = OpPubSend")
    case True
    then show ?thesis unfolding s' using supervised_pubsend [OF _ _ assms] f pubsend_armed_tick [OF c(1)]
      by simp
  next
    case False
    have "ping_armed (op_tickImpl op ?s)"
    proof (cases "op = OpPing")
      case True
      then show ?thesis using ping_armed_tick [of ?s] c by simp
    next
      case False
      then have p: "ping_armed ?s" using d(3) by (simp add: ping_simps)
      show ?thesis
      proof (cases "status_op op")
        case True
        then show ?thesis using \<open>op \<noteq> OpPing\<close> p c(1) ping_armed_Connect_others(2) ping_armed_Asleep(1)
          by (auto simp: status_op_def)
      next
        case False
        then show ?thesis using ping_armed_frame [OF f _ d(3)] by blast
      qed
    qed
    then show ?thesis unfolding s' using supervised_frame [OF f _ False assms] by blast
  qed
qed

lemma well_supervised_fold:
  "(\<And>x s. well_supervised s \<Longrightarrow> well_supervised (f x s)) \<Longrightarrow> well_supervised s \<Longrightarrow> well_supervised (fold f xs s)"
  by (induction xs arbitrary: s) auto

section \<open>Calls\<close>

lemma well_supervised_cong:
  assumes "nextTicks s' = nextTicks s" "pubSend s' = pubSend s" "cbs s' = cbs s" "set (faults s) \<subseteq> set (faults s')"
    "m_connStatus (st s') = m_connStatus (st s)" "m_terminating (st s') = m_terminating (st s)" "clock_ok s'"
  shows "well_supervised s \<Longrightarrow> well_supervised s'"
  using assms by (auto simp: well_supervised_def supervised_def ping_armed_def pubsend_armed_def)

lemma updateOps_supervised: "well_supervised s \<Longrightarrow> well_supervised (SessionImpl_updateOps s)"
  unfolding SessionImpl_updateOps_def by (rule well_supervised_fold) (rule op_timer_supervised)

lemma handle_mqtt_supervised: "well_supervised s \<Longrightarrow> well_supervised (SessionImpl_handle_mqtt m s)"
  unfolding SessionImpl_handle_mqtt_def SessionImpl_dispatchToOps_mqtt_def
  by (rule well_supervised_fold) (rule op_mqtt_supervised)

lemma handle_sn_supervised:
  assumes "well_supervised s"
  shows "well_supervised (SessionImpl_handle_sn m s)"
proof -
  have d: "well_supervised (SessionImpl_dispatchToOps_sn m s)" for m
    unfolding SessionImpl_dispatchToOps_sn_def
    by (rule well_supervised_fold [OF op_sn_supervised assms])
  have f: "well_supervised s'" if "op_frame OpEncapsulate s s'" for s'
    using supervised_frame [OF that _ _ assms] ping_armed_frame [OF that _ well_supervisedD(3) [OF assms]]
    by (simp add: status_op_def)
  have "op_frame OpEncapsulate s (SessionImpl_handle_SearchgwMsg_SN r s)" for r
    unfolding SessionImpl_handle_SearchgwMsg_SN_def by (assumption | rule op_frame_rules op_frame_refl)+
  moreover have "op_frame OpEncapsulate s (SessionImpl_handle_RegisterMsg_SN mid t s)" for mid t
    unfolding SessionImpl_handle_RegisterMsg_SN_def by (assumption | rule op_frame_rules op_frame_refl)+
  ultimately show ?thesis using d f by (cases m) auto
qed

text \<open>The clock of a call: it advances by less than \<open>2 ^ 32\<close> milliseconds, once.\<close>

lemma apiCallExit_supervised:
  assumes "well_supervised s" shows "well_supervised (SessionImpl_apiCallExit s)"
  by (rule well_supervised_cong [OF _ _ _ _ _ _ _ assms])
    (use well_supervisedD(1) [OF assms] in \<open>auto simp: SessionImpl_apiCallExit_def
        SessionImpl_programNextTimeout_def Let_def emit_def fault_if_def clock_ok_def\<close>)

lemma clock_ok_advance:
  assumes "clock_ok s" "m_timestamp (st s') = m_timestamp (st s) + ucast (ms :: u32)"
    "unat (m_timestamp (st s')) < 2 ^ 63"
  shows "clock_ok s'"
  using assms u64_add_u32_unat [of "m_timestamp (st s)" ms]
  by (simp add: clock_ok_def word_less_nat_alt)

lemma clock_ok_iff: "m_timestamp (st s') = m_timestamp (st s) \<Longrightarrow> clock_ok s' = clock_ok s"
  by (simp add: clock_ok_def)

lemma updateOps_clock: "m_timestamp (st (SessionImpl_updateOps s)) = m_timestamp (st s)"
  using ops_frame_updateOps [of s] by (simp add: ops_frame_def st_frame_def)

lemma updateTimestamp_supervised:
  assumes "well_supervised s" "unat (m_timestamp (st (SessionImpl_updateTimestamp s))) < 2 ^ 63"
  shows "well_supervised (SessionImpl_updateTimestamp s)"
proof (cases "m_tickReq (st s) = 0 \<or> cb_cancelTick (cbs s) = None")
  case True
  then show ?thesis using assms(1)
    by (auto simp: SessionImpl_updateTimestamp_def fault_if_def well_supervised_def supervised_def
        ping_armed_def pubsend_armed_def clock_ok_def)
next
  case False
  then obtain answer where a: "cb_cancelTick (cbs s) = Some answer" "m_tickReq (st s) \<noteq> 0" by auto
  let ?s = "emit CancelTick s"
  let ?s1 = "?s\<lparr>st := (st ?s)\<lparr>m_timestamp := m_timestamp (st ?s) + ucast (answer (out ?s)), m_tickReq := 0\<rparr>\<rparr>"
  have u: "SessionImpl_updateTimestamp s = SessionImpl_updateOps ?s1"
    using a by (simp add: SessionImpl_updateTimestamp_def Let_def)
  have ts: "m_timestamp (st ?s1) = m_timestamp (st s) + ucast (answer (out ?s))"
    by (simp add: emit_def)
  have "unat (m_timestamp (st ?s1)) < 2 ^ 63" using assms(2) unfolding u updateOps_clock .
  then have "clock_ok ?s1" by (rule clock_ok_advance [OF well_supervisedD(1) [OF assms(1)] ts])
  then have "well_supervised ?s1"
    by (intro well_supervised_cong [OF _ _ _ _ _ _ _ assms(1)]) (simp_all add: emit_def)
  then show ?thesis unfolding u by (rule updateOps_supervised)
qed

lemma apiCall_supervised:
  assumes "well_supervised s" "unat (m_timestamp (st (SessionImpl_apiCall s))) < 2 ^ 63"
  shows "well_supervised (SessionImpl_apiCall s)"
proof -
  let ?s = "s\<lparr>st := (st s)\<lparr>m_callStackCount := m_callStackCount (st s) + 1\<rparr>\<rparr>"
  have "well_supervised ?s"
    by (rule well_supervised_cong [OF _ _ _ _ _ _ _ assms(1)])
      (use well_supervisedD(1) [OF assms(1)] in \<open>simp_all add: clock_ok_def\<close>)
  then show ?thesis using updateTimestamp_supervised [of ?s] assms(2)
    by (simp add: SessionImpl_apiCall_def Let_def split: if_splits)
qed

lemma clock_exit: "m_timestamp (st (SessionImpl_apiCallExit s)) = m_timestamp (st s)"
  by (simp add: SessionImpl_apiCallExit_def SessionImpl_programNextTimeout_def Let_def emit_def fault_if_def)

lemma ops_frame_clock: "ops_frame s s' \<Longrightarrow> m_timestamp (st s') = m_timestamp (st s)"
  by (simp add: ops_frame_def st_frame_def)

text \<open>A call is the bracket around a step that the operations take.\<close>

lemma bracket_supervised:
  assumes "well_supervised s" "clock_ok (SessionImpl_apiCallExit (f (SessionImpl_apiCall s)))"
    and "\<And>s. m_timestamp (st (f s)) = m_timestamp (st s)"
    and "\<And>s. well_supervised s \<Longrightarrow> well_supervised (f s)"
  shows "well_supervised (SessionImpl_apiCallExit (f (SessionImpl_apiCall s)))"
  using assms by (intro apiCallExit_supervised assms(4) apiCall_supervised) (simp_all add: clock_ok_def clock_exit)

lemma tick_supervised:
  assumes "well_supervised s" "clock_ok (SessionImpl_tick s)"
  shows "well_supervised (SessionImpl_tick s)"
proof (cases "\<not> m_running (st s) \<or> m_terminating (st s)")
  case False
  let ?s = "s\<lparr>st := (st s)\<lparr>m_timestamp := m_timestamp (st s) + ucast (m_tickReq (st s)), m_tickReq := 0\<rparr>\<rparr>"
  have t: "SessionImpl_tick s = SessionImpl_apiCallExit (SessionImpl_updateOps (SessionImpl_apiCall ?s))"
    using False by (simp add: SessionImpl_tick_def Let_def)
  have "m_timestamp (st (SessionImpl_tick s)) = m_timestamp (st ?s)"
    by (simp add: t clock_exit updateOps_clock SessionImpl_apiCall_def SessionImpl_updateTimestamp_def Let_def)
  then have "clock_ok ?s" using assms(2) by (simp add: clock_ok_def)
  then have "well_supervised ?s"
    by (intro well_supervised_cong [OF _ _ _ _ _ _ _ assms(1)]) simp_all
  then show ?thesis using assms(2) unfolding t
    by (rule bracket_supervised) (simp_all add: updateOps_clock updateOps_supervised)
qed (use assms in \<open>simp add: SessionImpl_tick_def\<close>)

lemma broker_supervised:
  assumes "well_supervised s" "clock_ok (snd (SessionImpl_dataFromBroker processAll buf s))"
  shows "well_supervised (snd (SessionImpl_dataFromBroker processAll buf s))"
proof (cases "\<not> m_running (st s) \<or> m_terminating (st s)")
  case False
  obtain msgs n where p: "processAll buf = (msgs, n)" by fastforce
  have t: "snd (SessionImpl_dataFromBroker processAll buf s) =
      SessionImpl_apiCallExit (fold SessionImpl_handle_mqtt msgs (SessionImpl_apiCall s))"
    using False by (simp add: SessionImpl_dataFromBroker_def p Let_def)
  show ?thesis using assms unfolding t
    by (rule bracket_supervised)
      (simp_all add: ops_frame_clock ops_frame_fold ops_frame_handle_mqtt well_supervised_fold
        handle_mqtt_supervised)
qed (use assms in \<open>simp add: SessionImpl_dataFromBroker_def\<close>)

lemma connected_supervised:
  assumes "well_supervised s" "clock_ok (SessionImpl_setBrokerConnected b s)"
  shows "well_supervised (SessionImpl_setBrokerConnected b s)"
proof (cases "\<not> m_running (st s) \<or> m_brokerConnected (st s) = b")
  case False
  define g where "g s = (let s = (if b \<and> m_reconnectingBroker (st s)
      then s\<lparr>st := (st s)\<lparr>m_reconnectingBroker := False\<rparr>\<rparr> else s) in
      s\<lparr>st := (st s)\<lparr>m_brokerConnected := b\<rparr>\<rparr>)" for s :: session
  have t: "SessionImpl_setBrokerConnected b s =
      SessionImpl_apiCallExit (fold op_brokerConnectionUpdatedImpl all_ops (g (SessionImpl_apiCall s)))"
    using False by (simp add: SessionImpl_setBrokerConnected_def g_def Let_def)
  have g: "m_timestamp (st (g s)) = m_timestamp (st s)" for s by (simp add: g_def Let_def)
  have w: "well_supervised (g s)" if "well_supervised s" for s
    by (rule well_supervised_cong [OF _ _ _ _ _ _ _ that])
      (use well_supervisedD(1) [OF that] in \<open>simp_all add: g_def Let_def clock_ok_def\<close>)
  show ?thesis using assms unfolding t
    by (rule bracket_supervised)
      (simp_all add: ops_frame_clock [OF ops_frame_broker] g w well_supervised_fold op_broker_supervised)
qed (use assms in \<open>simp add: SessionImpl_setBrokerConnected_def\<close>)

section \<open>Bytes from the client\<close>

text \<open>What the handling of inner sessions leaves alone in their owner.\<close>

definition same_supervision :: "session \<Rightarrow> session \<Rightarrow> bool" where
  "same_supervision s s' \<longleftrightarrow> nextTicks s' = nextTicks s \<and> pubSend s' = pubSend s \<and> cbs s' = cbs s \<and>
     set (faults s) \<subseteq> set (faults s') \<and> m_connStatus (st s') = m_connStatus (st s) \<and>
     m_terminating (st s') = m_terminating (st s) \<and> m_timestamp (st s') = m_timestamp (st s)"

lemma same_supervision_keeps:
  "same_supervision s s' \<Longrightarrow> m_timestamp (st s') = m_timestamp (st s) \<and>
     (well_supervised s \<longrightarrow> well_supervised s')"
  using well_supervised_cong [of s' s] clock_ok_iff [of s' s] well_supervisedD(1) [of s]
  by (auto simp: same_supervision_def)

lemma FwdMsg_same: "same_supervision (own t) (own (Encapsulate_handle_FwdMsg_SN maxSize created nodeId t))"
  by (auto simp: Encapsulate_handle_FwdMsg_SN_def same_supervision_def Let_def emit_def on_own_def
      subs_select_def subs_put_def SessionImpl_reportError_def split: prod.split)

lemma same_supervision_trans:
  "same_supervision a b \<Longrightarrow> same_supervision b c \<Longrightarrow> same_supervision a c"
  by (auto simp: same_supervision_def)

lemma same_supervision_steps:
  "same_supervision s s" "same_supervision s (fault_if b f s)"
  "same_supervision s (s\<lparr>st := (st s)\<lparr>m_encapsulatedMsg := e\<rparr>\<rparr>)"
  "same_supervision (own t) (own (Encapsulate_afterCall nodeId os c t))"
  by (auto simp: same_supervision_def fault_if_def Encapsulate_afterCall_defs Let_def emit_def on_own_def
      subs_put_def subs_erase_def)

lemma encapsulatedData_same:
  assumes "Encapsulate_encapsulatedData fuel maxSize read created buf t = Some (n, t')"
  shows "same_supervision (own t) (own t')"
proof -
  define u where "u = setEncapsulated False (on_own (fault_if (\<not> m_encapsulatedMsg (st (own t)))
      (AssertFailed OpEncapsulate ''encapsulatedMsg'')) t)"
  have u: "same_supervision (own t) (own u)"
    unfolding u_def setEncapsulated_def on_own_def gw_session.sel
    by (rule same_supervision_trans) (rule same_supervision_steps)+
  have "same_supervision (own u) (own t')"
    using assms unfolding Encapsulate_encapsulatedData.simps Let_def u_def [symmetric]
    by (auto simp: subs_select_def on_own_def same_supervision_steps
        split: selected_session.splits option.splits)
  with u show ?thesis by (rule same_supervision_trans)
qed

definition keeps_supervision :: "session \<Rightarrow> session \<Rightarrow> bool" where
  "keeps_supervision s s' \<longleftrightarrow> m_timestamp (st s') = m_timestamp (st s) \<and>
     (well_supervised s \<longrightarrow> well_supervised s')"

lemma keeps_supervision_trans:
  "keeps_supervision a b \<Longrightarrow> keeps_supervision b c \<Longrightarrow> keeps_supervision a c"
  by (simp add: keeps_supervision_def)

lemma same_keeps: "same_supervision s s' \<Longrightarrow> keeps_supervision s s'"
  using same_supervision_keeps by (simp add: keeps_supervision_def)

lemma handleClientMsg_supervised:
  "keeps_supervision (own t) (own (SessionImpl_handleClientMsg maxSize created m t))"
proof -
  let ?s = "(own t)\<lparr>st := (st (own t))\<lparr>m_lastMsgTimestamp := m_timestamp (st (own t))\<rparr>\<rparr>"
  let ?t = "GwSession (SessionImpl_handle_sn m ?s) (subs t) (selected t)"
  have "keeps_supervision (own t) ?s" by (rule same_keeps) (simp add: same_supervision_def)
  moreover have "keeps_supervision ?s (SessionImpl_handle_sn m ?s)"
    using handle_sn_supervised ops_frame_clock [OF ops_frame_handle_sn, of m ?s]
    by (simp add: keeps_supervision_def)
  ultimately have h: "keeps_supervision (own t) (own ?t)" using keeps_supervision_trans by simp
  show ?thesis
  proof (cases "\<exists>nodeId. m = FwdMsg_SN nodeId")
    case True
    then obtain nodeId where m: "m = FwdMsg_SN nodeId" by blast
    show ?thesis using keeps_supervision_trans [OF h same_keeps [OF FwdMsg_same [of ?t maxSize created nodeId]]]
      by (simp add: SessionImpl_handleClientMsg_def Let_def on_own_def m)
  next
    case False
    then have "SessionImpl_handleClientMsg maxSize created m t = ?t"
      by (cases m) (simp_all add: SessionImpl_handleClientMsg_def Let_def on_own_def)
    with h show ?thesis by simp
  qed
qed

lemma loop_supervised:
  "dataFromClient_loop fuel maxSize read created len rem t = Some (n, t') \<Longrightarrow>
     keeps_supervision (own t) (own t')"
proof (induction fuel arbitrary: rem t)
  case 0
  then show ?case by (simp add: dataFromClient_loop.simps)
next
  case (Suc fuel)
  have e: "keeps_supervision (own t) (own (setEncapsulated False t))"
    by (rule same_keeps) (simp add: same_supervision_def setEncapsulated_def on_own_def)
  have r: "keeps_supervision (own t) (own (on_own (SessionImpl_reportError str) t))" for str
    by (rule same_keeps) (simp add: same_supervision_def on_own_def SessionImpl_reportError_def emit_def)
  have k: "keeps_supervision (own t) (own t)" by (simp add: keeps_supervision_def)
  consider (nil) "rem = []" | (enc) "rem \<noteq> []" "m_encapsulatedMsg (st (own t))"
    | (rd) "rem \<noteq> []" "\<not> m_encapsulatedMsg (st (own t))" by blast
  then show ?case
  proof cases
    case nil
    then show ?thesis using Suc.prems e by (auto simp: dataFromClient_loop.simps)
  next
    case enc
    then obtain k u where k: "Encapsulate_encapsulatedData fuel maxSize read created rem t = Some (k, u)"
        "dataFromClient_loop fuel maxSize read created len (drop k rem) u = Some (n, t')"
      using Suc.prems by (auto simp: dataFromClient_loop.simps split: option.splits)
    show ?thesis by (rule keeps_supervision_trans [OF same_keeps [OF encapsulatedData_same [OF k(1)]] Suc.IH [OF k(2)]])
  next
    case rd
    show ?thesis
    proof (cases "read rem")
      case (ReadSuccess m i)
      then show ?thesis using rd Suc.prems
          keeps_supervision_trans [OF handleClientMsg_supervised Suc.IH]
        by (simp add: dataFromClient_loop.simps)
    next
      case ProtocolError
      then show ?thesis using rd Suc.prems r by (auto simp: dataFromClient_loop.simps)
    next
      case (OtherError i)
      then show ?thesis using rd Suc.prems Suc.IH by (simp add: dataFromClient_loop.simps)
    next
      case NotEnoughData
      then show ?thesis using rd Suc.prems k by (auto simp: dataFromClient_loop.simps)
    qed
  qed
qed

lemma client_supervised:
  assumes "SessionImpl_dataFromClient fuel maxSize read created buf t = Some (n, t')"
    "well_supervised (own t)" "clock_ok (own t')"
  shows "well_supervised (own t')"
proof (cases "\<not> m_running (st (own t)) \<or> m_terminating (st (own t))")
  case False
  let ?t = "GwSession (SessionImpl_apiCall (own t)) (subs t) (selected t)"
  obtain u where u: "dataFromClient_loop fuel maxSize read created (length buf) buf ?t = Some (n, u)"
      "own t' = SessionImpl_apiCallExit (own u)"
    using assms(1) False by (auto simp: SessionImpl_dataFromClient.simps on_own_def split: option.splits)
  note k = loop_supervised [OF u(1), unfolded keeps_supervision_def]
  have "well_supervised (SessionImpl_apiCall (own t))"
    using assms(2,3) k u(2) by (intro apiCall_supervised) (simp_all add: clock_ok_def clock_exit)
  with k have "well_supervised (own u)" by simp
  then show ?thesis unfolding u(2) by (rule apiCallExit_supervised)
qed (use assms in \<open>simp add: SessionImpl_dataFromClient.simps\<close>)

section \<open>Reachable states\<close>

definition supervision_inv :: "session \<Rightarrow> bool" where
  "supervision_inv s \<longleftrightarrow> clock_ok s \<and> supervised s \<and> (m_running (st s) \<longrightarrow> cb_termReq (cbs s))"

lemma supervision_inv_running: "m_running (st s) \<Longrightarrow> supervision_inv s \<Longrightarrow> well_supervised s"
  by (simp add: supervision_inv_def well_supervised_def)

lemma supervision_inv_well: "well_supervised s \<Longrightarrow> supervision_inv s"
  by (simp add: supervision_inv_def well_supervised_def)

lemma supervision_inv_same:
  "same_supervision s s' \<Longrightarrow> m_running (st s') = m_running (st s) \<Longrightarrow> supervision_inv s \<Longrightarrow> supervision_inv s'"
  by (auto simp: supervision_inv_def same_supervision_def supervised_def ping_armed_def pubsend_armed_def clock_ok_def)

lemma supervision_inv_config:
  "session_config s s' \<Longrightarrow> supervision_inv s \<Longrightarrow> supervision_inv s'"
proof (induction rule: session_config.induct)
  case (10 s)
  have re: "m_running (st (SessionImpl_reportError e s)) = m_running (st s)" "cbs (SessionImpl_reportError e s) = cbs s"
    "clock_ok (SessionImpl_reportError e s) = clock_ok s" "supervised (SessionImpl_reportError e s) = supervised s" for e
    by (simp_all add: SessionImpl_reportError_def emit_def clock_ok_def supervised_def ping_armed_def pubsend_armed_def)
  have "m_running (st s) \<or> cb_termReq (cbs s)" if "m_running (st (snd (SessionImpl_start s)))"
    using that re by (auto simp: SessionImpl_start_def split: if_splits)
  moreover have "clock_ok (snd (SessionImpl_start s)) = clock_ok s"
    "supervised (snd (SessionImpl_start s)) = supervised s" "cbs (snd (SessionImpl_start s)) = cbs s"
    by (simp_all add: SessionImpl_start_def re)
      (simp_all add: supervised_def ping_armed_def pubsend_armed_def clock_ok_def)
  ultimately show ?case using 10 by (auto simp: supervision_inv_def)
next
  case (8 s topic topicId)
  show ?case by (rule supervision_inv_same [OF _ _ 8])
      (auto simp: SessionImpl_addPredefinedTopic_def same_supervision_def fault_if_def split: sum.split)
next
  case (9 s minVal maxVal)
  show ?case by (rule supervision_inv_same [OF _ _ 9])
      (auto simp: SessionImpl_setTopicIdAllocationRange_def same_supervision_def split: prod.split)
qed (auto simp: supervision_inv_def supervised_def ping_armed_def pubsend_armed_def clock_ok_def
    SessionImpl_setGatewayId_def SessionImpl_setRetryPeriod_def SessionImpl_setRetryCount_def
    SessionImpl_setSleepingClientMsgLimit_def SessionImpl_setDefaultClientId_def
    SessionImpl_setPubOnlyKeepAlive_def SessionImpl_stop_def)

lemma supervision_inv_calls:
  assumes "supervision_inv s"
  shows "clock_ok (SessionImpl_tick s) \<Longrightarrow> supervision_inv (SessionImpl_tick s)"
    "clock_ok (snd (SessionImpl_dataFromBroker pa buf s)) \<Longrightarrow> supervision_inv (snd (SessionImpl_dataFromBroker pa buf s))"
    "clock_ok (SessionImpl_setBrokerConnected b s) \<Longrightarrow> supervision_inv (SessionImpl_setBrokerConnected b s)"
proof -
  have n: "SessionImpl_tick s = s" "snd (SessionImpl_dataFromBroker pa buf s) = s"
    "SessionImpl_setBrokerConnected b s = s" if "\<not> m_running (st s)"
    using that by (simp_all add: SessionImpl_tick_def SessionImpl_dataFromBroker_def SessionImpl_setBrokerConnected_def)
  note r = supervision_inv_running [OF _ assms]
  show "clock_ok (SessionImpl_tick s) \<Longrightarrow> supervision_inv (SessionImpl_tick s)"
    using n(1) r assms tick_supervised supervision_inv_well by (cases "m_running (st s)") auto
  show "clock_ok (snd (SessionImpl_dataFromBroker pa buf s)) \<Longrightarrow> supervision_inv (snd (SessionImpl_dataFromBroker pa buf s))"
    using n(2) r assms broker_supervised supervision_inv_well by (cases "m_running (st s)") auto
  show "clock_ok (SessionImpl_setBrokerConnected b s) \<Longrightarrow> supervision_inv (SessionImpl_setBrokerConnected b s)"
    using n(3) r assms connected_supervised supervision_inv_well by (cases "m_running (st s)") auto
qed

lemma supervision_inv_step:
  assumes "gw_step maxSize created t t'" "supervision_inv (own t)" "clock_ok (own t')"
  shows "supervision_inv (own t')"
  using assms
proof (cases rule: gw_step.cases)
  case (client fuel read buf n)
  show ?thesis
  proof (cases "m_running (st (own t))")
    case True
    then show ?thesis using client_supervised [OF client] supervision_inv_running assms(2,3) supervision_inv_well by blast
  next
    case False
    then show ?thesis using client assms(2) by (simp add: SessionImpl_dataFromClient.simps)
  qed
next
  case (sub nodeId c c')
  show ?thesis unfolding sub(1)
    by (rule supervision_inv_same [OF same_supervision_steps(4) _ assms(2)])
      (simp add: Encapsulate_afterCall_defs Let_def emit_def on_own_def fault_if_def
        subs_put_def subs_erase_def)
qed (use assms supervision_inv_calls supervision_inv_config in \<open>auto simp: on_own_def\<close>)

text \<open>A step after which the clock is still far from its end.\<close>

definition clocked_step :: "u64 \<Rightarrow> session_created \<Rightarrow> gw_session \<Rightarrow> gw_session \<Rightarrow> bool" where
  "clocked_step maxSize created t t' \<longleftrightarrow> gw_step maxSize created t t' \<and> clock_ok (own t')"

text \<open>C21. Whatever calls the application makes on a session and on the sessions inside it, as long as
  its clock has not come near its end: while the client is connected, the keep-alive timer of the session
  is running, and while a publication is in flight, its retry timer is running. The exceptions are a
  session that has asked for its termination, and a registry fault that stopped the publication.\<close>

theorem reachable_supervised:
  assumes "(clocked_step maxSize created)\<^sup>*\<^sup>* gw_init t"
  shows "(m_connStatus (st (own t)) = Connected \<longrightarrow>
      nextTicks (own t) OpPing \<noteq> 0 \<or> m_terminating (st (own t))) \<and>
    (ps_currPub (pubSend (own t)) \<noteq> None \<longrightarrow>
      nextTicks (own t) OpPubSend \<noteq> 0 \<or> (\<exists>e. RegFault e \<in> set (faults (own t))))"
proof -
  have "supervision_inv (own t)"
    using assms
  proof (induction rule: rtranclp_induct)
    case base
    show ?case by (simp add: supervision_inv_def supervised_def ping_armed_def pubsend_armed_def clock_ok_def
        SessionImpl_init_def SessionState_init_def PubSend_init_def)
  qed (use supervision_inv_step in \<open>auto simp: clocked_step_def\<close>)
  then show ?thesis by (simp add: supervision_inv_def supervised_def ping_armed_def pubsend_armed_def)
qed

section \<open>Instances\<close>

definition sample_connect_read :: read_frame where
  "sample_connect_read b = (if b = [] then NotEnoughData
     else ReadSuccess (ConnectMsg_SN ''client'' 60 False True) 1)"

definition sample_t3 :: gw_session where
  "sample_t3 = on_own (SessionImpl_setBrokerConnected True) sample_tree"

definition sample_t4 :: gw_session where
  "sample_t4 = (case SessionImpl_dataFromClient 3 100 sample_connect_read sample_accept [0] sample_t3 of
     Some (n, t) \<Rightarrow> t | None \<Rightarrow> sample_t3)"

definition sample_connack :: "data_buf \<Rightarrow> mqtt_msg list \<times> nat" where
  "sample_connack b = ([ConnackMsg 0 False], length b)"

definition sample_t5 :: gw_session where
  "sample_t5 = on_own (\<lambda>s. snd (SessionImpl_dataFromBroker sample_connack [0] s)) sample_t4"

theorem reachable_supervised_witness:
  "m_connStatus (st (own sample_t5)) = Connected \<and> nextTicks (own sample_t5) OpPing \<noteq> 0"
proof -
  let ?r = "clocked_step 100 sample_accept"
  let ?c = "on_own (\<lambda>_. SessionImpl_init\<lparr>cbs := sample_callbacks\<rparr>) gw_init"
  have c: "m_timestamp (st (own ?c)) = 1000" "m_timestamp (st (own sample_tree)) = 1000"
    "m_timestamp (st (own sample_t3)) = 1000" "m_timestamp (st (own sample_t4)) = 1000"
    "m_timestamp (st (own sample_t5)) = 1000" by code_simp+
  have k: "clock_ok (own t)" if "m_timestamp (st (own t)) = 1000" for t using that by (simp add: clock_ok_def)
  have r1: "?r gw_init ?c" using gw_step.config [of gw_init "SessionImpl_init\<lparr>cbs := sample_callbacks\<rparr>"]
      session_config.intros(1) [of SessionImpl_init sample_callbacks] k [OF c(1)]
    by (simp add: clocked_step_def SessionImpl_init_def SessionState_init_def)
  have r2: "?r ?c sample_tree"
    using gw_step.config [of ?c sample_session 100 sample_accept] k [OF c(2)]
      session_config.intros(10) [of "SessionImpl_init\<lparr>cbs := sample_callbacks\<rparr>"]
    by (simp add: clocked_step_def sample_session_def sample_tree_def on_own_def)
  have r3: "?r sample_tree sample_t3"
    using gw_step.connected [of 100 sample_accept sample_tree True] k [OF c(3)]
    by (simp add: clocked_step_def sample_t3_def)
  have "SessionImpl_dataFromClient 3 100 sample_connect_read sample_accept [0] sample_t3 \<noteq> None"
    by code_simp
  then obtain n where "SessionImpl_dataFromClient 3 100 sample_connect_read sample_accept [0] sample_t3 = Some (n, sample_t4)"
    by (auto simp: sample_t4_def)
  then have r4: "?r sample_t3 sample_t4" using gw_step.client k [OF c(4)] clocked_step_def by blast
  have r5: "?r sample_t4 sample_t5"
    using gw_step.broker [of 100 sample_accept sample_t4 sample_connack "[0]"] k [OF c(5)]
    by (simp add: clocked_step_def sample_t5_def)
  have "?r\<^sup>*\<^sup>* gw_init sample_t5"
    by (rule converse_rtranclp_into_rtranclp [of ?r, OF r1], rule converse_rtranclp_into_rtranclp [of ?r, OF r2],
        rule converse_rtranclp_into_rtranclp [of ?r, OF r3], rule converse_rtranclp_into_rtranclp [of ?r, OF r4],
        rule r_into_rtranclp [of ?r, OF r5])
  from reachable_supervised [OF this]
  have "m_connStatus (st (own sample_t5)) = Connected \<Longrightarrow> nextTicks (own sample_t5) OpPing \<noteq> 0 \<or> m_terminating (st (own sample_t5))"
    by blast
  moreover have "m_connStatus (st (own sample_t5)) = Connected" "\<not> m_terminating (st (own sample_t5))" by code_simp+
  ultimately show ?thesis by simp
qed

theorem silent_client_terminated_witness:
  "m_terminating (st ((Ping_tickImpl ^^ 4) sample_connected)) \<and>
   \<not> m_terminating (st ((Ping_tickImpl ^^ 3) sample_connected))"
proof -
  have s: "pg_attempt (ping sample_connected) \<le> m_retryCount (st sample_connected)"
    "\<not> m_terminating (st sample_connected)" "cb_termReq (cbs sample_connected)"
    "cb_sendToClient (cbs sample_connected)" "m_retryCount (st sample_connected) = 3" "pg_attempt (ping sample_connected) = 0"
    by code_simp+
  have "unat (m_retryCount (st sample_connected)) - unat (pg_attempt (ping sample_connected)) = 3"
    by (simp add: s(5,6))
  from silent_client_terminated [OF s(1-4), unfolded this Let_def]
  have "\<not> m_terminating (st ((Ping_tickImpl ^^ 3) sample_connected))"
    "m_terminating (st ((Ping_tickImpl ^^ Suc 3) sample_connected))" by blast+
  then show ?thesis by (simp only: numeral_eq_Suc pred_numeral_simps BitM.simps arith_simps) simp
qed

end
