(* ===== verification/Gw_Strings.thy ===== *)
theory Gw_Strings
  imports Gw_Prelude "HOL-Library.List_Lexorder" "HOL-Library.Char_ord" "HOL-Library.Multiset"
begin

text \<open>
  The part of the C++ standard library that the configuration reader of the gateway relies on: the
  searches of \<^verbatim>\<open>std::string\<close>, \<^verbatim>\<open>std::stoul\<close> on a 64-bit platform, \<^verbatim>\<open>std::getline\<close>, the ordered
  \<^verbatim>\<open>std::multimap\<close> and \<^verbatim>\<open>std::lower_bound\<close>. A position is a natural number and
  \<^verbatim>\<open>std::string::npos\<close> is \<open>None\<close>.

  \<^verbatim>\<open>std::sort\<close> leaves the order of equivalent elements open. It stays a parameter: the locale
  \<open>keyed_sort\<close> holds the laws the standard gives it and what the binary searches of the gateway
  application get from them.
\<close>

section \<open>Searching in a string\<close>

definition find_first_of :: "string \<Rightarrow> string \<Rightarrow> nat \<Rightarrow> nat option" where
  "find_first_of cs s pos = List.find (\<lambda>i. s ! i \<in> set cs) [pos..<length s]"

definition find_first_not_of :: "string \<Rightarrow> string \<Rightarrow> nat \<Rightarrow> nat option" where
  "find_first_not_of cs s pos = List.find (\<lambda>i. s ! i \<notin> set cs) [pos..<length s]"

definition find_last_not_of :: "string \<Rightarrow> string \<Rightarrow> nat option" where
  "find_last_not_of cs s = List.find (\<lambda>i. s ! i \<notin> set cs) (rev [0..<length s])"

text \<open>The characters from one position up to another.\<close>

definition substr :: "string \<Rightarrow> nat \<Rightarrow> nat \<Rightarrow> string" where
  "substr s a b = take (b - a) (drop a s)"

lemma find_upt_Some:
  "List.find P [a..<b] = Some p \<longleftrightarrow> a \<le> p \<and> p < b \<and> P p \<and> (\<forall>i. a \<le> i \<and> i < p \<longrightarrow> \<not> P i)"
proof
  assume "List.find P [a..<b] = Some p"
  then obtain i where "i < b - a" "P (a + i)" "p = a + i" and n: "\<forall>j<i. \<not> P ([a..<b] ! j)"
    by (auto simp: find_Some_iff)
  moreover have "\<not> P j" if "a \<le> j" "j < a + i" for j
    using n [rule_format, of "j - a"] that \<open>i < b - a\<close> by simp
  ultimately show "a \<le> p \<and> p < b \<and> P p \<and> (\<forall>i. a \<le> i \<and> i < p \<longrightarrow> \<not> P i)" by auto
next
  assume "a \<le> p \<and> p < b \<and> P p \<and> (\<forall>i. a \<le> i \<and> i < p \<longrightarrow> \<not> P i)"
  then show "List.find P [a..<b] = Some p"
    unfolding find_Some_iff by (intro exI [of _ "p - a"]) auto
qed

lemma find_upt_None: "List.find P [a..<b] = None \<longleftrightarrow> (\<forall>i. a \<le> i \<and> i < b \<longrightarrow> \<not> P i)"
  by (auto simp: find_None_iff)

lemmas string_find_iffs = find_first_of_def find_first_not_of_def find_upt_Some find_upt_None

lemma find_first_of_take [simp]:
  assumes "set w \<inter> set cs = {}"
  shows "find_first_of cs w 0 = None"
    and "c \<in> set cs \<Longrightarrow> find_first_of cs (w @ c # r) 0 = Some (length w)"
proof -
  have w: "w ! i \<notin> set cs" if "i < length w" for i
    using assms that nth_mem by fastforce
  then show "find_first_of cs w 0 = None" by (simp add: string_find_iffs)
  show "find_first_of cs (w @ c # r) 0 = Some (length w)" if "c \<in> set cs"
    using that w unfolding string_find_iffs by (simp add: nth_append)
qed

text \<open>The same searches from the end of a prefix, as the code goes from word to word.\<close>

lemma find_first_of_from:
  "find_first_of cs (p @ s) (length p + n) = map_option ((+) (length p)) (find_first_of cs s n)"
  "find_first_not_of cs (p @ s) (length p + n) = map_option ((+) (length p)) (find_first_not_of cs s n)"
proof -
  have g: "List.find P [length p + n..<length p + m] =
      map_option ((+) (length p)) (List.find (P \<circ> (+) (length p)) [n..<m])" for P m
  proof (cases "List.find (P \<circ> (+) (length p)) [n..<m]")
    case None
    then have k: "\<not> P (length p + i)" if "n \<le> i" "i < m" for i
      using that by (auto simp: find_upt_None)
    have "\<not> P i" if "length p + n \<le> i" "i < length p + m" for i
      using k [of "i - length p"] that by auto
    then have "List.find P [length p + n..<length p + m] = None" by (simp add: find_upt_None)
    with None show ?thesis by simp
  next
    case (Some k)
    then have k: "n \<le> k" "k < m" "P (length p + k)" and l: "\<And>i. n \<le> i \<Longrightarrow> i < k \<Longrightarrow> \<not> P (length p + i)"
      by (auto simp: find_upt_Some)
    have "\<not> P i" if "length p + n \<le> i" "i < length p + k" for i
      using l [of "i - length p"] that by auto
    with k have "List.find P [length p + n..<length p + m] = Some (length p + k)"
      by (simp add: find_upt_Some)
    with Some show ?thesis by simp
  qed
  show "find_first_of cs (p @ s) (length p + n) = map_option ((+) (length p)) (find_first_of cs s n)"
    "find_first_not_of cs (p @ s) (length p + n) = map_option ((+) (length p)) (find_first_not_of cs s n)"
    by (simp_all add: find_first_of_def find_first_not_of_def g comp_def)
qed

lemma find_last_not_of_append:
  "c \<notin> set cs \<Longrightarrow> find_last_not_of cs (s @ [c]) = Some (length s)"
  by (simp add: find_last_not_of_def nth_append)

lemma find_last_not_of_Some:
  "find_last_not_of cs s = Some p \<Longrightarrow> p < length s \<and> s ! p \<notin> set cs \<and>
     (\<forall>i. p < i \<and> i < length s \<longrightarrow> s ! i \<in> set cs)"
proof -
  let ?n = "length s"
  assume "find_last_not_of cs s = Some p"
  then obtain i where i: "i < ?n" "s ! (?n - Suc i) \<notin> set cs" "p = ?n - Suc i"
      and l: "\<And>j. j < i \<Longrightarrow> s ! (?n - Suc j) \<in> set cs"
    by (auto simp: find_last_not_of_def find_Some_iff rev_nth)
  have "s ! j \<in> set cs" if "p < j" "j < ?n" for j
    using l [of "?n - Suc j"] that i by (simp add: Suc_diff_Suc)
  with i show ?thesis by simp
qed

lemma substr_middle [simp]:
  "substr (p @ w @ r) (length p) (length p + length w) = w"
  by (simp add: substr_def)
section \<open>Numbers in a string\<close>

text \<open>\<^verbatim>\<open>std::stoul\<close>: leading white space, an optional sign, for base 16 an optional prefix that a
  digit follows, then the longest run of digits. No digits is one exception and a value that does
  not fit \<^verbatim>\<open>unsigned long\<close> another, both \<open>None\<close>; a minus sign negates the value modulo \<open>2 ^ 64\<close>.\<close>

definition isspace :: "char \<Rightarrow> bool" where
  "isspace c \<longleftrightarrow> c \<in> {CHR '' '', CHR 0x09, CHR 0x0A, CHR 0x0B, CHR 0x0C, CHR 0x0D}"

definition digit_value :: "char \<Rightarrow> int" where
  "digit_value c = (let n = of_char c in
     if 48 \<le> n \<and> n \<le> 57 then n - 48 else if 97 \<le> n \<and> n \<le> 102 then n - 87
     else if 65 \<le> n \<and> n \<le> 70 then n - 55 else 16)"

definition is_digit :: "int \<Rightarrow> char \<Rightarrow> bool" where
  "is_digit base c \<longleftrightarrow> digit_value c < base"

definition digits_value :: "int \<Rightarrow> string \<Rightarrow> int" where
  "digits_value base ds = foldl (\<lambda>v d. v * base + digit_value d) 0 ds"

fun strip_sign :: "string \<Rightarrow> bool \<times> string" where
  "strip_sign (c # s) = (if c = CHR ''-'' then (True, s) else if c = CHR ''+'' then (False, s)
     else (False, c # s))"
| "strip_sign [] = (False, [])"

fun strip_prefix :: "int \<Rightarrow> string \<Rightarrow> string" where
  "strip_prefix base (z # x # d # s) =
     (if base = 16 \<and> z = CHR ''0'' \<and> (x = CHR ''x'' \<or> x = CHR ''X'') \<and> is_digit 16 d
      then d # s else z # x # d # s)"
| "strip_prefix base s = s"

definition stoul :: "int \<Rightarrow> string \<Rightarrow> u64 option" where
  "stoul base s =
     (let (neg, s1) = strip_sign (dropWhile isspace s);
          ds = takeWhile (is_digit base) (strip_prefix base s1);
          v = digits_value base ds in
      if ds = [] \<or> 2 ^ 64 \<le> v then None
      else Some (if neg then - word_of_int v else word_of_int v))"

text \<open>The decimal notation of a number, and that \<^verbatim>\<open>std::stoul\<close> reads it back.\<close>

function decimal :: "nat \<Rightarrow> string" where
  "decimal n = (if n < 10 then [char_of (n + 48)] else decimal (n div 10) @ [char_of (n mod 10 + 48)])"
  by auto
termination by (relation "measure id") auto

declare decimal.simps [simp del]

lemma of_char_digit: "d < 10 \<Longrightarrow> (of_char (char_of (d + 48 :: nat)) :: int) = int d + 48"
proof -
  assume "d < 10"
  have "(of_char (char_of (d + 48)) :: int) = int (of_char (char_of (d + 48)))"
    by (rule of_nat_of_char [symmetric])
  also have "\<dots> = int d + 48" using \<open>d < 10\<close> by (simp only: of_char_of) simp
  finally show ?thesis .
qed

lemma digit_value_digit: "d < 10 \<Longrightarrow> digit_value (char_of (d + 48 :: nat)) = int d"
  by (simp add: digit_value_def of_char_digit)

lemma digits_value_append: "digits_value b (ds @ [d]) = digits_value b ds * b + digit_value d"
  by (simp add: digits_value_def)

lemma decimal_digits: "\<exists>ns :: nat list. decimal n = map (\<lambda>d. char_of (d + 48)) ns \<and> ns \<noteq> [] \<and> (\<forall>d \<in> set ns. d < 10)"
proof (induction n rule: decimal.induct)
  case (1 n)
  show ?case
  proof (cases "n < 10")
    case True
    then show ?thesis by (subst decimal.simps) (auto intro!: exI [of _ "[n]"])
  next
    case False
    with 1 obtain ns :: "nat list" where "decimal (n div 10) = map (\<lambda>d. char_of (d + 48)) ns" "ns \<noteq> []" "\<forall>d \<in> set ns. d < 10"
      by auto
    with False show ?thesis by (subst decimal.simps) (auto intro!: exI [of _ "ns @ [n mod 10]"])
  qed
qed

lemma digits_value_decimal: "digits_value 10 (decimal n) = int n"
proof (induction n rule: decimal.induct)
  case (1 n)
  then show ?case
    by (subst decimal.simps) (auto simp: digits_value_append digit_value_digit digits_value_def
        [of _ "[_]"] zdiv_int zmod_int)
qed

lemma decimal_chars: "c \<in> set (decimal n) \<Longrightarrow> 48 \<le> (of_char c :: int) \<and> (of_char c :: int) \<le> 57"
  using decimal_digits [of n] by (fastforce simp: of_char_digit)

lemma decimal_nonempty [simp]: "decimal n \<noteq> []"
  using decimal_digits [of n] by auto

lemma decimal_no_space: "c \<in> set (decimal n) \<Longrightarrow> \<not> isspace c \<and> c \<noteq> CHR ''-'' \<and> c \<noteq> CHR ''+'' \<and> c \<noteq> CHR ''#'' \<and> c \<noteq> CHR ''x'' \<and> c \<noteq> CHR ''X''"
  using decimal_chars [of c n] by (auto simp: isspace_def)

lemma strip_prefix_other: "base \<noteq> 16 \<Longrightarrow> strip_prefix base s = s"
  by (cases "(base, s)" rule: strip_prefix.cases) auto

lemma stoul_decimal: "n < 2 ^ 64 \<Longrightarrow> stoul 10 (decimal n) = Some (of_nat n)"
proof -
  assume n: "n < 2 ^ 64"
  obtain c s where cs: "decimal n = c # s" by (meson decimal_nonempty list.exhaust)
  have "c \<in> set (decimal n)" using cs by simp
  from decimal_no_space [OF this] have "strip_sign (dropWhile isspace (decimal n)) = (False, decimal n)"
    by (simp add: cs)
  note ss = this
  have td: "takeWhile (is_digit 10) (decimal n) = decimal n"
    using decimal_chars [of _ n] by (fastforce simp: takeWhile_eq_all_conv is_digit_def digit_value_def)
  show ?thesis using n
    by (simp add: stoul_def ss td digits_value_decimal strip_prefix_other Let_def)
qed

section \<open>Lines of a stream\<close>

text \<open>An input stream that is still good and the characters it can deliver. \<^verbatim>\<open>std::getline\<close> takes the
  characters up to the end of line, and meets the end of the stream when there is none.\<close>

record istream =
  is_good :: bool
  is_data :: string

definition getline :: "istream \<Rightarrow> string \<times> istream" where
  "getline s = (let line = takeWhile (\<lambda>c. c \<noteq> CHR 0x0A) (is_data s) in
     case dropWhile (\<lambda>c. c \<noteq> CHR 0x0A) (is_data s) of
       [] \<Rightarrow> (line, s\<lparr>is_good := False, is_data := []\<rparr>)
     | _ # rest \<Rightarrow> (line, s\<lparr>is_data := rest\<rparr>))"

definition istream_size :: "istream \<Rightarrow> nat" where
  "istream_size s = length (is_data s) + (if is_good s then 1 else 0)"

lemma getline_size: "is_good s \<Longrightarrow> getline s = (line, s') \<Longrightarrow> istream_size s' < istream_size s"
proof (cases "dropWhile (\<lambda>c. c \<noteq> CHR 0x0A) (is_data s)")
  case (Cons c r)
  assume "is_good s" "getline s = (line, s')"
  with Cons have "is_good s'" "is_data s' = r" by (auto simp: getline_def Let_def)
  moreover have "length (c # r) \<le> length (is_data s)"
    unfolding Cons [symmetric] by (rule length_dropWhile_le)
  ultimately show ?thesis using \<open>is_good s\<close> by (simp add: istream_size_def)
next
  case Nil
  assume "is_good s" "getline s = (line, s')"
  then show ?thesis unfolding getline_def Let_def Nil by (auto simp: istream_size_def)
qed

text \<open>The lines a text consists of, the last one being what follows the last end of line.\<close>

fun lines_of :: "string \<Rightarrow> string list" where
  "lines_of [] = [[]]"
| "lines_of (c # s) = (if c = CHR 0x0A then [] # lines_of s
     else (c # hd (lines_of s)) # tl (lines_of s))"

lemma lines_of_getline:
  "lines_of s = takeWhile (\<lambda>c. c \<noteq> CHR 0x0A) s #
     (case dropWhile (\<lambda>c. c \<noteq> CHR 0x0A) s of [] \<Rightarrow> [] | _ # r \<Rightarrow> lines_of r)"
  by (induction s) auto

lemma lines_of_append: "CHR 0x0A \<notin> set l \<Longrightarrow> lines_of (l @ CHR 0x0A # s) = l # lines_of s"
  by (induction l) auto

section \<open>Ordered containers\<close>

text \<open>\<^verbatim>\<open>std::multimap\<close>: an entry goes behind those with the same key. \<^verbatim>\<open>find\<close> gives the first of
  them, one of those the standard allows, and \<^verbatim>\<open>equal_range\<close> all of them.\<close>

fun multimap_insert :: "'k::linorder \<Rightarrow> 'v \<Rightarrow> ('k \<times> 'v) list \<Rightarrow> ('k \<times> 'v) list" where
  "multimap_insert k v [] = [(k, v)]"
| "multimap_insert k v ((k', v') # xs) =
     (if k < k' then (k, v) # (k', v') # xs else (k', v') # multimap_insert k v xs)"

definition multimap_find :: "'k \<Rightarrow> ('k \<times> 'v) list \<Rightarrow> 'v option" where
  "multimap_find k xs = map_option snd (List.find (\<lambda>p. fst p = k) xs)"

definition multimap_equal_range :: "'k \<Rightarrow> ('k \<times> 'v) list \<Rightarrow> 'v list" where
  "multimap_equal_range k xs = map snd (filter (\<lambda>p. fst p = k) xs)"

lemma multimap_find_range:
  "multimap_find k xs = (case multimap_equal_range k xs of [] \<Rightarrow> None | v # _ \<Rightarrow> Some v)"
  by (induction xs) (auto simp: multimap_find_def multimap_equal_range_def)

lemma set_multimap_insert: "set (multimap_insert k v xs) = insert (k, v) (set xs)"
  by (induction k v xs rule: multimap_insert.induct) auto

lemma sorted_multimap_insert:
  "sorted (map fst xs) \<Longrightarrow> sorted (map fst (multimap_insert k v xs))"
  by (induction k v xs rule: multimap_insert.induct) (auto simp: set_multimap_insert)

lemma equal_range_multimap_insert:
  assumes "sorted (map fst xs)"
  shows "multimap_equal_range k' (multimap_insert k v xs) =
    multimap_equal_range k' xs @ (if k' = k then [v] else [])"
  using assms
proof (induction k v xs rule: multimap_insert.induct)
  case (2 k v k'' v'' xs)
  have "multimap_equal_range k xs = []" if "k < k''"
    using that 2(2) by (auto simp: multimap_equal_range_def filter_empty_conv)
  with 2 show ?case by (auto simp: multimap_equal_range_def)
qed (simp add: multimap_equal_range_def)

text \<open>\<^verbatim>\<open>std::lower_bound\<close> on a sequence that is partitioned by the comparison: the elements from the
  first one whose key is not less.\<close>

definition lower_bound :: "('a \<Rightarrow> 'k::linorder) \<Rightarrow> 'k \<Rightarrow> 'a list \<Rightarrow> 'a list" where
  "lower_bound key k xs = dropWhile (\<lambda>x. key x < k) xs"

lemma lower_bound_block:
  assumes "sorted (map key xs)"
  shows "takeWhile (\<lambda>x. key x = k) (lower_bound key k xs) = filter (\<lambda>x. key x = k) xs"
  using assms
proof (induction xs)
  case (Cons x xs)
  have "filter (\<lambda>x. key x = k) xs = []" if "k < key x"
    using that Cons.prems by (auto simp: filter_empty_conv)
  moreover have "takeWhile (\<lambda>x. key x = k) xs = filter (\<lambda>x. key x = k) xs" if "key x = k"
  proof -
    have "lower_bound key k xs = xs" using that Cons.prems
      by (cases xs) (auto simp: lower_bound_def)
    with Cons show ?thesis by simp
  qed
  ultimately show ?case using Cons by (auto simp: lower_bound_def not_less le_less)
qed (simp add: lower_bound_def)

locale keyed_sort =
  fixes srt :: "'a list \<Rightarrow> 'a list"
    and key :: "'a \<Rightarrow> 'k::linorder"
  assumes sorted_srt: "sorted (map key (srt xs))"
    and mset_srt: "mset (srt xs) = mset xs"
begin

lemma set_srt [simp]: "set (srt xs) = set xs"
  by (metis mset_srt set_mset_mset)

lemma srt_empty [simp]: "srt xs = [] \<longleftrightarrow> xs = []"
  by (metis mset_srt mset_zero_iff)

lemma block_srt:
  "mset (takeWhile (\<lambda>x. key x = k) (lower_bound key k (srt xs))) = mset (filter (\<lambda>x. key x = k) xs)"
  by (simp add: lower_bound_block sorted_srt mset_srt)

lemma lower_bound_srt_empty:
  "(case lower_bound key k (srt xs) of [] \<Rightarrow> True | x # _ \<Rightarrow> key x \<noteq> k) \<longleftrightarrow>
     filter (\<lambda>x. key x = k) xs = []"
proof -
  have "takeWhile (\<lambda>x. key x = k) (lower_bound key k (srt xs)) = [] \<longleftrightarrow>
      filter (\<lambda>x. key x = k) xs = []"
    by (metis block_srt mset_zero_iff)
  then show ?thesis by (auto split: list.splits)
qed

end

text \<open>The stable sort of the library is one function with these laws.\<close>

interpretation stable_sort: keyed_sort "sort_key key" key for key
  by unfold_locales simp_all

end
