(* ===== verification/Gw_Config.thy ===== *)
theory Gw_Config
  imports Gw_Strings
begin

text \<open>
  The configuration of the gateway, \<^verbatim>\<open>ConfigImpl\<close> of \<^verbatim>\<open>src/gateway/lib/src/ConfigImpl.cpp\<close>: the reader
  of the configuration file, the numeric, textual and enumerated options, the lists of predefined
  topics and of credentials with their caches, the range of topic ids and the address of the broker.

  A failed \<^verbatim>\<open>assert\<close> of an accessor is recorded in \<open>cf_faults\<close>; the one in the reader is an error
  value, because the construction of the string behind it has no result either.
\<close>

section \<open>Data\<close>

record predefined_topic_info =
  pt_clientId :: string
  pt_topic :: string
  pt_topicId :: u16

record config_auth_info =
  ai_clientId :: string
  ai_username :: string
  ai_password :: string

datatype client_connection_type = ClientConnectionType_Udp | ClientConnectionType_ValuesLimit

datatype broker_connection_type = BrokerConnectionType_Tcp | BrokerConnectionType_ValuesLimit

datatype config_fault = ReversedValueRange | PasswordAssert | EmptyBrokerAddress | ZeroBrokerPort

type_synonym config_map = "(string \<times> string) list"

record config_impl =
  cf_map :: config_map
  cf_topics :: "predefined_topic_info list"
  cf_authInfos :: "config_auth_info list"
  cf_brokerAddress :: string
  cf_brokerPort :: u16
  cf_faults :: "config_fault list"

definition ConfigImpl_init :: config_impl where
  "ConfigImpl_init = \<lparr>cf_map = [], cf_topics = [], cf_authInfos = [], cf_brokerAddress = '''',
     cf_brokerPort = 0, cf_faults = []\<rparr>"

definition config_fault_if :: "bool \<Rightarrow> config_fault \<Rightarrow> config_impl \<Rightarrow> config_impl" where
  "config_fault_if bad f c = (if bad then c\<lparr>cf_faults := cf_faults c @ [f]\<rparr> else c)"

definition SpaceChars :: string where
  "SpaceChars = [CHR '' '', CHR 0x09]"

definition TrailingChars :: string where
  "TrailingChars = [CHR '' '', CHR 0x09, CHR 0x0D, CHR 0x0A]"

definition DefaultBrokerAddress :: string where
  "DefaultBrokerAddress = ''127.0.0.1''"

definition DefaultBrokerPort :: u16 where
  "DefaultBrokerPort = 1883"

definition Config_DefaultMinTopicId :: u16 where
  "Config_DefaultMinTopicId = 1"

definition Config_DefaultMaxTopicId :: u16 where
  "Config_DefaultMaxTopicId = 0xfffe"

section \<open>Reading the file\<close>

definition ConfigImpl_readLine :: "string \<Rightarrow> config_fault + (string \<times> string) option" where
  "ConfigImpl_readLine line =
     (if line = '''' then Inr None
      else let str = (case find_first_of ''#'' line 0 of Some commentPos \<Rightarrow> take commentPos line | None \<Rightarrow> line) in
        if str = '''' then Inr None
        else case find_first_of SpaceChars str 0 of
          None \<Rightarrow> Inr (Some (str, ''''))
        | Some spacePos \<Rightarrow>
            (let key = take spacePos str in
             case find_first_not_of SpaceChars str (spacePos + 1) of
               None \<Rightarrow> Inr (Some (str, ''''))
             | Some valuePos \<Rightarrow>
                 (let valueEndPos = (case find_last_not_of TrailingChars str of
                        Some lastValueCharPos \<Rightarrow> lastValueCharPos + 1 | None \<Rightarrow> length str) in
                  if valueEndPos < valuePos then Inl ReversedValueRange
                  else Inr (Some (key, substr str valuePos valueEndPos)))))"

function ConfigImpl_readLoop :: "istream \<Rightarrow> config_map \<Rightarrow> config_fault + config_map" where
  "ConfigImpl_readLoop stream m =
     (if \<not> is_good stream then Inr m
      else case ConfigImpl_readLine (fst (getline stream)) of
        Inl f \<Rightarrow> Inl f
      | Inr None \<Rightarrow> ConfigImpl_readLoop (snd (getline stream)) m
      | Inr (Some (key, val)) \<Rightarrow>
          ConfigImpl_readLoop (snd (getline stream)) (multimap_insert key val m))"
  by pat_completeness auto
termination
  by (relation "measure (istream_size \<circ> fst)") (auto intro: getline_size [OF _ surjective_pairing])

declare ConfigImpl_readLoop.simps [simp del]

definition ConfigImpl_read :: "istream \<Rightarrow> config_impl \<Rightarrow> config_fault + config_impl" where
  "ConfigImpl_read stream c = map_sum id (\<lambda>m. c\<lparr>cf_map := m\<rparr>) (ConfigImpl_readLoop stream [])"

section \<open>Simple options\<close>

definition ConfigImpl_numericValue :: "string \<Rightarrow> 'w::len word \<Rightarrow> config_impl \<Rightarrow> 'w word" where
  "ConfigImpl_numericValue key defaultValue c = (case multimap_find key (cf_map c) of
       None \<Rightarrow> defaultValue
     | Some val \<Rightarrow> (case stoul 10 val of Some n \<Rightarrow> ucast n | None \<Rightarrow> defaultValue))"

definition ConfigImpl_stringValue :: "string \<Rightarrow> string \<Rightarrow> config_impl \<Rightarrow> string" where
  "ConfigImpl_stringValue key defaultValue c = (case multimap_find key (cf_map c) of
       None \<Rightarrow> defaultValue | Some val \<Rightarrow> val)"

definition ConfigImpl_gatewayId :: "config_impl \<Rightarrow> u8" where
  "ConfigImpl_gatewayId = ConfigImpl_numericValue ''mqttsn_gw_id'' 0"

definition ConfigImpl_advertisePeriod :: "config_impl \<Rightarrow> u16" where
  "ConfigImpl_advertisePeriod = ConfigImpl_numericValue ''mqttsn_advertise'' (15 * 60)"

definition ConfigImpl_retryPeriod :: "config_impl \<Rightarrow> u32" where
  "ConfigImpl_retryPeriod = ConfigImpl_numericValue ''mqttsn_retry_period'' 10"

definition ConfigImpl_retryCount :: "config_impl \<Rightarrow> u32" where
  "ConfigImpl_retryCount = ConfigImpl_numericValue ''mqttsn_retry_count'' 3"

definition ConfigImpl_defaultClientId :: "config_impl \<Rightarrow> string" where
  "ConfigImpl_defaultClientId = ConfigImpl_stringValue ''mqttsn_default_client_id'' ''''"

definition ConfigImpl_pubOnlyKeepAlive :: "config_impl \<Rightarrow> u16" where
  "ConfigImpl_pubOnlyKeepAlive = ConfigImpl_numericValue ''mqttsn_pub_only_keep_alive'' 60"

definition ConfigImpl_sleepingClientMsgLimit :: "config_impl \<Rightarrow> u64" where
  "ConfigImpl_sleepingClientMsgLimit =
     ConfigImpl_numericValue ''mqttsn_sleeping_client_msg_limit'' (- 1)"

definition ConfigImpl_logFile :: "config_impl \<Rightarrow> string" where
  "ConfigImpl_logFile = ConfigImpl_stringValue ''mqttsn_log_file'' ''stdout''"

definition ConfigImpl_clientConnectionType :: "config_impl \<Rightarrow> client_connection_type" where
  "ConfigImpl_clientConnectionType c =
     (let typeStr = ConfigImpl_stringValue ''mqttsn_client_socket'' '''' c in
      if typeStr = '''' then ClientConnectionType_Udp
      else if typeStr = ''udp'' then ClientConnectionType_Udp
      else ClientConnectionType_ValuesLimit)"

definition ConfigImpl_brokerConnectionType :: "config_impl \<Rightarrow> broker_connection_type" where
  "ConfigImpl_brokerConnectionType c =
     (let typeStr = ConfigImpl_stringValue ''mqttsn_broker_socket'' '''' c in
      if typeStr = '''' then BrokerConnectionType_Tcp
      else if typeStr = ''tcp'' then BrokerConnectionType_Tcp
      else BrokerConnectionType_ValuesLimit)"

section \<open>Predefined topics and credentials\<close>

definition topic_id_base :: "string \<Rightarrow> int" where
  "topic_id_base s = (case s of
       z # x # _ # _ \<Rightarrow> if z = CHR ''0'' \<and> (x = CHR ''x'' \<or> x = CHR ''X'') then 16 else 10
     | _ \<Rightarrow> 10)"

text \<open>One value of the option, \<open>None\<close> where the loop goes on to the next one.\<close>

definition ConfigImpl_parseTopic :: "string \<Rightarrow> predefined_topic_info option" where
  "ConfigImpl_parseTopic valStr =
     (case find_first_of SpaceChars valStr 0 of None \<Rightarrow> None
      | Some firstSpacePos \<Rightarrow>
     (case find_first_not_of SpaceChars valStr (firstSpacePos + 1) of None \<Rightarrow> None
      | Some topicPos \<Rightarrow>
     (case find_first_of SpaceChars valStr (topicPos + 1) of None \<Rightarrow> None
      | Some secondSpacePos \<Rightarrow>
     (case find_first_not_of SpaceChars valStr (secondSpacePos + 1) of None \<Rightarrow> None
      | Some topicIdPos \<Rightarrow>
          (let topicIdEnd = (case find_first_of SpaceChars valStr (topicIdPos + 1) of
                 Some thirdSpacePos \<Rightarrow> thirdSpacePos | None \<Rightarrow> length valStr);
               topicIdStr = substr valStr topicIdPos topicIdEnd in
           case stoul (topic_id_base topicIdStr) topicIdStr of None \<Rightarrow> None
           | Some n \<Rightarrow>
               (let topicId = ucast n in
                if topicId = 0 \<or> topicId = 0xffff then None
                else Some \<lparr>pt_clientId = substr valStr 0 firstSpacePos,
                  pt_topic = substr valStr topicPos secondSpacePos, pt_topicId = topicId\<rparr>))))))"

definition ConfigImpl_predefinedTopics ::
    "(predefined_topic_info list \<Rightarrow> predefined_topic_info list) \<Rightarrow> config_impl \<Rightarrow>
      predefined_topic_info list \<times> config_impl" where
  "ConfigImpl_predefinedTopics std_sort c =
     (if cf_topics c \<noteq> [] then (cf_topics c, c)
      else let topics = multimap_equal_range ''mqttsn_predefined_topic'' (cf_map c) in
        if topics = [] then (cf_topics c, c)
        else let c' = c\<lparr>cf_topics := std_sort (List.map_filter ConfigImpl_parseTopic topics)\<rparr> in
          (cf_topics c', c'))"

text \<open>One value of \<^verbatim>\<open>mqttsn_auth\<close>, and whether the assertion on the end of the password failed.\<close>

definition ConfigImpl_parseAuth :: "string \<Rightarrow> config_auth_info \<times> bool" where
  "ConfigImpl_parseAuth valStr =
     (let info = \<lparr>ai_clientId = '''', ai_username = '''', ai_password = ''''\<rparr> in
      case find_first_of SpaceChars valStr 0 of
        None \<Rightarrow> (info\<lparr>ai_clientId := valStr\<rparr>, False)
      | Some firstSpacePos \<Rightarrow>
     (let info = info\<lparr>ai_clientId := substr valStr 0 firstSpacePos\<rparr> in
      case find_first_not_of SpaceChars valStr (firstSpacePos + 1) of None \<Rightarrow> (info, False)
      | Some usernamePos \<Rightarrow>
     (case find_first_of SpaceChars valStr (usernamePos + 1) of
        None \<Rightarrow> (info\<lparr>ai_username := substr valStr usernamePos (length valStr)\<rparr>, False)
      | Some secondSpacePos \<Rightarrow>
     (let info = info\<lparr>ai_username := substr valStr usernamePos secondSpacePos\<rparr> in
      case find_first_not_of SpaceChars valStr (secondSpacePos + 1) of None \<Rightarrow> (info, False)
      | Some passwordPos \<Rightarrow>
          (let endOfPasswordPos = (case find_last_not_of SpaceChars valStr of
                 Some p \<Rightarrow> p + 1 | None \<Rightarrow> 0) in
           (info\<lparr>ai_password := substr valStr passwordPos endOfPasswordPos\<rparr>,
            \<not> passwordPos < endOfPasswordPos))))))"

definition ConfigImpl_authInfos ::
    "(config_auth_info list \<Rightarrow> config_auth_info list) \<Rightarrow> config_impl \<Rightarrow>
      config_auth_info list \<times> config_impl" where
  "ConfigImpl_authInfos std_sort c =
     (if cf_authInfos c \<noteq> [] then (cf_authInfos c, c)
      else let auth = map ConfigImpl_parseAuth (multimap_equal_range ''mqttsn_auth'' (cf_map c)) in
        if auth = [] then (cf_authInfos c, c)
        else let c' = config_fault_if (\<exists>a \<in> set auth. snd a) PasswordAssert
                 (c\<lparr>cf_authInfos := std_sort (filter (\<lambda>i. ai_clientId i \<noteq> '''') (map fst auth))\<rparr>) in
          (cf_authInfos c', c'))"

section \<open>Range of topic ids and address of the broker\<close>

definition stoul_or :: "u16 \<Rightarrow> string \<Rightarrow> u16" where
  "stoul_or dflt s = (case stoul 10 s of Some n \<Rightarrow> ucast n | None \<Rightarrow> dflt)"

definition ConfigImpl_rawTopicIdRange :: "config_impl \<Rightarrow> u16 \<times> u16" where
  "ConfigImpl_rawTopicIdRange c =
     (case multimap_find ''mqttsn_topic_id_alloc_range'' (cf_map c) of
        None \<Rightarrow> (Config_DefaultMinTopicId, Config_DefaultMaxTopicId)
      | Some valStr \<Rightarrow>
          if valStr = '''' then (Config_DefaultMinTopicId, Config_DefaultMaxTopicId)
          else case find_first_of SpaceChars valStr 0 of
            None \<Rightarrow> (stoul_or Config_DefaultMinTopicId valStr, Config_DefaultMaxTopicId)
          | Some firstSpacePos \<Rightarrow>
              (let minVal = stoul_or Config_DefaultMinTopicId (substr valStr 0 firstSpacePos) in
               case find_first_not_of SpaceChars valStr (firstSpacePos + 1) of
                 None \<Rightarrow> (minVal, Config_DefaultMaxTopicId)
               | Some maxNumPos \<Rightarrow>
                   (let maxNumEnd = (case find_first_of SpaceChars valStr (maxNumPos + 1) of
                          Some secondSpacePos \<Rightarrow> secondSpacePos | None \<Rightarrow> length valStr) in
                    (minVal, stoul_or Config_DefaultMaxTopicId (substr valStr maxNumPos maxNumEnd)))))"

definition ConfigImpl_topicIdAllocRange :: "config_impl \<Rightarrow> u16 \<times> u16" where
  "ConfigImpl_topicIdAllocRange c =
     (let (minVal, maxVal) = ConfigImpl_rawTopicIdRange c;
          (minVal, maxVal) = (if maxVal < minVal then (maxVal, minVal) else (minVal, maxVal)) in
      (max Config_DefaultMinTopicId minVal, min Config_DefaultMaxTopicId maxVal))"

definition ConfigImpl_readBrokerAddrInfo :: "config_impl \<Rightarrow> config_impl" where
  "ConfigImpl_readBrokerAddrInfo c0 =
     (let c = c0\<lparr>cf_brokerAddress := DefaultBrokerAddress, cf_brokerPort := DefaultBrokerPort\<rparr> in
      case multimap_find ''mqttsn_broker'' (cf_map c) of
        None \<Rightarrow> c
      | Some valStr \<Rightarrow>
     (case find_first_of SpaceChars valStr 0 of
        None \<Rightarrow> c\<lparr>cf_brokerAddress := valStr\<rparr>
      | Some firstSpacePos \<Rightarrow>
     (let c = c\<lparr>cf_brokerAddress := substr valStr 0 firstSpacePos\<rparr> in
      case find_first_not_of SpaceChars valStr (firstSpacePos + 1) of
        None \<Rightarrow> c
      | Some portPos \<Rightarrow>
          (let portEnd = (case find_first_of SpaceChars valStr (portPos + 1) of
                 Some secondSpacePos \<Rightarrow> secondSpacePos | None \<Rightarrow> length valStr) in
           c\<lparr>cf_brokerPort := stoul_or (cf_brokerPort c) (substr valStr portPos portEnd)\<rparr>))))"

definition ConfigImpl_brokerTcpHostAddress :: "config_impl \<Rightarrow> string \<times> config_impl" where
  "ConfigImpl_brokerTcpHostAddress c0 =
     (let c1 = (if cf_brokerAddress c0 = '''' then ConfigImpl_readBrokerAddrInfo c0 else c0);
          c = config_fault_if (cf_brokerAddress c1 = '''') EmptyBrokerAddress c1 in
      (cf_brokerAddress c, c))"

definition ConfigImpl_brokerTcpHostPort :: "config_impl \<Rightarrow> u16 \<times> config_impl" where
  "ConfigImpl_brokerTcpHostPort c0 =
     (let c1 = (if cf_brokerPort c0 = 0 then ConfigImpl_readBrokerAddrInfo c0 else c0);
          c = config_fault_if (cf_brokerPort c1 = 0) ZeroBrokerPort c1 in
      (cf_brokerPort c, c))"

section \<open>Words and lines\<close>

definition config_word :: "string \<Rightarrow> bool" where
  "config_word w \<longleftrightarrow> w \<noteq> [] \<and> (\<forall>c \<in> set w. c \<notin> set TrailingChars \<and> c \<noteq> CHR ''#'')"

lemma space_trailing: "c \<in> set SpaceChars \<Longrightarrow> c \<in> set TrailingChars"
  by (auto simp: SpaceChars_def TrailingChars_def)

lemma config_word_space: "config_word w \<Longrightarrow> set w \<inter> set SpaceChars = {}"
  by (auto simp: config_word_def dest: space_trailing)

lemma config_word_ends:
  assumes "config_word w"
  shows "w \<noteq> []" "hd w \<notin> set SpaceChars" "last w \<notin> set TrailingChars"
proof -
  show "w \<noteq> []" using assms by (simp add: config_word_def)
  then have "hd w \<in> set w" "last w \<in> set w" by simp_all
  then show "hd w \<notin> set SpaceChars" "last w \<notin> set TrailingChars"
    using assms config_word_space [OF assms] unfolding config_word_def by blast+
qed

lemma next_word:
  "r \<noteq> [] \<Longrightarrow> hd r \<notin> set cs \<Longrightarrow>
     find_first_not_of cs (w @ c # r) (Suc (length w)) = Some (Suc (length w))"
  unfolding string_find_iffs by (cases r) (auto simp: nth_append)

lemma word_end:
  assumes "w \<noteq> []" "set w \<inter> set cs = {}" "c \<in> set cs"
  shows "find_first_of cs (p @ w @ c # r) (Suc (length p)) = Some (length p + length w)"
proof -
  have "w ! i \<notin> set cs" if "i < length w" for i using assms(2) that nth_mem by fastforce
  with assms(1,3) show ?thesis unfolding string_find_iffs
    by (auto simp: nth_append Suc_le_eq)
qed

lemma word_end_none:
  assumes "set w \<inter> set cs = {}"
  shows "find_first_of cs (p @ w) (Suc (length p)) = None"
proof -
  have "w ! i \<notin> set cs" if "i < length w" for i using assms that nth_mem by fastforce
  then show ?thesis unfolding string_find_iffs by (auto simp: nth_append)
qed

lemma readLine_empty [simp]: "ConfigImpl_readLine [] = Inr None"
  by (simp add: ConfigImpl_readLine_def)

lemma no_comment: "CHR ''#'' \<notin> set s \<Longrightarrow> find_first_of ''#'' s 0 = None"
  by simp

text \<open>A line of a key and a value is read as these.\<close>

lemma readLine_entry:
  assumes "config_word k" "CHR ''#'' \<notin> set v" "v \<noteq> []" "hd v \<notin> set SpaceChars"
    "last v \<notin> set TrailingChars"
  shows "ConfigImpl_readLine (k @ CHR '' '' # v) = Inr (Some (k, v))"
proof -
  let ?s = "k @ CHR '' '' # v"
  have sp: "CHR '' '' \<in> set SpaceChars" by (simp add: SpaceChars_def)
  have "CHR ''#'' \<notin> set ?s" using assms(1,2) by (auto simp: config_word_def)
  then have c: "find_first_of ''#'' ?s 0 = None" by (rule no_comment)
  have f: "find_first_of SpaceChars ?s 0 = Some (length k)"
    using config_word_space [OF assms(1)] sp by simp
  have n: "find_first_not_of SpaceChars ?s (Suc (length k)) = Some (Suc (length k))"
    using assms(3,4) by (rule next_word)
  have s: "?s = (k @ CHR '' '' # butlast v) @ [last v]" using assms(3) by simp
  have l: "find_last_not_of TrailingChars ?s = Some (length k + length v)"
    unfolding s find_last_not_of_append [OF assms(5)] using assms(3) by simp
  show ?thesis using assms(3)
    by (simp add: ConfigImpl_readLine_def c f n l substr_def)
qed

lemma readLoop_step:
  assumes "is_good s"
  shows "ConfigImpl_readLoop s m = (case ConfigImpl_readLine (hd (lines_of (is_data s))) of
        Inl f \<Rightarrow> Inl f
      | Inr None \<Rightarrow> ConfigImpl_readLoop (snd (getline s)) m
      | Inr (Some (key, val)) \<Rightarrow> ConfigImpl_readLoop (snd (getline s)) (multimap_insert key val m))"
proof -
  have "fst (getline s) = hd (lines_of (is_data s))"
    by (subst lines_of_getline) (simp add: getline_def Let_def split: list.splits)
  with assms show ?thesis by (subst ConfigImpl_readLoop.simps) simp
qed

text \<open>What a line says, in words: a comment is cut off; the key is the text up to the first blank or
  tab, the value what follows the blanks behind it, without blanks and ends of line at its end. A line
  without a value has all of its text as the key, blanks included. When nothing but ends of line
  follows the blanks behind a key, there is no value to cut out.\<close>

definition is_blank :: "char \<Rightarrow> bool" where
  "is_blank c \<longleftrightarrow> c = CHR '' '' \<or> c = CHR 0x09"

definition is_white :: "char \<Rightarrow> bool" where
  "is_white c \<longleftrightarrow> is_blank c \<or> c = CHR 0x0D \<or> c = CHR 0x0A"

definition line_entry :: "string \<Rightarrow> config_fault + (string \<times> string) option" where
  "line_entry line =
     (let str = takeWhile (\<lambda>c. c \<noteq> CHR ''#'') line;
          key = takeWhile (\<lambda>c. \<not> is_blank c) str;
          rest = dropWhile is_blank (dropWhile (\<lambda>c. \<not> is_blank c) str)
      in if str = [] then Inr None
         else if rest = [] then Inr (Some (str, []))
         else if list_all is_white str then Inr (Some (key, rest))
         else if list_all is_white rest then Inl ReversedValueRange
         else Inr (Some (key, rev (dropWhile is_white (rev rest)))))"

lemma find_first_of_While:
  "find_first_of cs s 0 = (if takeWhile (\<lambda>c. c \<notin> set cs) s = s then None else Some (length (takeWhile (\<lambda>c. c \<notin> set cs) s)))"
proof (cases "dropWhile (\<lambda>c. c \<notin> set cs) s")
  case Nil
  then have "\<forall>c \<in> set s. c \<notin> set cs" by (simp add: dropWhile_eq_Nil_conv)
  then have "set s \<inter> set cs = {}" "takeWhile (\<lambda>c. c \<notin> set cs) s = s" by (auto simp: takeWhile_eq_all_conv)
  then show ?thesis by simp
next
  case (Cons c r)
  let ?w = "takeWhile (\<lambda>c. c \<notin> set cs) s"
  have s: "s = ?w @ c # r" using Cons takeWhile_dropWhile_id [of "\<lambda>c. c \<notin> set cs" s] by simp
  have "c \<in> set cs" using Cons by (metis dropWhile_eq_Cons_conv)
  moreover have "set ?w \<inter> set cs = {}" by (auto dest: set_takeWhileD)
  ultimately have "find_first_of cs (?w @ c # r) 0 = Some (length ?w)" by (rule find_first_of_take(2) [rotated])
  moreover have "?w \<noteq> s" using s by (metis append_self_conv list.distinct(1))
  ultimately show ?thesis using s by simp
qed

lemma find_first_not_of_While:
  "find_first_not_of cs (p @ s) (length p) =
     (if dropWhile (\<lambda>c. c \<in> set cs) s = [] then None else Some (length p + length (takeWhile (\<lambda>c. c \<in> set cs) s)))"
proof (cases "dropWhile (\<lambda>c. c \<in> set cs) s")
  case Nil
  then have "\<forall>c \<in> set s. c \<in> set cs" by (simp add: dropWhile_eq_Nil_conv)
  then have "find_first_not_of cs (p @ s) (length p) = None" unfolding string_find_iffs by (auto simp: nth_append)
  then show ?thesis using Nil by simp
next
  case (Cons c r)
  let ?w = "takeWhile (\<lambda>c. c \<in> set cs) s"
  have s: "s = ?w @ c # r" using Cons takeWhile_dropWhile_id [of "\<lambda>c. c \<in> set cs" s] by simp
  have "c \<notin> set cs" using Cons by (metis dropWhile_eq_Cons_conv)
  moreover have "?w ! i \<in> set cs" if "i < length ?w" for i using nth_mem [OF that] by (auto dest: set_takeWhileD)
  ultimately have "find_first_not_of cs (p @ ?w @ c # r) (length p) = Some (length p + length ?w)"
    unfolding string_find_iffs by (auto simp: nth_append)
  then show ?thesis using Cons s by simp
qed

lemma find_last_not_of_While:
  "find_last_not_of cs s = (if list_all (\<lambda>c. c \<in> set cs) s then None
     else Some (length (dropWhile (\<lambda>c. c \<in> set cs) (rev s)) - 1))"
proof (induction s rule: rev_induct)
  case (snoc c s)
  have "List.find (\<lambda>i. (s @ [c]) ! i \<notin> set cs) (rev [0..<length s]) = List.find (\<lambda>i. s ! i \<notin> set cs) (rev [0..<length s])"
    by (rule find_cong) (auto simp: nth_append)
  then show ?case using snoc by (cases "c \<in> set cs") (simp_all add: find_last_not_of_def nth_append)
qed (simp add: find_last_not_of_def)

lemma char_sets: "(\<lambda>c. c \<in> set SpaceChars) = is_blank" "(\<lambda>c. c \<notin> set SpaceChars) = (\<lambda>c. \<not> is_blank c)"
  "(\<lambda>c. c \<in> set TrailingChars) = is_white" "(\<lambda>c. c \<notin> set ''#'') = (\<lambda>c. c \<noteq> CHR ''#'')"
  by (auto simp: SpaceChars_def TrailingChars_def is_blank_def is_white_def)

lemma dropWhile_rev_take: "take (length (dropWhile P (rev xs))) xs = rev (dropWhile P (rev xs))"
proof -
  have "xs = rev (dropWhile P (rev xs)) @ rev (takeWhile P (rev xs))"
    by (metis rev_append rev_rev_ident takeWhile_dropWhile_id)
  then show ?thesis by (metis append_eq_conv_conj length_rev)
qed

text \<open>The positions the reader finds cut the line into these parts.\<close>

lemma readLine_value:
  assumes cut: "str = pre @ rest" and pre: "pre = key @ bs" "bs \<noteq> []" "list_all is_blank bs" and ne: "rest \<noteq> []"
  shows "(let valueEndPos = (case find_last_not_of TrailingChars str of Some p \<Rightarrow> p + 1 | None \<Rightarrow> length str) in
      if valueEndPos < length pre then Inl ReversedValueRange else Inr (Some (key, substr str (length pre) valueEndPos))) =
    (if list_all is_white str then Inr (Some (key, rest)) else if list_all is_white rest then Inl ReversedValueRange
     else Inr (Some (key, rev (dropWhile is_white (rev rest)))))"
proof -
  have last: "find_last_not_of TrailingChars str = (if list_all is_white str then None
      else Some (length (dropWhile is_white (rev str)) - 1))"
    using find_last_not_of_While [of TrailingChars str] by (simp only: char_sets)
  have ws: "list_all is_white bs" using pre(3) by (auto simp: list_all_iff is_white_def)
  consider (all) "list_all is_white str" | (tail) "\<not> list_all is_white str" "list_all is_white rest" | (content) "\<not> list_all is_white rest"
    by blast
  then show ?thesis
  proof cases
    case all
    then show ?thesis using last cut by (simp add: substr_def)
  next
    case tail
    have "dropWhile is_white (rev str) = dropWhile is_white (rev key)"
      using tail(2) ws dropWhile_append2 [of "rev rest @ rev bs" is_white "rev key"]
      by (auto simp: cut pre(1) list_all_iff)
    moreover have "length (dropWhile is_white (rev key)) \<le> length key" by (metis length_dropWhile_le length_rev)
    moreover have "dropWhile is_white (rev str) \<noteq> []" using tail(1) by (auto simp: list_all_iff)
    ultimately have "length (dropWhile is_white (rev str)) - 1 + 1 < length pre" using pre(1,2)
      by (cases bs) (auto simp: neq_Nil_conv)
    then show ?thesis using tail last by (simp add: Let_def)
  next
    case content
    then have "\<not> list_all is_white str" by (simp add: cut list_all_iff) blast
    moreover have "dropWhile is_white (rev str) = dropWhile is_white (rev rest) @ rev pre"
      using content by (auto simp: cut list_all_iff intro: dropWhile_append1)
    moreover have "dropWhile is_white (rev rest) \<noteq> []" using content by (auto simp: list_all_iff)
    ultimately show ?thesis using content last by (simp add: cut substr_def dropWhile_rev_take Let_def)
  qed
qed

lemma readLine_words: "ConfigImpl_readLine line = line_entry line"
proof -
  define str where "str = takeWhile (\<lambda>c. c \<noteq> CHR ''#'') line"
  define key where "key = takeWhile (\<lambda>c. \<not> is_blank c) str"
  have cut: "(case find_first_of ''#'' line 0 of Some p \<Rightarrow> take p line | None \<Rightarrow> line) = str"
    unfolding find_first_of_While [of "''#''" line] char_sets str_def
    by (cases "takeWhile (\<lambda>c. c \<noteq> CHR ''#'') line = line") (simp_all add: takeWhile_eq_take [symmetric] del: takeWhile_eq_all_conv)
  have space: "find_first_of SpaceChars str 0 = (if key = str then None else Some (length key))"
    unfolding find_first_of_While char_sets key_def [symmetric] by simp
  show ?thesis
  proof (cases "dropWhile (\<lambda>c. \<not> is_blank c) str")
    case Nil
    then have "key = str" by (metis append_Nil2 key_def takeWhile_dropWhile_id)
    have "line_entry line = (if str = [] then Inr None else Inr (Some (str, [])))"
      unfolding line_entry_def Let_def str_def [symmetric] Nil by simp
    moreover have "line = [] \<Longrightarrow> str = []" by (simp add: str_def)
    moreover have "ConfigImpl_readLine line = (if str = [] then Inr None else Inr (Some (str, [])))" if "line \<noteq> []"
      unfolding ConfigImpl_readLine_def Let_def cut space using \<open>key = str\<close> that by simp
    ultimately show ?thesis by (cases "line = []") simp_all
  next
    case (Cons b r)
    have t: "str = key @ b # r" using Cons by (metis key_def takeWhile_dropWhile_id)
    have b: "is_blank b" using Cons by (metis dropWhile_eq_Cons_conv)
    define bs where "bs = b # takeWhile is_blank r"
    have parts: "str = (key @ bs) @ dropWhile is_blank r" "bs \<noteq> []" "list_all is_blank bs"
      using t b by (auto simp: bs_def list_all_iff dest: set_takeWhileD)
    have ne: "key \<noteq> str" "str \<noteq> []" "line \<noteq> []" using t by (auto simp: str_def)
    have first: "find_first_not_of SpaceChars str (length key + 1) =
        (if dropWhile is_blank r = [] then None else Some (length (key @ bs)))"
      using find_first_not_of_While [of SpaceChars "key @ [b]" r] unfolding char_sets by (simp add: t bs_def)
    show ?thesis
    proof (cases "dropWhile is_blank r = []")
      case True
      have "ConfigImpl_readLine line = Inr (Some (str, []))"
        unfolding ConfigImpl_readLine_def Let_def cut space using ne first True by simp
      moreover have "line_entry line = Inr (Some (str, []))"
        unfolding line_entry_def Let_def str_def [symmetric] Cons using True ne b by simp
      ultimately show ?thesis by simp
    next
      case False
      note v = readLine_value [OF parts(1) refl parts(2,3) False]
      have "ConfigImpl_readLine line = (let valueEndPos = (case find_last_not_of TrailingChars str of Some p \<Rightarrow> p + 1 | None \<Rightarrow> length str) in
      if valueEndPos < length (key @ bs) then Inl ReversedValueRange else Inr (Some (key, substr str (length (key @ bs)) valueEndPos)))"
        unfolding ConfigImpl_readLine_def Let_def cut space using ne first False t by simp
      also note v
      also have "(if list_all is_white str then Inr (Some (key, dropWhile is_blank r))
          else if list_all is_white (dropWhile is_blank r) then Inl ReversedValueRange
          else Inr (Some (key, rev (dropWhile is_white (rev (dropWhile is_blank r)))))) = line_entry line"
        unfolding line_entry_def Let_def str_def [symmetric] key_def [symmetric] Cons using ne b False by simp
      finally show ?thesis .
    qed
  qed
qed

text \<open>The values a file gives a key, line by line.\<close>

definition line_values :: "string \<Rightarrow> string list \<Rightarrow> string list" where
  "line_values key ls = concat (map (\<lambda>l. case line_entry l of
       Inr (Some (k, v)) \<Rightarrow> if k = key then [v] else [] | _ \<Rightarrow> []) ls)"

definition line_ok :: "string \<Rightarrow> bool" where
  "line_ok l \<longleftrightarrow> (case line_entry l of Inl _ \<Rightarrow> False | Inr _ \<Rightarrow> True)"

definition stream_lines :: "istream \<Rightarrow> string list" where
  "stream_lines s = (if is_good s then lines_of (is_data s) else [])"

lemma stream_lines_getline:
  "is_good s \<Longrightarrow> stream_lines s = hd (lines_of (is_data s)) # stream_lines (snd (getline s))"
proof -
  assume g: "is_good s"
  show ?thesis
  proof (cases "dropWhile (\<lambda>c. c \<noteq> CHR 0x0A) (is_data s)")
    case Nil
    show ?thesis unfolding stream_lines_def getline_def Let_def lines_of_getline [of "is_data s"] Nil
      by (simp add: g)
  next
    case (Cons c r)
    show ?thesis unfolding stream_lines_def getline_def Let_def lines_of_getline [of "is_data s"] Cons
      by (simp add: g)
  qed
qed

text \<open>What reading the rest of a stream gives, over the map read so far.\<close>

definition lines_result :: "istream \<Rightarrow> config_map \<Rightarrow> config_fault + config_map \<Rightarrow> bool" where
  "lines_result s m r \<longleftrightarrow> (case r of
      Inl f \<Rightarrow> \<exists>l \<in> set (stream_lines s). ConfigImpl_readLine l = Inl f
    | Inr m' \<Rightarrow> (\<forall>l \<in> set (stream_lines s). line_ok l) \<and> sorted (map fst m') \<and>
        (\<forall>k. multimap_equal_range k m' = multimap_equal_range k m @ line_values k (stream_lines s)))"

lemma lines_result_skip:
  "is_good s \<Longrightarrow> ConfigImpl_readLine (hd (lines_of (is_data s))) = Inr None \<Longrightarrow>
     lines_result (snd (getline s)) m r \<Longrightarrow> lines_result s m r"
  by (cases r) (simp_all add: lines_result_def stream_lines_getline line_values_def line_ok_def readLine_words)

lemma lines_result_entry:
  assumes "is_good s" "ConfigImpl_readLine (hd (lines_of (is_data s))) = Inr (Some (k, v))"
    "sorted (map fst m)" "lines_result (snd (getline s)) (multimap_insert k v m) r"
  shows "lines_result s m r"
  using assms by (cases r)
    (simp_all add: lines_result_def stream_lines_getline line_values_def line_ok_def readLine_words
      equal_range_multimap_insert)

lemma readLoop_lines:
  "sorted (map fst m) \<Longrightarrow> lines_result s m (ConfigImpl_readLoop s m)"
proof (induction s m rule: ConfigImpl_readLoop.induct)
  case (1 s m)
  show ?case
  proof (cases "is_good s")
    case False
    then show ?thesis using 1(3)
      by (subst ConfigImpl_readLoop.simps) (simp add: lines_result_def stream_lines_def line_values_def)
  next
    case True
    have h: "fst (getline s) = hd (lines_of (is_data s))"
      by (subst lines_of_getline) (simp add: getline_def Let_def split: list.splits)
    consider (fault) f where "ConfigImpl_readLine (hd (lines_of (is_data s))) = Inl f"
      | (skip) "ConfigImpl_readLine (hd (lines_of (is_data s))) = Inr None"
      | (entry) k v where "ConfigImpl_readLine (hd (lines_of (is_data s))) = Inr (Some (k, v))"
      by (metis option.exhaust prod.exhaust sum.exhaust)
    then show ?thesis
    proof cases
      case fault
      then show ?thesis by (simp add: readLoop_step True lines_result_def stream_lines_getline)
    next
      case skip
      have "lines_result (snd (getline s)) m (ConfigImpl_readLoop (snd (getline s)) m)"
        by (rule 1(1)) (simp_all add: True h skip 1(3))
      then have "lines_result s m (ConfigImpl_readLoop (snd (getline s)) m)"
        by (rule lines_result_skip [OF True skip])
      then show ?thesis by (simp add: readLoop_step True skip)
    next
      case entry
      let ?m = "multimap_insert k v m"
      have "lines_result (snd (getline s)) ?m (ConfigImpl_readLoop (snd (getline s)) ?m)"
        by (rule 1(2)) (simp_all add: True h entry 1(3) sorted_multimap_insert)
      then have "lines_result s m (ConfigImpl_readLoop (snd (getline s)) ?m)"
        by (rule lines_result_entry [OF True entry 1(3)])
      then show ?thesis by (simp add: readLoop_step True entry)
    qed
  qed
qed



section \<open>Predefined topics\<close>

text \<open>The line of the file that stands for a predefined topic, and the infos that have one.\<close>

definition topic_value :: "predefined_topic_info \<Rightarrow> string" where
  "topic_value t = pt_clientId t @ CHR '' '' # pt_topic t @ CHR '' '' # decimal (unat (pt_topicId t))"

definition topic_line :: "predefined_topic_info \<Rightarrow> string" where
  "topic_line t = ''mqttsn_predefined_topic'' @ CHR '' '' # topic_value t"

definition wf_topic :: "predefined_topic_info \<Rightarrow> bool" where
  "wf_topic t \<longleftrightarrow> config_word (pt_clientId t) \<and> config_word (pt_topic t) \<and>
     pt_topicId t \<noteq> 0 \<and> pt_topicId t \<noteq> 0xffff"

lemma decimal_word: "config_word (decimal n)"
  using decimal_no_space [of _ n] by (auto simp: config_word_def TrailingChars_def isspace_def)

lemma topic_id_base_decimal: "topic_id_base (decimal n) = 10"
proof (cases "decimal n")
  case (Cons z r)
  then show ?thesis using decimal_no_space [of "hd r" n]
    by (cases r) (auto simp: topic_id_base_def split: list.splits)
qed simp

lemma ucast_ucast_u16: "ucast (ucast (w :: u16) :: u64) = w"
  by transfer simp

lemma parseTopic_value:
  assumes "wf_topic t"
  shows "ConfigImpl_parseTopic (topic_value t) = Some t"
proof -
  let ?a = "pt_clientId t" and ?b = "pt_topic t" and ?d = "decimal (unat (pt_topicId t))"
  let ?v = "topic_value t"
  have w: "config_word ?a" "config_word ?b" "config_word ?d"
    using assms decimal_word by (auto simp: wf_topic_def)
  have sp: "CHR '' '' \<in> set SpaceChars" by (simp add: SpaceChars_def)
  have ne: "?a \<noteq> []" "?b \<noteq> []" "hd ?b \<notin> set SpaceChars" "hd ?d \<notin> set SpaceChars"
    using w by (simp_all add: config_word_ends)
  have f1: "find_first_of SpaceChars ?v 0 = Some (length ?a)"
    unfolding topic_value_def using config_word_space [OF w(1)] sp by simp
  have f2: "find_first_not_of SpaceChars ?v (Suc (length ?a)) = Some (Suc (length ?a))"
    unfolding topic_value_def by (rule next_word) (use ne in auto)
  have f3: "find_first_of SpaceChars ?v (Suc (Suc (length ?a))) = Some (Suc (length ?a + length ?b))"
    using word_end [OF ne(2) config_word_space [OF w(2)] sp, of "?a @ '' ''" ?d]
    by (simp add: topic_value_def)
  have f4: "find_first_not_of SpaceChars ?v (Suc (Suc (length ?a + length ?b))) =
      Some (Suc (Suc (length ?a + length ?b)))"
    using next_word [of ?d SpaceChars "?a @ '' '' @ ?b" "CHR '' ''"] ne
    by (simp add: topic_value_def)
  have f5: "find_first_of SpaceChars ?v (Suc (Suc (Suc (length ?a + length ?b)))) = None"
    using word_end_none [OF config_word_space [OF w(3)], of "?a @ '' '' @ ?b @ '' ''"]
    by (simp add: topic_value_def)
  have s1: "substr ?v 0 (length ?a) = ?a" "substr ?v (Suc (length ?a)) (Suc (length ?a + length ?b)) = ?b"
      "substr ?v (Suc (Suc (length ?a + length ?b))) (length ?v) = ?d"
    by (simp_all add: substr_def topic_value_def)
  have "unat (pt_topicId t) < 2 ^ 16" using unsigned_less [of "pt_topicId t"] by simp
  then have "stoul 10 ?d = Some (of_nat (unat (pt_topicId t)))"
    by (intro stoul_decimal) simp
  then show ?thesis using assms s1(1,2)
    by (simp add: ConfigImpl_parseTopic_def f1 f2 f3 f4 f5 s1 topic_id_base_decimal wf_topic_def
        ucast_ucast_u16 Let_def)
qed

lemma topic_line_read:
  assumes "wf_topic t"
  shows "ConfigImpl_readLine (topic_line t) = Inr (Some (''mqttsn_predefined_topic'', topic_value t))"
proof -
  have w: "config_word (pt_clientId t)" "config_word (pt_topic t)" using assms by (auto simp: wf_topic_def)
  let ?d = "decimal (unat (pt_topicId t))"
  have "config_word ''mqttsn_predefined_topic''" by (simp add: config_word_def TrailingChars_def)
  moreover have "CHR ''#'' \<notin> set (topic_value t)"
    using w decimal_word [of "unat (pt_topicId t)"] by (auto simp: topic_value_def config_word_def)
  moreover have "topic_value t \<noteq> []" "hd (topic_value t) \<notin> set SpaceChars"
    using config_word_ends [OF w(1)] by (simp_all add: topic_value_def)
  moreover have "last (topic_value t) \<notin> set TrailingChars"
    using config_word_ends [OF decimal_word, of "unat (pt_topicId t)"] by (simp add: topic_value_def)
  ultimately show ?thesis unfolding topic_line_def by (rule readLine_entry)
qed

lemma config_word_newline: "config_word w \<Longrightarrow> CHR 0x0A \<notin> set w"
  by (auto simp: config_word_def TrailingChars_def)

lemma topic_line_one_line: "wf_topic t \<Longrightarrow> CHR 0x0A \<notin> set (topic_line t)"
  by (simp add: topic_line_def topic_value_def wf_topic_def config_word_newline decimal_word)

definition topics_file :: "predefined_topic_info list \<Rightarrow> string" where
  "topics_file ts = concat (map (\<lambda>t. topic_line t @ [CHR 0x0A]) ts)"

lemma lines_topics_file:
  "\<forall>t \<in> set ts. wf_topic t \<Longrightarrow> lines_of (topics_file ts) = map topic_line ts @ ['''']"
  by (induction ts) (auto simp: topics_file_def lines_of_append topic_line_one_line)

lemma topics_file_values:
  "\<forall>t \<in> set ts. wf_topic t \<Longrightarrow>
     line_values ''mqttsn_predefined_topic'' (map topic_line ts @ ['''']) = map topic_value ts"
  by (induction ts) (simp_all add: line_values_def topic_line_read readLine_words [symmetric])

text \<open>C34. A configuration file written from a list of predefined topics is read without a fault and
  gives back exactly these topics, sorted by the id of the client. Ids and topics are words with no
  blank, comment character or line end, and the numeric id is not one of the two reserved values.\<close>

theorem predefined_topics_roundtrip:
  assumes srt: "keyed_sort srt pt_clientId"
    and wf: "\<forall>t \<in> set ts. wf_topic t"
  shows "\<exists>c. ConfigImpl_read \<lparr>is_good = True, is_data = topics_file ts\<rparr> ConfigImpl_init = Inr c \<and>
    mset (fst (ConfigImpl_predefinedTopics srt c)) = mset ts \<and>
    sorted (map pt_clientId (fst (ConfigImpl_predefinedTopics srt c)))"
proof -
  let ?s = "\<lparr>is_good = True, is_data = topics_file ts\<rparr>"
  have ok: "\<forall>l \<in> set (lines_of (is_data ?s)). line_ok l"
    using wf by (auto simp: lines_topics_file line_ok_def topic_line_read readLine_words [symmetric])
  then obtain m where m: "ConfigImpl_readLoop ?s [] = Inr m"
      and v: "multimap_equal_range ''mqttsn_predefined_topic'' m = map topic_value ts"
    using readLoop_lines [of "[]" ?s] topics_file_values [OF wf]
    by (cases "ConfigImpl_readLoop ?s []")
      (auto simp: lines_result_def stream_lines_def multimap_equal_range_def lines_topics_file [OF wf] line_ok_def
        readLine_words)
  let ?c = "ConfigImpl_init\<lparr>cf_map := m\<rparr>"
  have "List.map_filter ConfigImpl_parseTopic (map topic_value ts) = ts"
    using wf by (induction ts) (auto simp: map_filter_simps parseTopic_value)
  then have "fst (ConfigImpl_predefinedTopics srt ?c) = srt ts" if "ts \<noteq> []"
    using that by (simp add: ConfigImpl_predefinedTopics_def ConfigImpl_init_def v Let_def)
  moreover have "fst (ConfigImpl_predefinedTopics srt ?c) = []" if "ts = []"
    using that by (simp add: ConfigImpl_predefinedTopics_def ConfigImpl_init_def v Let_def)
  moreover have "mset (srt ts) = mset ts" "sorted (map pt_clientId (srt ts))"
    using srt by (simp_all add: keyed_sort_def)
  ultimately show ?thesis using m
    by (cases "ts = []") (auto simp: ConfigImpl_read_def)
qed

theorem predefined_topics_roundtrip_witness:
  "let ts = [\<lparr>pt_clientId = ''dev2'', pt_topic = ''a/b'', pt_topicId = 12\<rparr>,
       \<lparr>pt_clientId = ''*'', pt_topic = ''c'', pt_topicId = 0xfffe\<rparr>] in
   \<exists>c. ConfigImpl_read \<lparr>is_good = True, is_data = topics_file ts\<rparr> ConfigImpl_init = Inr c \<and>
     mset (fst (ConfigImpl_predefinedTopics (sort_key pt_clientId) c)) = mset ts"
proof -
  let ?ts = "[\<lparr>pt_clientId = ''dev2'', pt_topic = ''a/b'', pt_topicId = 12\<rparr>,
       \<lparr>pt_clientId = ''*'', pt_topic = ''c'', pt_topicId = 0xfffe\<rparr>]"
  have "\<forall>t \<in> set ?ts. wf_topic t" by (simp add: wf_topic_def config_word_def TrailingChars_def)
  from predefined_topics_roundtrip [OF stable_sort.keyed_sort_axioms this]
  show ?thesis by (auto simp: Let_def)
qed

text \<open>A line that consists of a word, a blank and a carriage return, as a file with Windows line
  ends has it for an option without a value, stops the reader: the value would start behind its end.\<close>

theorem carriage_return_line_faults:
  assumes "config_word w"
  shows "ConfigImpl_readLine (w @ [CHR '' '', CHR 0x0D]) = Inl ReversedValueRange"
proof -
  let ?s = "w @ [CHR '' '', CHR 0x0D]"
  have "CHR ''#'' \<notin> set ?s" using assms by (auto simp: config_word_def)
  then have c: "find_first_of ''#'' ?s 0 = None" by (rule no_comment)
  have f: "find_first_of SpaceChars ?s 0 = Some (length w)"
    using config_word_space [OF assms] by (simp add: SpaceChars_def)
  have n: "find_first_not_of SpaceChars ?s (Suc (length w)) = Some (Suc (length w))"
    using next_word [of "[CHR 0x0D]" SpaceChars w "CHR '' ''"] by (simp add: SpaceChars_def)
  have l: "\<exists>p < length w. find_last_not_of TrailingChars ?s = Some p"
  proof -
    obtain w' c where w: "w = w' @ [c]" "c \<notin> set TrailingChars"
      using config_word_ends [OF assms] by (cases w rule: rev_cases) auto
    have "find_last_not_of TrailingChars ?s = Some (length w')" using w(2)
      by (simp add: w(1) find_last_not_of_def nth_append TrailingChars_def)
    then show ?thesis using w(1) by auto
  qed
  then show ?thesis by (auto simp: ConfigImpl_readLine_def c f n)
qed

theorem carriage_return_line_faults_witness:
  "ConfigImpl_readLine (''mqttsn_broker'' @ [CHR '' '', CHR 0x0D]) = Inl ReversedValueRange"
  by (rule carriage_return_line_faults) (simp add: config_word_def TrailingChars_def)

section \<open>Caches\<close>

text \<open>The list of predefined topics is computed once: when it is not empty, reading another file
  and asking again gives the list of the first file.\<close>

theorem reread_keeps_cached_topics:
  assumes "ConfigImpl_read s c = Inr c'" "cf_topics c \<noteq> []"
  shows "ConfigImpl_predefinedTopics srt c' = (cf_topics c, c')"
proof -
  have "cf_topics c' = cf_topics c"
    using assms(1) by (cases "ConfigImpl_readLoop s []") (auto simp: ConfigImpl_read_def)
  with assms(2) show ?thesis by (simp add: ConfigImpl_predefinedTopics_def)
qed

theorem reread_keeps_cached_topics_witness:
  "let t = \<lparr>pt_clientId = ''c'', pt_topic = ''t'', pt_topicId = 5\<rparr>; c = ConfigImpl_init\<lparr>cf_topics := [t]\<rparr> in
   \<exists>c'. ConfigImpl_read \<lparr>is_good = False, is_data = ''''\<rparr> c = Inr c' \<and> cf_map c' = [] \<and>
     fst (ConfigImpl_predefinedTopics id c') = [t]"
proof -
  let ?t = "\<lparr>pt_clientId = ''c'', pt_topic = ''t'', pt_topicId = 5\<rparr>"
  let ?c = "ConfigImpl_init\<lparr>cf_topics := [?t]\<rparr>" and ?s = "\<lparr>is_good = False, is_data = ''''\<rparr>"
  have r: "ConfigImpl_read ?s ?c = Inr (?c\<lparr>cf_map := []\<rparr>)"
    by (simp add: ConfigImpl_read_def ConfigImpl_readLoop.simps)
  from reread_keeps_cached_topics [OF r, of id] r show ?thesis by (simp add: Let_def)
qed

section \<open>Range of topic ids\<close>

text \<open>The range of topic ids handed to a session lies within the ids a gateway may allocate, and
  is not empty unless the file asks for the same reserved id as both limits.\<close>

theorem topicIdAllocRange_valid:
  "1 \<le> fst (ConfigImpl_topicIdAllocRange c) \<and> snd (ConfigImpl_topicIdAllocRange c) \<le> 0xfffe \<and>
   (fst (ConfigImpl_topicIdAllocRange c) \<le> snd (ConfigImpl_topicIdAllocRange c) \<longleftrightarrow>
     ConfigImpl_rawTopicIdRange c \<noteq> (0, 0) \<and> ConfigImpl_rawTopicIdRange c \<noteq> (0xffff, 0xffff))"
proof -
  obtain a b where ab: "ConfigImpl_rawTopicIdRange c = (a, b)" by fastforce
  have r: "ConfigImpl_topicIdAllocRange c = (max 1 (min a b), min 0xfffe (max a b))"
    by (auto simp: ConfigImpl_topicIdAllocRange_def ab Config_DefaultMinTopicId_def
        Config_DefaultMaxTopicId_def max_def min_def)
  have hi: "x \<le> 0xfffe \<longleftrightarrow> x \<noteq> 0xffff" for x :: u16
  proof -
    have "unat x < 2 ^ LENGTH(16)" by (rule unsigned_less)
    then show ?thesis by (auto simp: word_le_nat_alt word_unat_eq_iff)
  qed
  have lo: "1 \<le> x \<longleftrightarrow> x \<noteq> 0" for x :: u16
    by (auto simp: word_le_nat_alt word_unat_eq_iff)
  have "max 1 (min a b) \<le> min 0xfffe (max a b) \<longleftrightarrow>
      (1 \<le> a \<or> 1 \<le> b) \<and> (a \<le> 0xfffe \<or> b \<le> 0xfffe)"
    by (simp only: max.bounded_iff min.bounded_iff min_le_iff_disj le_max_iff_disj) auto
  also have "\<dots> \<longleftrightarrow> (a, b) \<noteq> (0, 0) \<and> (a, b) \<noteq> (0xffff, 0xffff)"
    by (auto simp: hi lo)
  finally show ?thesis by (simp add: r ab)
qed
end
