(* ===== verification/Ga_Sockets.thy ===== *)
theory Ga_Sockets
  imports Gw_Config
begin

text \<open>
  The sockets of the gateway application, \<^verbatim>\<open>src/gateway/app/gateway\<close>: the socket to the broker
  (\<^verbatim>\<open>GatewayIoBrokerSocket\<close> and \<^verbatim>\<open>GatewayIoBrokerSocket_Tcp\<close>), the socket of one client
  (\<^verbatim>\<open>GatewayIoClientSocket\<close> and \<^verbatim>\<open>GatewayIoClientSocket_Udp\<close>) and the acceptor that owns the datagram
  socket all clients share (\<^verbatim>\<open>GatewayIoClientAcceptor\<close> and \<^verbatim>\<open>GatewayIoClientAcceptor_Udp\<close>). The
  operations of the network library are asynchronous: a call only starts one and the library reports
  its end later. The model counts the operations that have been started and not reported yet, and the
  report of each is a handler of its own. What the library reports (bytes, counts, errors) is an
  argument of the handler.
\<close>

section \<open>Outcomes of an asynchronous operation\<close>

datatype io_result = Io_Success | Io_Aborted | Io_Error

text \<open>An address and a port. The addresses are those of version 4.\<close>

type_synonym endpoint = "u32 \<times> u16"

section \<open>The socket to the broker\<close>

datatype tcp_state = State_Disconnected | State_TryingToConnect | State_Connected

datatype broker_report = ReportConnected | ReportError | ReportData data_buf

record broker_socket =
  bs_state :: tcp_state
  bs_sentData :: "data_buf list"
  bs_callbacks :: "bool \<times> bool \<times> bool"
  bs_posted :: nat
  bs_resolving :: nat
  bs_connecting :: nat
  bs_reading :: nat
  bs_writing :: nat
  bs_written :: data_buf
  bs_reports :: "broker_report list"
  bs_asserts :: bool

text \<open>\<^term>\<open>bs_callbacks\<close> says which of the data, connection and error callbacks are set,
  \<^term>\<open>bs_written\<close> holds the bytes the connection has taken, and \<^term>\<open>bs_asserts\<close> that no assertion
  has failed.\<close>

definition BrokerSocket_init :: broker_socket where
  "BrokerSocket_init = \<lparr>bs_state = State_Disconnected, bs_sentData = [],
     bs_callbacks = (False, False, False), bs_posted = 0, bs_resolving = 0, bs_connecting = 0,
     bs_reading = 0, bs_writing = 0, bs_written = [], bs_reports = [], bs_asserts = True\<rparr>"

text \<open>The kind of socket is looked up with the connection type of the clients.\<close>

definition BrokerSocket_create :: "config_impl \<Rightarrow> broker_socket option" where
  "BrokerSocket_create c =
     (case ConfigImpl_clientConnectionType c of
        ClientConnectionType_Udp \<Rightarrow> Some BrokerSocket_init
      | ClientConnectionType_ValuesLimit \<Rightarrow> None)"

definition BrokerSocket_report :: "broker_report \<Rightarrow> broker_socket \<Rightarrow> broker_socket" where
  "BrokerSocket_report r b = b\<lparr>bs_reports := bs_reports b @ [r]\<rparr>"

definition BrokerSocket_assert :: "bool \<Rightarrow> broker_socket \<Rightarrow> broker_socket" where
  "BrokerSocket_assert p b = (if p then b else b\<lparr>bs_asserts := False\<rparr>)"

definition BrokerSocket_startImpl :: "broker_socket \<Rightarrow> bool \<times> broker_socket" where
  "BrokerSocket_startImpl b = (True, b\<lparr>bs_posted := bs_posted b + 1\<rparr>)"

definition BrokerSocket_start :: "broker_socket \<Rightarrow> bool \<times> broker_socket" where
  "BrokerSocket_start b =
     (case bs_callbacks b of (dataCb, connectedCb, errorCb) \<Rightarrow>
        if \<not> dataCb \<or> \<not> errorCb \<or> \<not> connectedCb then (False, b) else BrokerSocket_startImpl b)"

definition BrokerSocket_posted :: "broker_socket \<Rightarrow> broker_socket" where
  "BrokerSocket_posted b = BrokerSocket_report ReportConnected (b\<lparr>bs_posted := bs_posted b - 1\<rparr>)"

definition BrokerSocket_doRead :: "broker_socket \<Rightarrow> broker_socket" where
  "BrokerSocket_doRead b =
     (let b = BrokerSocket_assert (bs_state b = State_Connected) b
      in b\<lparr>bs_reading := bs_reading b + 1\<rparr>)"

definition BrokerSocket_sendPendingWrites :: "broker_socket \<Rightarrow> broker_socket" where
  "BrokerSocket_sendPendingWrites b =
     (if bs_sentData b = [] then b
      else let b = BrokerSocket_assert (bs_state b = State_Connected) b
           in b\<lparr>bs_writing := bs_writing b + 1\<rparr>)"

definition BrokerSocket_doConnect :: "broker_socket \<Rightarrow> broker_socket" where
  "BrokerSocket_doConnect b =
     b\<lparr>bs_state := State_TryingToConnect, bs_resolving := bs_resolving b + 1\<rparr>"

definition BrokerSocket_sendDataImpl :: "data_buf \<Rightarrow> broker_socket \<Rightarrow> broker_socket" where
  "BrokerSocket_sendDataImpl buf b =
     (let sendRightAway = (bs_state b = State_Connected \<and> bs_sentData b = []);
          b = b\<lparr>bs_sentData := bs_sentData b @ [buf]\<rparr>
      in if sendRightAway then BrokerSocket_sendPendingWrites b
         else if bs_state b = State_Disconnected then BrokerSocket_doConnect b
         else b)"

definition BrokerSocket_resolved :: "io_result \<Rightarrow> bool \<Rightarrow> broker_socket \<Rightarrow> broker_socket" where
  "BrokerSocket_resolved ec found b =
     (let b = b\<lparr>bs_resolving := bs_resolving b - 1\<rparr>
      in case ec of
        Io_Aborted \<Rightarrow> b
      | Io_Error \<Rightarrow> BrokerSocket_report ReportError b
      | Io_Success \<Rightarrow>
          if \<not> found then BrokerSocket_report ReportError b
          else b\<lparr>bs_connecting := bs_connecting b + 1\<rparr>)"

definition BrokerSocket_connected :: "io_result \<Rightarrow> broker_socket \<Rightarrow> broker_socket" where
  "BrokerSocket_connected ec b =
     (let b = b\<lparr>bs_connecting := bs_connecting b - 1\<rparr>
      in case ec of
        Io_Aborted \<Rightarrow> b
      | Io_Error \<Rightarrow> BrokerSocket_report ReportError b
      | Io_Success \<Rightarrow>
          let b = b\<lparr>bs_state := State_Connected\<rparr>;
              b = BrokerSocket_doRead b
          in BrokerSocket_sendPendingWrites b)"

definition BrokerSocket_readDone :: "io_result \<Rightarrow> data_buf \<Rightarrow> broker_socket \<Rightarrow> broker_socket" where
  "BrokerSocket_readDone ec buf b =
     (let b = b\<lparr>bs_reading := bs_reading b - 1\<rparr>
      in case ec of
        Io_Aborted \<Rightarrow> b
      | Io_Error \<Rightarrow> BrokerSocket_report ReportError b
      | Io_Success \<Rightarrow> BrokerSocket_doRead (BrokerSocket_report (ReportData buf) b))"

text \<open>The end of a write of the first buffer. The handler refers to that buffer, so it must be there
  still: the empty case counts as a failed assertion.\<close>

definition BrokerSocket_writeDone :: "io_result \<Rightarrow> nat \<Rightarrow> broker_socket \<Rightarrow> broker_socket" where
  "BrokerSocket_writeDone ec bytesCount b =
     (let b = b\<lparr>bs_writing := bs_writing b - 1\<rparr>
      in case ec of
        Io_Aborted \<Rightarrow> b
      | Io_Error \<Rightarrow> BrokerSocket_report ReportError b
      | Io_Success \<Rightarrow>
          case bs_sentData b of
            [] \<Rightarrow> BrokerSocket_assert False b
          | buf # bufs \<Rightarrow>
              let b = b\<lparr>bs_written := bs_written b @ take bytesCount buf,
                        bs_sentData := (if length buf \<le> bytesCount then bufs
                                        else drop bytesCount buf # bufs)\<rparr>
              in BrokerSocket_sendPendingWrites b)"

section \<open>The socket of a client\<close>

record client_socket =
  cs_dataReportCb :: bool
  cs_sendDataCb :: bool
  cs_socketDeletedCb :: bool
  cs_started :: bool
  cs_posted :: nat
  cs_pendingData :: "data_buf list"
  cs_reported :: "data_buf list"

definition ClientSocket_init :: client_socket where
  "ClientSocket_init = \<lparr>cs_dataReportCb = False, cs_sendDataCb = False, cs_socketDeletedCb = False,
     cs_started = False, cs_posted = 0, cs_pendingData = [], cs_reported = []\<rparr>"

definition ClientSocket_newDataArrived :: "data_buf \<Rightarrow> client_socket \<Rightarrow> client_socket" where
  "ClientSocket_newDataArrived buf c =
     (if cs_started c \<and> cs_pendingData c = [] then c\<lparr>cs_reported := cs_reported c @ [buf]\<rparr>
      else c\<lparr>cs_pendingData := cs_pendingData c @ [buf]\<rparr>)"

definition ClientSocket_startImpl :: "client_socket \<Rightarrow> bool \<times> client_socket" where
  "ClientSocket_startImpl c =
     (if \<not> cs_sendDataCb c \<or> \<not> cs_socketDeletedCb c then (False, c)
      else (True, c\<lparr>cs_posted := cs_posted c + 1\<rparr>))"

definition ClientSocket_start :: "client_socket \<Rightarrow> bool \<times> client_socket" where
  "ClientSocket_start c = (if \<not> cs_dataReportCb c then (False, c) else ClientSocket_startImpl c)"

function ClientSocket_reportPendingData :: "client_socket \<Rightarrow> client_socket" where
  "ClientSocket_reportPendingData c =
     (case cs_pendingData c of
        [] \<Rightarrow> c
      | buf # bufs \<Rightarrow>
          ClientSocket_reportPendingData
            (c\<lparr>cs_reported := cs_reported c @ [buf], cs_pendingData := bufs\<rparr>))"
  by pat_completeness auto
termination by (relation "measure (length \<circ> cs_pendingData)") auto

declare ClientSocket_reportPendingData.simps [simp del]

definition ClientSocket_posted :: "client_socket \<Rightarrow> client_socket" where
  "ClientSocket_posted c =
     ClientSocket_reportPendingData (c\<lparr>cs_posted := cs_posted c - 1, cs_started := True\<rparr>)"

section \<open>The acceptor\<close>

record write_info =
  wi_endpoint :: endpoint
  wi_data :: data_buf
  wi_ttl :: u32

record acceptor =
  ac_localPort :: u16
  ac_broadcastEndpoint :: endpoint
  ac_lastBroadcastData :: data_buf
  ac_acceptPort :: u16
  ac_broadcastPort :: u16
  ac_broadcastAddress :: string
  ac_defaultTtl :: u32
  ac_broadcastTtl :: u32
  ac_clients :: "endpoint \<rightharpoonup> client_socket"
  ac_pendingWrites :: "write_info list"
  ac_newConnectionReportCb :: bool
  ac_receiving :: nat
  ac_sending :: nat
  ac_sent :: "write_info list"
  ac_reports :: "endpoint list"
  ac_asserts :: bool

text \<open>\<^term>\<open>ac_localPort\<close> is the port the socket is bound to, \<^term>\<open>ac_sent\<close> lists the datagrams handed to
  it with the hop limit set before, and \<^term>\<open>ac_reports\<close> the endpoints reported as new connections.
  \<^term>\<open>ac_clients\<close> maps an endpoint to the socket object it points to: a socket object is entered when
  it is made and erased by its destructor.\<close>

definition getUnsignedConfigValue :: "config_impl \<Rightarrow> string \<Rightarrow> u16 \<Rightarrow> u64" where
  "getUnsignedConfigValue config key defaultValue =
     (case multimap_find key (cf_map config) of
        None \<Rightarrow> ucast defaultValue
      | Some val \<Rightarrow>
          if val = '''' then ucast defaultValue
          else case stoul 10 val of Some n \<Rightarrow> n | None \<Rightarrow> ucast defaultValue)"

definition getListenPort :: "config_impl \<Rightarrow> u16" where
  "getListenPort config = ucast (getUnsignedConfigValue config ''udp_listen_port'' 1883)"

definition getBroadcastPort :: "config_impl \<Rightarrow> u16" where
  "getBroadcastPort config = ucast (getUnsignedConfigValue config ''udp_broadcast_port'' 1883)"

definition getBroadcastAddress :: "config_impl \<Rightarrow> string" where
  "getBroadcastAddress config =
     (case multimap_find ''udp_broadcast_address'' (cf_map config) of
        None \<Rightarrow> ''255.255.255.255''
      | Some val \<Rightarrow> if val = '''' then ''255.255.255.255'' else val)"

definition getBroadcastTtl :: "config_impl \<Rightarrow> u32" where
  "getBroadcastTtl config = ucast (getUnsignedConfigValue config ''udp_broadcast_radius'' 128)"

definition Acceptor_init :: "config_impl \<Rightarrow> acceptor" where
  "Acceptor_init config = \<lparr>ac_localPort = 0, ac_broadcastEndpoint = (0, 0),
     ac_lastBroadcastData = [], ac_acceptPort = getListenPort config,
     ac_broadcastPort = getBroadcastPort config, ac_broadcastAddress = getBroadcastAddress config,
     ac_defaultTtl = 128, ac_broadcastTtl = getBroadcastTtl config, ac_clients = Map.empty,
     ac_pendingWrites = [], ac_newConnectionReportCb = False, ac_receiving = 0, ac_sending = 0,
     ac_sent = [], ac_reports = [], ac_asserts = True\<rparr>"

definition Acceptor_create :: "config_impl \<Rightarrow> acceptor option" where
  "Acceptor_create config =
     (case ConfigImpl_clientConnectionType config of
        ClientConnectionType_Udp \<Rightarrow> Some (Acceptor_init config)
      | ClientConnectionType_ValuesLimit \<Rightarrow> None)"

definition Acceptor_doAccept :: "acceptor \<Rightarrow> acceptor" where
  "Acceptor_doAccept a = a\<lparr>ac_receiving := ac_receiving a + 1\<rparr>"

text \<open>What the network library answers when the socket is set up. The call that binds the socket has
  no error argument, so that it throws: the value \<^term>\<open>Inl ()\<close>.\<close>

record udp_env =
  ue_make_address :: "string \<Rightarrow> u32 option"
  ue_open :: bool
  ue_hops :: "u32 option"
  ue_broadcast :: bool
  ue_bind :: "u16 \<Rightarrow> u16 option"

definition Acceptor_startImpl :: "udp_env \<Rightarrow> acceptor \<Rightarrow> unit + bool \<times> acceptor" where
  "Acceptor_startImpl env a =
     (case ue_make_address env (ac_broadcastAddress a) of
        None \<Rightarrow> Inr (False, a)
      | Some addr \<Rightarrow>
          let a = a\<lparr>ac_broadcastEndpoint := (addr, ac_broadcastPort a)\<rparr>
          in if \<not> ue_open env then Inr (False, a)
             else
               let a = (case ue_hops env of None \<Rightarrow> a | Some ttl \<Rightarrow> a\<lparr>ac_defaultTtl := ttl\<rparr>)
               in if \<not> ue_broadcast env then Inr (False, a)
                  else case ue_bind env (ac_acceptPort a) of
                    None \<Rightarrow> Inl ()
                  | Some port \<Rightarrow> Inr (True, Acceptor_doAccept (a\<lparr>ac_localPort := port\<rparr>)))"

definition Acceptor_start :: "udp_env \<Rightarrow> acceptor \<Rightarrow> unit + bool \<times> acceptor" where
  "Acceptor_start env a =
     (if \<not> ac_newConnectionReportCb a then Inr (False, a) else Acceptor_startImpl env a)"

definition Acceptor_sendPendingWrites :: "acceptor \<Rightarrow> acceptor" where
  "Acceptor_sendPendingWrites a =
     (case ac_pendingWrites a of
        [] \<Rightarrow> a
      | info # infos \<Rightarrow> a\<lparr>ac_sent := ac_sent a @ [info], ac_sending := ac_sending a + 1\<rparr>)"

definition Acceptor_sendData :: "endpoint \<Rightarrow> data_buf \<Rightarrow> u32 \<Rightarrow> acceptor \<Rightarrow> acceptor" where
  "Acceptor_sendData endpoint buf broadcastRadius a =
     (let toSend = (ac_pendingWrites a = []);
          info = (if broadcastRadius > 0
                  then \<lparr>wi_endpoint = ac_broadcastEndpoint a, wi_data = buf, wi_ttl = broadcastRadius\<rparr>
                  else \<lparr>wi_endpoint = endpoint, wi_data = buf, wi_ttl = ac_defaultTtl a\<rparr>);
          a = a\<lparr>ac_pendingWrites := ac_pendingWrites a @ [info]\<rparr>
      in if toSend then Acceptor_sendPendingWrites a else a)"

definition Acceptor_broadcastData :: "data_buf \<Rightarrow> acceptor \<Rightarrow> acceptor" where
  "Acceptor_broadcastData buf a =
     Acceptor_sendData (ac_broadcastEndpoint a) buf (ac_broadcastTtl a) a"

text \<open>The end of a send. An error or a short count is only logged.\<close>

definition Acceptor_sendDone :: "io_result \<Rightarrow> acceptor \<Rightarrow> acceptor" where
  "Acceptor_sendDone ec a =
     (let a = a\<lparr>ac_sending := ac_sending a - 1\<rparr>
      in if ec = Io_Aborted then a
         else case ac_pendingWrites a of
           [] \<Rightarrow> a\<lparr>ac_asserts := False\<rparr>
         | info # infos \<Rightarrow>
             let a = (if wi_endpoint info = ac_broadcastEndpoint a \<and>
                         ac_localPort a = snd (ac_broadcastEndpoint a)
                      then a\<lparr>ac_lastBroadcastData := wi_data info\<rparr> else a);
                 a = a\<lparr>ac_pendingWrites := infos\<rparr>
             in Acceptor_sendPendingWrites a)"

definition Acceptor_ownBroadcast :: "endpoint \<Rightarrow> data_buf \<Rightarrow> acceptor \<Rightarrow> bool" where
  "Acceptor_ownBroadcast sender buf a \<longleftrightarrow>
     ac_lastBroadcastData a \<noteq> [] \<and> snd sender = ac_localPort a \<and> ac_lastBroadcastData a = buf"

text \<open>A datagram has been received.\<close>

definition Acceptor_received :: "io_result \<Rightarrow> endpoint \<Rightarrow> data_buf \<Rightarrow> acceptor \<Rightarrow> acceptor" where
  "Acceptor_received ec sender buf a =
     (let a = a\<lparr>ac_receiving := ac_receiving a - 1\<rparr>
      in case ec of
        Io_Aborted \<Rightarrow> a
      | Io_Error \<Rightarrow> Acceptor_doAccept a
      | Io_Success \<Rightarrow>
          if Acceptor_ownBroadcast sender buf a
          then Acceptor_doAccept (a\<lparr>ac_lastBroadcastData := []\<rparr>)
          else case ac_clients a sender of
            Some c \<Rightarrow>
              Acceptor_doAccept
                (a\<lparr>ac_clients := (ac_clients a)(sender \<mapsto> ClientSocket_newDataArrived buf c)\<rparr>)
          | None \<Rightarrow>
              let c = ClientSocket_init\<lparr>cs_sendDataCb := True, cs_socketDeletedCb := True\<rparr>;
                  c = ClientSocket_newDataArrived buf c;
                  a = a\<lparr>ac_clients := (ac_clients a)(sender \<mapsto> c),
                        ac_reports := ac_reports a @ [sender]\<rparr>
              in Acceptor_doAccept a)"

text \<open>What the owner of the socket of a client does: it sets the data callback, starts the socket, and
  destroys it; the posted part of the start runs later.\<close>

definition Acceptor_clientStart :: "endpoint \<Rightarrow> acceptor \<Rightarrow> bool \<times> acceptor" where
  "Acceptor_clientStart e a =
     (case ac_clients a e of
        None \<Rightarrow> (False, a)
      | Some c \<Rightarrow>
          let (ok, c) = ClientSocket_start (c\<lparr>cs_dataReportCb := True\<rparr>)
          in (ok, a\<lparr>ac_clients := (ac_clients a)(e \<mapsto> c)\<rparr>))"

definition Acceptor_clientPosted :: "endpoint \<Rightarrow> acceptor \<Rightarrow> acceptor" where
  "Acceptor_clientPosted e a =
     (case ac_clients a e of
        None \<Rightarrow> a
      | Some c \<Rightarrow> a\<lparr>ac_clients := (ac_clients a)(e \<mapsto> ClientSocket_posted c)\<rparr>)"

definition Acceptor_socketDeleted :: "endpoint \<Rightarrow> acceptor \<Rightarrow> acceptor" where
  "Acceptor_socketDeleted e a =
     (case ac_clients a e of
        None \<Rightarrow> a\<lparr>ac_asserts := False\<rparr>
      | Some c \<Rightarrow> a\<lparr>ac_clients := (ac_clients a)(e := None)\<rparr>)"

section \<open>First in, first out\<close>

text \<open>The contract the three sockets share. What is pushed is passed on in order: at any moment the
  items passed on, followed by those that wait, are the items pushed so far. The items of a push may
  depend on settings of the state that no operation changes.\<close>

fun lefts :: "('a + 'b) list \<Rightarrow> 'a list" where
  "lefts [] = []"
| "lefts (Inl a # es) = a # lefts es"
| "lefts (Inr e # es) = lefts es"

lemma lefts_append [simp]: "lefts (xs @ ys) = lefts xs @ lefts ys"
  by (induction xs rule: lefts.induct) auto

locale fifo_channel =
  fixes push :: "'a \<Rightarrow> 's \<Rightarrow> 's" and event :: "'e \<Rightarrow> 's \<Rightarrow> 's"
    and passed waiting :: "'s \<Rightarrow> 'x list" and items :: "'s \<Rightarrow> 'a \<Rightarrow> 'x list"
  assumes push_keeps: "passed (push a s) @ waiting (push a s) = passed s @ waiting s @ items s a"
    and event_keeps: "passed (event e s) @ waiting (event e s) = passed s @ waiting s"
    and push_items: "items (push a s) = items s"
    and event_items: "items (event e s) = items s"
begin

lemma run_keeps:
  "passed (fold (case_sum push event) es s) @ waiting (fold (case_sum push event) es s) =
     passed s @ waiting s @ concat (map (items s) (lefts es))"
proof (induction es arbitrary: s rule: lefts.induct)
  case (2 a es)
  show ?case
    using 2 [of "push a s"] push_keeps [of a s] by (simp add: push_items flip: append_assoc)
next
  case (3 e es)
  show ?case
    using 3 [of "event e s"] event_keeps [of e s] by (simp add: event_items flip: append_assoc)
qed simp

text \<open>Hence what has been passed on is a prefix of what was pushed, and all of it when nothing waits.\<close>

lemma run_passed_prefix:
  assumes "passed s = []" "waiting s = []"
  shows "\<exists>rest. concat (map (items s) (lefts es)) = passed (fold (case_sum push event) es s) @ rest"
  using run_keeps [of es s] assms by (metis append_Nil)

end

subsection \<open>The socket to the broker\<close>

datatype broker_event =
    Ev_posted
  | Ev_resolved io_result bool
  | Ev_connected io_result
  | Ev_read io_result data_buf
  | Ev_written io_result nat

fun broker_handler :: "broker_event \<Rightarrow> broker_socket \<Rightarrow> broker_socket" where
  "broker_handler Ev_posted = BrokerSocket_posted"
| "broker_handler (Ev_resolved ec found) = BrokerSocket_resolved ec found"
| "broker_handler (Ev_connected ec) = BrokerSocket_connected ec"
| "broker_handler (Ev_read ec buf) = BrokerSocket_readDone ec buf"
| "broker_handler (Ev_written ec n) = BrokerSocket_writeDone ec n"

text \<open>A handler runs only for an operation that has been started.\<close>

fun broker_enabled :: "broker_event \<Rightarrow> broker_socket \<Rightarrow> bool" where
  "broker_enabled Ev_posted b \<longleftrightarrow> 0 < bs_posted b"
| "broker_enabled (Ev_resolved ec found) b \<longleftrightarrow> 0 < bs_resolving b"
| "broker_enabled (Ev_connected ec) b \<longleftrightarrow> 0 < bs_connecting b"
| "broker_enabled (Ev_read ec buf) b \<longleftrightarrow> 0 < bs_reading b"
| "broker_enabled (Ev_written ec n) b \<longleftrightarrow> 0 < bs_writing b"

lemmas broker_socket_defs =
  BrokerSocket_sendDataImpl_def BrokerSocket_sendPendingWrites_def BrokerSocket_doConnect_def
  BrokerSocket_doRead_def BrokerSocket_posted_def BrokerSocket_resolved_def
  BrokerSocket_connected_def BrokerSocket_readDone_def BrokerSocket_writeDone_def
  BrokerSocket_report_def BrokerSocket_assert_def Let_def

interpretation broker_channel: fifo_channel BrokerSocket_sendDataImpl broker_handler
  bs_written "\<lambda>b. concat (bs_sentData b)" "\<lambda>_ buf. buf"
proof unfold_locales
  show "bs_written (BrokerSocket_sendDataImpl buf b) @ concat (bs_sentData (BrokerSocket_sendDataImpl buf b)) =
      bs_written b @ concat (bs_sentData b) @ buf" for buf b
    by (simp add: broker_socket_defs)
  show "bs_written (broker_handler e b) @ concat (bs_sentData (broker_handler e b)) =
      bs_written b @ concat (bs_sentData b)" for e b
    by (cases e) (simp_all add: broker_socket_defs split: io_result.split list.split)
qed simp_all

inductive broker_run :: "(data_buf + broker_event) list \<Rightarrow> broker_socket \<Rightarrow> bool" where
  run_start: "broker_run [] (snd (BrokerSocket_start (BrokerSocket_init\<lparr>bs_callbacks := (True, True, True)\<rparr>)))"
| run_send: "broker_run es b \<Longrightarrow> broker_run (es @ [Inl buf]) (BrokerSocket_sendDataImpl buf b)"
| run_event: "broker_run es b \<Longrightarrow> broker_enabled e b \<Longrightarrow>
     broker_run (es @ [Inr e]) (broker_handler e b)"

definition write_failed :: "data_buf + broker_event \<Rightarrow> bool" where
  "write_failed e \<longleftrightarrow> (\<exists>ec n. e = Inr (Ev_written ec n) \<and> ec \<noteq> Io_Success)"

text \<open>Which operations can be under way in which state of the connection. A write is under way
  exactly when data wait, unless a write has failed.\<close>

definition broker_ok :: "bool \<Rightarrow> broker_socket \<Rightarrow> bool" where
  "broker_ok failed b \<longleftrightarrow>
     bs_asserts b \<and>
     (bs_state b = State_Disconnected \<longrightarrow>
        bs_sentData b = [] \<and> bs_resolving b = 0 \<and> bs_connecting b = 0 \<and> bs_reading b = 0 \<and> bs_writing b = 0) \<and>
     (bs_state b = State_TryingToConnect \<longrightarrow>
        bs_resolving b + bs_connecting b \<le> 1 \<and> bs_reading b = 0 \<and> bs_writing b = 0) \<and>
     (bs_state b = State_Connected \<longrightarrow>
        bs_resolving b = 0 \<and> bs_connecting b = 0 \<and> bs_reading b \<le> 1 \<and> bs_writing b \<le> 1 \<and>
        (bs_sentData b = [] \<longrightarrow> bs_writing b = 0) \<and>
        (\<not> failed \<longrightarrow> bs_sentData b \<noteq> [] \<longrightarrow> bs_writing b = 1))"

lemma broker_ok_send: "broker_ok f b \<Longrightarrow> broker_ok f (BrokerSocket_sendDataImpl buf b)"
  by (cases "bs_state b") (auto simp: broker_ok_def broker_socket_defs)

text \<open>In which state an outstanding operation finds the socket.\<close>

lemma broker_outstanding:
  assumes "broker_ok f b"
  shows "0 < bs_resolving b \<Longrightarrow> bs_state b = State_TryingToConnect \<and> bs_resolving b = 1 \<and> bs_connecting b = 0"
    and "0 < bs_connecting b \<Longrightarrow> bs_state b = State_TryingToConnect \<and> bs_connecting b = 1 \<and> bs_resolving b = 0"
    and "0 < bs_reading b \<Longrightarrow> bs_state b = State_Connected \<and> bs_reading b = 1"
    and "0 < bs_writing b \<Longrightarrow> bs_state b = State_Connected \<and> bs_writing b = 1 \<and> bs_sentData b \<noteq> []"
  using assms by (cases "bs_state b"; auto simp: broker_ok_def)+

lemma broker_ok_resolved:
  "broker_ok f b \<Longrightarrow> 0 < bs_resolving b \<Longrightarrow> broker_ok f (BrokerSocket_resolved ec found b)"
  by (frule (1) broker_outstanding(1), cases ec; cases found) (simp_all add: broker_ok_def broker_socket_defs)

lemma broker_ok_connected:
  "broker_ok f b \<Longrightarrow> 0 < bs_connecting b \<Longrightarrow> broker_ok f (BrokerSocket_connected ec b)"
  by (frule (1) broker_outstanding(2), cases ec; cases "bs_sentData b") (simp_all add: broker_ok_def broker_socket_defs)

lemma broker_ok_read:
  "broker_ok f b \<Longrightarrow> 0 < bs_reading b \<Longrightarrow> broker_ok f (BrokerSocket_readDone ec buf b)"
  by (frule (1) broker_outstanding(3), cases ec) (simp_all add: broker_ok_def broker_socket_defs)

lemma broker_ok_written:
  "broker_ok f b \<Longrightarrow> 0 < bs_writing b \<Longrightarrow>
     broker_ok (f \<or> ec \<noteq> Io_Success) (BrokerSocket_writeDone ec n b)"
  by (frule (1) broker_outstanding(4), cases ec; cases "bs_sentData b"; cases "tl (bs_sentData b)")
     (simp_all add: broker_ok_def broker_socket_defs)

lemma broker_ok_event:
  assumes "broker_ok f b" "broker_enabled e b"
  shows "broker_ok (f \<or> write_failed (Inr e)) (broker_handler e b)"
proof (cases e)
  case Ev_posted
  then show ?thesis using assms(1)
    by (simp add: write_failed_def broker_ok_def BrokerSocket_posted_def BrokerSocket_report_def)
qed (use assms in \<open>auto simp: write_failed_def intro: broker_ok_resolved broker_ok_connected
    broker_ok_read broker_ok_written\<close>)

lemma broker_run_ok: "broker_run es b \<Longrightarrow> broker_ok (list_ex write_failed es) b"
proof (induction rule: broker_run.induct)
  case run_start
  show ?case
    by (simp add: broker_ok_def BrokerSocket_start_def BrokerSocket_startImpl_def BrokerSocket_init_def)
next
  case (run_send es b buf)
  then show ?case using broker_ok_send by (simp add: write_failed_def)
next
  case (run_event es b e)
  then show ?case using broker_ok_event [of "list_ex write_failed es" b e] by simp
qed

definition broker_started :: broker_socket where
  "broker_started = snd (BrokerSocket_start (BrokerSocket_init\<lparr>bs_callbacks := (True, True, True)\<rparr>))"

lemma broker_run_fold:
  "broker_run es b \<Longrightarrow> b = fold (case_sum BrokerSocket_sendDataImpl broker_handler) es
     broker_started"
  by (induction rule: broker_run.induct) (auto simp: broker_started_def)

text \<open>Runs can be executed.\<close>

fun broker_exec :: "(data_buf + broker_event) list \<Rightarrow> broker_socket \<Rightarrow> broker_socket option" where
  "broker_exec [] b = Some b"
| "broker_exec (Inl buf # es) b = broker_exec es (BrokerSocket_sendDataImpl buf b)"
| "broker_exec (Inr e # es) b = (if broker_enabled e b then broker_exec es (broker_handler e b) else None)"

lemma broker_exec_run:
  "broker_run es0 b \<Longrightarrow> broker_exec es b = Some b' \<Longrightarrow> broker_run (es0 @ es) b'"
proof (induction es b arbitrary: es0 rule: broker_exec.induct)
  case (2 buf es b)
  show ?case using 2(1) [OF run_send [OF 2(2)]] 2(3) by simp
next
  case (3 e es b)
  show ?case using 3(1) [OF _ run_event [OF 3(2)]] 3(3) by (simp split: if_splits)
qed simp

lemmas broker_exec_started = broker_exec_run [OF run_start, simplified, folded broker_started_def]

text \<open>C14. The bytes for the broker. In every run of the socket no assertion fails and at most one
  write is under way; the bytes the connection has taken, followed by those in the queue, are the
  bytes handed to the socket, in order; and once connected, unless a write has failed, a write is under
  way whenever anything is queued, so that nothing is left behind.\<close>

theorem broker_socket_stream:
  assumes "broker_run es b"
  shows "bs_asserts b \<and> bs_writing b \<le> 1 \<and>
    bs_written b @ concat (bs_sentData b) = concat (lefts es) \<and>
    (bs_state b = State_Connected \<and> \<not> list_ex write_failed es \<longrightarrow>
       bs_writing b = (if bs_sentData b = [] then 0 else 1))"
proof (intro conjI)
  have ok: "broker_ok (list_ex write_failed es) b" using assms by (rule broker_run_ok)
  then show "bs_asserts b" by (simp add: broker_ok_def)
  show "bs_writing b \<le> 1" using ok by (cases "bs_state b") (auto simp: broker_ok_def)
  show "bs_state b = State_Connected \<and> \<not> list_ex write_failed es \<longrightarrow>
      bs_writing b = (if bs_sentData b = [] then 0 else 1)"
    using ok by (simp add: broker_ok_def)
  show "bs_written b @ concat (bs_sentData b) = concat (lefts es)"
    using broker_channel.run_keeps [of es broker_started]
    by (simp flip: broker_run_fold [OF assms])
       (simp add: broker_started_def BrokerSocket_start_def BrokerSocket_startImpl_def BrokerSocket_init_def)
qed

text \<open>A run in which the second buffer is queued while the connection is made and the first is
  written in two parts.\<close>

theorem broker_socket_stream_witness:
  "let es = [Inl [1, 2, 3], Inr Ev_posted, Inr (Ev_resolved Io_Success True), Inl [4],
      Inr (Ev_connected Io_Success), Inr (Ev_written Io_Success 2), Inr (Ev_written Io_Success 1)];
     b = the (broker_exec es broker_started) in
   bs_written b = [1, 2, 3] \<and> bs_writing b = 1 \<and> bs_asserts b \<and>
   bs_written b @ concat (bs_sentData b) = concat (lefts es)"
proof -
  let ?es = "[Inl [1, 2, 3], Inr Ev_posted, Inr (Ev_resolved Io_Success True), Inl [4],
      Inr (Ev_connected Io_Success), Inr (Ev_written Io_Success 2), Inr (Ev_written Io_Success 1)]"
  let ?b = "the (broker_exec ?es broker_started)"
  have "broker_exec ?es broker_started \<noteq> None" and w: "bs_written ?b = [1, 2, 3]" "bs_writing ?b = 1"
    by code_simp+
  then have "broker_run ?es ?b" by (auto intro: broker_exec_started)
  from broker_socket_stream [OF this] w show ?thesis by (simp add: Let_def)
qed

subsection \<open>The socket of a client\<close>

lemma reportPendingData_all:
  "ClientSocket_reportPendingData c =
     c\<lparr>cs_reported := cs_reported c @ cs_pendingData c, cs_pendingData := []\<rparr>"
proof (induction c rule: ClientSocket_reportPendingData.induct)
  case (1 c)
  then show ?case
    by (subst ClientSocket_reportPendingData.simps) (cases "cs_pendingData c"; simp)
qed

datatype client_socket_event = Ev_start | Ev_start_posted

fun client_socket_handler :: "client_socket_event \<Rightarrow> client_socket \<Rightarrow> client_socket" where
  "client_socket_handler Ev_start c = snd (ClientSocket_start c)"
| "client_socket_handler Ev_start_posted c = ClientSocket_posted c"

interpretation client_channel: fifo_channel ClientSocket_newDataArrived client_socket_handler
  cs_reported cs_pendingData "\<lambda>_ buf. [buf]"
proof unfold_locales
  show "cs_reported (client_socket_handler e c) @ cs_pendingData (client_socket_handler e c) =
      cs_reported c @ cs_pendingData c" for e c
    by (cases e) (simp_all add: ClientSocket_start_def ClientSocket_startImpl_def
        ClientSocket_posted_def reportPendingData_all)
qed (simp_all add: ClientSocket_newDataArrived_def)

text \<open>A started socket holds nothing back.\<close>

definition client_socket_ok :: "client_socket \<Rightarrow> bool" where
  "client_socket_ok c \<longleftrightarrow> (cs_started c \<longrightarrow> cs_pendingData c = [])"

lemma client_socket_ok_run:
  "client_socket_ok c \<Longrightarrow>
     client_socket_ok (fold (case_sum ClientSocket_newDataArrived client_socket_handler) es c)"
proof (induction es arbitrary: c)
  case (Cons e es)
  have "client_socket_ok (case_sum ClientSocket_newDataArrived client_socket_handler e c)"
  proof (cases e)
    case (Inr f)
    then show ?thesis using Cons.prems
      by (cases f) (auto simp: client_socket_ok_def ClientSocket_start_def ClientSocket_startImpl_def
          ClientSocket_posted_def reportPendingData_all)
  qed (use Cons.prems in \<open>auto simp: client_socket_ok_def ClientSocket_newDataArrived_def\<close>)
  then show ?case using Cons.IH by simp
qed simp

text \<open>The datagrams of a client. Whenever the socket of a client is started, and whatever arrives
  before and after, the datagrams reported are those that arrived, in order: all of them once the
  socket has started, none before.\<close>

theorem client_socket_reports_in_order:
  "let c = fold (case_sum ClientSocket_newDataArrived client_socket_handler) es ClientSocket_init in
   cs_reported c = (if cs_started c then lefts es else [])"
proof -
  let ?run = "\<lambda>es. fold (case_sum ClientSocket_newDataArrived client_socket_handler) es ClientSocket_init"
  have "cs_reported (?run es) @ cs_pendingData (?run es) = lefts es"
    using client_channel.run_keeps [of es ClientSocket_init] by (simp add: ClientSocket_init_def)
  moreover have "client_socket_ok (?run es)"
    by (rule client_socket_ok_run) (simp add: client_socket_ok_def ClientSocket_init_def)
  moreover have "\<not> cs_started (?run es) \<longrightarrow> cs_reported (?run es) = []"
  proof (induction es rule: rev_induct)
    case (snoc e es)
    show ?case
    proof (cases e)
      case (Inr f)
      then show ?thesis using snoc
        by (cases f) (auto simp: ClientSocket_start_def ClientSocket_startImpl_def
            ClientSocket_posted_def reportPendingData_all)
    qed (use snoc in \<open>auto simp: ClientSocket_newDataArrived_def\<close>)
  qed (simp add: ClientSocket_init_def)
  ultimately show ?thesis by (auto simp: Let_def client_socket_ok_def)
qed

subsection \<open>The acceptor\<close>

datatype acceptor_event =
    Ev_received io_result endpoint data_buf
  | Ev_sendDone io_result
  | Ev_clientStart endpoint
  | Ev_clientPosted endpoint
  | Ev_socketDeleted endpoint

fun acceptor_handler :: "acceptor_event \<Rightarrow> acceptor \<Rightarrow> acceptor" where
  "acceptor_handler (Ev_received ec e buf) = Acceptor_received ec e buf"
| "acceptor_handler (Ev_sendDone ec) = Acceptor_sendDone ec"
| "acceptor_handler (Ev_clientStart e) = snd \<circ> Acceptor_clientStart e"
| "acceptor_handler (Ev_clientPosted e) = Acceptor_clientPosted e"
| "acceptor_handler (Ev_socketDeleted e) = Acceptor_socketDeleted e"

text \<open>The acceptor lives as long as the application: its operations are not aborted. A socket object
  is deleted once.\<close>

fun acceptor_enabled :: "acceptor_event \<Rightarrow> acceptor \<Rightarrow> bool" where
  "acceptor_enabled (Ev_received ec e buf) a \<longleftrightarrow> ec \<noteq> Io_Aborted \<and> 0 < ac_receiving a"
| "acceptor_enabled (Ev_sendDone ec) a \<longleftrightarrow> ec \<noteq> Io_Aborted \<and> 0 < ac_sending a"
| "acceptor_enabled (Ev_clientStart e) a \<longleftrightarrow> ac_clients a e \<noteq> None"
| "acceptor_enabled (Ev_clientPosted e) a \<longleftrightarrow>
     (case ac_clients a e of None \<Rightarrow> False | Some c \<Rightarrow> 0 < cs_posted c)"
| "acceptor_enabled (Ev_socketDeleted e) a \<longleftrightarrow> ac_clients a e \<noteq> None"

fun acceptor_send :: "endpoint \<times> data_buf \<times> u32 \<Rightarrow> acceptor \<Rightarrow> acceptor" where
  "acceptor_send (e, buf, radius) = Acceptor_sendData e buf radius"

text \<open>The datagram a request asks for: a request with a radius goes to the broadcast endpoint.\<close>

fun requested :: "acceptor \<Rightarrow> endpoint \<times> data_buf \<times> u32 \<Rightarrow> write_info" where
  "requested a (e, buf, radius) =
     (if 0 < radius
      then \<lparr>wi_endpoint = ac_broadcastEndpoint a, wi_data = buf, wi_ttl = radius\<rparr>
      else \<lparr>wi_endpoint = e, wi_data = buf, wi_ttl = ac_defaultTtl a\<rparr>)"

lemmas acceptor_defs =
  Acceptor_received_def Acceptor_doAccept_def Acceptor_sendDone_def Acceptor_sendPendingWrites_def
  Acceptor_sendData_def Acceptor_clientStart_def Acceptor_clientPosted_def
  Acceptor_socketDeleted_def Let_def



lemma acceptor_send_fixed:
  "ac_broadcastEndpoint (acceptor_send r a) = ac_broadcastEndpoint a"
  "ac_defaultTtl (acceptor_send r a) = ac_defaultTtl a"
  by (cases r; cases "ac_pendingWrites a"; simp add: acceptor_defs)+

lemma acceptor_handler_fixed:
  "ac_broadcastEndpoint (acceptor_handler e a) = ac_broadcastEndpoint a"
  "ac_defaultTtl (acceptor_handler e a) = ac_defaultTtl a"
  by (cases e; auto simp: acceptor_defs split: io_result.split option.split list.split prod.split)+

lemma requested_fixed:
  "requested (acceptor_send r a) = requested a" "requested (acceptor_handler e a) = requested a"
  by (simp_all add: fun_eq_iff acceptor_send_fixed acceptor_handler_fixed)

interpretation acceptor_channel: fifo_channel acceptor_send acceptor_handler
  ac_sent "\<lambda>a. tl (ac_pendingWrites a)" "\<lambda>a r. [requested a r]"
proof unfold_locales
  show "ac_sent (acceptor_send r a) @ tl (ac_pendingWrites (acceptor_send r a)) =
      ac_sent a @ tl (ac_pendingWrites a) @ [requested a r]" for r a
    by (cases r; cases "ac_pendingWrites a") (simp_all add: acceptor_defs)
  show "ac_sent (acceptor_handler e a) @ tl (ac_pendingWrites (acceptor_handler e a)) =
      ac_sent a @ tl (ac_pendingWrites a)" for e a
    by (cases e) (auto simp: acceptor_defs split: io_result.split option.split list.split prod.split)
qed (simp_all add: requested_fixed)

inductive acceptor_run ::
    "acceptor \<Rightarrow> (endpoint \<times> data_buf \<times> u32 + acceptor_event) list \<Rightarrow> acceptor \<Rightarrow> bool"
  for a0 :: acceptor where
  accept_start: "acceptor_run a0 [] a0"
| accept_send: "acceptor_run a0 es a \<Longrightarrow> acceptor_run a0 (es @ [Inl r]) (acceptor_send r a)"
| accept_event: "acceptor_run a0 es a \<Longrightarrow> acceptor_enabled e a \<Longrightarrow>
     acceptor_run a0 (es @ [Inr e]) (acceptor_handler e a)"

definition acceptor_ok :: "acceptor \<Rightarrow> bool" where
  "acceptor_ok a \<longleftrightarrow> ac_asserts a \<and> ac_receiving a = 1 \<and>
     ac_sending a = (if ac_pendingWrites a = [] then 0 else 1) \<and>
     (\<forall>c \<in> ran (ac_clients a). client_socket_ok c)"

lemma ran_updD: "c \<in> ran (m(k \<mapsto> v)) \<Longrightarrow> c = v \<or> c \<in> ran m"
  by (auto simp: ran_def split: if_splits)

lemma ran_delD: "c \<in> ran (m(k := None)) \<Longrightarrow> c \<in> ran m"
  by (auto simp: ran_def split: if_splits)

lemma client_socket_ok_ops:
  "client_socket_ok c \<Longrightarrow> client_socket_ok (ClientSocket_newDataArrived buf c)"
  "client_socket_ok c \<Longrightarrow> client_socket_ok (snd (ClientSocket_start (c\<lparr>cs_dataReportCb := v\<rparr>)))"
  "client_socket_ok (ClientSocket_posted c)"
  "client_socket_ok (ClientSocket_newDataArrived buf
     (ClientSocket_init\<lparr>cs_sendDataCb := True, cs_socketDeletedCb := True\<rparr>))"
  by (simp_all add: client_socket_ok_def ClientSocket_newDataArrived_def ClientSocket_start_def
      ClientSocket_startImpl_def ClientSocket_posted_def reportPendingData_all ClientSocket_init_def)

lemma acceptor_ok_send: "acceptor_ok a \<Longrightarrow> acceptor_ok (acceptor_send r a)"
  by (cases r; cases "ac_pendingWrites a") (simp_all add: acceptor_ok_def acceptor_defs)

lemma acceptor_ok_sendDone:
  "acceptor_ok a \<Longrightarrow> ec \<noteq> Io_Aborted \<Longrightarrow> 0 < ac_sending a \<Longrightarrow> acceptor_ok (Acceptor_sendDone ec a)"
  by (cases "ac_pendingWrites a"; cases "tl (ac_pendingWrites a)")
     (simp_all add: acceptor_ok_def acceptor_defs)

lemma acceptor_ok_clients:
  "acceptor_ok a \<Longrightarrow> (\<And>c. c \<in> ran m \<Longrightarrow> client_socket_ok c) \<Longrightarrow> acceptor_ok (a\<lparr>ac_clients := m\<rparr>)"
  by (simp add: acceptor_ok_def)

lemma acceptor_okD: "acceptor_ok a \<Longrightarrow> c \<in> ran (ac_clients a) \<Longrightarrow> client_socket_ok c"
  by (simp add: acceptor_ok_def)

lemma acceptor_ok_received:
  assumes ok: "acceptor_ok a" and ec: "ec \<noteq> Io_Aborted"
  shows "acceptor_ok (Acceptor_received ec sender buf a)"
proof -
  have known: "client_socket_ok (ClientSocket_newDataArrived buf c)" if "ac_clients a sender = Some c" for c
    using ok that by (auto intro!: client_socket_ok_ops acceptor_okD ranI)
  have clients: "client_socket_ok c'" if "c' \<in> ran ((ac_clients a)(sender \<mapsto> c))" "client_socket_ok c" for c c'
    using ok that by (auto dest!: ran_updD intro: acceptor_okD)
  show ?thesis
    using ok ec known clients client_socket_ok_ops(4)
    by (cases ec) (auto simp: Acceptor_received_def Acceptor_doAccept_def acceptor_ok_def Let_def
        split: option.split)
qed

lemma acceptor_ok_client_ops:
  assumes "acceptor_ok a"
  shows "acceptor_ok (snd (Acceptor_clientStart e a))" "acceptor_ok (Acceptor_clientPosted e a)"
    "ac_clients a e \<noteq> None \<Longrightarrow> acceptor_ok (Acceptor_socketDeleted e a)"
proof -
  show "acceptor_ok (snd (Acceptor_clientStart e a))"
  proof (cases "ac_clients a e")
    case (Some c)
    then have "client_socket_ok (snd (ClientSocket_start (c\<lparr>cs_dataReportCb := True\<rparr>)))"
      using assms by (auto intro!: client_socket_ok_ops acceptor_okD ranI)
    then show ?thesis using assms Some
      by (auto simp: Acceptor_clientStart_def Let_def case_prod_beta dest!: ran_updD
          intro!: acceptor_ok_clients intro: acceptor_okD)
  qed (use assms in \<open>simp add: Acceptor_clientStart_def\<close>)
  show "acceptor_ok (Acceptor_clientPosted e a)"
    using assms client_socket_ok_ops(3)
    by (auto simp: Acceptor_clientPosted_def dest!: ran_updD
        intro!: acceptor_ok_clients intro: acceptor_okD split: option.split)
  show "acceptor_ok (Acceptor_socketDeleted e a)" if "ac_clients a e \<noteq> None"
    using assms that
    by (auto simp: Acceptor_socketDeleted_def dest!: ran_delD
        intro!: acceptor_ok_clients intro: acceptor_okD split: option.split)
qed

lemma acceptor_ok_event: "acceptor_ok a \<Longrightarrow> acceptor_enabled e a \<Longrightarrow> acceptor_ok (acceptor_handler e a)"
  by (cases e) (auto simp: acceptor_ok_received acceptor_ok_sendDone acceptor_ok_client_ops)

lemma acceptor_run_ok: "acceptor_run a0 es a \<Longrightarrow> acceptor_ok a0 \<Longrightarrow> acceptor_ok a"
  by (induction rule: acceptor_run.induct) (auto intro: acceptor_ok_send acceptor_ok_event)

lemma acceptor_run_fold:
  "acceptor_run a0 es a \<Longrightarrow> a = fold (case_sum acceptor_send acceptor_handler) es a0"
  by (induction rule: acceptor_run.induct) auto

lemma acceptor_started_ok:
  "Acceptor_startImpl env (Acceptor_init config) = Inr (True, a) \<Longrightarrow> acceptor_ok a"
  by (auto simp: Acceptor_startImpl_def Acceptor_init_def Acceptor_doAccept_def acceptor_ok_def Let_def
      split: option.splits if_splits)

lemma acceptor_started_empty:
  "Acceptor_startImpl env (Acceptor_init config) = Inr (True, a) \<Longrightarrow>
     ac_sent a = [] \<and> ac_pendingWrites a = [] \<and> ac_clients a = Map.empty"
  by (auto simp: Acceptor_startImpl_def Acceptor_init_def Acceptor_doAccept_def Let_def
      split: option.splits if_splits)

text \<open>C15. The shared datagram socket. In every run of an acceptor that has started, no assertion
  fails, a reception is always under way, one send is under way exactly when datagrams are queued, the
  datagrams handed to the socket are those requested, in order and to the right endpoint, except for
  those that still wait behind the one being sent, and every socket of a client that is started
  has reported all its datagrams.\<close>

theorem acceptor_runs:
  assumes "Acceptor_startImpl env (Acceptor_init config) = Inr (True, a0)" and "acceptor_run a0 es a"
  shows "ac_asserts a \<and> ac_receiving a = 1 \<and>
    ac_sending a = (if ac_pendingWrites a = [] then 0 else 1) \<and>
    ac_sent a @ tl (ac_pendingWrites a) = map (requested a0) (lefts es) \<and>
    (\<forall>c \<in> ran (ac_clients a). cs_started c \<longrightarrow> cs_pendingData c = [])"
proof -
  have "acceptor_ok a" using acceptor_run_ok [OF assms(2) acceptor_started_ok [OF assms(1)]] .
  moreover have "ac_sent a @ tl (ac_pendingWrites a) = map (requested a0) (lefts es)"
    using acceptor_channel.run_keeps [of es a0] acceptor_started_empty [OF assms(1)]
    by (simp flip: acceptor_run_fold [OF assms(2)])
  ultimately show ?thesis by (simp add: acceptor_ok_def client_socket_ok_def)
qed

definition got_from :: "endpoint \<Rightarrow> acceptor \<Rightarrow> data_buf list" where
  "got_from e a = (case ac_clients a e of None \<Rightarrow> [] | Some c \<Rightarrow> cs_reported c @ cs_pendingData c)"

text \<open>Which socket a datagram reaches. A datagram that repeats the last broadcast of the gateway
  from its own port is dropped, once. Any other goes to the end of what the socket of its sender has
  got, where the first datagram of a sender makes the socket and is reported as a new connection; no
  other socket changes.\<close>

theorem acceptor_demultiplexes:
  "let a' = Acceptor_received Io_Success sender buf a in
    if Acceptor_ownBroadcast sender buf a
    then ac_clients a' = ac_clients a \<and> ac_reports a' = ac_reports a \<and> ac_lastBroadcastData a' = []
    else got_from sender a' = got_from sender a @ [buf] \<and>
      (ac_clients a')(sender := None) = (ac_clients a)(sender := None) \<and>
      ac_reports a' = ac_reports a @ (if ac_clients a sender = None then [sender] else [])"
proof -
  have new: "cs_reported (ClientSocket_newDataArrived buf c) @ cs_pendingData (ClientSocket_newDataArrived buf c) =
      cs_reported c @ cs_pendingData c @ [buf]" for c buf
    using client_channel.push_keeps by simp
  show ?thesis
    by (cases "ac_clients a sender")
       (auto simp: got_from_def Acceptor_received_def Acceptor_doAccept_def Let_def new
          Acceptor_ownBroadcast_def ClientSocket_init_def)
qed

text \<open>Runs of the acceptor can be executed.\<close>

fun acceptor_exec ::
    "(endpoint \<times> data_buf \<times> u32 + acceptor_event) list \<Rightarrow> acceptor \<Rightarrow> acceptor option" where
  "acceptor_exec [] a = Some a"
| "acceptor_exec (Inl r # es) a = acceptor_exec es (acceptor_send r a)"
| "acceptor_exec (Inr e # es) a =
     (if acceptor_enabled e a then acceptor_exec es (acceptor_handler e a) else None)"

lemma acceptor_exec_run:
  "acceptor_run a0 es0 a \<Longrightarrow> acceptor_exec es a = Some a' \<Longrightarrow> acceptor_run a0 (es0 @ es) a'"
proof (induction es a arbitrary: es0 rule: acceptor_exec.induct)
  case (2 r es a)
  show ?case using 2(1) [OF accept_send [OF 2(2)]] 2(3) by simp
next
  case (3 e es a)
  show ?case using 3(1) [OF _ accept_event [OF 3(2)]] 3(3) by (simp split: if_splits)
qed simp

lemmas acceptor_exec_start = acceptor_exec_run [OF accept_start, simplified]

definition ex_udp_env :: udp_env where
  "ex_udp_env = \<lparr>ue_make_address = (\<lambda>s. if s = ''255.255.255.255'' then Some (- 1) else None),
     ue_open = True, ue_hops = Some 64, ue_broadcast = True, ue_bind = (\<lambda>p. Some p)\<rparr>"

definition ex_acceptor :: acceptor where
  "ex_acceptor = snd (projr (Acceptor_startImpl ex_udp_env (Acceptor_init ConfigImpl_init)))"

definition ex_acceptor_events :: "(endpoint \<times> data_buf \<times> u32 + acceptor_event) list" where
  "ex_acceptor_events = [Inr (Ev_received Io_Success (7, 9000) [1]), Inr (Ev_clientStart (7, 9000)),
     Inr (Ev_received Io_Success (7, 9000) [2]), Inr (Ev_clientPosted (7, 9000)),
     Inl ((7, 9000), [3], 0), Inl ((7, 9000), [4], 1), Inr (Ev_sendDone Io_Success),
     Inr (Ev_sendDone Io_Error), Inr (Ev_received Io_Success (9, 1883) [4])]"

theorem acceptor_runs_witness:
  "let a = the (acceptor_exec ex_acceptor_events ex_acceptor) in
   map_option cs_reported (ac_clients a (7, 9000)) = Some [[1], [2]] \<and>
   ac_clients a (9, 1883) = None \<and> ac_lastBroadcastData a = [] \<and> ac_receiving a = 1 \<and>
   map wi_endpoint (ac_sent a) = [(7, 9000), (- 1, 1883)] \<and> map wi_ttl (ac_sent a) = [64, 1] \<and>
   ac_sent a = map (requested ex_acceptor) (lefts ex_acceptor_events)"
proof -
  let ?a = "the (acceptor_exec ex_acceptor_events ex_acceptor)"
  have "acceptor_exec ex_acceptor_events ex_acceptor \<noteq> None" and
    start: "Acceptor_startImpl ex_udp_env (Acceptor_init ConfigImpl_init) = Inr (True, ex_acceptor)" and
    v: "map_option cs_reported (ac_clients ?a (7, 9000)) = Some [[1], [2]]"
      "ac_clients ?a (9, 1883) = None" "ac_lastBroadcastData ?a = []" "ac_pendingWrites ?a = []"
      "map wi_endpoint (ac_sent ?a) = [(7, 9000), (- 1, 1883)]" "map wi_ttl (ac_sent ?a) = [64, 1]"
    by (code_simp, simp add: ex_acceptor_def, code_simp+)
  then have "acceptor_run ex_acceptor ex_acceptor_events ?a" by (auto intro: acceptor_exec_start)
  from acceptor_runs [OF start this] v show ?thesis by (simp add: Let_def)
qed

text \<open>The broker socket is chosen by the connection type of the clients, so that any connection type
  given for the broker, known or not, gives a socket.\<close>

lemma multimap_find_insert_other:
  "k \<noteq> k' \<Longrightarrow> multimap_find k (multimap_insert k' v xs) = multimap_find k xs"
  by (induction k' v xs rule: multimap_insert.induct) (auto simp: multimap_find_def)

theorem broker_type_ignored:
  "BrokerSocket_create (c\<lparr>cf_map := multimap_insert ''mqttsn_broker_socket'' ty (cf_map c)\<rparr>) =
     BrokerSocket_create c"
  by (simp add: BrokerSocket_create_def ConfigImpl_clientConnectionType_def
      ConfigImpl_stringValue_def multimap_find_insert_other)

end
