(* ===== verification/Gw_App.thy ===== *)
theory Gw_App
  imports Gw_Session Gw_Config
begin

text \<open>
  How the gateway application feeds its configuration into a session: the part of \<^verbatim>\<open>GatewaySession\<close>
  of \<^verbatim>\<open>src/gateway/app/gateway/GatewaySession.cpp\<close> that sets the parameters of the session, registers
  the predefined topics of a client that has connected, and looks up the credentials of a client. The
  broker link, the timers and the sessions of a forwarder follow in \<open>Ga_Sessions\<close>.
\<close>

section \<open>Definitions\<close>

definition WildcardStr :: string where
  "WildcardStr = ''*''"

text \<open>The parameters of the session, in the order of \<^verbatim>\<open>startSession\<close>. The result of the last call is
  not looked at.\<close>

definition GatewaySession_configure :: "u64 \<Rightarrow> config_impl \<Rightarrow> session \<Rightarrow> session" where
  "GatewaySession_configure maxSize c s =
     (let topicIdsAllocRange = ConfigImpl_topicIdAllocRange c;
          s = SessionImpl_setGatewayId (ConfigImpl_gatewayId c) s;
          s = SessionImpl_setRetryPeriod (ConfigImpl_retryPeriod c) s;
          s = SessionImpl_setRetryCount (ConfigImpl_retryCount c) s;
          s = SessionImpl_setSleepingClientMsgLimit maxSize (ConfigImpl_sleepingClientMsgLimit c) s;
          s = SessionImpl_setDefaultClientId (ConfigImpl_defaultClientId c) s;
          s = SessionImpl_setPubOnlyKeepAlive (ConfigImpl_pubOnlyKeepAlive c) s
      in snd (SessionImpl_setTopicIdAllocationRange (fst topicIdsAllocRange)
           (snd topicIdsAllocRange) s))"

definition GatewaySession_applyForClient ::
    "predefined_topic_info list \<Rightarrow> string \<Rightarrow> session \<Rightarrow> session" where
  "GatewaySession_applyForClient topics cid s =
     (case lower_bound pt_clientId cid topics of
        [] \<Rightarrow> s
      | t # ts \<Rightarrow>
          if pt_clientId t \<noteq> cid then s
          else fold (\<lambda>t s. snd (SessionImpl_addPredefinedTopic (pt_topic t) (pt_topicId t) s))
                 (takeWhile (\<lambda>t. pt_clientId t = cid) (t # ts)) s)"

definition GatewaySession_clientConnected ::
    "(predefined_topic_info list \<Rightarrow> predefined_topic_info list) \<Rightarrow> string \<Rightarrow>
      config_impl \<times> session \<Rightarrow> config_impl \<times> session" where
  "GatewaySession_clientConnected std_sort cid = (\<lambda>(c, s).
     (let (predefinedTopics, c) = ConfigImpl_predefinedTopics std_sort c;
          s = GatewaySession_applyForClient predefinedTopics cid s
      in (c, GatewaySession_applyForClient predefinedTopics WildcardStr s)))"

text \<open>The bytes of a password: a doubled backslash is one, and a backslash, the letter x and two
  more characters are a number.\<close>

function decode_password :: "string \<Rightarrow> data_buf" where
  "decode_password rem =
     (if rem = [] then []
      else if take 2 rem = [CHR 0x5C, CHR 0x5C] then 0x5C # decode_password (drop 2 rem)
      else case (if 4 \<le> length rem \<and> take 2 rem = [CHR 0x5C, CHR ''x'']
                 then stoul 10 (take 2 (drop 2 rem)) else None) of
        Some n \<Rightarrow> ucast n # decode_password (drop 4 rem)
      | None \<Rightarrow> of_char (hd rem) # decode_password (drop 1 rem))"
  by pat_completeness auto
termination by (relation "measure length") auto

declare decode_password.simps [simp del]

definition GatewaySession_getAuthInfoFor ::
    "(config_auth_info list \<Rightarrow> config_auth_info list) \<Rightarrow> string \<Rightarrow> config_impl \<Rightarrow>
      auth_info \<times> config_impl" where
  "GatewaySession_getAuthInfoFor std_sort cid c =
     (let (authInfos, c) = ConfigImpl_authInfos std_sort c;
          iter = lower_bound ai_clientId cid authInfos;
          iter = (if iter = [] \<or> ai_clientId (hd iter) \<noteq> cid
                  then lower_bound ai_clientId WildcardStr authInfos else iter)
      in if iter = [] \<or> ai_clientId (hd iter) \<noteq> cid then (('''', []), c)
         else ((ai_username (hd iter), decode_password (ai_password (hd iter))), c))"

section \<open>Credentials\<close>

text \<open>Credentials of the wildcard client are never used: a client with no entry of its own
  gets empty ones, whatever the file has for the wildcard.\<close>

theorem auth_wildcard_ignored:
  assumes "cid \<notin> ai_clientId ` set (fst (ConfigImpl_authInfos srt c))"
  shows "fst (GatewaySession_getAuthInfoFor srt cid c) = ('''', [])"
proof -
  obtain infos c' where i: "ConfigImpl_authInfos srt c = (infos, c')" by fastforce
  have "iter = [] \<or> ai_clientId (hd iter) \<noteq> cid"
    if "iter = lower_bound ai_clientId k infos" for iter k
  proof (cases iter)
    case (Cons x xs)
    have "x \<in> set iter" by (simp add: Cons)
    then have "x \<in> set infos" using that by (auto simp: lower_bound_def dest: set_dropWhileD)
    then show ?thesis using assms i Cons by auto
  qed simp
  then show ?thesis by (simp add: GatewaySession_getAuthInfoFor_def i Let_def)
qed

theorem auth_wildcard_ignored_witness:
  "let c = ConfigImpl_init\<lparr>cf_map := [(''mqttsn_auth'', ''* user pass'')]\<rparr> in
   map ai_username (fst (ConfigImpl_authInfos (sort_key ai_clientId) c)) = [''user''] \<and>
   fst (GatewaySession_getAuthInfoFor (sort_key ai_clientId) ''dev1'' c) = ('''', [])"
proof -
  let ?c = "ConfigImpl_init\<lparr>cf_map := [(''mqttsn_auth'', ''* user pass'')]\<rparr>"
  have l: "map ai_username (fst (ConfigImpl_authInfos (sort_key ai_clientId) ?c)) = [''user'']"
    "''dev1'' \<notin> ai_clientId ` set (fst (ConfigImpl_authInfos (sort_key ai_clientId) ?c))"
    by code_simp+
  from auth_wildcard_ignored [OF l(2)] l(1) show ?thesis by (simp add: Let_def)
qed

lemma decode_plain:
  "CHR 0x5C \<notin> set p \<Longrightarrow> decode_password p = map of_char p"
proof (induction p)
  case (Cons a p)
  then show ?case by (subst decode_password.simps) auto
qed (simp add: decode_password.simps)

text \<open>A client with exactly one entry in the credentials of the configuration gets its user name
  and, when the password has no escape, the bytes of the password, wherever \<^verbatim>\<open>std::sort\<close> put the entry.\<close>

theorem auth_own_entry_used:
  assumes "keyed_sort srt ai_clientId" "cf_authInfos c = []"
    and "filter (\<lambda>i. ai_clientId i = cid)
       (map (fst \<circ> ConfigImpl_parseAuth) (multimap_equal_range ''mqttsn_auth'' (cf_map c))) = [info]"
    and "cid \<noteq> ''''" "CHR 0x5C \<notin> set (ai_password info)"
  shows "fst (GatewaySession_getAuthInfoFor srt cid c) = (ai_username info, map of_char (ai_password info))"
proof -
  let ?l = "filter (\<lambda>i. ai_clientId i \<noteq> '''')
     (map (fst \<circ> ConfigImpl_parseAuth) (multimap_equal_range ''mqttsn_auth'' (cf_map c)))"
  have f: "filter (\<lambda>i. ai_clientId i = cid) ?l = [info]"
    using assms(3,4) by (simp add: filter_filter conj_commute cong: conj_cong)
  have infos: "fst (ConfigImpl_authInfos srt c) = srt ?l"
    using assms(2,3) by (auto simp: ConfigImpl_authInfos_def Let_def config_fault_if_def)
  have "mset (takeWhile (\<lambda>i. ai_clientId i = cid) (lower_bound ai_clientId cid (srt ?l))) = mset [info]"
    using keyed_sort.block_srt [OF assms(1), of cid ?l] by (simp only: f)
  then have "takeWhile (\<lambda>i. ai_clientId i = cid) (lower_bound ai_clientId cid (srt ?l)) = [info]"
    by (simp only: mset_single_iff mset.simps)
  then obtain r where "lower_bound ai_clientId cid (srt ?l) = info # r" "ai_clientId info = cid"
    by (cases "lower_bound ai_clientId cid (srt ?l)") (auto split: if_splits)
  then show ?thesis using infos decode_plain [OF assms(5)]
    by (simp add: GatewaySession_getAuthInfoFor_def case_prod_beta Let_def)
qed

theorem auth_own_entry_used_witness:
  "let c = ConfigImpl_init\<lparr>cf_map := [(''mqttsn_auth'', ''dev2 u2 p2''), (''mqttsn_auth'', ''dev1 u1 p1'')]\<rparr> in
   fst (GatewaySession_getAuthInfoFor (sort_key ai_clientId) ''dev1'' c) = (''u1'', map of_char ''p1'')"
proof -
  let ?c = "ConfigImpl_init\<lparr>cf_map := [(''mqttsn_auth'', ''dev2 u2 p2''), (''mqttsn_auth'', ''dev1 u1 p1'')]\<rparr>"
  let ?i = "\<lparr>ai_clientId = ''dev1'', ai_username = ''u1'', ai_password = ''p1''\<rparr>"
  have "cf_authInfos ?c = []" "''dev1'' \<noteq> ''''" "CHR 0x5C \<notin> set (ai_password ?i)"
    "filter (\<lambda>i. ai_clientId i = ''dev1'')
       (map (fst \<circ> ConfigImpl_parseAuth) (multimap_equal_range ''mqttsn_auth'' (cf_map ?c))) = [?i]"
    by code_simp+
  from auth_own_entry_used [OF stable_sort.keyed_sort_axioms this(1,4,2,3)]
  show ?thesis by (simp add: Let_def)
qed

text \<open>The two characters after a backslash and the letter x are read as a decimal number although
  they are documented as the notation of a binary byte: two decimal digits give the byte of their decimal
  value, and a byte that needs a letter as its first digit stays the four characters as they are.\<close>

theorem password_escape_is_decimal:
  "(\<forall>a \<in> {0..<10}. \<forall>b \<in> {0..<10}.
      decode_password [CHR 0x5C, CHR ''x'', char_of (a + 48 :: nat), char_of (b + 48 :: nat)] =
        [of_nat (10 * a + b)]) \<and>
   decode_password [CHR 0x5C, CHR ''x'', CHR ''f'', CHR ''f''] = map of_char [CHR 0x5C, CHR ''x'', CHR ''f'', CHR ''f'']"
proof -
  have r: "{0..<10} = {0, 1, 2, 3, 4, 5, 6, 7, 8, 9 :: nat}" by auto
  show ?thesis unfolding r by code_simp
qed

theorem password_escape_is_decimal_witness:
  "decode_password [CHR 0x5C, CHR ''x'', char_of (1 + 48 :: nat), char_of (0 + 48 :: nat)] = [of_nat (10 * 1 + 0)]"
proof -
  have "(1 :: nat) \<in> {0..<10}" "(0 :: nat) \<in> {0..<10}" by simp_all
  then show ?thesis using password_escape_is_decimal by blast
qed

section \<open>Predefined topics\<close>

abbreviation "session_reg s \<equiv> m_regMgr (st s)"

lemma addPredefined_fold:
  assumes "reg_inv (session_reg s)" "\<forall>t \<in> set ts. pt_topicId t \<noteq> 0"
    and "distinct (map pt_topic ts)" "distinct (map pt_topicId ts)"
    and "\<forall>t \<in> set ts. reg_abs (session_reg s) (pt_topic t) = None \<and>
      pt_topicId t \<notin> ran (reg_abs (session_reg s))"
  shows "let s' = fold (\<lambda>t s. snd (SessionImpl_addPredefinedTopic (pt_topic t) (pt_topicId t) s)) ts s
    in reg_inv (session_reg s') \<and> faults s' = faults s \<and>
      reg_abs (session_reg s') = reg_abs (session_reg s) ++ map_of (map (\<lambda>t. (pt_topic t, pt_topicId t)) ts)"
  using assms
proof (induction ts arbitrary: s)
  case (Cons t ts)
  obtain r where r: "RegMgr_regPredefined (pt_topic t) (pt_topicId t) (session_reg s) = Inr (True, r)"
      "reg_inv r" "reg_abs r = (reg_abs (session_reg s))(pt_topic t \<mapsto> pt_topicId t)"
    using reg_predefined_new [of "session_reg s" "pt_topicId t" "pt_topic t"] Cons.prems by auto
  let ?s = "s\<lparr>st := (st s)\<lparr>m_regMgr := r\<rparr>\<rparr>"
  have a: "snd (SessionImpl_addPredefinedTopic (pt_topic t) (pt_topicId t) s) = ?s"
    by (simp add: SessionImpl_addPredefinedTopic_def r(1))
  have "ran (reg_abs r) = insert (pt_topicId t) (ran (reg_abs (session_reg s)))"
    using r(3) Cons.prems by simp
  then have fresh: "\<forall>t' \<in> set ts. reg_abs (session_reg ?s) (pt_topic t') = None \<and>
      pt_topicId t' \<notin> ran (reg_abs (session_reg ?s))"
    using Cons.prems r(3) by (fastforce simp: image_iff)
  have eq: "reg_abs (session_reg s) ++ map_of (map (\<lambda>t. (pt_topic t, pt_topicId t)) (t # ts)) =
      reg_abs r ++ map_of (map (\<lambda>t. (pt_topic t, pt_topicId t)) ts)"
  proof -
    have "pt_topic t \<notin> dom (map_of (map (\<lambda>t. (pt_topic t, pt_topicId t)) ts))"
      using Cons.prems(3) by (auto simp: dom_map_of_conv_image_fst)
    then show ?thesis by (auto simp: r(3) map_add_def fun_eq_iff dom_def split: option.splits)
  qed
  have "reg_inv (session_reg ?s)" "\<forall>t \<in> set ts. pt_topicId t \<noteq> 0" "distinct (map pt_topic ts)"
    "distinct (map pt_topicId ts)"
    using r(2) Cons.prems by simp_all
  from Cons.IH [OF this fresh] show ?case unfolding eq by (simp add: a)
qed simp

text \<open>C36. When a client connects, exactly the configured topics of its id are registered for it,
  in a session that knows none of the topics and ids yet, with no fault, whatever order \<^verbatim>\<open>std::sort\<close>
  left among the entries of one client. The topics and the ids configured for the client are distinct.\<close>

theorem predefined_topics_applied:
  assumes "sorted (map pt_clientId topics)" "reg_inv (session_reg s)"
    and "distinct (map pt_topic (filter (\<lambda>t. pt_clientId t = cid) topics))"
    and "distinct (map pt_topicId (filter (\<lambda>t. pt_clientId t = cid) topics))"
    and "\<forall>t \<in> set topics. pt_clientId t = cid \<longrightarrow> pt_topicId t \<noteq> 0 \<and>
      reg_abs (session_reg s) (pt_topic t) = None \<and> pt_topicId t \<notin> ran (reg_abs (session_reg s))"
  shows "let s' = GatewaySession_applyForClient topics cid s in
    reg_inv (session_reg s') \<and> faults s' = faults s \<and>
    reg_abs (session_reg s') = reg_abs (session_reg s) ++
      map_of (map (\<lambda>t. (pt_topic t, pt_topicId t)) (filter (\<lambda>t. pt_clientId t = cid) topics))"
proof -
  have "GatewaySession_applyForClient topics cid s =
      fold (\<lambda>t s. snd (SessionImpl_addPredefinedTopic (pt_topic t) (pt_topicId t) s))
        (takeWhile (\<lambda>t. pt_clientId t = cid) (lower_bound pt_clientId cid topics)) s"
    by (auto simp: GatewaySession_applyForClient_def split: list.splits)
  also have "\<dots> = fold (\<lambda>t s. snd (SessionImpl_addPredefinedTopic (pt_topic t) (pt_topicId t) s))
        (filter (\<lambda>t. pt_clientId t = cid) topics) s"
    by (simp only: lower_bound_block [OF assms(1)])
  finally show ?thesis using addPredefined_fold [OF assms(2) _ assms(3,4)] assms(5) by simp
qed

theorem predefined_topics_applied_witness:
  "let s = sample_session; topics = [\<lparr>pt_clientId = ''a'', pt_topic = ''x'', pt_topicId = 9\<rparr>,
       \<lparr>pt_clientId = ''b'', pt_topic = ''y'', pt_topicId = 7\<rparr>, \<lparr>pt_clientId = ''b'', pt_topic = ''x'', pt_topicId = 8\<rparr>];
     r = reg_abs (session_reg (GatewaySession_applyForClient topics ''b'' s))
   in r ''x'' = Some 8 \<and> r ''y'' = Some 7"
proof -
  let ?t = "[\<lparr>pt_clientId = ''a'', pt_topic = ''x'', pt_topicId = 9\<rparr>,
       \<lparr>pt_clientId = ''b'', pt_topic = ''y'', pt_topicId = 7 :: u16\<rparr>, \<lparr>pt_clientId = ''b'', pt_topic = ''x'', pt_topicId = 8\<rparr>]"
  have r: "session_reg sample_session = RegMgr_init"
    by (simp add: sample_session_def SessionImpl_start_def SessionImpl_init_def SessionState_init_def
        sample_callbacks_def)
  have s: "sorted (map pt_clientId ?t)" by code_simp
  have "reg_inv (session_reg sample_session)" by (simp add: r)
  from predefined_topics_applied [OF s this, of "''b''"]
  show ?thesis by (simp add: r Let_def)
qed

end
