(* ===== verification/Ga_Sessions.thy ===== *)
theory Ga_Sessions
  imports Ga_Sockets Gw_App
begin

text \<open>
  The sessions of the gateway application: the connection of one \<^verbatim>\<open>GatewaySession\<close> to the broker
  (\<^verbatim>\<open>src/gateway/app/gateway/GatewaySession.cpp\<close>), and how \<^verbatim>\<open>GatewayApp\<close> keeps its sessions, each with
  the sessions of the clients behind a forwarder below it (\<^verbatim>\<open>src/gateway/app/gateway/GatewayApp.cpp\<close>).
  A callback posted to the event loop runs later, and refers to the object that posted it: the model
  keeps the posted callbacks in their order and records a fault when one runs for an object that has
  been destroyed.
\<close>

section \<open>A session and its broker\<close>

record app_session =
  gs_endpoint :: "endpoint option"
  gs_lib :: nat
  gs_clientId :: string
  gs_tickWait :: bool
  gs_tickReqTs :: "nat option"
  gs_brokerData :: data_buf
  gs_brokerSocket :: "broker_socket option"
  gs_reconnectWait :: bool
  gs_brokerConnected :: bool
  gs_destructing :: bool
  gs_hadBrokerData :: bool

text \<open>\<^term>\<open>gs_endpoint\<close> is the endpoint of the socket of the client, which only a primary session has,
  \<^term>\<open>gs_lib\<close> stands for the pointer to the session of the library, \<^term>\<open>gs_tickWait\<close> says that the timer
  of the session runs, since the time \<^term>\<open>gs_tickReqTs\<close> in milliseconds, and \<^term>\<open>gs_reconnectWait\<close> that
  the timer of a new attempt runs.\<close>

definition GatewaySession_init :: "endpoint option \<Rightarrow> nat \<Rightarrow> app_session" where
  "GatewaySession_init clientSocket session = \<lparr>gs_endpoint = clientSocket, gs_lib = session,
     gs_clientId = '''', gs_tickWait = False, gs_tickReqTs = None, gs_brokerData = [], gs_brokerSocket = None, gs_reconnectWait = False,
     gs_brokerConnected = False, gs_destructing = False, gs_hadBrokerData = False\<rparr>"

text \<open>The timer of the session. The clock of the host is an argument; the answer to a cancelled wait
  is the time that has passed, as a 32 bit number, and the flag says that the assertion holds.\<close>

definition GatewaySession_nextTickProgram :: "nat \<Rightarrow> app_session \<Rightarrow> app_session" where
  "GatewaySession_nextTickProgram now g = g\<lparr>gs_tickReqTs := Some now, gs_tickWait := True\<rparr>"

definition GatewaySession_cancelTickWait :: "nat \<Rightarrow> app_session \<Rightarrow> (bool \<times> u32) \<times> app_session" where
  "GatewaySession_cancelTickWait now g =
     (let g = g\<lparr>gs_tickWait := False\<rparr>
      in case gs_tickReqTs g of
        None \<Rightarrow> ((False, of_nat now), g)
      | Some ts \<Rightarrow> ((True, of_nat (now - ts)), g))"

definition GatewaySession_tickTimer :: "io_result \<Rightarrow> app_session \<times> session \<Rightarrow> app_session \<times> session" where
  "GatewaySession_tickTimer ec = (\<lambda>(g, s).
     let g = g\<lparr>gs_tickWait := False\<rparr>
     in if ec = Io_Aborted then (g, s) else (g, SessionImpl_tick s))"

text \<open>A new socket for the broker; the first component says that termination is requested.\<close>

definition GatewaySession_newBrokerSocket :: "config_impl \<Rightarrow> app_session \<Rightarrow> bool \<times> app_session" where
  "GatewaySession_newBrokerSocket config g =
     (case BrokerSocket_create config of
        None \<Rightarrow> (True, g\<lparr>gs_brokerSocket := None\<rparr>)
      | Some b \<Rightarrow>
          let b = b\<lparr>bs_callbacks := (True, True, True)\<rparr>;
              (ok, b) = BrokerSocket_start b
          in (\<not> ok, g\<lparr>gs_brokerSocket := Some b\<rparr>))"

definition GatewaySession_doBrokerConnect ::
    "config_impl \<Rightarrow> app_session \<times> session \<Rightarrow> bool \<times> app_session \<times> session" where
  "GatewaySession_doBrokerConnect config = (\<lambda>(g, s).
     let (g, s) = (if gs_brokerConnected g
                   then (g\<lparr>gs_brokerConnected := False\<rparr>, SessionImpl_setBrokerConnected False s)
                   else (g, s));
         (term, g) = GatewaySession_newBrokerSocket config g
     in (term, g, s))"

definition GatewaySession_doBrokerReconnect :: "app_session \<Rightarrow> app_session" where
  "GatewaySession_doBrokerReconnect g = g\<lparr>gs_reconnectWait := True\<rparr>"

definition GatewaySession_reconnectTimer ::
    "config_impl \<Rightarrow> io_result \<Rightarrow> app_session \<times> session \<Rightarrow> bool \<times> app_session \<times> session" where
  "GatewaySession_reconnectTimer config ec = (\<lambda>(g, s).
     let g = g\<lparr>gs_reconnectWait := False\<rparr>
     in if ec = Io_Aborted then (False, g, s) else GatewaySession_doBrokerConnect config (g, s))"

text \<open>Data of the broker: what the session has not consumed waits for the next report.\<close>

definition GatewaySession_brokerData ::
    "(data_buf \<Rightarrow> mqtt_msg list \<times> nat) \<Rightarrow> data_buf \<Rightarrow> app_session \<times> session \<Rightarrow> app_session \<times> session" where
  "GatewaySession_brokerData processAll buf = (\<lambda>(g, s).
     let g = (if gs_brokerData g \<noteq> [] then g\<lparr>gs_brokerData := gs_brokerData g @ buf\<rparr> else g);
         act = (if gs_brokerData g \<noteq> [] then gs_brokerData g else buf);
         (consumed, s) = SessionImpl_dataFromBroker processAll act s
     in if length act \<le> consumed then (g\<lparr>gs_brokerData := []\<rparr>, s)
        else if gs_brokerData g = [] then (g\<lparr>gs_brokerData := drop consumed buf\<rparr>, s)
        else (g\<lparr>gs_brokerData := drop consumed (gs_brokerData g)\<rparr>, s))"

definition GatewaySession_brokerConnected :: "app_session \<times> session \<Rightarrow> app_session \<times> session" where
  "GatewaySession_brokerConnected = (\<lambda>(g, s).
     (g\<lparr>gs_brokerConnected := True\<rparr>, SessionImpl_setBrokerConnected True s))"

definition GatewaySession_brokerError :: "app_session \<times> session \<Rightarrow> app_session \<times> session" where
  "GatewaySession_brokerError = (\<lambda>(g, s).
     let s = (if gs_brokerConnected g then SessionImpl_setBrokerConnected False s else s);
         g = g\<lparr>gs_brokerConnected := False\<rparr>
     in (GatewaySession_doBrokerReconnect g, s))"

text \<open>The request of the library to send data to the broker.\<close>

definition GatewaySession_sendDataBroker :: "data_buf \<Rightarrow> app_session \<Rightarrow> app_session" where
  "GatewaySession_sendDataBroker buf g =
     g\<lparr>gs_hadBrokerData := True,
       gs_brokerSocket := map_option (BrokerSocket_sendDataImpl buf) (gs_brokerSocket g)\<rparr>"

section \<open>The sessions of the application\<close>

datatype gw_node = GwNode (gn_id: nat) (gn_data: app_session) (gn_fwd: "gw_node list")

fun node_ids :: "gw_node list \<Rightarrow> nat list" where
  "node_ids [] = []"
| "node_ids (GwNode i d fs # ns) = i # node_ids fs @ node_ids ns"

fun find_node :: "nat \<Rightarrow> gw_node list \<Rightarrow> gw_node option" where
  "find_node i [] = None"
| "find_node i (GwNode j d fs # ns) =
     (if i = j then Some (GwNode j d fs)
      else case find_node i fs of Some n \<Rightarrow> Some n | None \<Rightarrow> find_node i ns)"

fun update_node :: "nat \<Rightarrow> (gw_node \<Rightarrow> gw_node) \<Rightarrow> gw_node list \<Rightarrow> gw_node list" where
  "update_node i f [] = []"
| "update_node i f (GwNode j d fs # ns) =
     (if i = j then f (GwNode j d fs) else GwNode j d (update_node i f fs)) # update_node i f ns"

text \<open>Erasing a session from the list that owns it.\<close>

fun erase_node :: "nat \<Rightarrow> gw_node list \<Rightarrow> gw_node list" where
  "erase_node i [] = []"
| "erase_node i (GwNode j d fs # ns) =
     (if i = j then ns else GwNode j d (erase_node i fs) # erase_node i ns)"

datatype posted =
    Post_term nat
  | Post_eraseFwd nat nat
  | Post_fwdDeleted nat nat

text \<open>A posted callback names the session that posted it; the second one also the session its iterator
  points to, and the third one the library's session that has been deleted.\<close>

datatype app_fault = UseAfterFree posted | InvalidIterator posted

record gw_app =
  app_sessions :: "gw_node list"
  app_acceptor :: acceptor
  app_posted :: "posted list"
  app_nextId :: nat
  app_faults :: "app_fault list"
  app_asserts :: bool

definition App_init :: "acceptor \<Rightarrow> gw_app" where
  "App_init acc = \<lparr>app_sessions = [], app_acceptor = acc, app_posted = [], app_nextId = 0,
     app_faults = [], app_asserts = True\<rparr>"

definition App_post :: "posted \<Rightarrow> gw_app \<Rightarrow> gw_app" where
  "App_post p a = a\<lparr>app_posted := app_posted a @ [p]\<rparr>"

definition GatewaySession_doTerminate :: "nat \<Rightarrow> gw_app \<Rightarrow> gw_app" where
  "GatewaySession_doTerminate i = App_post (Post_term i)"

text \<open>A destroyed session destroys the socket of its client, which tells the acceptor.\<close>

definition App_destroyed :: "gw_node \<Rightarrow> gw_app \<Rightarrow> gw_app" where
  "App_destroyed n a =
     (case gs_endpoint (gn_data n) of
        None \<Rightarrow> a
      | Some e \<Rightarrow> a\<lparr>app_acceptor := Acceptor_socketDeleted e (app_acceptor a)\<rparr>)"

text \<open>The start of session \<open>i\<close>. A primary session starts the session of the library, whose result is the
  argument \<open>libStarted\<close>, and the socket of its client; both kinds then connect to the broker.\<close>

definition GatewaySession_start ::
    "config_impl \<Rightarrow> bool \<Rightarrow> nat \<Rightarrow> app_session \<Rightarrow> gw_app \<Rightarrow> bool \<times> app_session \<times> gw_app" where
  "GatewaySession_start config libStarted i g a =
     (if gs_endpoint g \<noteq> None \<and> \<not> libStarted then (False, g, a)
      else
        let (ok, a) = (case gs_endpoint g of
              None \<Rightarrow> (True, a)
            | Some e \<Rightarrow>
                let (ok, acc) = Acceptor_clientStart e (app_acceptor a)
                in (ok, a\<lparr>app_acceptor := acc\<rparr>))
        in if \<not> ok then (False, g, a)
           else
             let (term, g) = GatewaySession_newBrokerSocket config g;
                 a = (if term then GatewaySession_doTerminate i a else a)
             in (True, g, a))"

text \<open>The callback of the acceptor for a new connection. The session enters the list only when it has
  been started.\<close>

definition App_newConnection :: "config_impl \<Rightarrow> bool \<Rightarrow> nat \<Rightarrow> endpoint \<Rightarrow> gw_app \<Rightarrow> gw_app" where
  "App_newConnection config libStarted lib e a =
     (let i = app_nextId a;
          g = GatewaySession_init (Some e) lib;
          a = a\<lparr>app_nextId := i + 1\<rparr>;
          (ok, g, a) = GatewaySession_start config libStarted i g a
      in if \<not> ok then App_destroyed (GwNode i g []) a
         else a\<lparr>app_sessions := app_sessions a @ [GwNode i g []]\<rparr>)"

definition App_received ::
    "config_impl \<Rightarrow> bool \<Rightarrow> nat \<Rightarrow> io_result \<Rightarrow> endpoint \<Rightarrow> data_buf \<Rightarrow> gw_app \<Rightarrow> gw_app" where
  "App_received config libStarted lib ec sender buf a =
     (let acc = Acceptor_received ec sender buf (app_acceptor a);
          new = (ac_reports acc \<noteq> ac_reports (app_acceptor a));
          a = a\<lparr>app_acceptor := acc\<rparr>
      in if new then App_newConnection config libStarted lib sender a else a)"

text \<open>The callback of a session list below a primary session, for a client that has connected there:
  another session of the list with the same client is erased later. The guard looks at the client of
  the session that owns the list.\<close>

definition fwd_erase_post :: "nat \<Rightarrow> app_session \<Rightarrow> gw_node list \<Rightarrow> nat \<Rightarrow> string \<Rightarrow> posted list" where
  "fwd_erase_post owner d fs reporter cid =
     (if gs_clientId d = '''' then []
      else case List.find (\<lambda>n. gn_id n \<noteq> reporter \<and> cid = gs_clientId (gn_data n)) fs of
        None \<Rightarrow> []
      | Some n \<Rightarrow> [Post_eraseFwd owner (gn_id n)])"

text \<open>The callbacks on the way from the owner of a list to the session \<open>i\<close> that has reported, the
  outermost first.\<close>

fun fwd_posts :: "nat \<Rightarrow> string \<Rightarrow> nat \<Rightarrow> app_session \<Rightarrow> gw_node list \<Rightarrow> gw_node list \<Rightarrow> posted list" where
  "fwd_posts i cid owner d fs [] = []"
| "fwd_posts i cid owner d fs (GwNode j e gs # ns) =
     (if i = j then fwd_erase_post owner d fs j cid
      else if i \<in> set (node_ids gs)
        then fwd_erase_post owner d fs j cid @ fwd_posts i cid j e gs gs
      else fwd_posts i cid owner d fs ns)"

text \<open>The callback of the application: another primary session with the same client is erased.\<close>

definition App_clientIdReport :: "nat \<Rightarrow> string \<Rightarrow> gw_app \<Rightarrow> gw_app" where
  "App_clientIdReport i cid a =
     (if cid = '''' then a
      else
        let other = (\<lambda>n. gn_id n \<noteq> i \<and> cid = gs_clientId (gn_data n))
        in case List.find other (app_sessions a) of
          None \<Rightarrow> a
        | Some n \<Rightarrow> App_destroyed n (a\<lparr>app_sessions := erase_first other (app_sessions a)\<rparr>))"

definition set_client :: "string \<Rightarrow> gw_node \<Rightarrow> gw_node" where
  "set_client cid n = GwNode (gn_id n) ((gn_data n)\<lparr>gs_clientId := cid\<rparr>) (gn_fwd n)"

text \<open>The report of the library that the client of session \<open>i\<close> has connected.\<close>

definition App_clientConnected :: "nat \<Rightarrow> string \<Rightarrow> gw_app \<Rightarrow> gw_app" where
  "App_clientConnected i cid a =
     (let a = a\<lparr>app_sessions := update_node i (set_client cid) (app_sessions a)\<rparr>
      in case List.find (\<lambda>n. i \<in> set (node_ids [n])) (app_sessions a) of
        None \<Rightarrow> a
      | Some n \<Rightarrow>
          let a = App_clientIdReport (gn_id n) cid a
          in if gn_id n = i then a
             else a\<lparr>app_posted := app_posted a @ fwd_posts i cid (gn_id n) (gn_data n) (gn_fwd n) (gn_fwd n)\<rparr>)"

definition App_sendDataBroker :: "nat \<Rightarrow> data_buf \<Rightarrow> gw_app \<Rightarrow> gw_app" where
  "App_sendDataBroker i buf a = a\<lparr>app_sessions := update_node i
     (\<lambda>n. GwNode (gn_id n) (GatewaySession_sendDataBroker buf (gn_data n)) (gn_fwd n)) (app_sessions a)\<rparr>"

text \<open>The library has made the session \<open>lib\<close> of a client behind the forwarder of session \<open>i\<close>, or has
  deleted it.\<close>

definition App_fwdCreated :: "config_impl \<Rightarrow> nat \<Rightarrow> nat \<Rightarrow> gw_app \<Rightarrow> gw_app" where
  "App_fwdCreated config i lib a =
     (let j = app_nextId a;
          a = a\<lparr>app_nextId := j + 1\<rparr>;
          (ok, g, a) = GatewaySession_start config True j (GatewaySession_init None lib) a
      in a\<lparr>app_sessions := update_node i (\<lambda>n. GwNode (gn_id n) (gn_data n) (gn_fwd n @ [GwNode j g []]))
              (app_sessions a)\<rparr>)"

definition App_fwdDeleted :: "nat \<Rightarrow> nat \<Rightarrow> gw_app \<Rightarrow> gw_app" where
  "App_fwdDeleted i lib a =
     (case find_node i (app_sessions a) of
        None \<Rightarrow> a
      | Some n \<Rightarrow> if gs_destructing (gn_data n) then a else App_post (Post_fwdDeleted i lib) a)"

section \<open>The event loop\<close>

definition App_term :: "nat \<Rightarrow> gw_app \<Rightarrow> gw_app" where
  "App_term i a =
     (case find_node i (app_sessions a) of
        None \<Rightarrow> a\<lparr>app_faults := app_faults a @ [UseAfterFree (Post_term i)]\<rparr>
      | Some n \<Rightarrow> App_destroyed n (a\<lparr>app_sessions := erase_node i (app_sessions a)\<rparr>))"

definition App_eraseFwd :: "nat \<Rightarrow> nat \<Rightarrow> gw_app \<Rightarrow> gw_app" where
  "App_eraseFwd i j a =
     (case find_node i (app_sessions a) of
        None \<Rightarrow> a\<lparr>app_faults := app_faults a @ [UseAfterFree (Post_eraseFwd i j)]\<rparr>
      | Some n \<Rightarrow>
          if j \<notin> gn_id ` set (gn_fwd n)
          then a\<lparr>app_faults := app_faults a @ [InvalidIterator (Post_eraseFwd i j)]\<rparr>
          else a\<lparr>app_sessions := erase_node j (app_sessions a)\<rparr>)"

definition App_runFwdDeleted :: "nat \<Rightarrow> nat \<Rightarrow> gw_app \<Rightarrow> gw_app" where
  "App_runFwdDeleted i lib a =
     (case find_node i (app_sessions a) of
        None \<Rightarrow> a\<lparr>app_faults := app_faults a @ [UseAfterFree (Post_fwdDeleted i lib)]\<rparr>
      | Some n \<Rightarrow>
          case List.find (\<lambda>m. gs_lib (gn_data m) = lib) (gn_fwd n) of
            None \<Rightarrow> a\<lparr>app_asserts := False\<rparr>
          | Some m \<Rightarrow>
              let a = a\<lparr>app_sessions := erase_node (gn_id m) (app_sessions a)\<rparr>
              in if length (gn_fwd n) = 1 \<and> \<not> gs_hadBrokerData (gn_data n)
                 then GatewaySession_doTerminate i a else a)"

fun App_run_posted :: "posted \<Rightarrow> gw_app \<Rightarrow> gw_app" where
  "App_run_posted (Post_term i) = App_term i"
| "App_run_posted (Post_eraseFwd i j) = App_eraseFwd i j"
| "App_run_posted (Post_fwdDeleted i lib) = App_runFwdDeleted i lib"

definition App_next_posted :: "gw_app \<Rightarrow> gw_app" where
  "App_next_posted a =
     (case app_posted a of [] \<Rightarrow> a | p # ps \<Rightarrow> App_run_posted p (a\<lparr>app_posted := ps\<rparr>))"

section \<open>The broker connection\<close>

subsection \<open>The flag of the application and the flag of the library\<close>

lemma ops_frame_flags:
  "ops_frame s s' \<Longrightarrow> m_brokerConnected (st s') = m_brokerConnected (st s)"
  "ops_frame s s' \<Longrightarrow> m_running (st s') = m_running (st s)"
  by (simp_all add: ops_frame_def st_frame_def)

lemma apiCall_flags:
  "m_brokerConnected (st (SessionImpl_apiCall s)) = m_brokerConnected (st s)"
  "m_running (st (SessionImpl_apiCall s)) = m_running (st s)"
  using ops_frame_flags [OF ops_frame_updateOps]
  by (auto simp: SessionImpl_apiCall_def SessionImpl_updateTimestamp_def fault_if_def emit_def Let_def
      split: option.split)

lemma apiCallExit_flags:
  "m_brokerConnected (st (SessionImpl_apiCallExit s)) = m_brokerConnected (st s)"
  "m_running (st (SessionImpl_apiCallExit s)) = m_running (st s)"
  by (simp_all add: SessionImpl_apiCallExit_def SessionImpl_programNextTimeout_def fault_if_def emit_def Let_def)

lemma dataFromBroker_flags:
  "m_brokerConnected (st (snd (SessionImpl_dataFromBroker p buf s))) = m_brokerConnected (st s)"
  "m_running (st (snd (SessionImpl_dataFromBroker p buf s))) = m_running (st s)"
  using ops_frame_flags [OF ops_frame_fold [of SessionImpl_handle_mqtt, OF ops_frame_handle_mqtt]]
  by (auto simp: SessionImpl_dataFromBroker_def Let_def apiCall_flags apiCallExit_flags split: prod.split)

lemma setBrokerConnected_flags:
  "m_running (st (SessionImpl_setBrokerConnected c s)) = m_running (st s)"
  "m_running (st s) \<Longrightarrow> m_brokerConnected (st (SessionImpl_setBrokerConnected c s)) = c"
  using ops_frame_flags [OF ops_frame_broker]
  by (auto simp: SessionImpl_setBrokerConnected_def Let_def apiCall_flags apiCallExit_flags)

datatype link_event =
    Link_data data_buf
  | Link_connected
  | Link_error
  | Link_reconnect
  | Link_timer io_result
  | Link_send data_buf

fun link_handler ::
    "(data_buf \<Rightarrow> mqtt_msg list \<times> nat) \<Rightarrow> config_impl \<Rightarrow> link_event \<Rightarrow> app_session \<times> session \<Rightarrow>
      app_session \<times> session" where
  "link_handler p config (Link_data buf) x = GatewaySession_brokerData p buf x"
| "link_handler p config Link_connected x = GatewaySession_brokerConnected x"
| "link_handler p config Link_error x = GatewaySession_brokerError x"
| "link_handler p config Link_reconnect x = (GatewaySession_doBrokerReconnect (fst x), snd x)"
| "link_handler p config (Link_timer ec) x = snd (GatewaySession_reconnectTimer config ec x)"
| "link_handler p config (Link_send buf) x = (GatewaySession_sendDataBroker buf (fst x), snd x)"

lemmas link_defs = GatewaySession_brokerData_def GatewaySession_brokerConnected_def
  GatewaySession_brokerError_def GatewaySession_doBrokerReconnect_def GatewaySession_reconnectTimer_def
  GatewaySession_doBrokerConnect_def GatewaySession_newBrokerSocket_def GatewaySession_sendDataBroker_def

lemma newBrokerSocket_keeps:
  "gs_brokerConnected (snd (GatewaySession_newBrokerSocket config g)) = gs_brokerConnected g"
  "gs_brokerData (snd (GatewaySession_newBrokerSocket config g)) = gs_brokerData g"
  "gs_clientId (snd (GatewaySession_newBrokerSocket config g)) = gs_clientId g"
  "gs_endpoint (snd (GatewaySession_newBrokerSocket config g)) = gs_endpoint g"
  "gs_lib (snd (GatewaySession_newBrokerSocket config g)) = gs_lib g"
  by (simp_all add: GatewaySession_newBrokerSocket_def Let_def split: option.split prod.split)

lemma link_handler_flags:
  fixes x :: "app_session \<times> session"
  assumes "m_running (st (snd x))" "m_brokerConnected (st (snd x)) = gs_brokerConnected (fst x)"
  shows "m_running (st (snd (link_handler p config e x))) \<and>
    m_brokerConnected (st (snd (link_handler p config e x))) = gs_brokerConnected (fst (link_handler p config e x))"
proof -
  obtain g s where x: "x = (g, s)" by fastforce
  show ?thesis
  proof (cases e)
    case (Link_data buf)
    then show ?thesis using assms dataFromBroker_flags [of p _ s]
      by (auto simp: x GatewaySession_brokerData_def Let_def case_prod_beta)
  next
    case (Link_timer ec)
    then show ?thesis using assms
      by (auto simp: x GatewaySession_reconnectTimer_def GatewaySession_doBrokerConnect_def
          newBrokerSocket_keeps setBrokerConnected_flags Let_def case_prod_beta)
  qed (use assms in \<open>auto simp: x link_defs setBrokerConnected_flags Let_def\<close>)
qed

text \<open>While the session runs, whatever the broker socket reports, whatever is sent and however
  often the connection is made anew, the library's idea of the broker connection is the
  application's.\<close>

theorem broker_flags_agree:
  assumes "m_running (st s)" "m_brokerConnected (st s) = gs_brokerConnected g"
  shows "m_brokerConnected (st (snd (fold (link_handler p config) es (g, s)))) =
    gs_brokerConnected (fst (fold (link_handler p config) es (g, s)))"
proof -
  have "m_running (st (snd x)) \<Longrightarrow> m_brokerConnected (st (snd x)) = gs_brokerConnected (fst x) \<Longrightarrow>
      m_brokerConnected (st (snd (fold (link_handler p config) es x))) =
        gs_brokerConnected (fst (fold (link_handler p config) es x))" for x
    by (induction es arbitrary: x) (auto simp: link_handler_flags)
  then show ?thesis using assms by simp
qed

subsection \<open>The stream of the broker\<close>

text \<open>What a decoder of a stream of frames does, whether the stream comes in one piece or in two: it
  never consumes more than it gets, and it goes on where it stopped.\<close>

definition incremental :: "(data_buf \<Rightarrow> 'm list \<times> nat) \<Rightarrow> bool" where
  "incremental p \<longleftrightarrow>
     (\<forall>a. snd (p a) \<le> length a) \<and>
     (\<forall>a b. p (a @ b) = (fst (p a) @ fst (p (drop (snd (p a)) a @ b)),
                          snd (p a) + snd (p (drop (snd (p a)) a @ b))))"

lemma incremental_Nil: "incremental p \<Longrightarrow> p [] = ([], 0)"
  unfolding incremental_def by (metis append_Nil append_self_conv drop_Nil fst_conv le_zero_eq list.size(3) prod.collapse)

text \<open>One call of the library with the messages it decodes.\<close>

definition handle_batch :: "mqtt_msg list \<Rightarrow> session \<Rightarrow> session" where
  "handle_batch ms s = SessionImpl_apiCallExit (fold SessionImpl_handle_mqtt ms (SessionImpl_apiCall s))"

definition session_open :: "session \<Rightarrow> bool" where
  "session_open s \<longleftrightarrow> m_running (st s) \<and> \<not> m_terminating (st s)"

lemma brokerData_step:
  assumes "incremental p" "session_open s" and act: "act = gs_brokerData g @ buf"
  shows "GatewaySession_brokerData p buf (g, s) =
    (g\<lparr>gs_brokerData := drop (snd (p act)) act\<rparr>, handle_batch (fst (p act)) s)"
proof -
  have le: "snd (p act) \<le> length act" using assms(1) by (simp add: incremental_def)
  have "SessionImpl_dataFromBroker p act s = (snd (p act), handle_batch (fst (p act)) s)"
    using assms(2)
    by (simp add: SessionImpl_dataFromBroker_def session_open_def handle_batch_def Let_def case_prod_beta)
  then show ?thesis using le
    by (auto simp: GatewaySession_brokerData_def act Let_def)
qed

lemma broker_stream_from:
  assumes "incremental p"
    and "gs_brokerData g = drop (snd (p before)) before"
    and "\<forall>k < length chunks. session_open (snd (fold (GatewaySession_brokerData p) (take k chunks) (g, s)))"
  shows "\<exists>g' batches. fold (GatewaySession_brokerData p) chunks (g, s) = (g', fold handle_batch batches s) \<and>
      gs_brokerData g' = drop (snd (p (before @ concat chunks))) (before @ concat chunks) \<and>
      fst (p before) @ concat batches = fst (p (before @ concat chunks))"
  using assms(2,3)
proof (induction chunks arbitrary: g s before)
  case Nil
  then show ?case by (intro exI [of _ g] exI [of _ "[]"]) simp
next
  case (Cons c cs)
  let ?act = "drop (snd (p before)) before @ c"
  let ?g = "g\<lparr>gs_brokerData := drop (snd (p ?act)) ?act\<rparr>" and ?s = "handle_batch (fst (p ?act)) s"
  have open0: "session_open s" using Cons.prems(2) by force
  have step: "GatewaySession_brokerData p c (g, s) = (?g, ?s)"
    using brokerData_step [OF assms(1) open0] Cons.prems(1) by simp
  have le: "snd (p before) \<le> length before" using assms(1) by (simp add: incremental_def)
  have p: "p (before @ c) = (fst (p before) @ fst (p ?act), snd (p before) + snd (p ?act))"
    using assms(1) unfolding incremental_def by blast
  have "gs_brokerData ?g = drop (snd (p (before @ c))) (before @ c)"
    using le by (simp add: p add.commute)
  moreover have "session_open (snd (fold (GatewaySession_brokerData p) (take k cs) (?g, ?s)))"
    if "k < length cs" for k
    using Cons.prems(2) [rule_format, of "Suc k"] that by (simp add: step)
  ultimately obtain g' bs where
    "fold (GatewaySession_brokerData p) cs (?g, ?s) = (g', fold handle_batch bs ?s)"
    "gs_brokerData g' = drop (snd (p ((before @ c) @ concat cs))) ((before @ c) @ concat cs)"
    "fst (p (before @ c)) @ concat bs = fst (p ((before @ c) @ concat cs))"
    using Cons.IH [of ?g "before @ c" ?s] by blast
  then show ?case
    by (intro exI [of _ g'] exI [of _ "fst (p ?act) # bs"]) (simp add: step p)
qed

text \<open>C4. The broker's stream is put together again. Whatever pieces the connection delivers it in,
  a session that stays open handles, in order, exactly the messages of the whole stream, and keeps
  exactly the bytes of the stream that make up no message yet.\<close>

theorem broker_stream_reassembled:
  assumes "incremental p" "gs_brokerData g = []"
    and "\<forall>k < length chunks. session_open (snd (fold (GatewaySession_brokerData p) (take k chunks) (g, s)))"
  shows "\<exists>g' batches. fold (GatewaySession_brokerData p) chunks (g, s) = (g', fold handle_batch batches s) \<and>
      gs_brokerData g' = drop (snd (p (concat chunks))) (concat chunks) \<and>
      concat batches = fst (p (concat chunks))"
  using broker_stream_from [OF assms(1), of g "[]" chunks s] assms(2,3)
  by (simp add: incremental_Nil [OF assms(1)])

lemma link_handler_brokerData:
  "(\<And>buf. e \<noteq> Link_data buf) \<Longrightarrow> gs_brokerData (fst (link_handler p config e x)) = gs_brokerData (fst x)"
  by (cases x; cases e)
     (auto simp: GatewaySession_brokerConnected_def GatewaySession_reconnectTimer_def
        GatewaySession_doBrokerConnect_def GatewaySession_brokerError_def GatewaySession_doBrokerReconnect_def
        GatewaySession_sendDataBroker_def newBrokerSocket_keeps Let_def case_prod_beta)

text \<open>The bytes that wait are kept whatever happens to the connection, also when a new one is made:
  the first bytes of the new connection are then read as the continuation of an incomplete message of
  the old one.\<close>

theorem broker_data_survives_reconnect:
  assumes "gs_brokerData g \<noteq> []" "\<And>buf. Link_data buf \<notin> set es"
  shows "let x = fold (link_handler p config) es (g, s) in
    gs_brokerData (fst x) = gs_brokerData g \<and>
    snd (GatewaySession_brokerData p buf x) =
      snd (SessionImpl_dataFromBroker p (gs_brokerData g @ buf) (snd x))"
proof -
  have kept: "gs_brokerData (fst (fold (link_handler p config) es x)) = gs_brokerData (fst x)" for x
    using assms(2)
  proof (induction es arbitrary: x)
    case (Cons e es)
    then have "e \<noteq> Link_data buf" for buf by (metis list.set_intros(1))
    then show ?case using Cons by (simp add: link_handler_brokerData)
  qed simp
  obtain g' s' where x: "fold (link_handler p config) es (g, s) = (g', s')" by fastforce
  have "gs_brokerData g' = gs_brokerData g" using kept [of "(g, s)"] x by simp
  then show ?thesis using assms(1)
    by (simp add: x GatewaySession_brokerData_def Let_def case_prod_beta)
qed

section \<open>The lists of sessions\<close>

subsection \<open>Lookup, update and erasure\<close>

fun all_nodes :: "(app_session \<Rightarrow> bool) \<Rightarrow> gw_node list \<Rightarrow> bool" where
  "all_nodes P [] \<longleftrightarrow> True"
| "all_nodes P (GwNode j d fs # ns) \<longleftrightarrow> P d \<and> all_nodes P fs \<and> all_nodes P ns"

lemma gn_id_node_ids: "n \<in> set ns \<Longrightarrow> gn_id n \<in> set (node_ids ns)"
  by (induction ns rule: node_ids.induct) auto

lemma fwd_node_ids: "n \<in> set ns \<Longrightarrow> set (node_ids (gn_fwd n)) \<subseteq> set (node_ids ns)"
  by (induction ns rule: node_ids.induct) auto

lemma distinct_top_ids: "distinct (node_ids ns) \<Longrightarrow> distinct (map gn_id ns)"
  by (induction ns rule: node_ids.induct) (auto dest: gn_id_node_ids)

lemma update_node_map:
  "update_node i f ns =
     map (\<lambda>n. if gn_id n = i then f n else GwNode (gn_id n) (gn_data n) (update_node i f (gn_fwd n))) ns"
  by (induction i f ns rule: update_node.induct) auto

lemma update_node_absent: "i \<notin> set (node_ids ns) \<Longrightarrow> update_node i f ns = ns"
  by (induction i f ns rule: update_node.induct) auto

lemma node_ids_update:
  "(\<And>n. gn_id (f n) = gn_id n \<and> gn_fwd (f n) = gn_fwd n) \<Longrightarrow> node_ids (update_node i f ns) = node_ids ns"
proof (induction i f ns rule: update_node.induct)
  case (2 i f j d fs ns)
  obtain d' where "f (GwNode j d fs) = GwNode j d' fs"
    using 2(3) [of "GwNode j d fs"] by (metis gw_node.collapse gw_node.sel(1,3))
  then show ?case using 2 by (cases "i = j") simp_all
qed simp

lemma mset_node_ids_add:
  assumes "distinct (node_ids ns)"
  shows "mset (node_ids (update_node i (\<lambda>n. GwNode (gn_id n) (gn_data n) (gn_fwd n @ [GwNode j g []])) ns)) =
    mset (node_ids ns) + (if i \<in> set (node_ids ns) then {#j#} else {#})"
  using assms
proof (induction i "\<lambda>n. GwNode (gn_id n) (gn_data n) (gn_fwd n @ [GwNode j g []])" ns rule: update_node.induct)
  case (2 i k d fs ns)
  have app: "node_ids (fs @ [GwNode j g []]) = node_ids fs @ [j]" for fs
    by (induction fs rule: node_ids.induct) auto
  show ?case
  proof (cases "i = k")
    case True
    then show ?thesis using 2(3) by (simp add: app update_node_absent)
  next
    case False
    have "i \<in> set (node_ids fs) \<Longrightarrow> i \<notin> set (node_ids ns)" using 2(3) by auto
    then show ?thesis using 2 False by auto
  qed
qed simp

lemma erase_node_absent: "i \<notin> set (node_ids ns) \<Longrightarrow> erase_node i ns = ns"
  by (induction i ns rule: erase_node.induct) auto

lemma erase_node_top:
  assumes "distinct (node_ids ns)" "i \<in> gn_id ` set ns"
  shows "erase_node i ns = filter (\<lambda>n. gn_id n \<noteq> i) ns"
  using assms
proof (induction i ns rule: erase_node.induct)
  case (2 i j d fs ns)
  show ?case
  proof (cases "i = j")
    case True
    then have "filter (\<lambda>n. gn_id n \<noteq> i) ns = ns"
      using 2(3) by (auto simp: filter_id_conv dest: gn_id_node_ids)
    then show ?thesis using True by simp
  next
    case False
    then have top: "i \<in> gn_id ` set ns" using 2(4) by auto
    then have "i \<in> set (node_ids ns)" by (auto dest: gn_id_node_ids)
    then have "i \<notin> set (node_ids fs)" using 2(3) by auto
    then show ?thesis using 2(2) [OF False] 2(3) False top by (simp add: erase_node_absent)
  qed
qed simp

lemma erase_node_below:
  "i \<notin> gn_id ` set ns \<Longrightarrow>
     erase_node i ns = map (\<lambda>n. GwNode (gn_id n) (gn_data n) (erase_node i (gn_fwd n))) ns"
  by (induction i ns rule: erase_node.induct) auto

lemma node_ids_erase:
  "distinct (node_ids ns) \<Longrightarrow> distinct (node_ids (erase_node i ns)) \<and> set (node_ids (erase_node i ns)) \<subseteq> set (node_ids ns)"
  by (induction i ns rule: erase_node.induct) auto

lemma all_nodes_erase: "all_nodes P ns \<Longrightarrow> all_nodes P (erase_node i ns)"
  by (induction i ns rule: erase_node.induct) auto

lemma all_nodes_append: "all_nodes P (ns @ ms) \<longleftrightarrow> all_nodes P ns \<and> all_nodes P ms"
  by (induction ns rule: node_ids.induct) auto

lemma all_nodes_update:
  "all_nodes P ns \<Longrightarrow> (\<And>n. all_nodes P [n] \<Longrightarrow> all_nodes P [f n]) \<Longrightarrow> all_nodes P (update_node i f ns)"
proof (induction i f ns rule: update_node.induct)
  case (2 i f j d fs ns)
  obtain j' d' fs' where f: "f (GwNode j d fs) = GwNode j' d' fs'" by (cases "f (GwNode j d fs)")
  have "all_nodes P [f (GwNode j d fs)]" using 2(3) 2(4) [of "GwNode j d fs"] by simp
  then show ?case using 2 by (cases "i = j") (simp_all add: f)
qed simp

lemma find_node_id: "find_node i ns = Some n \<Longrightarrow> gn_id n = i"
  by (induction i ns rule: find_node.induct) (auto split: if_splits option.splits)

lemma find_node_None: "find_node i ns = None \<longleftrightarrow> i \<notin> set (node_ids ns)"
  by (induction i ns rule: find_node.induct) (auto split: option.splits)

lemma find_node_all: "all_nodes P ns \<Longrightarrow> find_node i ns = Some n \<Longrightarrow> P (gn_data n)"
  by (induction i ns rule: find_node.induct) (auto split: if_splits option.splits)

text \<open>A session that is found is one of the list or lies below one.\<close>

lemma find_node_below:
  assumes "\<forall>n \<in> set ns. all_nodes P (gn_fwd n)" "find_node i ns = Some n" "n \<notin> set ns"
  shows "P (gn_data n)"
  using assms
  by (induction i ns rule: find_node.induct) (auto split: if_splits option.splits dest: find_node_all)

lemma find_node_top:
  "distinct (node_ids ns) \<Longrightarrow> n \<in> set ns \<Longrightarrow> find_node (gn_id n) ns = Some n"
proof (induction ns rule: node_ids.induct)
  case (2 j d fs ns)
  show ?case
  proof (cases "n = GwNode j d fs")
    case False
    then have n: "n \<in> set ns" using 2(4) by simp
    then have "gn_id n \<in> set (node_ids ns)" by (rule gn_id_node_ids)
    then have "gn_id n \<noteq> j" "find_node (gn_id n) fs = None" using 2(3) by (auto simp: find_node_None)
    then show ?thesis using 2(2) 2(3) n by simp
  qed simp
qed simp

lemma find_SomeD: "List.find P ns = Some n \<Longrightarrow> n \<in> set ns \<and> P n"
  by (induction ns) (auto split: if_splits)

lemma erase_first_found:
  "distinct (map gn_id ns) \<Longrightarrow> List.find P ns = Some n \<Longrightarrow>
     erase_first P ns = filter (\<lambda>m. gn_id m \<noteq> gn_id n) ns"
proof (induction ns)
  case (Cons m ns)
  have "filter (\<lambda>m'. gn_id m' \<noteq> gn_id m) ns = ns"
    using Cons.prems(1) by (simp add: filter_id_conv) (metis imageI)
  then show ?case using Cons find_SomeD [of P ns n] by (auto split: if_splits)
qed simp

text \<open>What lies below a session that is found is not in the list itself.\<close>

lemma find_node_ids: "find_node i ns = Some n \<Longrightarrow> set (node_ids (gn_fwd n)) \<subseteq> set (node_ids ns)"
  by (induction i ns rule: find_node.induct) (auto split: if_splits option.splits)

lemma below_not_top:
  "distinct (node_ids ns) \<Longrightarrow> find_node i ns = Some n \<Longrightarrow>
     set (node_ids (gn_fwd n)) \<inter> gn_id ` set ns = {}"
proof (induction i ns rule: find_node.induct)
  case (2 i j d fs ns)
  have top: "gn_id ` set ns \<subseteq> set (node_ids ns)" by (auto dest: gn_id_node_ids)
  show ?case
  proof (cases "i = j")
    case True
    then have "gn_fwd n = fs" "j \<notin> set (node_ids fs)" "set (node_ids fs) \<inter> set (node_ids ns) = {}"
      using 2(3,4) by auto
    then show ?thesis using top by (simp add: Int_insert_right) blast
  next
    case False
    show ?thesis
    proof (cases "find_node i fs")
      case None
      then have "find_node i ns = Some n" using 2(4) False by simp
      then show ?thesis using 2(2) [OF False None] find_node_ids [of i ns n] 2(3) by auto
    next
      case (Some m)
      then have "find_node i fs = Some n" using 2(4) False by simp
      then show ?thesis using find_node_ids [of i fs n] 2(3) top by auto
    qed
  qed
qed simp

subsection \<open>The invariant of the application\<close>

definition node_endpoint :: "gw_node \<Rightarrow> endpoint option" where
  "node_endpoint n = gs_endpoint (gn_data n)"

text \<open>The structure: identities are fresh and unique, the primary sessions are exactly the owners of
  the sockets the acceptor knows, one each, and the sessions below them have no socket of their own.\<close>

definition app_struct :: "gw_app \<Rightarrow> bool" where
  "app_struct a \<longleftrightarrow>
     distinct (node_ids (app_sessions a)) \<and>
     (\<forall>i \<in> set (node_ids (app_sessions a)). i < app_nextId a) \<and>
     inj_on node_endpoint (set (app_sessions a)) \<and>
     Some ` dom (ac_clients (app_acceptor a)) = node_endpoint ` set (app_sessions a) \<and>
     (\<forall>n \<in> set (app_sessions a). all_nodes (\<lambda>d. gs_endpoint d = None) (gn_fwd n)) \<and>
     acceptor_ok (app_acceptor a)"

text \<open>No two primary sessions serve the same client.\<close>

definition clients_unique :: "gw_node list \<Rightarrow> bool" where
  "clients_unique ns \<longleftrightarrow>
     inj_on (\<lambda>n. gs_clientId (gn_data n)) {n \<in> set ns. gs_clientId (gn_data n) \<noteq> ''''}"

definition app_ok :: "gw_app \<Rightarrow> bool" where
  "app_ok a \<longleftrightarrow> app_struct a \<and> clients_unique (app_sessions a)"

lemma clients_unique_subset: "clients_unique ns \<Longrightarrow> set ms \<subseteq> set ns \<Longrightarrow> clients_unique ms"
  unfolding clients_unique_def by (erule inj_on_subset) auto

lemma app_struct_acceptor:
  "app_struct a \<Longrightarrow> acceptor_ok acc \<Longrightarrow> dom (ac_clients acc) = dom (ac_clients (app_acceptor a)) \<Longrightarrow>
     app_struct (a\<lparr>app_acceptor := acc\<rparr>)"
  by (simp add: app_struct_def)

lemma app_ok_updates [simp]:
  "app_struct (a\<lparr>app_posted := ps\<rparr>) = app_struct a"
  "app_struct (a\<lparr>app_faults := fs\<rparr>) = app_struct a"
  "app_struct (a\<lparr>app_asserts := b\<rparr>) = app_struct a"
  by (simp_all add: app_struct_def)

lemma app_ok_post [simp]:
  "app_struct (App_post p a) = app_struct a" "app_sessions (App_post p a) = app_sessions a"
  "app_struct (GatewaySession_doTerminate i a) = app_struct a"
  "app_sessions (GatewaySession_doTerminate i a) = app_sessions a"
  by (simp_all add: App_post_def GatewaySession_doTerminate_def)

lemma app_sessions_destroyed [simp]: "app_sessions (App_destroyed n a) = app_sessions a"
  by (simp add: App_destroyed_def split: option.split)

text \<open>Erasing a primary session, with the socket of its client.\<close>

lemma app_struct_erased:
  assumes "app_struct a" "n \<in> set (app_sessions a)"
  shows "app_struct (App_destroyed n (a\<lparr>app_sessions := filter (\<lambda>m. gn_id m \<noteq> gn_id n) (app_sessions a)\<rparr>))"
proof -
  let ?ns = "app_sessions a" and ?acc = "app_acceptor a"
  let ?rest = "filter (\<lambda>m. gn_id m \<noteq> gn_id n) ?ns"
  have ns: "distinct (node_ids ?ns)" using assms(1) by (simp add: app_struct_def)
  then have "?rest = erase_node (gn_id n) ?ns"
    using erase_node_top [of ?ns "gn_id n"] assms(2) by auto
  then have ids: "distinct (node_ids ?rest)" "set (node_ids ?rest) \<subseteq> set (node_ids ?ns)"
    using node_ids_erase [OF ns] by auto
  have "node_endpoint n \<in> Some ` dom (ac_clients ?acc)"
    using assms by (simp add: app_struct_def)
  then obtain e where e: "node_endpoint n = Some e" "e \<in> dom (ac_clients ?acc)" by blast
  have acc: "acceptor_ok (Acceptor_socketDeleted e ?acc)"
    using assms(1) e(2) by (simp add: app_struct_def acceptor_ok_client_ops(3) domIff)
  have dom: "dom (ac_clients (Acceptor_socketDeleted e ?acc)) = dom (ac_clients ?acc) - {e}"
    using e(2) by (cases "ac_clients ?acc e") (simp_all add: Acceptor_socketDeleted_def domIff)
  have other: "gn_id m = gn_id n \<longleftrightarrow> node_endpoint m = Some e" if "m \<in> set ?ns" for m
  proof
    assume "gn_id m = gn_id n"
    then have "m = n" using that assms(2) distinct_top_ids [OF ns] by (auto simp: distinct_map inj_on_def)
    then show "node_endpoint m = Some e" using e(1) by simp
  next
    assume "node_endpoint m = Some e"
    then have "m = n" using assms that e(1) by (simp add: app_struct_def inj_on_def)
    then show "gn_id m = gn_id n" by simp
  qed
  have "node_endpoint ` set ?rest = node_endpoint ` set ?ns - {Some e}"
    using other by auto
  also have "\<dots> = Some ` dom (ac_clients ?acc) - {Some e}"
    using assms(1) by (simp add: app_struct_def)
  also have "\<dots> = Some ` (dom (ac_clients ?acc) - {e})"
    by blast
  finally have eps: "Some ` dom (ac_clients (Acceptor_socketDeleted e ?acc)) = node_endpoint ` set ?rest"
    by (simp add: dom)
  have "gs_endpoint (gn_data n) = Some e" using e(1) by (simp add: node_endpoint_def)
  moreover have "inj_on node_endpoint (set ?rest)"
    using assms(1) by (auto simp: app_struct_def intro: inj_on_subset)
  ultimately show ?thesis using assms(1) ids eps acc
    by (auto simp: App_destroyed_def app_struct_def)
qed

lemma app_ok_erased:
  assumes "app_struct a" "clients_unique (filter (\<lambda>m. gn_id m \<noteq> gn_id n) (app_sessions a))"
    "n \<in> set (app_sessions a)"
  shows "app_ok (App_destroyed n (a\<lparr>app_sessions := filter (\<lambda>m. gn_id m \<noteq> gn_id n) (app_sessions a)\<rparr>))"
  using app_struct_erased assms by (simp add: app_ok_def)

subsection \<open>Every callback keeps the invariant\<close>

text \<open>A change below or beside the fields the invariant reads.\<close>

lemma app_ok_map:
  assumes "app_ok a" and sessions: "app_sessions a' = map f (app_sessions a)"
    and keeps: "\<And>n. n \<in> set (app_sessions a) \<Longrightarrow> gn_id (f n) = gn_id n \<and> gn_data (f n) = gn_data n \<and>
       all_nodes (\<lambda>d. gs_endpoint d = None) (gn_fwd (f n))"
    and ids: "distinct (node_ids (app_sessions a'))" "\<forall>i \<in> set (node_ids (app_sessions a')). i < app_nextId a'"
    and acc: "app_acceptor a' = app_acceptor a"
  shows "app_ok a'"
proof -
  let ?ns = "app_sessions a"
  have inj: "inj_on node_endpoint (set ?ns)" "inj_on (\<lambda>n. gs_clientId (gn_data n)) {n \<in> set ?ns. gs_clientId (gn_data n) \<noteq> ''''}"
    using assms(1) by (simp_all add: app_ok_def app_struct_def clients_unique_def)
  have eps: "node_endpoint (f n) = node_endpoint n" if "n \<in> set ?ns" for n
    using keeps [OF that] by (simp add: node_endpoint_def)
  have "inj_on node_endpoint (f ` set ?ns)"
    using inj(1) by (auto simp: inj_on_def eps)
  moreover have "node_endpoint ` f ` set ?ns = node_endpoint ` set ?ns"
    using eps by (auto simp: image_image)
  moreover have "clients_unique (map f ?ns)"
    using inj(2) keeps by (auto simp: clients_unique_def inj_on_def)
  ultimately show ?thesis using assms(1) ids keeps
    by (auto simp: app_ok_def app_struct_def sessions acc)
qed

lemma app_ok_same:
  "app_ok a \<Longrightarrow> app_sessions a' = app_sessions a \<Longrightarrow> app_acceptor a' = app_acceptor a \<Longrightarrow>
     app_nextId a' = app_nextId a \<Longrightarrow> app_ok a'"
  by (simp add: app_ok_def app_struct_def)

text \<open>The end of a session, wherever it is.\<close>

lemma app_ok_term:
  assumes ok: "app_ok a"
  shows "app_ok (App_term i a)"
proof (cases "find_node i (app_sessions a)")
  case None
  then show ?thesis using ok by (simp add: App_term_def app_ok_def)
next
  case (Some n)
  note id = find_node_id [OF Some]
  have ns: "distinct (node_ids (app_sessions a))" using ok by (simp add: app_ok_def app_struct_def)
  show ?thesis
  proof (cases "n \<in> set (app_sessions a)")
    case True
    then have "erase_node i (app_sessions a) = filter (\<lambda>m. gn_id m \<noteq> gn_id n) (app_sessions a)"
      using erase_node_top [OF ns, of i] id by auto
    then show ?thesis using ok Some True
      by (auto simp: App_term_def app_ok_def intro!: app_struct_erased elim!: clients_unique_subset)
  next
    case False
    have "gs_endpoint (gn_data n) = None"
      using find_node_below [OF _ Some False, of "\<lambda>d. gs_endpoint d = None"] ok
      by (simp add: app_ok_def app_struct_def)
    moreover have "i \<notin> gn_id ` set (app_sessions a)"
      using find_node_top [OF ns] Some False by auto
    ultimately show ?thesis using ok Some node_ids_erase [OF ns, of i]
      by (intro app_ok_map [OF ok])
         (auto simp: App_term_def App_destroyed_def erase_node_below app_ok_def app_struct_def
            intro!: all_nodes_erase)
  qed
qed

lemma app_ok_erase_below:
  assumes ok: "app_ok a" and i: "find_node i (app_sessions a) = Some n" and m: "m \<in> set (gn_fwd n)"
  shows "app_ok (a\<lparr>app_sessions := erase_node (gn_id m) (app_sessions a)\<rparr>)"
proof -
  have ns: "distinct (node_ids (app_sessions a))" using ok by (simp add: app_ok_def app_struct_def)
  have "gn_id m \<notin> gn_id ` set (app_sessions a)" using below_not_top [OF ns i] m by (auto dest: gn_id_node_ids)
  then show ?thesis using ok node_ids_erase [OF ns, of "gn_id m"]
    by (intro app_ok_map [OF ok])
       (auto simp: erase_node_below app_ok_def app_struct_def intro!: all_nodes_erase)
qed

lemma app_ok_fault: "app_ok a \<Longrightarrow> app_ok (a\<lparr>app_faults := fs\<rparr>)"
  by (simp add: app_ok_def)

lemma app_ok_eraseFwd: "app_ok a \<Longrightarrow> app_ok (App_eraseFwd i j a)"
  by (auto simp: App_eraseFwd_def intro: app_ok_fault app_ok_erase_below split: option.split)

lemma app_ok_runFwdDeleted: "app_ok a \<Longrightarrow> app_ok (App_runFwdDeleted i lib a)"
proof (cases "find_node i (app_sessions a)")
  case (Some n)
  assume ok: "app_ok a"
  show ?thesis
  proof (cases "List.find (\<lambda>m. gs_lib (gn_data m) = lib) (gn_fwd n)")
    case (Some m)
    then have "m \<in> set (gn_fwd n)" by (auto dest!: find_SomeD)
    then have "app_ok (a\<lparr>app_sessions := erase_node (gn_id m) (app_sessions a)\<rparr>)"
      using app_ok_erase_below [OF ok \<open>find_node i (app_sessions a) = Some n\<close>] by simp
    then show ?thesis using Some \<open>find_node i (app_sessions a) = Some n\<close>
      by (simp add: App_runFwdDeleted_def app_ok_def Let_def)
  qed (use ok Some in \<open>simp add: App_runFwdDeleted_def app_ok_def\<close>)
qed (simp add: App_runFwdDeleted_def app_ok_def)

lemma app_ok_run_posted: "app_ok a \<Longrightarrow> app_ok (App_run_posted p a)"
  by (cases p) (simp_all add: app_ok_term app_ok_eraseFwd app_ok_runFwdDeleted)

lemma app_ok_next_posted: "app_ok a \<Longrightarrow> app_ok (App_next_posted a)"
proof -
  assume ok: "app_ok a"
  have "app_ok (a\<lparr>app_posted := ps\<rparr>)" for ps using ok by (simp add: app_ok_def)
  then show ?thesis using ok app_ok_run_posted by (simp add: App_next_posted_def split: list.split)
qed

lemma app_ok_fwdDeleted: "app_ok a \<Longrightarrow> app_ok (App_fwdDeleted i lib a)"
  by (simp add: App_fwdDeleted_def app_ok_def split: option.split)

lemma GatewaySession_init_endpoint: "gs_endpoint (GatewaySession_init c lib) = c"
  by (simp add: GatewaySession_init_def)

lemma newBrokerSocket_endpoint:
  "GatewaySession_newBrokerSocket config g = (t, g') \<Longrightarrow>
     gs_endpoint g' = gs_endpoint g \<and> gs_clientId g' = gs_clientId g"
  using newBrokerSocket_keeps(3,4) [of config g] by simp

lemma app_ok_fwdCreated:
  assumes ok: "app_ok a"
  shows "app_ok (App_fwdCreated config i lib a)"
proof -
  obtain t g where g: "GatewaySession_newBrokerSocket config (GatewaySession_init None lib) = (t, g)"
    by fastforce
  have ep: "gs_endpoint g = None" using newBrokerSocket_endpoint [OF g] by (simp add: GatewaySession_init_def)
  let ?add = "\<lambda>n. GwNode (gn_id n) (gn_data n) (gn_fwd n @ [GwNode (app_nextId a) g []])"
  let ?a = "a\<lparr>app_nextId := app_nextId a + 1, app_sessions := update_node i ?add (app_sessions a)\<rparr>"
  let ?none = "all_nodes (\<lambda>d. gs_endpoint d = None)"
  have ns: "distinct (node_ids (app_sessions a))" "\<forall>i \<in> set (node_ids (app_sessions a)). i < app_nextId a"
    using ok by (simp_all add: app_ok_def app_struct_def)
  have m: "mset (node_ids (app_sessions ?a)) =
      mset (node_ids (app_sessions a)) + (if i \<in> set (node_ids (app_sessions a)) then {#app_nextId a#} else {#})"
    using mset_node_ids_add [OF ns(1)] by simp
  then have set_ids: "set (node_ids (app_sessions ?a)) \<subseteq> insert (app_nextId a) (set (node_ids (app_sessions a)))"
    by (auto dest!: arg_cong [where f = set_mset] split: if_splits)
  have dist: "distinct (node_ids (app_sessions ?a))"
  proof (cases "i \<in> set (node_ids (app_sessions a))")
    case True
    then have "mset (node_ids (app_sessions ?a)) = mset (app_nextId a # node_ids (app_sessions a))" using m by simp
    moreover have "distinct (app_nextId a # node_ids (app_sessions a))" using ns by auto
    ultimately show ?thesis by (metis mset_eq_imp_distinct_iff)
  qed (use ns in \<open>simp add: update_node_absent\<close>)
  have none: "?none (gn_fwd n)" if "n \<in> set (app_sessions a)" for n
    using ok that by (simp add: app_ok_def app_struct_def)
  have upd: "?none [?add n]" if "?none [n]" for n
    using that ep by (cases n) (simp add: all_nodes_append)
  have "app_ok ?a"
  proof (rule app_ok_map [OF ok])
    show "app_sessions ?a = map (\<lambda>n. if gn_id n = i then ?add n
        else GwNode (gn_id n) (gn_data n) (update_node i ?add (gn_fwd n))) (app_sessions a)"
      by (simp flip: update_node_map)
  qed (use none ep dist set_ids ns upd in \<open>auto simp: all_nodes_append less_Suc_eq intro!: all_nodes_update\<close>)
  then show ?thesis
    by (rule app_ok_same) (simp_all add: App_fwdCreated_def GatewaySession_start_def g Let_def
        GatewaySession_init_endpoint GatewaySession_doTerminate_def App_post_def)
qed

text \<open>A datagram may make a socket; then the application makes a session for it, or destroys it again.\<close>

lemma received_clients:
  "dom (ac_clients (Acceptor_received ec e buf acc)) =
     (if ac_reports (Acceptor_received ec e buf acc) = ac_reports acc then dom (ac_clients acc)
      else insert e (dom (ac_clients acc)))"
  "ac_reports (Acceptor_received ec e buf acc) \<noteq> ac_reports acc \<Longrightarrow> e \<notin> dom (ac_clients acc)"
proof -
  have "ac_reports (Acceptor_received ec e buf acc) \<noteq> ac_reports acc \<longleftrightarrow>
      ec = Io_Success \<and> \<not> Acceptor_ownBroadcast e buf (acc\<lparr>ac_receiving := ac_receiving acc - 1\<rparr>) \<and>
      ac_clients acc e = None"
    by (cases ec; cases "ac_clients acc e") (simp_all add: Acceptor_received_def Acceptor_doAccept_def Let_def)
  moreover have "dom (ac_clients (Acceptor_received ec e buf acc)) =
     (if ec = Io_Success \<and> \<not> Acceptor_ownBroadcast e buf (acc\<lparr>ac_receiving := ac_receiving acc - 1\<rparr>) \<and>
         ac_clients acc e = None then insert e (dom (ac_clients acc)) else dom (ac_clients acc))"
    by (cases ec; cases "ac_clients acc e")
       (simp_all add: Acceptor_received_def Acceptor_doAccept_def Let_def insert_absorb domIff)
  ultimately show "dom (ac_clients (Acceptor_received ec e buf acc)) =
     (if ac_reports (Acceptor_received ec e buf acc) = ac_reports acc then dom (ac_clients acc)
      else insert e (dom (ac_clients acc)))"
    "ac_reports (Acceptor_received ec e buf acc) \<noteq> ac_reports acc \<Longrightarrow> e \<notin> dom (ac_clients acc)"
    by (auto simp only: domIff if_True if_False simp_thms split: if_splits)
qed

lemma dom_clientStart [simp]: "dom (ac_clients (snd (Acceptor_clientStart e acc))) = dom (ac_clients acc)"
  by (auto simp: Acceptor_clientStart_def Let_def case_prod_beta split: option.split)

lemma app_ok_new_destroyed:
  assumes ok: "app_ok a" and acc: "acceptor_ok acc" "dom (ac_clients acc) = insert e (dom (ac_clients (app_acceptor a)))"
    and e: "e \<notin> dom (ac_clients (app_acceptor a))" and n: "gs_endpoint (gn_data n) = Some e"
    and a': "app_sessions a' = app_sessions a" "app_acceptor a' = acc" "app_nextId a' = app_nextId a + 1"
  shows "app_ok (App_destroyed n a')"
proof -
  have in_dom: "ac_clients acc e \<noteq> None" using acc(2) by blast
  then have "dom (ac_clients (Acceptor_socketDeleted e acc)) = dom (ac_clients (app_acceptor a))"
    using acc(2) e by (auto simp: Acceptor_socketDeleted_def simp del: fun_upd_apply split: option.split)
  moreover have "acceptor_ok (Acceptor_socketDeleted e acc)"
    using acc(1) in_dom by (rule acceptor_ok_client_ops(3))
  ultimately show ?thesis using ok
    by (auto simp: App_destroyed_def n a' app_ok_def app_struct_def intro: less_SucI)
qed

lemma app_ok_new_session:
  assumes ok: "app_ok a" and acc: "acceptor_ok acc" "dom (ac_clients acc) = insert e (dom (ac_clients (app_acceptor a)))"
    and e: "e \<notin> dom (ac_clients (app_acceptor a))"
    and g: "gs_endpoint g = Some e" "gs_clientId g = ''''"
    and a': "app_sessions a' = app_sessions a @ [GwNode (app_nextId a) g []]" "app_acceptor a' = acc"
      "app_nextId a' = app_nextId a + 1"
  shows "app_ok a'"
proof -
  let ?ns = "app_sessions a" and ?n = "GwNode (app_nextId a) g []"
  have app: "node_ids (ns @ [?n]) = node_ids ns @ [app_nextId a]" for ns
    by (induction ns rule: node_ids.induct) auto
  have eps: "node_endpoint ?n = Some e" using g(1) by (simp add: node_endpoint_def)
  have "Some e \<notin> node_endpoint ` set ?ns"
    using ok e by (auto simp: app_ok_def app_struct_def dest!: equalityD2)
  then have "inj_on node_endpoint (insert ?n (set ?ns))"
    using ok eps by (auto simp: app_ok_def app_struct_def inj_on_insert)
  moreover have "Some ` dom (ac_clients acc) = insert (Some e) (node_endpoint ` set ?ns)"
    using ok acc(2) by (simp add: app_ok_def app_struct_def)
  moreover have "clients_unique (?ns @ [?n])"
  proof -
    have "{n \<in> set (?ns @ [?n]). gs_clientId (gn_data n) \<noteq> ''''} = {n \<in> set ?ns. gs_clientId (gn_data n) \<noteq> ''''}"
      using g(2) by auto
    then show ?thesis using ok by (simp only: app_ok_def clients_unique_def)
  qed
  ultimately show ?thesis using ok acc(1) eps
    by (auto simp: app_ok_def app_struct_def a' app intro: less_SucI)
qed

lemma app_ok_newConnection:
  assumes ok: "app_ok a" and acc: "acceptor_ok acc" "dom (ac_clients acc) = insert e (dom (ac_clients (app_acceptor a)))"
    and e: "e \<notin> dom (ac_clients (app_acceptor a))"
  shows "app_ok (App_newConnection config libStarted lib e (a\<lparr>app_acceptor := acc\<rparr>))"
proof -
  let ?g = "GatewaySession_init (Some e) lib"
  obtain t g where g: "GatewaySession_newBrokerSocket config ?g = (t, g)" by fastforce
  have g': "gs_endpoint g = Some e" "gs_clientId g = ''''"
    using newBrokerSocket_endpoint [OF g] by (simp_all add: GatewaySession_init_def)
  obtain ok' acc' where s: "Acceptor_clientStart e acc = (ok', acc')" by fastforce
  have acc': "acceptor_ok acc'" "dom (ac_clients acc') = insert e (dom (ac_clients (app_acceptor a)))"
    using acceptor_ok_client_ops(1) [OF acc(1), of e] dom_clientStart [of e acc] acc(2) s by simp_all
  have n: "gs_endpoint (gn_data (GwNode i ?g [])) = Some e" for i by (simp add: GatewaySession_init_def)
  show ?thesis
    using app_ok_new_destroyed [OF ok acc e n] app_ok_new_destroyed [OF ok acc' e n]
      app_ok_new_session [OF ok acc' e g']
    by (simp add: App_newConnection_def GatewaySession_start_def Let_def s g GatewaySession_init_endpoint
        GatewaySession_doTerminate_def App_post_def)
qed

lemma app_ok_received: "app_ok a \<Longrightarrow> ec \<noteq> Io_Aborted \<Longrightarrow> app_ok (App_received config libStarted lib ec e buf a)"
proof -
  assume ok: "app_ok a" and ec: "ec \<noteq> Io_Aborted"
  let ?acc = "Acceptor_received ec e buf (app_acceptor a)"
  have acc: "acceptor_ok ?acc" using ok ec acceptor_ok_received by (simp add: app_ok_def app_struct_def)
  show ?thesis
  proof (cases "ac_reports ?acc = ac_reports (app_acceptor a)")
    case True
    then have "dom (ac_clients ?acc) = dom (ac_clients (app_acceptor a))" using received_clients(1) by metis
    then have "app_struct (a\<lparr>app_acceptor := ?acc\<rparr>)"
      using ok acc by (intro app_struct_acceptor) (simp_all add: app_ok_def)
    then show ?thesis using True ok by (simp add: App_received_def app_ok_def)
  next
    case False
    have "dom (ac_clients ?acc) = insert e (dom (ac_clients (app_acceptor a)))"
      using received_clients(1) [of ec e buf "app_acceptor a"] False by simp
    then show ?thesis using app_ok_newConnection [OF ok acc] received_clients(2) [OF False] False
      by (simp add: App_received_def)
  qed
qed

text \<open>The other events of the acceptor leave the set of sockets alone.\<close>

lemma app_ok_acceptor:
  "app_ok a \<Longrightarrow> acceptor_ok acc \<Longrightarrow> dom (ac_clients acc) = dom (ac_clients (app_acceptor a)) \<Longrightarrow>
     app_ok (a\<lparr>app_acceptor := acc\<rparr>)"
  by (simp add: app_ok_def app_struct_acceptor)

lemma dom_acceptor_ops:
  "dom (ac_clients (acceptor_send r acc)) = dom (ac_clients acc)"
  "dom (ac_clients (Acceptor_sendDone ec acc)) = dom (ac_clients acc)"
  "dom (ac_clients (Acceptor_clientPosted e acc)) = dom (ac_clients acc)"
proof -
  show "dom (ac_clients (acceptor_send r acc)) = dom (ac_clients acc)"
    by (cases r; cases "ac_pendingWrites acc") (simp_all add: acceptor_defs)
  show "dom (ac_clients (Acceptor_sendDone ec acc)) = dom (ac_clients acc)"
    by (cases "ac_pendingWrites acc"; cases "tl (ac_pendingWrites acc)") (simp_all add: acceptor_defs)
  show "dom (ac_clients (Acceptor_clientPosted e acc)) = dom (ac_clients acc)"
    by (auto simp: Acceptor_clientPosted_def split: option.split)
qed

lemma app_struct_map:
  assumes "app_struct a" and sessions: "app_sessions a' = map f (app_sessions a)"
    and keeps: "\<And>n. n \<in> set (app_sessions a) \<Longrightarrow> node_endpoint (f n) = node_endpoint n \<and>
       all_nodes (\<lambda>d. gs_endpoint d = None) (gn_fwd (f n))"
    and ids: "node_ids (app_sessions a') = node_ids (app_sessions a)"
    and same: "app_acceptor a' = app_acceptor a" "app_nextId a' = app_nextId a"
  shows "app_struct a'"
proof -
  let ?ns = "app_sessions a"
  have "inj_on node_endpoint (f ` set ?ns)"
    using assms(1) keeps by (auto simp: app_struct_def inj_on_def)
  moreover have "node_endpoint ` f ` set ?ns = node_endpoint ` set ?ns"
    using keeps by (auto simp: image_image)
  ultimately show ?thesis using assms(1) keeps ids
    by (auto simp: app_struct_def sessions same)
qed

abbreviation client_of :: "gw_node \<Rightarrow> string" where
  "client_of n \<equiv> gs_clientId (gn_data n)"

text \<open>The top of the list after the client of session \<open>i\<close> has been set.\<close>

lemma set_client_top:
  "n' \<in> set (update_node i (set_client cid) ns) \<Longrightarrow>
     \<exists>n \<in> set ns. gn_id n' = gn_id n \<and> client_of n' = (if gn_id n = i then cid else client_of n) \<and>
       n' = (if gn_id n = i then set_client cid n else GwNode (gn_id n) (gn_data n) (update_node i (set_client cid) (gn_fwd n)))"
proof -
  let ?h = "\<lambda>n. if gn_id n = i then set_client cid n else GwNode (gn_id n) (gn_data n) (update_node i (set_client cid) (gn_fwd n))"
  assume "n' \<in> set (update_node i (set_client cid) ns)"
  then have "n' \<in> ?h ` set ns" by (subst (asm) update_node_map) simp
  then obtain n where n: "n \<in> set ns" "n' = ?h n" by blast
  show ?thesis by (rule bexI [OF _ n(1)]) (simp add: n(2) set_client_def)
qed

lemma clients_uniqueD:
  "clients_unique ns \<Longrightarrow> n \<in> set ns \<Longrightarrow> m \<in> set ns \<Longrightarrow> client_of n = client_of m \<Longrightarrow>
     client_of n \<noteq> '''' \<Longrightarrow> n = m"
  by (auto simp: clients_unique_def inj_on_def)

lemma clients_uniqueI:
  "(\<And>n m. n \<in> set ns \<Longrightarrow> m \<in> set ns \<Longrightarrow> client_of n = client_of m \<Longrightarrow> client_of n \<noteq> '''' \<Longrightarrow> n = m) \<Longrightarrow>
     clients_unique ns"
  by (auto simp: clients_unique_def inj_on_def)

lemma app_struct_set_client:
  assumes "app_struct a"
  shows "app_struct (a\<lparr>app_sessions := update_node i (set_client cid) (app_sessions a)\<rparr>)"
proof (rule app_struct_map [OF assms])
  let ?a = "a\<lparr>app_sessions := update_node i (set_client cid) (app_sessions a)\<rparr>"
  have keeps: "gn_id (set_client cid n) = gn_id n \<and> gn_fwd (set_client cid n) = gn_fwd n" for n
    by (simp add: set_client_def)
  show "node_ids (app_sessions ?a) = node_ids (app_sessions a)"
    using node_ids_update [of "set_client cid", OF keeps] by simp
  show "app_sessions ?a = map (\<lambda>n. if gn_id n = i then set_client cid n
      else GwNode (gn_id n) (gn_data n) (update_node i (set_client cid) (gn_fwd n))) (app_sessions a)"
    by (simp flip: update_node_map)
  have none: "all_nodes (\<lambda>d. gs_endpoint d = None) (gn_fwd n)" if "n \<in> set (app_sessions a)" for n
    using assms that by (simp add: app_struct_def)
  have upd: "all_nodes (\<lambda>d. gs_endpoint d = None) [set_client cid n]"
    if "all_nodes (\<lambda>d. gs_endpoint d = None) [n]" for n
    using that by (cases n) (simp add: set_client_def)
  show "node_endpoint (if gn_id n = i then set_client cid n
        else GwNode (gn_id n) (gn_data n) (update_node i (set_client cid) (gn_fwd n))) = node_endpoint n \<and>
      all_nodes (\<lambda>d. gs_endpoint d = None) (gn_fwd (if gn_id n = i then set_client cid n
        else GwNode (gn_id n) (gn_data n) (update_node i (set_client cid) (gn_fwd n))))"
    if "n \<in> set (app_sessions a)" for n
    using none [OF that] all_nodes_update [of _ "gn_fwd n" "set_client cid" i, OF none [OF that] upd]
    by (cases "gn_id n = i") (simp_all add: node_endpoint_def set_client_def)
qed simp_all

text \<open>The callback of the application leaves no other primary session with the client.\<close>

lemma app_ok_clientIdReport:
  assumes s: "app_struct a"
    and others: "\<And>n m. n \<in> set (app_sessions a) \<Longrightarrow> m \<in> set (app_sessions a) \<Longrightarrow>
       client_of n = client_of m \<Longrightarrow> client_of n \<noteq> '''' \<Longrightarrow> gn_id n \<noteq> i \<Longrightarrow> gn_id m \<noteq> i \<Longrightarrow> n = m"
    and i: "\<And>n. n \<in> set (app_sessions a) \<Longrightarrow> gn_id n = i \<Longrightarrow> client_of n \<noteq> '''' \<Longrightarrow> 
       client_of n = cid \<or> (\<forall>m \<in> set (app_sessions a). client_of m = client_of n \<longrightarrow> m = n)"
  shows "app_ok (App_clientIdReport i cid a)"
proof -
  let ?ns = "app_sessions a"
  let ?other = "\<lambda>n. gn_id n \<noteq> i \<and> cid = client_of n"
  have ids: "distinct (map gn_id ?ns)"
    using s by (auto simp: app_struct_def intro: distinct_top_ids)
  have same: "n = m" if "n \<in> set ?ns" "m \<in> set ?ns" "gn_id n = gn_id m" for n m
    using ids that by (auto simp: distinct_map inj_on_def)
  have unique: "clients_unique ns" if sub: "set ns \<subseteq> set ?ns"
    and none: "cid = '''' \<or> (\<forall>n \<in> set ns. \<not> ?other n)" for ns
  proof (rule clients_uniqueI)
    fix n m assume nm: "n \<in> set ns" "m \<in> set ns" "client_of n = client_of m" "client_of n \<noteq> ''''"
    then have in_ns: "n \<in> set ?ns" "m \<in> set ?ns" using sub by auto
    show "n = m"
    proof (cases "gn_id n = i \<or> gn_id m = i")
      case True
      then show ?thesis using i in_ns nm none same by metis
    next
      case False
      then show ?thesis using others in_ns nm by blast
    qed
  qed
  show ?thesis
  proof (cases "cid = ''''")
    case True
    then show ?thesis using s unique [of ?ns] by (simp add: App_clientIdReport_def app_ok_def)
  next
    case False
    show ?thesis
    proof (cases "List.find ?other ?ns")
      case None
      then have "\<forall>n \<in> set ?ns. \<not> ?other n" by (simp add: find_None_iff)
      then show ?thesis using None False s unique [of ?ns] by (simp add: App_clientIdReport_def app_ok_def)
    next
      case (Some q)
      let ?rest = "filter (\<lambda>m. gn_id m \<noteq> gn_id q) ?ns"
      have q: "q \<in> set ?ns" "?other q" using find_SomeD [OF Some] by auto
      have "\<not> ?other n" if "n \<in> set ?rest" for n
      proof
        assume o: "?other n"
        have "n \<in> set ?ns" "gn_id n \<noteq> gn_id q" using that by simp_all
        moreover have "n = q"
          by (rule others [OF \<open>n \<in> set ?ns\<close> q(1)]) (use o q(2) False in simp_all)
        ultimately show False by simp
      qed
      then have "\<forall>n \<in> set ?rest. \<not> ?other n" by blast
      then have "clients_unique ?rest" by (intro unique disjI2) simp_all
      then have "app_ok (App_destroyed q (a\<lparr>app_sessions := ?rest\<rparr>))"
        using app_ok_erased [OF s _ q(1)] by simp
      then show ?thesis using Some False erase_first_found [OF ids Some]
        by (simp add: App_clientIdReport_def Let_def)
    qed
  qed
qed

lemma set_node_ids: "set (node_ids ns) = (\<Union>n \<in> set ns. set (node_ids [n]))"
  by (induction ns rule: node_ids.induct) auto

lemma clients_unique_map:
  assumes "clients_unique ns" "\<And>n. client_of (f n) = client_of n"
  shows "clients_unique (map f ns)"
proof (rule clients_uniqueI)
  fix n m assume nm: "n \<in> set (map f ns)" "m \<in> set (map f ns)" "client_of n = client_of m" "client_of n \<noteq> ''''"
  then obtain n0 m0 where "n0 \<in> set ns" "m0 \<in> set ns" "n = f n0" "m = f m0" by auto
  then show "n = m" using clients_uniqueD [OF assms(1), of n0 m0] nm(3,4) by (simp add: assms(2))
qed

lemma nested_not_top:
  assumes "distinct (node_ids ns)" "t \<in> set ns" "i \<in> set (node_ids [t])" "gn_id t \<noteq> i"
  shows "i \<notin> gn_id ` set ns"
proof -
  have "i \<in> set (node_ids (gn_fwd t))" using assms(3,4) by (cases t) auto
  then show ?thesis using below_not_top [OF assms(1) find_node_top [OF assms(1,2)]] by blast
qed

lemma app_ok_clientConnected:
  assumes ok: "app_ok a"
  shows "app_ok (App_clientConnected i cid a)"
proof -
  let ?ns = "app_sessions a" and ?ns' = "update_node i (set_client cid) (app_sessions a)"
  let ?a = "a\<lparr>app_sessions := ?ns'\<rparr>"
  have s: "app_struct ?a" using ok app_struct_set_client by (simp add: app_ok_def)
  have u: "clients_unique ?ns" using ok by (simp add: app_ok_def)
  have ids: "node_ids ?ns' = node_ids ?ns" by (rule node_ids_update) (simp add: set_client_def)
  have dist: "distinct (node_ids ?ns')" using s by (simp add: app_struct_def)
  show ?thesis
  proof (cases "List.find (\<lambda>n. i \<in> set (node_ids [n])) ?ns'")
    case None
    then have "i \<notin> set (node_ids ?ns')"
      using set_node_ids [of ?ns'] by (auto simp: find_None_iff)
    then have "?ns' = ?ns" using ids by (simp add: update_node_absent)
    then show ?thesis using None ok by (simp add: App_clientConnected_def Let_def)
  next
    case (Some t)
    have t: "t \<in> set ?ns'" "i \<in> set (node_ids [t])" using find_SomeD [OF Some] by auto
    have same: "n = m" if nm: "n \<in> set ?ns'" "m \<in> set ?ns'" "client_of n = client_of m" "client_of n \<noteq> ''''"
      "gn_id n \<noteq> i" "gn_id m \<noteq> i" for n m
    proof -
      obtain n0 m0 where "n0 \<in> set ?ns" "m0 \<in> set ?ns" "client_of n0 = client_of n" "client_of m0 = client_of m"
        "n = GwNode (gn_id n0) (gn_data n0) (update_node i (set_client cid) (gn_fwd n0))"
        "m = GwNode (gn_id m0) (gn_data m0) (update_node i (set_client cid) (gn_fwd m0))"
        using set_client_top [OF nm(1)] set_client_top [OF nm(2)] nm(5,6) by auto
      then show ?thesis using clients_uniqueD [OF u, of n0 m0] nm(3,4) by simp
    qed
    have "app_ok (App_clientIdReport (gn_id t) cid ?a)"
    proof (rule app_ok_clientIdReport [OF s])
      fix n m assume "n \<in> set (app_sessions ?a)" "m \<in> set (app_sessions ?a)" "client_of n = client_of m"
        "client_of n \<noteq> ''''" "gn_id n \<noteq> gn_id t" "gn_id m \<noteq> gn_id t"
      then show "n = m" using same nested_not_top [OF dist t] by auto
    next
      fix n assume n: "n \<in> set (app_sessions ?a)" "gn_id n = gn_id t" "client_of n \<noteq> ''''"
      show "client_of n = cid \<or> (\<forall>m \<in> set (app_sessions ?a). client_of m = client_of n \<longrightarrow> m = n)"
      proof (cases "gn_id t = i")
        case True
        then have "client_of n = cid" using set_client_top [of n i cid ?ns] n by auto
        then show ?thesis by simp
      next
        case False
        then show ?thesis using same nested_not_top [OF dist t] n by auto
      qed
    qed
    then show ?thesis using Some
      by (cases "gn_id t = i") (simp_all add: App_clientConnected_def Let_def app_ok_def)
  qed
qed

lemma app_ok_sendDataBroker:
  assumes ok: "app_ok a"
  shows "app_ok (App_sendDataBroker i buf a)"
proof -
  let ?f = "\<lambda>n. GwNode (gn_id n) (GatewaySession_sendDataBroker buf (gn_data n)) (gn_fwd n)"
  let ?h = "\<lambda>n. if gn_id n = i then ?f n else GwNode (gn_id n) (gn_data n) (update_node i ?f (gn_fwd n))"
  have sess: "app_sessions (App_sendDataBroker i buf a) = map ?h (app_sessions a)"
    by (simp add: App_sendDataBroker_def flip: update_node_map)
  have h: "client_of (?h n) = client_of n" "node_endpoint (?h n) = node_endpoint n" for n
    by (simp_all add: GatewaySession_sendDataBroker_def node_endpoint_def)
  have upd: "all_nodes (\<lambda>d. gs_endpoint d = None) [?f n]" if "all_nodes (\<lambda>d. gs_endpoint d = None) [n]" for n
    using that by (cases n) (simp add: GatewaySession_sendDataBroker_def)
  have fwd: "all_nodes (\<lambda>d. gs_endpoint d = None) (gn_fwd (?h n))" if "n \<in> set (app_sessions a)" for n
    using ok that all_nodes_update [of _ "gn_fwd n" ?f i, OF _ upd] by (simp add: app_ok_def app_struct_def)
  have "app_struct (App_sendDataBroker i buf a)"
    using ok h(2) fwd node_ids_update [of ?f i "app_sessions a"]
    by (intro app_struct_map [OF _ sess]) (simp_all add: app_ok_def App_sendDataBroker_def)
  moreover have "clients_unique (map ?h (app_sessions a))"
    using ok h(1) by (intro clients_unique_map) (simp_all only: app_ok_def)
  ultimately show ?thesis by (simp add: app_ok_def sess)
qed

subsection \<open>Runs of the application\<close>

datatype app_event =
    App_Received bool nat io_result endpoint data_buf
  | App_Send endpoint data_buf u32
  | App_SendDone io_result
  | App_ClientPosted endpoint
  | App_ClientConnected nat string
  | App_SendBroker nat data_buf
  | App_FwdCreated nat nat
  | App_FwdDeleted nat nat
  | App_Terminate nat
  | App_RunPosted

fun app_handler :: "config_impl \<Rightarrow> app_event \<Rightarrow> gw_app \<Rightarrow> gw_app" where
  "app_handler config (App_Received ok lib ec e buf) a = App_received config ok lib ec e buf a"
| "app_handler config (App_Send e buf r) a = a\<lparr>app_acceptor := Acceptor_sendData e buf r (app_acceptor a)\<rparr>"
| "app_handler config (App_SendDone ec) a = a\<lparr>app_acceptor := Acceptor_sendDone ec (app_acceptor a)\<rparr>"
| "app_handler config (App_ClientPosted e) a = a\<lparr>app_acceptor := Acceptor_clientPosted e (app_acceptor a)\<rparr>"
| "app_handler config (App_ClientConnected i cid) a = App_clientConnected i cid a"
| "app_handler config (App_SendBroker i buf) a = App_sendDataBroker i buf a"
| "app_handler config (App_FwdCreated i lib) a = App_fwdCreated config i lib a"
| "app_handler config (App_FwdDeleted i lib) a = App_fwdDeleted i lib a"
| "app_handler config (App_Terminate i) a = GatewaySession_doTerminate i a"
| "app_handler config App_RunPosted a = App_next_posted a"

text \<open>The network library ends only operations that are under way and does not abort them; the
  library reports only for sessions that exist.\<close>

fun app_enabled :: "app_event \<Rightarrow> gw_app \<Rightarrow> bool" where
  "app_enabled (App_Received ok lib ec e buf) a \<longleftrightarrow> ec \<noteq> Io_Aborted \<and> 0 < ac_receiving (app_acceptor a)"
| "app_enabled (App_Send e buf r) a \<longleftrightarrow> True"
| "app_enabled (App_SendDone ec) a \<longleftrightarrow> ec \<noteq> Io_Aborted \<and> 0 < ac_sending (app_acceptor a)"
| "app_enabled (App_ClientPosted e) a \<longleftrightarrow>
     (case ac_clients (app_acceptor a) e of None \<Rightarrow> False | Some c \<Rightarrow> 0 < cs_posted c)"
| "app_enabled (App_ClientConnected i cid) a \<longleftrightarrow> i \<in> set (node_ids (app_sessions a))"
| "app_enabled (App_SendBroker i buf) a \<longleftrightarrow> i \<in> set (node_ids (app_sessions a))"
| "app_enabled (App_FwdCreated i lib) a \<longleftrightarrow> i \<in> set (node_ids (app_sessions a))"
| "app_enabled (App_FwdDeleted i lib) a \<longleftrightarrow> i \<in> set (node_ids (app_sessions a))"
| "app_enabled (App_Terminate i) a \<longleftrightarrow> i \<in> set (node_ids (app_sessions a))"
| "app_enabled App_RunPosted a \<longleftrightarrow> app_posted a \<noteq> []"

inductive app_reachable :: "config_impl \<Rightarrow> gw_app \<Rightarrow> bool" for config :: config_impl where
  app_start: "Acceptor_startImpl env (Acceptor_init config) = Inr (True, acc) \<Longrightarrow>
     app_reachable config (App_init acc)"
| app_step: "app_reachable config a \<Longrightarrow> app_enabled e a \<Longrightarrow> app_reachable config (app_handler config e a)"

lemma app_ok_handler: "app_ok a \<Longrightarrow> app_enabled e a \<Longrightarrow> app_ok (app_handler config e a)"
proof (cases e)
  case (App_Send e' buf r)
  assume "app_ok a"
  then show ?thesis using App_Send dom_acceptor_ops(1) [of "(e', buf, r)"] acceptor_ok_send [of _ "(e', buf, r)"]
    by (auto intro!: app_ok_acceptor simp: app_ok_def app_struct_def)
next
  case (App_SendDone ec)
  assume "app_ok a" "app_enabled e a"
  then show ?thesis using App_SendDone dom_acceptor_ops(2) acceptor_ok_sendDone
    by (auto intro!: app_ok_acceptor simp: app_ok_def app_struct_def)
next
  case (App_ClientPosted e')
  assume "app_ok a"
  then show ?thesis using App_ClientPosted dom_acceptor_ops(3) acceptor_ok_client_ops(2)
    by (auto intro!: app_ok_acceptor simp: app_ok_def app_struct_def)
next
  case (App_Terminate i)
  assume "app_ok a"
  then show ?thesis using App_Terminate by (simp add: app_ok_def)
qed (auto intro: app_ok_received app_ok_clientConnected app_ok_sendDataBroker app_ok_fwdCreated
    app_ok_fwdDeleted app_ok_next_posted)

lemma app_reachable_ok: "app_reachable config a \<Longrightarrow> app_ok a"
proof (induction rule: app_reachable.induct)
  case (app_start env acc)
  then show ?case using acceptor_started_ok acceptor_started_empty
    by (fastforce simp: app_ok_def app_struct_def App_init_def clients_unique_def)
qed (rule app_ok_handler)

text \<open>C3. The sessions and the sockets. In every reachable state of the application the endpoints the
  acceptor knows are exactly those of the primary sessions, one socket each, so that no datagram is
  handed to a socket that has been destroyed and no destroyed socket is unknown to the acceptor; and no
  two primary sessions serve the same client.\<close>

theorem app_sessions_own_sockets:
  assumes "app_reachable config a"
  shows "Some ` dom (ac_clients (app_acceptor a)) = node_endpoint ` set (app_sessions a) \<and>
    distinct (map node_endpoint (app_sessions a)) \<and>
    ac_asserts (app_acceptor a) \<and> ac_receiving (app_acceptor a) = 1 \<and>
    distinct (filter (\<lambda>c. c \<noteq> '''') (map client_of (app_sessions a)))"
proof -
  note ok = app_reachable_ok [OF assms, unfolded app_ok_def app_struct_def acceptor_ok_def]
  then have ids: "distinct (app_sessions a)" by (auto dest!: distinct_top_ids simp: distinct_map)
  have "filter (\<lambda>c. c \<noteq> '''') (map client_of (app_sessions a)) =
      map client_of (filter (\<lambda>n. client_of n \<noteq> '''') (app_sessions a))"
    by (simp add: filter_map comp_def)
  moreover have "distinct (map client_of (filter (\<lambda>n. client_of n \<noteq> '''') (app_sessions a)))"
    using ok ids by (simp add: distinct_map clients_unique_def)
  ultimately show ?thesis using ok ids by (simp add: distinct_map)
qed

section \<open>Runs that can be executed\<close>

text \<open>A decoder for a stream of messages of two bytes each.\<close>

fun ex_decode :: "data_buf \<Rightarrow> mqtt_msg list \<times> nat" where
  "ex_decode (a # b # r) = (PingrespMsg # fst (ex_decode r), 2 + snd (ex_decode r))"
| "ex_decode r = ([], 0)"

lemma ex_decode_incremental: "incremental ex_decode"
proof -
  have "snd (ex_decode a) \<le> length a" for a
    by (induction a rule: ex_decode.induct) auto
  moreover have "ex_decode (a @ b) = (fst (ex_decode a) @ fst (ex_decode (drop (snd (ex_decode a)) a @ b)),
      snd (ex_decode a) + snd (ex_decode (drop (snd (ex_decode a)) a @ b)))" for a b
    by (induction a rule: ex_decode.induct) auto
  ultimately show ?thesis unfolding incremental_def by blast
qed

text \<open>The stream of three messages and a half, in three pieces.\<close>

definition ex_chunks :: "data_buf list" where
  "ex_chunks = [[0xD0], [0, 0xD0, 0, 0xD0], [0, 0xD0]]"

theorem broker_stream_reassembled_witness:
  "\<exists>g' batches. fold (GatewaySession_brokerData ex_decode) ex_chunks
       (GatewaySession_init None 0, sample_connected) = (g', fold handle_batch batches sample_connected) \<and>
     gs_brokerData g' = [0xD0] \<and> concat batches = [PingrespMsg, PingrespMsg, PingrespMsg]"
proof -
  let ?x = "(GatewaySession_init None 0, sample_connected)"
  let ?at = "\<lambda>k. session_open (snd (fold (GatewaySession_brokerData ex_decode) (take k ex_chunks) ?x))"
  have "?at 0" "?at 1" "?at 2" by code_simp+
  moreover have "k < length ex_chunks \<Longrightarrow> k = 0 \<or> k = 1 \<or> k = 2" for k
    by (auto simp: ex_chunks_def)
  ultimately have "\<forall>k < length ex_chunks. ?at k" by blast
  moreover have "gs_brokerData (GatewaySession_init None 0) = []"
    "drop (snd (ex_decode (concat ex_chunks))) (concat ex_chunks) = [0xD0]"
    "fst (ex_decode (concat ex_chunks)) = [PingrespMsg, PingrespMsg, PingrespMsg]"
    by code_simp+
  ultimately show ?thesis
    using broker_stream_reassembled [OF ex_decode_incremental, of "GatewaySession_init None 0" ex_chunks sample_connected]
    by simp
qed

theorem broker_flags_agree_witness:
  "let x = fold (link_handler ex_decode ConfigImpl_init)
       [Link_connected, Link_data [0xD0, 0, 0xD0], Link_error, Link_timer Io_Success, Link_connected]
       (GatewaySession_init None 0, sample_session) in
   gs_brokerConnected (fst x) \<and> m_brokerConnected (st (snd x))"
proof -
  let ?es = "[Link_connected, Link_data [0xD0, 0, 0xD0], Link_error, Link_timer Io_Success, Link_connected]"
  have "m_running (st sample_session)" "m_brokerConnected (st sample_session) = gs_brokerConnected (GatewaySession_init None 0)"
    "gs_brokerConnected (fst (fold (link_handler ex_decode ConfigImpl_init) ?es (GatewaySession_init None 0, sample_session)))"
    by code_simp+
  with broker_flags_agree [OF this(1,2), of ex_decode ConfigImpl_init ?es] show ?thesis by (simp add: Let_def)
qed

text \<open>The first byte of a message is left over when the library, on a new connection request of its
  client, asks for a new connection to the broker; the first byte of the new stream completes it.\<close>

theorem broker_data_survives_reconnect_witness:
  "let x = fold (link_handler ex_decode ConfigImpl_init) [Link_reconnect, Link_timer Io_Success, Link_connected]
       ((GatewaySession_init None 0)\<lparr>gs_brokerConnected := True, gs_brokerData := [0x30]\<rparr>,
         SessionImpl_brokerReconnectRequest sample_connected) in
   gs_brokerData (fst x) = [0x30] \<and> session_open (snd x) \<and>
   snd (GatewaySession_brokerData ex_decode [0x20] x) =
     snd (SessionImpl_dataFromBroker ex_decode [0x30, 0x20] (snd x)) \<and>
   gs_brokerData (fst (GatewaySession_brokerData ex_decode [0x20] x)) = []"
proof -
  let ?g = "(GatewaySession_init None 0)\<lparr>gs_brokerConnected := True, gs_brokerData := [0x30]\<rparr>"
  let ?s = "SessionImpl_brokerReconnectRequest sample_connected"
  let ?es = "[Link_reconnect, Link_timer Io_Success, Link_connected]"
  let ?x = "fold (link_handler ex_decode ConfigImpl_init) ?es (?g, ?s)"
  have "session_open (snd ?x)" "gs_brokerData (fst (GatewaySession_brokerData ex_decode [0x20] ?x)) = []"
    by code_simp+
  with broker_data_survives_reconnect [of ?g ?es ex_decode ConfigImpl_init ?s "[0x20]"]
  show ?thesis by (simp add: Let_def)
qed

text \<open>Runs of the application.\<close>

fun app_exec :: "config_impl \<Rightarrow> app_event list \<Rightarrow> gw_app \<Rightarrow> gw_app option" where
  "app_exec config [] a = Some a"
| "app_exec config (e # es) a = (if app_enabled e a then app_exec config es (app_handler config e a) else None)"

lemma app_exec_reachable:
  "app_reachable config a \<Longrightarrow> app_exec config es a = Some a' \<Longrightarrow> app_reachable config a'"
  by (induction config es a rule: app_exec.induct) (auto intro: app_step split: if_splits)

lemma ex_app_start: "app_reachable ConfigImpl_init (App_init ex_acceptor)"
proof (rule app_start)
  show "Acceptor_startImpl ex_udp_env (Acceptor_init ConfigImpl_init) = Inr (True, ex_acceptor)"
    by (simp add: ex_acceptor_def) code_simp
qed

lemma ex_app_reachable:
  "app_exec ConfigImpl_init es (App_init ex_acceptor) \<noteq> None \<Longrightarrow>
     app_reachable ConfigImpl_init (the (app_exec ConfigImpl_init es (App_init ex_acceptor)))"
  using app_exec_reachable [OF ex_app_start] by auto

text \<open>Two clients; the second connects with the name of the first, whose session and socket go.\<close>

definition ex_takeover :: "app_event list" where
  "ex_takeover = [App_Received True 0 Io_Success (7, 9000) [1], App_ClientConnected 0 ''dev'',
     App_Received True 1 Io_Success (8, 9001) [2], App_ClientConnected 1 ''dev'']"

theorem app_sessions_own_sockets_witness:
  "let a = the (app_exec ConfigImpl_init ex_takeover (App_init ex_acceptor)) in
   map gn_id (app_sessions a) = [1] \<and> map client_of (app_sessions a) = [''dev''] \<and>
   dom (ac_clients (app_acceptor a)) = {(8, 9001)} \<and> ac_asserts (app_acceptor a)"
proof -
  let ?a = "the (app_exec ConfigImpl_init ex_takeover (App_init ex_acceptor))"
  have e: "app_exec ConfigImpl_init ex_takeover (App_init ex_acceptor) \<noteq> None" and
    v: "map gn_id (app_sessions ?a) = [1]" "map client_of (app_sessions ?a) = [''dev'']"
      "map node_endpoint (app_sessions ?a) = [Some (8, 9001)]"
    by code_simp+
  then have "app_reachable ConfigImpl_init ?a" by (intro ex_app_reachable)
  from app_sessions_own_sockets [OF this] have
    "Some ` dom (ac_clients (app_acceptor ?a)) = set (map node_endpoint (app_sessions ?a))" "ac_asserts (app_acceptor ?a)"
    by simp_all
  then have "Some ` dom (ac_clients (app_acceptor ?a)) = Some ` {(8, 9001)}" "ac_asserts (app_acceptor ?a)"
    using v(3) by simp_all
  then have "dom (ac_clients (app_acceptor ?a)) = {(8, 9001)}" by (simp only: inj_image_eq_iff [OF inj_Some])
  then show ?thesis using v \<open>ac_asserts _\<close> by (simp add: Let_def)
qed

section \<open>Callbacks that outlive their session\<close>

text \<open>C39. A posted request for termination refers to its session. When another client takes the
  name over before the request has run, the session is destroyed at once and the request runs on the
  destroyed object.\<close>

theorem posted_termination_use_after_free:
  "\<exists>a. app_reachable ConfigImpl_init a \<and> UseAfterFree (Post_term 0) \<in> set (app_faults a)"
proof -
  let ?es = "[App_Received True 0 Io_Success (7, 9000) [1], App_ClientConnected 0 ''dev'',
     App_Received True 1 Io_Success (8, 9001) [2], App_Terminate 0, App_ClientConnected 1 ''dev'', App_RunPosted]"
  let ?a = "the (app_exec ConfigImpl_init ?es (App_init ex_acceptor))"
  have "app_exec ConfigImpl_init ?es (App_init ex_acceptor) \<noteq> None"
    and f: "app_faults ?a = [UseAfterFree (Post_term 0)]"
    by code_simp+
  then have "app_reachable ConfigImpl_init ?a" by (intro ex_app_reachable)
  with f show ?thesis by auto
qed

text \<open>The sessions behind a forwarder are not unique. The guard tests the name of the forwarder's own
  client, which is empty unless the forwarder itself connects: two sessions below it serve the same client, with no callback left
  that would remove one.\<close>

theorem forwarded_clients_not_unique:
  "\<exists>a t n m. app_reachable ConfigImpl_init a \<and> app_posted a = [] \<and> t \<in> set (app_sessions a) \<and>
     n \<in> set (gn_fwd t) \<and> m \<in> set (gn_fwd t) \<and> gn_id n \<noteq> gn_id m \<and> client_of n = ''dev'' \<and> client_of m = ''dev''"
proof -
  let ?es = "[App_Received True 0 Io_Success (7, 9000) [1], App_FwdCreated 0 1, App_ClientConnected 1 ''dev'',
     App_FwdCreated 0 2, App_ClientConnected 2 ''dev'']"
  let ?a = "the (app_exec ConfigImpl_init ?es (App_init ex_acceptor))"
  have "app_exec ConfigImpl_init ?es (App_init ex_acceptor) \<noteq> None" and p: "app_posted ?a = []"
    and l: "length (app_sessions ?a) = 1" "length (gn_fwd (app_sessions ?a ! 0)) = 2"
    "gn_id (gn_fwd (app_sessions ?a ! 0) ! 0) \<noteq> gn_id (gn_fwd (app_sessions ?a ! 0) ! 1)"
    "client_of (gn_fwd (app_sessions ?a ! 0) ! 0) = ''dev''" "client_of (gn_fwd (app_sessions ?a ! 0) ! 1) = ''dev''"
    by code_simp+
  then have "app_reachable ConfigImpl_init ?a" by (intro ex_app_reachable)
  moreover have "app_sessions ?a ! 0 \<in> set (app_sessions ?a)"
    "gn_fwd (app_sessions ?a ! 0) ! 0 \<in> set (gn_fwd (app_sessions ?a ! 0))"
    "gn_fwd (app_sessions ?a ! 0) ! 1 \<in> set (gn_fwd (app_sessions ?a ! 0))"
    using l(1,2) by simp_all
  ultimately show ?thesis using p l(3-5) by blast
qed

end
