(* ===== verification/Gw_Gateway.thy ===== *)
theory Gw_Gateway
  imports Gw_Messages
begin

text \<open>
  The gateway proper, \<^verbatim>\<open>GatewayImpl\<close> of \<^verbatim>\<open>src/gateway/lib/src/GatewayImpl.{h,cpp}\<close>: the periodic
  ADVERTISE message. The frame that serialises the message is generated code of another project and
  a parameter: a function of the two fields and the room in the buffer that gives the bytes, or
  nothing when the write fails.
\<close>

section \<open>Definitions\<close>

type_synonym advertise_frame = "u8 \<Rightarrow> u16 \<Rightarrow> nat \<Rightarrow> data_buf option"

datatype gateway_event = SendData data_buf | ProgramTickReq u32

datatype gateway_fault = ZeroPeriod | WriteFailed | WrongLength | NoCallback | UninitialisedBuffer

record gateway_impl =
  gw_tickProgramCb :: bool
  gw_sendDataCb :: bool
  gw_advertisePeriod :: u16
  gw_gwId :: u8
  gw_running :: bool
  gw_outputData :: "data_buf option"
  gw_out :: "gateway_event list"
  gw_faults :: "gateway_fault list"

definition AdvertiseLength :: nat where
  "AdvertiseLength = 5"

definition GatewayImpl_init :: gateway_impl where
  "GatewayImpl_init = \<lparr>gw_tickProgramCb = False, gw_sendDataCb = False, gw_advertisePeriod = 0,
     gw_gwId = 0, gw_running = False, gw_outputData = None, gw_out = [], gw_faults = []\<rparr>"

definition gw_fault_if :: "bool \<Rightarrow> gateway_fault \<Rightarrow> gateway_impl \<Rightarrow> gateway_impl" where
  "gw_fault_if bad f g = (if bad then g\<lparr>gw_faults := gw_faults g @ [f]\<rparr> else g)"

text \<open>A write that fails or does not fill the buffer leaves its contents open.\<close>

definition GatewayImpl_refresh :: "advertise_frame \<Rightarrow> gateway_impl \<Rightarrow> gateway_impl" where
  "GatewayImpl_refresh wr g =
     (if \<not> gw_running g then g
      else let g = gw_fault_if (gw_advertisePeriod g = 0) ZeroPeriod g in
        case wr (gw_gwId g) (gw_advertisePeriod g) AdvertiseLength of
          None \<Rightarrow> gw_fault_if True WriteFailed (g\<lparr>gw_outputData := None\<rparr>)
        | Some bytes \<Rightarrow>
            (if length bytes \<noteq> AdvertiseLength
             then gw_fault_if True WrongLength (g\<lparr>gw_outputData := None\<rparr>)
             else g\<lparr>gw_outputData := Some bytes\<rparr>))"

definition GatewayImpl_sendAndReprogram :: "gateway_impl \<Rightarrow> gateway_impl" where
  "GatewayImpl_sendAndReprogram g =
     (let g = gw_fault_if (\<not> gw_tickProgramCb g) NoCallback g;
          g = gw_fault_if (\<not> gw_sendDataCb g) NoCallback g in
      case gw_outputData g of
        None \<Rightarrow> gw_fault_if True UninitialisedBuffer g
      | Some bytes \<Rightarrow> g\<lparr>gw_out := gw_out g @ [SendData bytes,
            ProgramTickReq (ucast (gw_advertisePeriod g) * 1000)]\<rparr>)"

definition GatewayImpl_setNextTickProgramReqCb :: "bool \<Rightarrow> gateway_impl \<Rightarrow> gateway_impl" where
  "GatewayImpl_setNextTickProgramReqCb func g = g\<lparr>gw_tickProgramCb := func\<rparr>"

definition GatewayImpl_setSendDataReqCb :: "bool \<Rightarrow> gateway_impl \<Rightarrow> gateway_impl" where
  "GatewayImpl_setSendDataReqCb func g = g\<lparr>gw_sendDataCb := func\<rparr>"

definition GatewayImpl_setAdvertisePeriod ::
    "advertise_frame \<Rightarrow> u16 \<Rightarrow> gateway_impl \<Rightarrow> gateway_impl" where
  "GatewayImpl_setAdvertisePeriod wr v g = GatewayImpl_refresh wr (g\<lparr>gw_advertisePeriod := v\<rparr>)"

definition GatewayImpl_setGatewayId ::
    "advertise_frame \<Rightarrow> u8 \<Rightarrow> gateway_impl \<Rightarrow> gateway_impl" where
  "GatewayImpl_setGatewayId wr v g = GatewayImpl_refresh wr (g\<lparr>gw_gwId := v\<rparr>)"

definition GatewayImpl_start :: "advertise_frame \<Rightarrow> gateway_impl \<Rightarrow> bool \<times> gateway_impl" where
  "GatewayImpl_start wr g =
     (if gw_running g \<or> \<not> gw_tickProgramCb g \<or> \<not> gw_sendDataCb g \<or> gw_advertisePeriod g = 0
      then (False, g)
      else (True, GatewayImpl_sendAndReprogram
             (GatewayImpl_refresh wr (g\<lparr>gw_running := True\<rparr>))))"

definition GatewayImpl_stop :: "gateway_impl \<Rightarrow> gateway_impl" where
  "GatewayImpl_stop g = g\<lparr>gw_running := False\<rparr>"

definition GatewayImpl_tick :: "gateway_impl \<Rightarrow> gateway_impl" where
  "GatewayImpl_tick g = (if \<not> gw_running g then g else GatewayImpl_sendAndReprogram g)"

section \<open>The gateway as a state machine\<close>

text \<open>The calls of the application. Callbacks are set before the gateway starts and never reset;
  the advertise period is never set to zero.\<close>

inductive gateway_call :: "advertise_frame \<Rightarrow> gateway_impl \<Rightarrow> gateway_impl \<Rightarrow> bool"
  for wr where
  tickCb: "gateway_call wr g (GatewayImpl_setNextTickProgramReqCb True g)"
| sendCb: "gateway_call wr g (GatewayImpl_setSendDataReqCb True g)"
| period: "v \<noteq> 0 \<Longrightarrow> gateway_call wr g (GatewayImpl_setAdvertisePeriod wr v g)"
| gwId: "gateway_call wr g (GatewayImpl_setGatewayId wr v g)"
| start: "gateway_call wr g (snd (GatewayImpl_start wr g))"
| stop: "gateway_call wr g (GatewayImpl_stop g)"
| tick: "gateway_call wr g (GatewayImpl_tick g)"

text \<open>The documented behaviour of the frame: an ADVERTISE message takes exactly its five bytes.\<close>

definition frame_ok :: "advertise_frame \<Rightarrow> bool" where
  "frame_ok wr \<longleftrightarrow> (\<forall>i d. \<exists>b. wr i d AdvertiseLength = Some b \<and> length b = AdvertiseLength)"

text \<open>While the gateway runs, the buffer holds the message of the current id and period.\<close>

definition gateway_inv :: "advertise_frame \<Rightarrow> gateway_impl \<Rightarrow> bool" where
  "gateway_inv wr g \<longleftrightarrow> gw_faults g = [] \<and>
     (gw_running g \<longrightarrow> gw_tickProgramCb g \<and> gw_sendDataCb g \<and> gw_advertisePeriod g \<noteq> 0 \<and>
        gw_outputData g = wr (gw_gwId g) (gw_advertisePeriod g) AdvertiseLength)"

lemma refresh_inv:
  assumes "frame_ok wr" "gw_faults g = []"
    "gw_running g \<Longrightarrow> gw_tickProgramCb g \<and> gw_sendDataCb g \<and> gw_advertisePeriod g \<noteq> 0"
  shows "gateway_inv wr (GatewayImpl_refresh wr g)"
proof -
  obtain b where "wr (gw_gwId g) (gw_advertisePeriod g) AdvertiseLength = Some b" "length b = AdvertiseLength"
    using assms(1) by (auto simp: frame_ok_def)
  with assms(2,3) show ?thesis
    by (auto simp: gateway_inv_def GatewayImpl_refresh_def gw_fault_if_def)
qed

lemma sendAndReprogram_out:
  assumes "frame_ok wr" "gateway_inv wr g" "gw_running g"
  shows "\<exists>b. wr (gw_gwId g) (gw_advertisePeriod g) AdvertiseLength = Some b \<and>
    GatewayImpl_sendAndReprogram g = g\<lparr>gw_out := gw_out g @ [SendData b,
      ProgramTickReq (ucast (gw_advertisePeriod g) * 1000)]\<rparr>"
proof -
  obtain b where "wr (gw_gwId g) (gw_advertisePeriod g) AdvertiseLength = Some b"
    using assms(1) by (auto simp: frame_ok_def)
  with assms(2,3) show ?thesis
    by (auto simp: gateway_inv_def GatewayImpl_sendAndReprogram_def gw_fault_if_def Let_def)
qed

lemma sendAndReprogram_inv:
  "frame_ok wr \<Longrightarrow> gateway_inv wr g \<Longrightarrow> gw_running g \<Longrightarrow>
     gateway_inv wr (GatewayImpl_sendAndReprogram g)"
  using sendAndReprogram_out [of wr g] by (auto simp: gateway_inv_def)

lemma gateway_call_inv:
  assumes "gateway_call wr g g'" "frame_ok wr" "gateway_inv wr g"
  shows "gateway_inv wr g'"
  using assms
proof (induction rule: gateway_call.induct)
  case (start g)
  let ?g = "g\<lparr>gw_running := True\<rparr>"
  show ?case
  proof (cases "fst (GatewayImpl_start wr g)")
    case True
    then have *: "gateway_inv wr (GatewayImpl_refresh wr ?g)"
      using start by (intro refresh_inv) (auto simp: GatewayImpl_start_def gateway_inv_def split: if_splits)
    have "gw_running (GatewayImpl_refresh wr ?g)"
      using start(1) by (auto simp: GatewayImpl_refresh_def gw_fault_if_def Let_def split: option.splits)
    then show ?thesis using True start(1) sendAndReprogram_inv [OF _ *]
      by (simp add: GatewayImpl_start_def split: if_splits)
  qed (use start in \<open>auto simp: GatewayImpl_start_def split: if_splits\<close>)
next
  case (period v g)
  then show ?case unfolding GatewayImpl_setAdvertisePeriod_def
    by (intro refresh_inv) (auto simp: gateway_inv_def)
next
  case (gwId g v)
  then show ?case unfolding GatewayImpl_setGatewayId_def
    by (intro refresh_inv) (auto simp: gateway_inv_def)
next
  case (tick g)
  then show ?case using sendAndReprogram_inv by (simp add: GatewayImpl_tick_def)
qed (simp_all add: gateway_inv_def GatewayImpl_setNextTickProgramReqCb_def
    GatewayImpl_setSendDataReqCb_def GatewayImpl_stop_def)

text \<open>C38. In every state the application can bring the gateway to, provided that it never sets the
  period to zero, no assertion has failed, and a tick of a running gateway sends
  the ADVERTISE message with the current id and period and asks for the next tick after the
  period in milliseconds, with no overflow.\<close>

theorem gateway_tick_advertises:
  assumes "frame_ok wr" "(gateway_call wr)\<^sup>*\<^sup>* GatewayImpl_init g"
  shows "gw_faults g = [] \<and>
    (gw_running g \<longrightarrow> (\<exists>b. wr (gw_gwId g) (gw_advertisePeriod g) AdvertiseLength = Some b \<and>
       gw_out (GatewayImpl_tick g) = gw_out g @ [SendData b,
         ProgramTickReq (of_nat (unat (gw_advertisePeriod g) * 1000))] \<and>
       unat (gw_advertisePeriod g) * 1000 < 2 ^ 32))"
proof -
  have inv: "gateway_inv wr g"
    using assms(2)
  proof (induction rule: rtranclp_induct)
    case base
    show ?case by (simp add: gateway_inv_def GatewayImpl_init_def)
  qed (rule gateway_call_inv [OF _ assms(1)])
  have "unat (gw_advertisePeriod g) < 2 ^ LENGTH(16)" by (rule unsigned_less)
  moreover have "ucast (gw_advertisePeriod g) * 1000 = (of_nat (unat (gw_advertisePeriod g) * 1000) :: u32)"
    by (simp add: unsigned_ucast_eq)
  ultimately show ?thesis using inv sendAndReprogram_out [OF assms(1) inv]
    by (auto simp: gateway_inv_def GatewayImpl_tick_def)
qed

definition sample_frame :: advertise_frame where
  "sample_frame i d n = (if n < 5 then None else Some [5, 0, i, ucast (drop_bit 8 d), ucast d])"

definition sample_gateway :: gateway_impl where
  "sample_gateway = snd (GatewayImpl_start sample_frame
     (GatewayImpl_setAdvertisePeriod sample_frame 900
       (GatewayImpl_setSendDataReqCb True (GatewayImpl_setNextTickProgramReqCb True GatewayImpl_init))))"

theorem gateway_tick_advertises_witness:
  "gw_running sample_gateway \<and>
   gw_out (GatewayImpl_tick sample_gateway) =
     gw_out sample_gateway @ [SendData [5, 0, 0, 3, 132], ProgramTickReq 900000]"
proof -
  have f: "frame_ok sample_frame" by (simp add: frame_ok_def sample_frame_def AdvertiseLength_def)
  let ?c = "gateway_call sample_frame"
  let ?g1 = "GatewayImpl_setNextTickProgramReqCb True GatewayImpl_init"
  let ?g2 = "GatewayImpl_setSendDataReqCb True ?g1"
  let ?g3 = "GatewayImpl_setAdvertisePeriod sample_frame 900 ?g2"
  have "?c GatewayImpl_init ?g1" by (rule gateway_call.tickCb)
  moreover have "?c ?g1 ?g2" by (rule gateway_call.sendCb)
  moreover have "?c ?g2 ?g3" by (rule gateway_call.period) simp
  moreover have "?c ?g3 sample_gateway" unfolding sample_gateway_def by (rule gateway_call.start)
  ultimately have r: "?c\<^sup>*\<^sup>* GatewayImpl_init sample_gateway" by (meson converse_rtranclp_into_rtranclp r_into_rtranclp)
  have s: "gw_running sample_gateway" "gw_gwId sample_gateway = 0" "gw_advertisePeriod sample_gateway = 900"
    by code_simp+
  from gateway_tick_advertises [OF f r] s show ?thesis by (auto simp: sample_frame_def AdvertiseLength_def)
qed

end
