(* ===== verification/Ga_Startup.thy ===== *)
theory Ga_Startup
  imports Ga_Sessions Gw_Gateway
begin

text \<open>
  The start of the gateway application, \<^verbatim>\<open>GatewayApp::start\<close> of \<^verbatim>\<open>src/gateway/app/gateway/GatewayApp.cpp\<close>
  with \<^verbatim>\<open>GatewayWrapper\<close>, \<^verbatim>\<open>GatewayLogger\<close> and \<^verbatim>\<open>main\<close>: the configuration file is read, the log chosen, the
  acceptor set up and the advertising of the gateway started, whose messages the acceptor broadcasts.
  The files, the network library and the frame that serialises ADVERTISE are parameters.
\<close>

section \<open>Definitions\<close>

datatype log_target = Log_stdout | Log_stderr | Log_file string

text \<open>The stream stays what it was when the file cannot be opened.\<close>

definition GatewayLogger_configure :: "(string \<Rightarrow> bool) \<Rightarrow> config_impl \<Rightarrow> log_target \<Rightarrow> log_target" where
  "GatewayLogger_configure opens config current =
     (let logFile = ConfigImpl_logFile config
      in if logFile = ''stdout'' then Log_stdout
         else if logFile = ''stderr'' then Log_stderr
         else if \<not> opens logFile then current
         else Log_file logFile)"

record wrapper =
  wr_gw :: gateway_impl
  wr_broadcastReqCb :: bool
  wr_timerWait :: bool

definition GatewayWrapper_init :: wrapper where
  "GatewayWrapper_init = \<lparr>wr_gw = GatewayImpl_init, wr_broadcastReqCb = False, wr_timerWait = False\<rparr>"

text \<open>What the gateway asks for is done at once: a message is broadcast by the acceptor, a tick arms
  the timer.\<close>

fun wrapper_request :: "gateway_event \<Rightarrow> wrapper \<times> acceptor \<Rightarrow> wrapper \<times> acceptor" where
  "wrapper_request (SendData bytes) (w, acc) = (w, Acceptor_broadcastData bytes acc)"
| "wrapper_request (ProgramTickReq ms) (w, acc) = (w\<lparr>wr_timerWait := True\<rparr>, acc)"

definition wrapper_requests :: "gateway_impl \<Rightarrow> wrapper \<times> acceptor \<Rightarrow> wrapper \<times> acceptor" where
  "wrapper_requests g = (\<lambda>(w, acc).
     fold wrapper_request (drop (length (gw_out (wr_gw w))) (gw_out g)) (w\<lparr>wr_gw := g\<rparr>, acc))"

definition GatewayWrapper_start ::
    "advertise_frame \<Rightarrow> config_impl \<Rightarrow> wrapper \<times> acceptor \<Rightarrow> bool \<times> wrapper \<times> acceptor" where
  "GatewayWrapper_start frame config = (\<lambda>(w, acc).
     (if \<not> wr_broadcastReqCb w then (False, w, acc)
      else
        let g = GatewayImpl_setGatewayId frame (ConfigImpl_gatewayId config) (wr_gw w);
            g = GatewayImpl_setAdvertisePeriod frame (ConfigImpl_advertisePeriod config) g;
            g = GatewayImpl_setNextTickProgramReqCb True g;
            g = GatewayImpl_setSendDataReqCb True g;
            (ok, g) = GatewayImpl_start frame g
        in (ok, wrapper_requests g (w, acc))))"

text \<open>The timer of the gateway: an error is logged and ends the advertising.\<close>

definition GatewayWrapper_timer :: "io_result \<Rightarrow> wrapper \<times> acceptor \<Rightarrow> wrapper \<times> acceptor" where
  "GatewayWrapper_timer ec = (\<lambda>(w, acc).
     let w = w\<lparr>wr_timerWait := False\<rparr>
     in case ec of
       Io_Success \<Rightarrow> wrapper_requests (GatewayImpl_tick (wr_gw w)) (w, acc)
     | _ \<Rightarrow> (w, acc))"

record host =
  ho_openConfig :: "string \<Rightarrow> istream option"
  ho_openLog :: "string \<Rightarrow> bool"
  ho_udp :: udp_env
  ho_frame :: advertise_frame

record started_app =
  sa_config :: config_impl
  sa_log :: log_target
  sa_app :: gw_app
  sa_wrapper :: wrapper

datatype start_fault = ConfigFault config_fault | BindException

text \<open>The configuration: no file or one that cannot be opened gives the default one.\<close>

definition GatewayApp_readConfig :: "(string \<Rightarrow> istream option) \<Rightarrow> string \<Rightarrow> config_fault + config_impl" where
  "GatewayApp_readConfig openConfig configFile =
     (if configFile = '''' then Inr ConfigImpl_init
      else case openConfig configFile of
        None \<Rightarrow> Inr ConfigImpl_init
      | Some stream \<Rightarrow> ConfigImpl_read stream ConfigImpl_init)"

text \<open>The result is a fault of the reader, the exception of a failed binding, or whether the application has started, with its state; after a
  request for help it stops at once.\<close>

definition GatewayApp_start ::
    "host \<Rightarrow> bool \<Rightarrow> string \<Rightarrow> start_fault + bool \<times> started_app option" where
  "GatewayApp_start host help configFile =
     (if help then Inr (True, None)
      else case GatewayApp_readConfig (ho_openConfig host) configFile of
        Inl f \<Rightarrow> Inl (ConfigFault f)
      | Inr config \<Rightarrow>
          let log = GatewayLogger_configure (ho_openLog host) config Log_stdout
          in case Acceptor_create config of
            None \<Rightarrow> Inr (False, None)
          | Some acc \<Rightarrow>
              case Acceptor_start (ho_udp host) (acc\<lparr>ac_newConnectionReportCb := True\<rparr>) of
                Inl _ \<Rightarrow> Inl BindException
              | Inr (ok, acc) \<Rightarrow>
                  if \<not> ok then Inr (False, None)
                  else
                    let w = GatewayWrapper_init\<lparr>wr_broadcastReqCb := True\<rparr>;
                        (ok, w, acc) = GatewayWrapper_start (ho_frame host) config (w, acc)
                    in if \<not> ok then Inr (False, None)
                       else Inr (True, Some \<lparr>sa_config = config, sa_log = log, sa_app = App_init acc,
                              sa_wrapper = w\<rparr>))"

text \<open>The exit code: \<open>run\<close> is the result when the event loop has ended. A fault of the reader gives
  none.\<close>

definition gateway_main :: "host \<Rightarrow> int \<Rightarrow> bool \<Rightarrow> string \<Rightarrow> int option" where
  "gateway_main host run help configFile =
     (case GatewayApp_start host help configFile of
        Inl (ConfigFault _) \<Rightarrow> None
      | Inl BindException \<Rightarrow> Some 200
      | Inr (ok, _) \<Rightarrow> Some (if \<not> ok then - 1 else run))"

section \<open>Advertising\<close>

lemma wrapper_start_running:
  assumes frame: "frame_ok wr" and period: "ConfigImpl_advertisePeriod config \<noteq> 0"
    and w: "w = GatewayWrapper_init\<lparr>wr_broadcastReqCb := True\<rparr>"
  shows "\<exists>w'. GatewayWrapper_start wr config (w, acc) =
    (True, w', Acceptor_broadcastData
       (the (wr (ConfigImpl_gatewayId config) (ConfigImpl_advertisePeriod config) AdvertiseLength)) acc) \<and>
    wr_timerWait w' \<and> gw_faults (wr_gw w') = []"
proof -
  obtain b where b: "wr (ConfigImpl_gatewayId config) (ConfigImpl_advertisePeriod config) AdvertiseLength = Some b"
    "length b = AdvertiseLength"
    using frame unfolding frame_ok_def by blast
  show ?thesis using period b
    by (simp add: w GatewayWrapper_start_def GatewayWrapper_init_def GatewayImpl_init_def
        GatewayImpl_setGatewayId_def GatewayImpl_setAdvertisePeriod_def GatewayImpl_refresh_def
        GatewayImpl_setNextTickProgramReqCb_def GatewayImpl_setSendDataReqCb_def GatewayImpl_start_def
        GatewayImpl_sendAndReprogram_def gw_fault_if_def wrapper_requests_def Let_def)
qed

lemma acceptor_start_result:
  assumes "ue_make_address env (getBroadcastAddress config) = Some addr" "ue_open env" "ue_broadcast env"
    "ue_bind env (getListenPort config) = Some port"
  shows "\<exists>acc. Acceptor_start env ((Acceptor_init config)\<lparr>ac_newConnectionReportCb := True\<rparr>) = Inr (True, acc) \<and>
    ac_broadcastEndpoint acc = (addr, getBroadcastPort config) \<and> ac_pendingWrites acc = [] \<and> ac_sent acc = [] \<and>
    ac_broadcastTtl acc = getBroadcastTtl config \<and> ac_receiving acc = 1"
  using assms
  by (simp add: Acceptor_start_def Acceptor_startImpl_def Acceptor_init_def Acceptor_doAccept_def Let_def
      split: option.split)

text \<open>C16. A gateway that starts makes itself known. When the configuration can be read, names a
  known socket type and an advertise period other than 0, and the network library sets up the socket, the
  application starts, waits for datagrams, has handed the ADVERTISE message with the configured id
  and period to the socket for the broadcast endpoint, and has armed the timer of the next one.\<close>

theorem started_gateway_advertises:
  assumes config: "GatewayApp_readConfig (ho_openConfig host) configFile = Inr config"
      "ConfigImpl_clientConnectionType config = ClientConnectionType_Udp"
      "ConfigImpl_advertisePeriod config \<noteq> 0"
    and frame: "frame_ok (ho_frame host)"
    and udp: "ue_make_address (ho_udp host) (getBroadcastAddress config) = Some addr"
      "ue_open (ho_udp host)" "ue_broadcast (ho_udp host)"
      "ue_bind (ho_udp host) (getListenPort config) = Some port"
  shows "\<exists>a. GatewayApp_start host False configFile = Inr (True, Some a) \<and>
    wr_timerWait (sa_wrapper a) \<and> ac_receiving (app_acceptor (sa_app a)) = 1 \<and>
    map wi_data (ac_sent (app_acceptor (sa_app a))) =
      [the (ho_frame host (ConfigImpl_gatewayId config) (ConfigImpl_advertisePeriod config) AdvertiseLength)] \<and>
    map wi_endpoint (ac_sent (app_acceptor (sa_app a))) = [(addr, getBroadcastPort config)]"
proof -
  obtain acc where acc: "Acceptor_start (ho_udp host) ((Acceptor_init config)\<lparr>ac_newConnectionReportCb := True\<rparr>) = Inr (True, acc)"
    "ac_broadcastEndpoint acc = (addr, getBroadcastPort config)" "ac_pendingWrites acc = []" "ac_sent acc = []"
    "ac_receiving acc = 1"
    using acceptor_start_result [OF udp] by blast
  obtain w where w: "GatewayWrapper_start (ho_frame host) config
      (GatewayWrapper_init\<lparr>wr_broadcastReqCb := True\<rparr>, acc) = (True, w, Acceptor_broadcastData
        (the (ho_frame host (ConfigImpl_gatewayId config) (ConfigImpl_advertisePeriod config) AdvertiseLength)) acc)"
    "wr_timerWait w"
    using wrapper_start_running [OF frame config(3) refl] by blast
  show ?thesis using acc w config(1,2)
    by (simp add: GatewayApp_start_def Acceptor_create_def Acceptor_broadcastData_def Acceptor_sendData_def
        Acceptor_sendPendingWrites_def App_init_def Let_def)
qed

text \<open>The period 0, which the example of the configuration file describes as a gateway that does not
  advertise itself, keeps the application from starting: the process ends with the exit code of a
  failed start.\<close>

theorem advertise_period_zero_refused:
  assumes "GatewayApp_readConfig (ho_openConfig host) configFile = Inr config"
    "ConfigImpl_advertisePeriod config = 0" "ue_bind (ho_udp host) = Some"
  shows "gateway_main host run False configFile = Some (- 1)"
proof -
  have "\<not> fst (GatewayWrapper_start frame config (GatewayWrapper_init\<lparr>wr_broadcastReqCb := True\<rparr>, acc))"
    for frame acc
    using assms(2)
    by (simp add: GatewayWrapper_start_def GatewayWrapper_init_def GatewayImpl_init_def
        GatewayImpl_setGatewayId_def GatewayImpl_setAdvertisePeriod_def GatewayImpl_refresh_def
        GatewayImpl_setNextTickProgramReqCb_def GatewayImpl_setSendDataReqCb_def GatewayImpl_start_def Let_def)
  then show ?thesis using assms(1,3)
    by (auto simp: gateway_main_def GatewayApp_start_def Acceptor_create_def Acceptor_start_def
        Acceptor_startImpl_def Acceptor_init_def Let_def case_prod_beta
        split: sum.split option.split client_connection_type.split)
qed

section \<open>Instances\<close>

definition ex_frame :: advertise_frame where
  "ex_frame i d n = Some [5, 0, i, ucast (drop_bit 8 d), ucast d]"

lemma ex_frame_ok: "frame_ok ex_frame"
  by (simp add: frame_ok_def ex_frame_def AdvertiseLength_def)

definition ex_host :: "string \<Rightarrow> host" where
  "ex_host file = \<lparr>ho_openConfig = (\<lambda>name. if name = ''gw.conf'' then Some \<lparr>is_good = True, is_data = file\<rparr> else None),
     ho_openLog = (\<lambda>_. True), ho_udp = ex_udp_env, ho_frame = ex_frame\<rparr>"

definition ex_file :: string where
  "ex_file = ''mqttsn_gw_id 7'' @ [CHR 0x0A] @ ''mqttsn_advertise 300'' @ [CHR 0x0A]"

definition ex_config :: config_impl where
  "ex_config = ConfigImpl_init\<lparr>cf_map := [(''mqttsn_advertise'', ''300''), (''mqttsn_gw_id'', ''7'')]\<rparr>"

theorem started_gateway_advertises_witness:
  "\<exists>a. GatewayApp_start (ex_host ex_file) False ''gw.conf'' = Inr (True, Some a) \<and>
     wr_timerWait (sa_wrapper a) \<and>
     map wi_data (ac_sent (app_acceptor (sa_app a))) = [[5, 0, 7, 1, 44]] \<and>
     map wi_endpoint (ac_sent (app_acceptor (sa_app a))) = [(- 1, 1883)]"
proof -
  have r: "GatewayApp_readConfig (ho_openConfig (ex_host ex_file)) ''gw.conf'' = Inr ex_config"
    by code_simp
  have c: "ConfigImpl_clientConnectionType ex_config = ClientConnectionType_Udp"
    "ConfigImpl_advertisePeriod ex_config = 300" "ConfigImpl_gatewayId ex_config = 7"
    "getBroadcastAddress ex_config = ''255.255.255.255''" "getListenPort ex_config = 1883"
    "getBroadcastPort ex_config = 1883"
    by code_simp+
  have f: "frame_ok (ho_frame (ex_host ex_file))" by (simp add: ex_host_def ex_frame_ok)
  have h: "ue_make_address (ho_udp (ex_host ex_file)) (getBroadcastAddress ex_config) = Some (- 1)"
    "ue_open (ho_udp (ex_host ex_file))" "ue_broadcast (ho_udp (ex_host ex_file))"
    "ue_bind (ho_udp (ex_host ex_file)) (getListenPort ex_config) = Some 1883"
    by (simp_all add: ex_host_def ex_udp_env_def c)
  have b: "the (ho_frame (ex_host ex_file) 7 300 AdvertiseLength) = [5, 0, 7, 1, 44]"
    by code_simp
  have p: "ConfigImpl_advertisePeriod ex_config \<noteq> 0" by (simp add: c)
  from started_gateway_advertises [OF r c(1) p f h] obtain a where
    "GatewayApp_start (ex_host ex_file) False ''gw.conf'' = Inr (True, Some a)" "wr_timerWait (sa_wrapper a)"
    "map wi_data (ac_sent (app_acceptor (sa_app a))) = [the (ho_frame (ex_host ex_file) 7 300 AdvertiseLength)]"
    "map wi_endpoint (ac_sent (app_acceptor (sa_app a))) = [(- 1, 1883)]"
    by (elim exE conjE) (simp only: c)
  then show ?thesis by (intro exI [of _ a] conjI) (simp_all only: b)
qed

theorem advertise_period_zero_refused_witness:
  "gateway_main (ex_host (''mqttsn_advertise 0'' @ [CHR 0x0A])) 0 False ''gw.conf'' = Some (- 1)"
proof -
  let ?h = "ex_host (''mqttsn_advertise 0'' @ [CHR 0x0A])"
  let ?c = "ConfigImpl_init\<lparr>cf_map := [(''mqttsn_advertise'', ''0'')]\<rparr>"
  have "GatewayApp_readConfig (ho_openConfig ?h) ''gw.conf'' = Inr ?c" "ConfigImpl_advertisePeriod ?c = 0"
    by code_simp+
  moreover have "ue_bind (ho_udp ?h) = Some" by (simp add: ex_host_def ex_udp_env_def)
  ultimately show ?thesis by (rule advertise_period_zero_refused)
qed

end
