(* ===== verification/Cl_TimerMgr.thy ===== *)
theory Cl_TimerMgr
  imports Gw_Prelude
begin

text \<open>
  The timers of the client library, \<^verbatim>\<open>src/client/lib/src/TimerMgr.h\<close> and
  \<^verbatim>\<open>TimerMgr.cpp\<close>. A timer is an index into \<^verbatim>\<open>m_timers\<close>; the largest \<^verbatim>\<open>unsigned\<close> is the
  index of a timer that could not be allocated. The callback of a timer and its argument are
  values of any type, with \<open>None\<close> for \<^verbatim>\<open>nullptr\<close>. \<^verbatim>\<open>tick\<close> returns the callbacks in the order in
  which the code calls them after its loop.

  \<^verbatim>\<open>ObjListType\<close> is a vector with or without a fixed capacity, depending on the configuration of
  the build; its \<^verbatim>\<open>max_size()\<close> is the parameter \<open>maxSize\<close>. A failed \<^verbatim>\<open>COMMS_ASSERT\<close> is recorded
  in the field \<open>tm_faults\<close> and the execution goes on as the code does with assertions disabled.
\<close>

section \<open>State\<close>

record ('cb, 'd) timer_info =
  m_timeoutMs :: u64
  m_timeoutCb :: "'cb option"
  m_timeoutData :: "'d option"
  m_allocated :: bool
  m_suspended :: bool

definition TimerInfo :: "('cb, 'd) timer_info" where
  "TimerInfo = \<lparr>m_timeoutMs = 0, m_timeoutCb = None, m_timeoutData = None,
     m_allocated = False, m_suspended = False\<rparr>"

record ('cb, 'd) timer_mgr =
  m_timers :: "('cb, 'd) timer_info list"
  m_allocatedTimers :: u32
  tm_faults :: "string list"

definition TimerMgr_init :: "('cb, 'd) timer_mgr" where
  "TimerMgr_init = \<lparr>m_timers = [], m_allocatedTimers = 0, tm_faults = []\<rparr>"

definition InvalidIdx :: u32 where "InvalidIdx = - 1"

definition Timer_isValid :: "u32 \<Rightarrow> bool" where
  "Timer_isValid idx \<longleftrightarrow> idx < InvalidIdx"

definition tm_assert :: "string \<Rightarrow> bool \<Rightarrow> ('cb, 'd) timer_mgr \<Rightarrow> ('cb, 'd) timer_mgr" where
  "tm_assert what c tm = (if c then tm else tm\<lparr>tm_faults := tm_faults tm @ [what]\<rparr>)"

definition timer_at :: "u32 \<Rightarrow> ('cb, 'd) timer_mgr \<Rightarrow> ('cb, 'd) timer_info" where
  "timer_at idx tm = m_timers tm ! unat idx"

definition set_timer ::
    "u32 \<Rightarrow> ('cb, 'd) timer_info \<Rightarrow> ('cb, 'd) timer_mgr \<Rightarrow> ('cb, 'd) timer_mgr" where
  "set_timer idx info tm = tm\<lparr>m_timers := (m_timers tm)[unat idx := info]\<rparr>"

section \<open>Allocation\<close>

definition createTimer :: "u32 \<Rightarrow> ('cb, 'd) timer_mgr \<Rightarrow> u32 \<times> ('cb, 'd) timer_mgr" where
  "createTimer idx tm =
     (idx, set_timer idx ((timer_at idx tm)\<lparr>m_allocated := True\<rparr>)
             (tm\<lparr>m_allocatedTimers := m_allocatedTimers tm + 1\<rparr>))"

text \<open>Position of the first element that satisfies a predicate, as \<^verbatim>\<open>std::find_if\<close> with
  \<^verbatim>\<open>std::distance\<close>; the length of the list when there is none.\<close>

fun find_index :: "('a \<Rightarrow> bool) \<Rightarrow> 'a list \<Rightarrow> nat" where
  "find_index P [] = 0"
| "find_index P (x # xs) = (if P x then 0 else Suc (find_index P xs))"

definition allocTimer :: "nat \<Rightarrow> ('cb, 'd) timer_mgr \<Rightarrow> u32 \<times> ('cb, 'd) timer_mgr" where
  "allocTimer maxSize tm =
     (let size = length (m_timers tm);
          pos = find_index (\<lambda>info. \<not> m_allocated info) (m_timers tm)
      in if unat (m_allocatedTimers tm) < size \<and> pos < size
         then createTimer (of_nat pos) tm
         else
           let tm = tm_assert ''allocTimer: Should_not_happen''
                      (\<not> unat (m_allocatedTimers tm) < size) tm
           in if maxSize \<le> size then (InvalidIdx, tm)
              else createTimer (of_nat size)
                     (tm\<lparr>m_timers := m_timers tm @ [TimerInfo]\<rparr>))"

definition freeTimer :: "u32 \<Rightarrow> ('cb, 'd) timer_mgr \<Rightarrow> ('cb, 'd) timer_mgr" where
  "freeTimer idx tm =
     (let tm = tm_assert ''freeTimer: idx'' (unat idx < length (m_timers tm)) tm
      in if length (m_timers tm) \<le> unat idx then tm
         else
           let tm = tm_assert ''freeTimer: m_allocatedTimers'' (m_allocatedTimers tm > 0) tm;
               tm = tm_assert ''freeTimer: m_allocated'' (m_allocated (timer_at idx tm)) tm;
               tm = set_timer idx TimerInfo tm
           in tm\<lparr>m_allocatedTimers := m_allocatedTimers tm - 1\<rparr>)"

text \<open>The destructor of a timer object gives a valid index back.\<close>

definition Timer_destroy :: "u32 \<Rightarrow> ('cb, 'd) timer_mgr \<Rightarrow> ('cb, 'd) timer_mgr" where
  "Timer_destroy idx tm = (if Timer_isValid idx then freeTimer idx tm else tm)"

definition allocCount :: "('cb, 'd) timer_mgr \<Rightarrow> u32" where
  "allocCount tm = of_nat (length (filter m_allocated (m_timers tm)))"

section \<open>Operations on one timer\<close>

definition timerWait ::
    "u32 \<Rightarrow> u64 \<Rightarrow> 'cb option \<Rightarrow> 'd option \<Rightarrow> ('cb, 'd) timer_mgr \<Rightarrow> ('cb, 'd) timer_mgr" where
  "timerWait idx timeoutMs cb data tm =
     (let tm = tm_assert ''timerWait: idx'' (unat idx < length (m_timers tm)) tm
      in if length (m_timers tm) \<le> unat idx then tm
         else
           let tm = tm_assert ''timerWait: m_allocated'' (m_allocated (timer_at idx tm)) tm;
               tm = tm_assert ''timerWait: cb'' (cb \<noteq> None) tm
           in set_timer idx ((timer_at idx tm)
                \<lparr>m_timeoutMs := timeoutMs, m_timeoutCb := cb, m_timeoutData := data\<rparr>) tm)"

definition timerCancel :: "u32 \<Rightarrow> ('cb, 'd) timer_mgr \<Rightarrow> ('cb, 'd) timer_mgr" where
  "timerCancel idx tm =
     (let tm = tm_assert ''timerCancel: idx'' (unat idx < length (m_timers tm)) tm
      in if length (m_timers tm) \<le> unat idx then tm
         else
           let tm = tm_assert ''timerCancel: m_allocated'' (m_allocated (timer_at idx tm)) tm
           in set_timer idx ((timer_at idx tm)
                \<lparr>m_timeoutMs := 0, m_timeoutCb := None, m_timeoutData := None\<rparr>) tm)"

definition timerIsActive :: "u32 \<Rightarrow> ('cb, 'd) timer_mgr \<Rightarrow> bool \<times> ('cb, 'd) timer_mgr" where
  "timerIsActive idx tm =
     (let tm = tm_assert ''timerIsActive: idx'' (unat idx < length (m_timers tm)) tm
      in if length (m_timers tm) \<le> unat idx then (False, tm)
         else
           let tm = tm_assert ''timerIsActive: m_allocated'' (m_allocated (timer_at idx tm)) tm;
               tm = tm_assert ''timerIsActive: m_timeoutCb''
                      (m_timeoutCb (timer_at idx tm) \<noteq> None \<or> m_timeoutMs (timer_at idx tm) = 0) tm
           in (m_timeoutCb (timer_at idx tm) \<noteq> None, tm))"

definition timerSetSuspended :: "u32 \<Rightarrow> bool \<Rightarrow> ('cb, 'd) timer_mgr \<Rightarrow> ('cb, 'd) timer_mgr" where
  "timerSetSuspended idx suspended tm =
     (let tm = tm_assert ''timerSetSuspended: idx'' (unat idx < length (m_timers tm)) tm
      in if length (m_timers tm) \<le> unat idx then tm
         else
           let tm = tm_assert ''timerSetSuspended: m_allocated'' (m_allocated (timer_at idx tm)) tm
           in set_timer idx ((timer_at idx tm)\<lparr>m_suspended := suspended\<rparr>) tm)"

definition timerIsSuspended :: "u32 \<Rightarrow> ('cb, 'd) timer_mgr \<Rightarrow> bool \<times> ('cb, 'd) timer_mgr" where
  "timerIsSuspended idx tm =
     (let tm = tm_assert ''timerIsSuspended: idx'' (unat idx < length (m_timers tm)) tm
      in if length (m_timers tm) \<le> unat idx then (False, tm)
         else
           let tm = tm_assert ''timerIsSuspended: m_allocated'' (m_allocated (timer_at idx tm)) tm
           in (m_suspended (timer_at idx tm), tm))"

definition Timer_setSuspended :: "u32 \<Rightarrow> bool \<Rightarrow> ('cb, 'd) timer_mgr \<Rightarrow> ('cb, 'd) timer_mgr" where
  "Timer_setSuspended idx suspended tm =
     (let (active, tm) = timerIsActive idx tm
      in if \<not> active then tm else timerSetSuspended idx suspended tm)"

definition Timer_isSuspended :: "u32 \<Rightarrow> ('cb, 'd) timer_mgr \<Rightarrow> bool \<times> ('cb, 'd) timer_mgr" where
  "Timer_isSuspended idx tm =
     (let (active, tm) = timerIsActive idx tm
      in if \<not> active then (False, tm) else timerIsSuspended idx tm)"

section \<open>Time\<close>

definition timer_skipped :: "('cb, 'd) timer_info \<Rightarrow> bool" where
  "timer_skipped info \<longleftrightarrow>
     \<not> m_allocated info \<or> m_timeoutCb info = None \<or> m_suspended info"

text \<open>One round of the loop of \<^verbatim>\<open>tick\<close>, for the timer at an index.\<close>

definition tick_round ::
    "u32 \<Rightarrow> u32 \<Rightarrow> ('cb \<times> 'd option) list \<times> ('cb, 'd) timer_mgr \<Rightarrow>
     ('cb \<times> 'd option) list \<times> ('cb, 'd) timer_mgr" where
  "tick_round ms idx = (\<lambda>(cbList, tm).
     let info = timer_at idx tm
     in if timer_skipped info then (cbList, tm)
        else if m_timeoutMs info \<le> ucast ms then
          let tm = timerCancel idx tm;
              (active, tm) = timerIsActive idx tm
          in (cbList @ [(the (m_timeoutCb info), m_timeoutData info)],
              tm_assert ''tick: timerIsActive'' (\<not> active) tm)
        else (cbList, set_timer idx (info\<lparr>m_timeoutMs := m_timeoutMs info - ucast ms\<rparr>) tm))"

definition TimerMgr_tick ::
    "u32 \<Rightarrow> ('cb, 'd) timer_mgr \<Rightarrow> ('cb \<times> 'd option) list \<times> ('cb, 'd) timer_mgr" where
  "TimerMgr_tick ms tm = fold (tick_round ms) (map of_nat [0..<length (m_timers tm)]) ([], tm)"

definition getMinWait :: "('cb, 'd) timer_mgr \<Rightarrow> u32" where
  "getMinWait tm =
     (if m_allocatedTimers tm = 0 then 0
      else
        let result = fold (\<lambda>info result. if timer_skipped info then result
                             else min result (m_timeoutMs info)) (m_timers tm) (- 1)
        in if result = - 1 then 0 else ucast (min result (ucast (- 1 :: u32))))"

section \<open>Well-formed timer managers\<close>

definition tm_info_wf :: "('cb, 'd) timer_info \<Rightarrow> bool" where
  "tm_info_wf info \<longleftrightarrow>
     (m_allocated info \<or> m_timeoutCb info = None \<and> \<not> m_suspended info) \<and>
     (m_timeoutCb info = None \<longrightarrow> m_timeoutMs info = 0 \<and> m_timeoutData info = None)"

definition tm_wf :: "nat \<Rightarrow> ('cb, 'd) timer_mgr \<Rightarrow> bool" where
  "tm_wf maxSize tm \<longleftrightarrow>
     unat (m_allocatedTimers tm) = length (filter m_allocated (m_timers tm)) \<and>
     length (m_timers tm) \<le> maxSize \<and> maxSize < 2 ^ 32 \<and>
     (\<forall>info \<in> set (m_timers tm). tm_info_wf info) \<and> tm_faults tm = []"

text \<open>An index that \<^verbatim>\<open>allocTimer\<close> handed out and that was not given back.\<close>

definition timer_handle :: "('cb, 'd) timer_mgr \<Rightarrow> u32 \<Rightarrow> bool" where
  "timer_handle tm idx \<longleftrightarrow> unat idx < length (m_timers tm) \<and> m_allocated (timer_at idx tm)"

text \<open>Calls on the timer manager by the owners of timer objects, and the tick.\<close>

inductive timer_call :: "nat \<Rightarrow> ('cb, 'd) timer_mgr \<Rightarrow> ('cb, 'd) timer_mgr \<Rightarrow> bool" for maxSize where
  alloc: "timer_call maxSize tm (snd (allocTimer maxSize tm))"
| destroy: "timer_handle tm idx \<or> \<not> Timer_isValid idx \<Longrightarrow> timer_call maxSize tm (Timer_destroy idx tm)"
| wait: "timer_handle tm idx \<Longrightarrow> timer_call maxSize tm (timerWait idx timeoutMs (Some cb) data tm)"
| cancel: "timer_handle tm idx \<Longrightarrow> timer_call maxSize tm (timerCancel idx tm)"
| is_active: "timer_handle tm idx \<Longrightarrow> timer_call maxSize tm (snd (timerIsActive idx tm))"
| set_suspended: "timer_handle tm idx \<Longrightarrow> timer_call maxSize tm (Timer_setSuspended idx suspended tm)"
| is_suspended: "timer_handle tm idx \<Longrightarrow> timer_call maxSize tm (snd (Timer_isSuspended idx tm))"
| tick: "timer_call maxSize tm (snd (TimerMgr_tick ms tm))"

inductive timer_reachable :: "nat \<Rightarrow> ('cb, 'd) timer_mgr \<Rightarrow> bool" for maxSize where
  init: "timer_reachable maxSize TimerMgr_init"
| step: "timer_reachable maxSize tm \<Longrightarrow> timer_call maxSize tm tm' \<Longrightarrow> timer_reachable maxSize tm'"

lemma tm_assert_True [simp]: "tm_assert what True tm = tm"
  by (simp add: tm_assert_def)

lemma find_index_less: "find_index P xs < length xs \<longleftrightarrow> (\<exists>x \<in> set xs. P x)"
  by (induction xs) auto

lemma find_index_nth: "find_index P xs < length xs \<Longrightarrow> P (xs ! find_index P xs)"
  by (induction xs) (auto split: if_splits)

lemma length_filter_update:
  "i < length xs \<Longrightarrow> length (filter P (xs[i := x])) + (if P (xs ! i) then 1 else 0) =
     length (filter P xs) + (if P x then 1 else 0)"
proof (induction xs arbitrary: i)
  case (Cons y xs)
  show ?case
  proof (cases i)
    case (Suc j)
    with Cons show ?thesis by force
  qed simp
qed simp

lemma tm_wf_size: "tm_wf maxSize tm \<Longrightarrow> length (m_timers tm) < 2 ^ 32"
  by (simp add: tm_wf_def)

lemma unat_u32_of_nat: "n < 2 ^ 32 \<Longrightarrow> unat (of_nat n :: u32) = n"
  by (simp add: unsigned_of_nat take_bit_nat_eq_self)

text \<open>Writing a timer that keeps its allocation.\<close>

lemma tm_wf_set_timer:
  assumes "tm_wf maxSize tm" "timer_handle tm idx" "m_allocated info" "tm_info_wf info"
  shows "tm_wf maxSize (set_timer idx info tm)"
  using assms length_filter_update [of "unat idx" "m_timers tm" m_allocated info]
  by (auto simp: tm_wf_def set_timer_def timer_handle_def timer_at_def dest!: subsetD [OF set_update_subset_insert])

lemma tm_info_wf_at: "tm_wf maxSize tm \<Longrightarrow> timer_handle tm idx \<Longrightarrow> tm_info_wf (timer_at idx tm)"
  by (simp add: tm_wf_def timer_handle_def timer_at_def)

lemma timer_handle_simps:
  assumes "timer_handle tm idx"
  shows "unat idx < length (m_timers tm)" "\<not> length (m_timers tm) \<le> unat idx"
    "m_allocated (timer_at idx tm)"
  using assms by (auto simp: timer_handle_def)

lemma timerWait_handle:
  "timer_handle tm idx \<Longrightarrow> timerWait idx timeoutMs (Some cb) data tm = set_timer idx ((timer_at idx tm)
     \<lparr>m_timeoutMs := timeoutMs, m_timeoutCb := Some cb, m_timeoutData := data\<rparr>) tm"
  by (simp add: timerWait_def timer_handle_simps)

lemma timerCancel_handle:
  "timer_handle tm idx \<Longrightarrow> timerCancel idx tm = set_timer idx ((timer_at idx tm)
     \<lparr>m_timeoutMs := 0, m_timeoutCb := None, m_timeoutData := None\<rparr>) tm"
  by (simp add: timerCancel_def timer_handle_simps)

lemma timerIsActive_handle:
  assumes "timer_handle tm idx" "tm_info_wf (timer_at idx tm)"
  shows "timerIsActive idx tm = (m_timeoutCb (timer_at idx tm) \<noteq> None, tm)"
  using assms
  by (cases "m_timeoutCb (timer_at idx tm)") (simp_all add: timerIsActive_def timer_handle_simps tm_info_wf_def)

lemma timerSetSuspended_handle:
  "timer_handle tm idx \<Longrightarrow> timerSetSuspended idx suspended tm =
     set_timer idx ((timer_at idx tm)\<lparr>m_suspended := suspended\<rparr>) tm"
  by (simp add: timerSetSuspended_def timer_handle_simps)

lemma timerIsSuspended_handle:
  "timer_handle tm idx \<Longrightarrow> timerIsSuspended idx tm = (m_suspended (timer_at idx tm), tm)"
  by (simp add: timerIsSuspended_def timer_handle_simps)

lemmas timer_handle_ops = timerWait_handle timerCancel_handle timerIsActive_handle
  timerSetSuspended_handle timerIsSuspended_handle

subsection \<open>The tick in closed form\<close>

definition timer_due :: "u32 \<Rightarrow> ('cb, 'd) timer_info \<Rightarrow> bool" where
  "timer_due ms info \<longleftrightarrow> \<not> timer_skipped info \<and> m_timeoutMs info \<le> ucast ms"

definition timer_after :: "u32 \<Rightarrow> ('cb, 'd) timer_info \<Rightarrow> ('cb, 'd) timer_info" where
  "timer_after ms info =
     (if timer_skipped info then info
      else if timer_due ms info
      then info\<lparr>m_timeoutMs := 0, m_timeoutCb := None, m_timeoutData := None\<rparr>
      else info\<lparr>m_timeoutMs := m_timeoutMs info - ucast ms\<rparr>)"

definition timer_event :: "('cb, 'd) timer_info \<Rightarrow> 'cb \<times> 'd option" where
  "timer_event info = (the (m_timeoutCb info), m_timeoutData info)"

lemma tick_round_closed:
  assumes "unat idx < length (m_timers tm)"
  shows "tick_round ms idx (cbs, tm) =
    (cbs @ map timer_event (filter (timer_due ms) [timer_at idx tm]),
     set_timer idx (timer_after ms (timer_at idx tm)) tm)"
proof (cases "timer_skipped (timer_at idx tm)")
  case True
  then show ?thesis
    by (simp add: tick_round_def timer_due_def timer_after_def set_timer_def timer_at_def)
next
  case False
  then have h: "timer_handle tm idx" using assms by (simp add: timer_handle_def timer_skipped_def)
  have "timer_handle (set_timer idx info tm) idx \<longleftrightarrow> m_allocated info" for info
    using assms by (simp add: timer_handle_def set_timer_def timer_at_def)
  moreover have "timer_at idx (set_timer idx info tm) = info" for info
    using assms by (simp add: set_timer_def timer_at_def)
  ultimately show ?thesis
    using False h
    by (simp add: tick_round_def Let_def timer_due_def timer_after_def timerCancel_handle
        timerIsActive_handle timer_handle_simps tm_info_wf_def timer_event_def)
qed

lemma tick_rounds:
  assumes "k \<le> length (m_timers tm)" "length (m_timers tm) < 2 ^ 32"
  shows "fold (tick_round ms) (map of_nat [0..<k]) ([], tm) =
    (map timer_event (filter (timer_due ms) (take k (m_timers tm))),
     tm\<lparr>m_timers := map (timer_after ms) (take k (m_timers tm)) @ drop k (m_timers tm)\<rparr>)"
  using assms(1)
proof (induction k)
  case (Suc k)
  then have k: "k < length (m_timers tm)" "unat (of_nat k :: u32) = k"
    using assms(2) by (auto simp: unat_u32_of_nat)
  then have "timer_at (of_nat k) (tm\<lparr>m_timers := map (timer_after ms) (take k (m_timers tm)) @ drop k (m_timers tm)\<rparr>)
      = m_timers tm ! k"
    by (simp add: timer_at_def nth_append)
  with Suc k show ?case
    by (simp add: tick_round_closed set_timer_def take_Suc_conv_app_nth list_update_append
        Cons_nth_drop_Suc [symmetric])
qed simp

lemma TimerMgr_tick_closed:
  assumes "length (m_timers tm) < 2 ^ 32"
  shows "TimerMgr_tick ms tm = (map timer_event (filter (timer_due ms) (m_timers tm)),
    tm\<lparr>m_timers := map (timer_after ms) (m_timers tm)\<rparr>)"
  using tick_rounds [of "length (m_timers tm)" tm ms] assms by (simp add: TimerMgr_tick_def)

section \<open>Invariant\<close>

lemma tm_wf_init: "maxSize < 2 ^ 32 \<Longrightarrow> tm_wf maxSize TimerMgr_init"
  by (simp add: tm_wf_def TimerMgr_init_def)

lemma tm_info_wf_after: "tm_info_wf info \<Longrightarrow> tm_info_wf (timer_after ms info)"
  by (auto simp: tm_info_wf_def timer_after_def timer_due_def timer_skipped_def)

lemma m_allocated_after [simp]: "m_allocated (timer_after ms info) = m_allocated info"
  by (simp add: timer_after_def)

lemma tm_wf_tick: "tm_wf maxSize tm \<Longrightarrow> tm_wf maxSize (snd (TimerMgr_tick ms tm))"
  using tm_wf_size [of maxSize tm]
  by (auto simp: TimerMgr_tick_closed tm_wf_def tm_info_wf_after filter_map comp_def)

text \<open>A free slot exists as long as the counter is below the number of slots, so that the
  assertion of \<^verbatim>\<open>allocTimer\<close> never fails.\<close>

lemma tm_wf_free_slot:
  assumes "tm_wf maxSize tm"
  shows "unat (m_allocatedTimers tm) < length (m_timers tm) \<longleftrightarrow>
    find_index (\<lambda>info. \<not> m_allocated info) (m_timers tm) < length (m_timers tm)"
proof -
  have "length (filter m_allocated xs) < length xs \<longleftrightarrow> (\<exists>x \<in> set xs. \<not> m_allocated x)"
    for xs :: "('a, 'b) timer_info list"
    using length_filter_less [of _ xs m_allocated]
    by (metis filter_True length_filter_le nat_less_le)
  with assms show ?thesis by (simp add: tm_wf_def find_index_less)
qed

lemma createTimer_counts:
  assumes "i < length (m_timers tm)" "i < 2 ^ 32" "\<not> m_allocated (m_timers tm ! i)"
    and "unat (m_allocatedTimers tm) = length (filter m_allocated (m_timers tm))"
    and "length (m_timers tm) \<le> maxSize" "maxSize < 2 ^ 32"
    and "\<forall>info \<in> set (m_timers tm). tm_info_wf info" "tm_faults tm = []"
  shows "tm_wf maxSize (snd (createTimer (of_nat i) tm))"
proof -
  have idx: "unat (of_nat i :: u32) = i" using assms by (simp add: unat_u32_of_nat)
  have "length (filter m_allocated (m_timers tm)) < length (m_timers tm)"
    using assms by (meson length_filter_less nth_mem)
  then have "unat (m_allocatedTimers tm + 1) = unat (m_allocatedTimers tm) + 1"
    using assms by (simp add: unat_word_ariths)
  moreover have "tm_info_wf (m_timers tm ! i)" using assms by simp
  then have "tm_info_wf ((m_timers tm ! i)\<lparr>m_allocated := True\<rparr>)" by (simp add: tm_info_wf_def)
  ultimately show ?thesis
    using assms idx length_filter_update [of i "m_timers tm" m_allocated "(m_timers tm ! i)\<lparr>m_allocated := True\<rparr>"]
    by (auto simp: createTimer_def tm_wf_def set_timer_def timer_at_def
        dest!: subsetD [OF set_update_subset_insert])
qed

lemma allocTimer_cases:
  assumes "tm_wf maxSize tm"
  shows "allocTimer maxSize tm =
    (let i = find_index (\<lambda>info. \<not> m_allocated info) (m_timers tm)
     in if i < length (m_timers tm) then createTimer (of_nat i) tm
        else if maxSize \<le> length (m_timers tm) then (InvalidIdx, tm)
        else createTimer (of_nat (length (m_timers tm))) (tm\<lparr>m_timers := m_timers tm @ [TimerInfo]\<rparr>))"
  using tm_wf_free_slot [OF assms] by (simp add: allocTimer_def Let_def)

lemma tm_wf_alloc:
  assumes "tm_wf maxSize tm"
  shows "tm_wf maxSize (snd (allocTimer maxSize tm))"
proof -
  have "\<not> m_allocated (TimerInfo :: ('a, 'b) timer_info)" "tm_info_wf (TimerInfo :: ('a, 'b) timer_info)"
    by (simp_all add: TimerInfo_def tm_info_wf_def)
  moreover note find_index_nth [of "\<lambda>info. \<not> m_allocated info" "m_timers tm"]
  ultimately show ?thesis
    using assms
    by (auto simp: allocTimer_cases Let_def not_le tm_wf_def [of _ tm] intro!: createTimer_counts)
qed

lemma tm_wf_free:
  assumes "tm_wf maxSize tm" "timer_handle tm idx"
  shows "tm_wf maxSize (freeTimer idx tm)"
proof -
  have info: "\<not> m_allocated (TimerInfo :: ('a, 'b) timer_info)" "tm_info_wf (TimerInfo :: ('a, 'b) timer_info)"
    by (simp_all add: TimerInfo_def tm_info_wf_def)
  have len: "length (filter m_allocated ((m_timers tm)[unat idx := TimerInfo])) + 1 =
      length (filter m_allocated (m_timers tm))"
    using assms info length_filter_update [of "unat idx" "m_timers tm" m_allocated TimerInfo]
    by (simp add: timer_handle_def timer_at_def)
  then have "unat (m_allocatedTimers tm) = length (filter m_allocated ((m_timers tm)[unat idx := TimerInfo])) + 1"
    using assms by (simp add: tm_wf_def)
  then have pos: "0 < m_allocatedTimers tm" and "unat (m_allocatedTimers tm - 1) =
      length (filter m_allocated ((m_timers tm)[unat idx := TimerInfo]))"
    by (auto simp: word_less_nat_alt unat_minus_one unat_eq_zero [symmetric] simp del: unat_eq_zero)
  with assms info show ?thesis
    by (auto simp: freeTimer_def timer_handle_simps tm_wf_def set_timer_def
        dest!: subsetD [OF set_update_subset_insert])
qed

lemma tm_wf_call:
  assumes "timer_call maxSize tm tm'" "tm_wf maxSize tm"
  shows "tm_wf maxSize tm'"
  using assms
proof (induction rule: timer_call.induct)
  case (wait tm idx timeoutMs cb data)
  then show ?case
    using tm_info_wf_at [of maxSize tm idx]
    by (auto simp: timerWait_handle timer_handle_simps tm_info_wf_def intro!: tm_wf_set_timer)
next
  case (cancel tm idx)
  then show ?case
    using tm_info_wf_at [of maxSize tm idx]
    by (auto simp: timerCancel_handle timer_handle_simps tm_info_wf_def intro!: tm_wf_set_timer)
next
  case (set_suspended tm idx suspended)
  then show ?case
    using tm_info_wf_at [of maxSize tm idx]
    by (auto simp: Timer_setSuspended_def timer_handle_ops timer_handle_simps tm_info_wf_def
        intro!: tm_wf_set_timer)
qed (auto simp: Timer_isSuspended_def timer_handle_ops tm_info_wf_at tm_wf_tick tm_wf_alloc
    tm_wf_free Timer_destroy_def)

lemma timer_reachable_wf:
  assumes "timer_reachable maxSize tm" "maxSize < 2 ^ 32"
  shows "tm_wf maxSize tm"
  using assms by induction (auto intro: tm_wf_init tm_wf_call)

section \<open>Properties\<close>

subsection \<open>Every timer object is accounted for\<close>

lemma createTimer_handle:
  assumes "i < length (m_timers tm)" "i < 2 ^ 32" "createTimer (of_nat i) tm = (idx, tm')"
  shows "unat idx = i" "timer_handle tm' idx"
    "timer_at idx tm' = (m_timers tm ! i)\<lparr>m_allocated := True\<rparr>"
    "\<not> m_allocated (m_timers tm ! i) \<Longrightarrow> allocCount tm' = allocCount tm + 1"
proof -
  show i: "unat idx = i" using assms by (auto simp: createTimer_def unat_u32_of_nat)
  with assms show "timer_handle tm' idx" "timer_at idx tm' = (m_timers tm ! i)\<lparr>m_allocated := True\<rparr>"
    by (auto simp: createTimer_def set_timer_def timer_handle_def timer_at_def)
  assume "\<not> m_allocated (m_timers tm ! i)"
  with assms i length_filter_update [of i "m_timers tm" m_allocated "(m_timers tm ! i)\<lparr>m_allocated := True\<rparr>"]
  show "allocCount tm' = allocCount tm + 1"
    by (auto simp: createTimer_def set_timer_def allocCount_def timer_at_def)
qed

lemma tm_wf_allocCount: "tm_wf maxSize tm \<Longrightarrow> m_allocatedTimers tm = allocCount tm"
  by (metis tm_wf_def allocCount_def of_nat_unat ucast_id)

lemma tm_info_wf_fresh:
  assumes "tm_info_wf info" "\<not> m_allocated info"
  shows "m_timeoutCb info = None \<and> m_timeoutMs info = 0 \<and> \<not> m_suspended info"
  using assms by (simp add: tm_info_wf_def)

lemma allocTimer_outcome:
  assumes wf: "tm_wf maxSize tm" and al: "allocTimer maxSize tm = (idx, tm')"
  shows "if Timer_isValid idx
         then \<not> timer_handle tm idx \<and> timer_handle tm' idx \<and> timerIsActive idx tm' = (False, tm') \<and>
           timerIsSuspended idx tm' = (False, tm') \<and> allocCount tm' = allocCount tm + 1
         else length (m_timers tm) = maxSize \<and> (\<forall>info \<in> set (m_timers tm). m_allocated info) \<and> tm' = tm"
proof -
  let ?i = "find_index (\<lambda>info. \<not> m_allocated info) (m_timers tm)"
  have fits: "Timer_isValid idx" if "unat idx < maxSize"
    using that wf by (simp add: tm_wf_def Timer_isValid_def InvalidIdx_def word_less_nat_alt
        unsigned_minus_1_eq_mask mask_eq_exp_minus_1)
  have fresh: ?thesis
    if "createTimer (of_nat i) s = (idx, tm')" "i < length (m_timers s)" "length (m_timers s) \<le> maxSize"
      "\<not> m_allocated (m_timers s ! i)" "tm_info_wf (m_timers s ! i)"
      "allocCount s = allocCount tm" "\<not> timer_handle tm (of_nat i)" for i s
  proof -
    have i: "i < 2 ^ 32" using that wf by (simp add: tm_wf_def)
    note c = createTimer_handle [OF that(2) i that(1)]
    from c(1) have "Timer_isValid idx" using fits that by simp
    moreover from c(3) have "tm_info_wf (timer_at idx tm')"
      using that by (simp add: tm_info_wf_def)
    moreover have "idx = of_nat i" using c(1) by (metis of_nat_unat ucast_id)
    ultimately show ?thesis
      using c that tm_info_wf_fresh [OF that(5,4)] by (simp add: timer_handle_ops)
  qed
  consider (slot) "?i < length (m_timers tm)" "createTimer (of_nat ?i) tm = (idx, tm')"
    | (full) "\<not> ?i < length (m_timers tm)" "maxSize \<le> length (m_timers tm)" "idx = InvalidIdx" "tm' = tm"
    | (new) "length (m_timers tm) < maxSize" "createTimer (of_nat (length (m_timers tm)))
        (tm\<lparr>m_timers := m_timers tm @ [TimerInfo]\<rparr>) = (idx, tm')"
    using al by (auto simp: allocTimer_cases [OF wf] Let_def not_le split: if_splits)
  then show ?thesis
  proof cases
    case slot
    note na = find_index_nth [OF slot(1)]
    have "unat (of_nat ?i :: u32) = ?i" using slot(1) wf by (simp add: unat_u32_of_nat tm_wf_def)
    with slot na wf show ?thesis
      by (intro fresh [of ?i tm]) (auto simp: tm_wf_def timer_handle_def timer_at_def)
  next
    case full
    then show ?thesis using wf
      by (auto simp: Timer_isValid_def tm_wf_def find_index_less)
  next
    case new
    have "unat (of_nat (length (m_timers tm)) :: u32) = length (m_timers tm)"
      using wf by (simp add: unat_u32_of_nat tm_wf_def)
    then have "\<not> timer_handle tm (of_nat (length (m_timers tm)))" by (simp add: timer_handle_def)
    with new show ?thesis
      by (intro fresh [of "length (m_timers tm)" "tm\<lparr>m_timers := m_timers tm @ [TimerInfo]\<rparr>"])
        (auto simp: allocCount_def TimerInfo_def tm_info_wf_def)
  qed
qed

text \<open>
  C28. As long as timer objects are used through indices that were handed out and not given back, no
  assertion of the timer manager fails, the counter of allocated timers is the number that
  \<^verbatim>\<open>allocCount\<close> counts, and a new timer is refused only when the storage is full of timers in
  use; an index handed out was not in use, is inactive and not suspended.
\<close>

theorem timers_reachable_accounted:
  assumes "timer_reachable maxSize tm" "maxSize < 2 ^ 32" "allocTimer maxSize tm = (idx, tm')"
  shows "tm_faults tm = [] \<and> m_allocatedTimers tm = allocCount tm \<and>
    (if Timer_isValid idx
     then \<not> timer_handle tm idx \<and> timer_handle tm' idx \<and> timerIsActive idx tm' = (False, tm') \<and>
       timerIsSuspended idx tm' = (False, tm') \<and> allocCount tm' = allocCount tm + 1
     else length (m_timers tm) = maxSize \<and> (\<forall>info \<in> set (m_timers tm). m_allocated info) \<and> tm' = tm)"
proof -
  have wf: "tm_wf maxSize tm" using assms by (intro timer_reachable_wf)
  then show ?thesis
    using allocTimer_outcome [OF wf assms(3)] tm_wf_allocCount [OF wf] by (simp add: tm_wf_def)
qed

theorem timers_reachable_accounted_witness:
  "\<exists>tm' :: (nat, nat) timer_mgr. allocTimer 1 TimerMgr_init = (0, tm') \<and>
     timer_handle tm' 0 \<and> allocCount tm' = 1"
proof -
  obtain tm' :: "(nat, nat) timer_mgr" where tm': "allocTimer 1 TimerMgr_init = (0, tm')"
    by (simp add: allocTimer_def TimerMgr_init_def createTimer_def)
  have "Timer_isValid 0" by (simp add: Timer_isValid_def InvalidIdx_def word_less_nat_alt
        unsigned_minus_1_eq_mask mask_eq_exp_minus_1)
  with timers_reachable_accounted [OF timer_reachable.init _ tm'] show ?thesis
    using tm' by (auto simp: allocCount_def TimerMgr_init_def)
qed

subsection \<open>The next tick\<close>

lemma fold_min_wait:
  fixes xs :: "('cb, 'd) timer_info list"
  defines "w r \<equiv> fold (\<lambda>info result. if timer_skipped info then result
             else min result (m_timeoutMs info)) xs r"
  shows "w r \<le> r" "\<lbrakk>info \<in> set xs; \<not> timer_skipped info\<rbrakk> \<Longrightarrow> w r \<le> m_timeoutMs info"
    "w r = r \<or> (\<exists>info \<in> set xs. \<not> timer_skipped info \<and> w r = m_timeoutMs info)"
proof -
  have "w r \<le> r \<and> (\<forall>info \<in> set xs. \<not> timer_skipped info \<longrightarrow> w r \<le> m_timeoutMs info) \<and>
    (w r = r \<or> (\<exists>info \<in> set xs. \<not> timer_skipped info \<and> w r = m_timeoutMs info))"
    unfolding w_def
  proof (induction xs arbitrary: r)
    case (Cons info xs)
    show ?case using Cons [of r] Cons [of "min r (m_timeoutMs info)"]
      by (auto simp: min_def split: if_splits)
  qed simp
  then show "w r \<le> r" "\<lbrakk>info \<in> set xs; \<not> timer_skipped info\<rbrakk> \<Longrightarrow> w r \<le> m_timeoutMs info"
    "w r = r \<or> (\<exists>info \<in> set xs. \<not> timer_skipped info \<and> w r = m_timeoutMs info)" by auto
qed

lemma ucast_u32_u64: "unat (ucast (ms :: u32) :: u64) = unat ms" "unat ms < 2 ^ 32"
proof -
  show ms: "unat ms < 2 ^ 32" using unsigned_less [of ms] by simp
  then show "unat (ucast ms :: u64) = unat ms"
    by (simp add: unsigned_ucast_eq take_bit_nat_eq_self)
qed

lemma le_ucast_u32: "(t :: u64) \<le> ucast (ms :: u32) \<longleftrightarrow> unat t \<le> unat ms"
  by (simp add: word_le_nat_alt ucast_u32_u64)

lemma unat_saturated:
  "unat (ucast (min (r :: u64) (ucast (- 1 :: u32))) :: u32) = min (unat r) (2 ^ 32 - 1)"
proof -
  have m: "unat (ucast (- 1 :: u32) :: u64) = 2 ^ 32 - 1"
    by (simp add: ucast_u32_u64 unsigned_minus_1_eq_mask mask_eq_exp_minus_1)
  then have "unat (min r (ucast (- 1 :: u32))) = min (unat r) (2 ^ 32 - 1)"
    by (simp add: min_def word_le_nat_alt)
  then show ?thesis by (simp add: unsigned_ucast_eq take_bit_nat_eq_self)
qed

text \<open>
  \<^verbatim>\<open>getMinWait\<close> is the time of the next event: shorter ticks call nothing and a tick of that
  length does, unless the result is the largest value and the event later. The value 0, for which
  the client does not program a tick, means that no tick would call anything, or that a timer was
  armed with 0 and is due already.
\<close>

theorem getMinWait_next_event:
  assumes "timer_reachable maxSize tm" "maxSize < 2 ^ 32"
  shows "if getMinWait tm = 0
    then (\<forall>ms. fst (TimerMgr_tick ms tm) = []) \<or> fst (TimerMgr_tick 0 tm) \<noteq> []
    else (\<forall>ms. ms < getMinWait tm \<longrightarrow> fst (TimerMgr_tick ms tm) = []) \<and>
      (getMinWait tm < - 1 \<longrightarrow> fst (TimerMgr_tick (getMinWait tm) tm) \<noteq> [])"
proof -
  have wf: "tm_wf maxSize tm" using assms by (intro timer_reachable_wf)
  define w where "w = fold (\<lambda>info result. if timer_skipped info then result
    else min result (m_timeoutMs info)) (m_timers tm) (- 1)"
  have fires: "fst (TimerMgr_tick ms tm) = [] \<longleftrightarrow>
      (\<forall>info \<in> set (m_timers tm). \<not> timer_skipped info \<longrightarrow> unat ms < unat (m_timeoutMs info))" for ms
    by (auto simp: TimerMgr_tick_closed [OF tm_wf_size [OF wf]] filter_empty_conv timer_due_def
        le_ucast_u32 not_le)
  have low: "unat w \<le> unat (m_timeoutMs info)" if "info \<in> set (m_timers tm)" "\<not> timer_skipped info" for info
    using that fold_min_wait(2) unfolding w_def by (simp add: word_le_nat_alt)
  have hit: "w = - 1 \<or> (\<exists>info \<in> set (m_timers tm). \<not> timer_skipped info \<and> w = m_timeoutMs info)"
    using fold_min_wait(3) unfolding w_def .
  have top: "unat (- 1 :: u64) = 2 ^ 64 - 1" by (simp add: unsigned_minus_1_eq_mask mask_eq_exp_minus_1)
  consider (none) "\<forall>info \<in> set (m_timers tm). timer_skipped info" "getMinWait tm = 0"
    | (all) "w = - 1" "getMinWait tm = 0"
    | (wait) "w \<noteq> - 1" "unat (getMinWait tm) = min (unat w) (2 ^ 32 - 1)"
  proof -
    have "\<forall>info \<in> set (m_timers tm). timer_skipped info" if "m_allocatedTimers tm = 0"
      using that wf by (auto simp: tm_wf_def filter_empty_conv timer_skipped_def)
    moreover have "unat (getMinWait tm) = min (unat w) (2 ^ 32 - 1)" if "m_allocatedTimers tm \<noteq> 0" "w \<noteq> - 1"
      using that unat_saturated [of w] by (simp add: getMinWait_def Let_def w_def)
    moreover have "getMinWait tm = 0" if "m_allocatedTimers tm = 0 \<or> w = - 1"
      using that by (auto simp: getMinWait_def Let_def w_def)
    ultimately show thesis using none all wait by blast
  qed
  then show ?thesis
  proof cases
    case all
    have "unat ms < unat (m_timeoutMs info)"
      if "info \<in> set (m_timers tm)" "\<not> timer_skipped info" for info and ms :: u32
      using low [OF that] ucast_u32_u64(2) [of ms] unfolding all top by simp
    with all show ?thesis by (simp add: fires)
  next
    case wait
    then have z: "getMinWait tm = 0 \<longleftrightarrow> unat w = 0" by (simp add: unat_eq_zero [symmetric] min_def)
    with wait hit show ?thesis using low
      by (fastforce simp: fires word_less_nat_alt unsigned_minus_1_eq_mask mask_eq_exp_minus_1 min_def not_less split: if_splits)
  qed (auto simp: fires)
qed

text \<open>One timer of two, armed with 5 milliseconds.\<close>

definition timer_example :: "(nat, nat) timer_mgr" where
  "timer_example = timerWait 0 5 (Some 7) None (snd (allocTimer 2 TimerMgr_init))"

lemma timer_example_alloc: "snd (allocTimer 2 TimerMgr_init) =
  \<lparr>m_timers = [TimerInfo\<lparr>m_allocated := True\<rparr>], m_allocatedTimers = 1, tm_faults = []\<rparr>"
  by (simp add: allocTimer_def TimerMgr_init_def createTimer_def set_timer_def timer_at_def)

lemma timer_example_handle: "timer_handle (snd (allocTimer 2 TimerMgr_init)) 0"
  by (simp add: timer_example_alloc timer_handle_def timer_at_def)

lemma timer_example_reachable: "timer_reachable 2 (snd (allocTimer 2 TimerMgr_init))"
  by (rule timer_reachable.step [OF timer_reachable.init timer_call.alloc])

lemma timer_example_eval: "timer_example =
  \<lparr>m_timers = [\<lparr>m_timeoutMs = 5, m_timeoutCb = Some 7, m_timeoutData = None,
     m_allocated = True, m_suspended = False\<rparr>], m_allocatedTimers = 1, tm_faults = []\<rparr>"
  by (simp add: timer_example_def timer_example_alloc timerWait_def timer_at_def set_timer_def
      TimerInfo_def)

theorem getMinWait_next_event_witness:
  "getMinWait timer_example = 5 \<and> fst (TimerMgr_tick 4 timer_example) = [] \<and>
   fst (TimerMgr_tick 5 timer_example) \<noteq> []"
proof -
  have w: "getMinWait timer_example = 5"
    by (simp add: timer_example_eval getMinWait_def timer_skipped_def Let_def unat_saturated
        word_unat_eq_iff unsigned_minus_1_eq_mask mask_eq_exp_minus_1)
  have "timer_reachable 2 timer_example"
    unfolding timer_example_def
    by (rule timer_reachable.step [OF timer_example_reachable timer_call.wait [OF timer_example_handle]])
  from getMinWait_next_event [OF this] have "(4 :: u32) < 5 \<longrightarrow> fst (TimerMgr_tick 4 timer_example) = []"
    "(5 :: u32) < - 1 \<longrightarrow> fst (TimerMgr_tick 5 timer_example) \<noteq> []" unfolding w by simp_all
  with w show ?thesis by (simp add: word_less_nat_alt unsigned_minus_1_eq_mask mask_eq_exp_minus_1)
qed

subsection \<open>Timers are called on time\<close>

text \<open>Ticks with nothing between them.\<close>

definition run_ticks :: "u32 list \<Rightarrow> ('cb, 'd) timer_mgr \<Rightarrow> ('cb, 'd) timer_mgr" where
  "run_ticks mss tm = fold (\<lambda>ms tm. snd (TimerMgr_tick ms tm)) mss tm"

lemma tick_timer_at:
  assumes "tm_wf maxSize tm" "timer_handle tm idx"
  shows "timer_at idx (snd (TimerMgr_tick ms tm)) = timer_after ms (timer_at idx tm)"
    "timer_handle (snd (TimerMgr_tick ms tm)) idx"
    "timer_due ms (timer_at idx tm) \<Longrightarrow>
       timer_event (timer_at idx tm) \<in> set (fst (TimerMgr_tick ms tm))"
  using assms
  by (auto simp: TimerMgr_tick_closed [OF tm_wf_size [OF assms(1)]] timer_at_def timer_handle_def)

lemma run_ticks_countdown:
  assumes "tm_wf maxSize tm" "timer_handle tm idx" "\<not> timer_skipped (timer_at idx tm)"
    and "sum_list (map unat mss) < unat (m_timeoutMs (timer_at idx tm))"
  shows "tm_wf maxSize (run_ticks mss tm) \<and> timer_handle (run_ticks mss tm) idx \<and>
    timer_at idx (run_ticks mss tm) = (timer_at idx tm)
      \<lparr>m_timeoutMs := m_timeoutMs (timer_at idx tm) - of_nat (sum_list (map unat mss))\<rparr>"
  using assms
proof (induction mss arbitrary: tm)
  case (Cons ms mss)
  let ?t = "m_timeoutMs (timer_at idx tm)" and ?tm = "snd (TimerMgr_tick ms tm)"
  note at = tick_timer_at [OF Cons.prems(1,2), of ms]
  have "\<not> ?t \<le> ucast ms" using Cons.prems(4) by (simp add: le_ucast_u32)
  then have t: "timer_at idx ?tm = (timer_at idx tm)\<lparr>m_timeoutMs := ?t - ucast ms\<rparr>"
    using at(1) Cons.prems(3) by (simp add: timer_after_def timer_due_def)
  have "unat (?t - ucast ms) = unat ?t - unat ms"
    using Cons.prems(4) by (simp add: unat_sub le_ucast_u32 word_le_nat_alt ucast_u32_u64)
  then have "sum_list (map unat mss) < unat (m_timeoutMs (timer_at idx ?tm))"
    using Cons.prems(4) by (simp add: t)
  moreover have "\<not> timer_skipped (timer_at idx ?tm)"
    using Cons.prems(3) by (simp add: t timer_skipped_def)
  ultimately show ?case
    using Cons.IH [OF tm_wf_tick [OF Cons.prems(1)] at(2)]
    by (simp add: run_ticks_def t diff_diff_eq)
qed (simp add: run_ticks_def)

text \<open>
  C25. A timer that is not suspended and armed with a timeout stays active with what is left of the
  timeout as long as the ticks add up to less than it, however they are cut, and the tick that
  reaches the timeout calls its callback with its argument and leaves the timer inactive.
\<close>

theorem timer_called_on_time:
  assumes "timer_reachable maxSize tm" "maxSize < 2 ^ 32" "timer_handle tm idx"
    and "fst (timerIsSuspended idx tm) = False"
    and "tm' = run_ticks mss (timerWait idx timeoutMs (Some cb) data tm)"
    and "sum_list (map unat mss) < unat timeoutMs"
  shows "timerIsActive idx tm' = (True, tm') \<and>
    unat (m_timeoutMs (timer_at idx tm')) = unat timeoutMs - sum_list (map unat mss) \<and>
    (unat timeoutMs \<le> sum_list (map unat mss) + unat ms \<longrightarrow>
       (cb, data) \<in> set (fst (TimerMgr_tick ms tm')) \<and>
       fst (timerIsActive idx (snd (TimerMgr_tick ms tm'))) = False)"
proof -
  let ?s = "sum_list (map unat mss)" and ?tm = "timerWait idx timeoutMs (Some cb) data tm"
  have wf: "tm_wf maxSize tm" using assms(1,2) by (rule timer_reachable_wf)
  have wf1: "tm_wf maxSize ?tm" using timer_call.wait [OF assms(3)] wf by (rule tm_wf_call)
  have h1: "timer_handle ?tm idx" and at1: "timer_at idx ?tm = (timer_at idx tm)
      \<lparr>m_timeoutMs := timeoutMs, m_timeoutCb := Some cb, m_timeoutData := data\<rparr>"
    using assms(3) by (auto simp: timerWait_handle timer_handle_def timer_at_def set_timer_def)
  have run1: "\<not> timer_skipped (timer_at idx ?tm)"
    using assms(3,4) by (simp add: at1 timer_skipped_def timerIsSuspended_handle timer_handle_simps)
  have cd: "tm_wf maxSize tm'" "timer_handle tm' idx"
    "timer_at idx tm' = (timer_at idx ?tm)\<lparr>m_timeoutMs := timeoutMs - of_nat ?s\<rparr>"
    using run_ticks_countdown [OF wf1 h1 run1, of mss] assms(5,6) by (simp_all add: at1)
  have "unat (of_nat ?s :: u64) = ?s"
    using assms(6) unsigned_less [of timeoutMs, where ?'a = nat]
    by (simp add: unsigned_of_nat take_bit_nat_eq_self)
  then have left: "unat (timeoutMs - of_nat ?s) = unat timeoutMs - ?s"
    using assms(6) by (simp add: unat_sub word_le_nat_alt)
  have run: "\<not> timer_skipped (timer_at idx tm')" using run1 by (simp add: cd(3) timer_skipped_def)
  have act: "timerIsActive idx tm' = (True, tm')"
    using timerIsActive_handle [OF cd(2) tm_info_wf_at [OF cd(1,2)]] by (simp add: cd(3) at1)
  moreover have "timer_due ms (timer_at idx tm')" if "unat timeoutMs \<le> ?s + unat ms"
    using run that left by (simp add: timer_due_def le_ucast_u32 cd(3))
  moreover have "timer_event (timer_at idx tm') = (cb, data)" by (simp add: timer_event_def cd(3) at1)
  moreover note tick_timer_at [OF cd(1,2), of ms]
  moreover from this(2) tm_wf_tick [OF cd(1)] have "timerIsActive idx (snd (TimerMgr_tick ms tm')) =
      (m_timeoutCb (timer_at idx (snd (TimerMgr_tick ms tm'))) \<noteq> None, snd (TimerMgr_tick ms tm'))"
    by (intro timerIsActive_handle tm_info_wf_at)
  ultimately show ?thesis using left run
    by (auto simp: cd(3) timer_after_def)
qed

theorem timer_called_on_time_witness:
  "timer_example = timerWait 0 5 (Some 7) None (snd (allocTimer 2 TimerMgr_init)) \<and>
   fst (timerIsActive 0 (run_ticks [1, 3] timer_example)) = True \<and>
   (7, None) \<in> set (fst (TimerMgr_tick 1 (run_ticks [1, 3] timer_example)))"
proof -
  have "fst (timerIsSuspended 0 (snd (allocTimer 2 (TimerMgr_init :: (nat, nat) timer_mgr)))) = False"
    by (simp add: timerIsSuspended_handle timer_example_handle) (simp add: timer_example_alloc timer_at_def TimerInfo_def)
  from timer_called_on_time [OF timer_example_reachable _ timer_example_handle this refl, of "[1, 3]" 5 7 None 1]
  show ?thesis by (simp add: timer_example_def)
qed

end
