(* ===== verification/Cl_Topics.thy ===== *)
theory Cl_Topics
  imports Gw_Strings
begin

text \<open>
  Topics of the client library: the checks of topics and filters of
  \<^verbatim>\<open>src/client/lib/src/op/Op.cpp\<close> and \<^verbatim>\<open>ClientImpl.cpp\<close>, the matching of a topic against a filter,
  and the two tables of registered topics with their limits.

  The build with topic verification is modelled. A C string is a list of characters, and reading at
  its end gives the terminating character. Positions are natural numbers and \<^verbatim>\<open>lastSep\<close> an integer,
  as in the code for strings of less than 2 GiB. A \<^verbatim>\<open>std::string_view\<close> has no terminating character:
  reading past its end has no defined result, which is \<open>None\<close>.
\<close>

section \<open>Checks of topics\<close>

definition TopicSep :: char where "TopicSep = CHR ''/''"
definition MultLevelWildcard :: char where "MultLevelWildcard = CHR ''#''"
definition SingleLevelWildcard :: char where "SingleLevelWildcard = CHR ''+''"

lemmas topic_char_defs = TopicSep_def MultLevelWildcard_def SingleLevelWildcard_def

definition c_char :: "string \<Rightarrow> nat \<Rightarrow> char" where
  "c_char s i = (if i < length s then s ! i else CHR 0x00)"

text \<open>What a \<^verbatim>\<open>const char*\<close> to the characters of a C++ string denotes.\<close>

definition c_str :: "string \<Rightarrow> string" where
  "c_str s = takeWhile (\<lambda>c. c \<noteq> CHR 0x00) s"

definition isValidTopicId :: "u16 \<Rightarrow> bool" where
  "isValidTopicId i \<longleftrightarrow> i \<noteq> 0 \<and> i \<noteq> 0xffff"

definition isShortTopic :: "string \<Rightarrow> bool" where
  "isShortTopic topic \<longleftrightarrow> c_char topic 0 \<noteq> CHR 0x00 \<and> c_char topic 1 \<noteq> CHR 0x00 \<and>
     c_char topic 2 = CHR 0x00"

function verifySubFilter_loop :: "string \<Rightarrow> nat \<Rightarrow> int \<Rightarrow> bool" where
  "verifySubFilter_loop flt pos lastSep =
     (if c_char flt pos = CHR 0x00 then True
      else
        let ch = c_char flt pos
        in if ch = TopicSep then verifySubFilter_loop flt (pos + 1) (int pos)
           else if ch = MultLevelWildcard then
             (if c_char flt (pos + 1) \<noteq> CHR 0x00 then False
              else if pos = 0 then True
              else if lastSep < 0 \<or> int (pos - 1) \<noteq> lastSep then False
              else True)
           else if ch \<noteq> SingleLevelWildcard then verifySubFilter_loop flt (pos + 1) lastSep
           else
             let nextCh = c_char flt (pos + 1)
             in if nextCh \<noteq> CHR 0x00 \<and> nextCh \<noteq> TopicSep then False
                else if pos = 0 then verifySubFilter_loop flt (pos + 1) lastSep
                else if lastSep < 0 \<or> int (pos - 1) \<noteq> lastSep then False
                else verifySubFilter_loop flt (pos + 1) lastSep)"
  by pat_completeness auto
termination
  by (relation "measure (\<lambda>(s, pos, _). length s - pos)") (auto simp: c_char_def split: if_splits)

declare verifySubFilter_loop.simps [simp del]

definition verifySubFilterInternal :: "bool \<Rightarrow> string \<Rightarrow> bool" where
  "verifySubFilterInternal m_verifyOutgoingTopic flt =
     (if \<not> m_verifyOutgoingTopic then True
      else if c_char flt 0 = CHR 0x00 then False
      else verifySubFilter_loop flt 0 (- 1))"

function verifyPubTopic_loop :: "string \<Rightarrow> nat \<Rightarrow> bool" where
  "verifyPubTopic_loop topic pos =
     (if c_char topic pos = CHR 0x00 then True
      else
        let ch = c_char topic pos
        in if ch = MultLevelWildcard \<or> ch = SingleLevelWildcard then False
           else verifyPubTopic_loop topic (pos + 1))"
  by pat_completeness auto
termination
  by (relation "measure (\<lambda>(s, pos). length s - pos)") (auto simp: c_char_def split: if_splits)

declare verifyPubTopic_loop.simps [simp del]

definition verifyPubTopicInternal :: "bool \<Rightarrow> bool \<Rightarrow> string \<Rightarrow> bool \<Rightarrow> bool" where
  "verifyPubTopicInternal m_verifyOutgoingTopic m_verifyIncomingTopic topic outgoing =
     (if outgoing \<and> \<not> m_verifyOutgoingTopic then True
      else if \<not> outgoing \<and> \<not> m_verifyIncomingTopic then True
      else if c_char topic 0 = CHR 0x00 then False
      else verifyPubTopic_loop topic 0)"

section \<open>Matching\<close>

text \<open>\<^verbatim>\<open>substr\<close> of a \<^verbatim>\<open>string_view\<close> to its end is \<^const>\<open>drop\<close>, and of its first characters
  \<^const>\<open>take\<close>.\<close>

lemma find_first_of_less: "Some p = find_first_of cs s n \<Longrightarrow> p < length s"
  using string_find_iffs(3) by (metis find_first_of_def)

function isTopicMatch :: "string \<Rightarrow> string \<Rightarrow> bool option" where
  "isTopicMatch flt topic =
     (if length flt = 1 \<and> flt ! 0 = CHR ''#'' then Some True
      else if topic = [] then Some (flt = [])
      else
        case (find_first_of ''/'' flt 0, find_first_of ''/'' topic 0) of
          (None, Some _) \<Rightarrow> Some False
        | (Some filterSepPos, Some topicSepPos) \<Rightarrow>
            (if flt ! 0 = CHR ''+'' \<and> filterSepPos = 1 \<or>
                take filterSepPos flt = take topicSepPos topic
             then isTopicMatch (drop (filterSepPos + 1) flt) (drop (topicSepPos + 1) topic)
             else Some False)
        | (Some filterSepPos, None) \<Rightarrow>
            (if length flt \<le> filterSepPos + 1 then Some False
             else if flt ! 0 = CHR ''+'' \<and> filterSepPos = 1 \<or> take filterSepPos flt = topic
             then isTopicMatch (drop (filterSepPos + 1) flt) []
             else Some False)
        | (None, None) \<Rightarrow>
            (if flt = [] then None
             else Some (flt ! 0 = CHR ''+'' \<and> length flt = 1 \<or> flt = topic)))"
  by pat_completeness auto
termination
  by (relation "measure (\<lambda>(f, t). length f)") (auto dest!: find_first_of_less)

declare isTopicMatch.simps [simp del]

section \<open>Reference definitions\<close>

text \<open>The levels of a topic or filter, the rules of the protocol for the wildcards of a filter and
  for the topics it matches.\<close>

fun topic_levels :: "string \<Rightarrow> string list" where
  "topic_levels [] = [[]]"
| "topic_levels (c # s) =
     (if c = CHR ''/'' then [] # topic_levels s
      else (c # hd (topic_levels s)) # tl (topic_levels s))"

definition plain_level :: "string \<Rightarrow> bool" where
  "plain_level l \<longleftrightarrow> CHR ''#'' \<notin> set l \<and> CHR ''+'' \<notin> set l"

fun valid_levels :: "string list \<Rightarrow> bool" where
  "valid_levels [] \<longleftrightarrow> True"
| "valid_levels [l] \<longleftrightarrow> plain_level l \<or> l = ''+'' \<or> l = ''#''"
| "valid_levels (l # ls) \<longleftrightarrow> (plain_level l \<or> l = ''+'') \<and> valid_levels ls"

fun levels_match :: "string list \<Rightarrow> string list \<Rightarrow> bool" where
  "levels_match [] ts \<longleftrightarrow> ts = []"
| "levels_match (f # fs) ts \<longleftrightarrow> f = ''#'' \<and> fs = [] \<or>
     (case ts of [] \<Rightarrow> False | t # ts' \<Rightarrow> (f = ''+'' \<or> f = t) \<and> levels_match fs ts')"

section \<open>Levels\<close>

lemma topic_levels_nonempty [simp]: "topic_levels s \<noteq> []"
  by (cases s) auto

lemma topic_levels_single: "CHR ''/'' \<notin> set s \<Longrightarrow> topic_levels s = [s]"
  by (induction s) auto

lemma topic_levels_sep: "CHR ''/'' \<notin> set w \<Longrightarrow> topic_levels (w @ CHR ''/'' # r) = w # topic_levels r"
  by (induction w) auto

lemma topic_cases:
  obtains (one) "CHR ''/'' \<notin> set s" "topic_levels s = [s]"
  | (more) w r where "s = w @ CHR ''/'' # r" "CHR ''/'' \<notin> set w" "topic_levels s = w # topic_levels r"
proof (cases "CHR ''/'' \<in> set s")
  case True
  then obtain w r where "s = w @ CHR ''/'' # r" "CHR ''/'' \<notin> set w" by (meson split_list_first)
  then show thesis using more topic_levels_sep by blast
qed (use one topic_levels_single in blast)

lemma topic_levels_eq_single: "topic_levels s = [l] \<longleftrightarrow> s = l \<and> CHR ''/'' \<notin> set l"
proof (cases s rule: topic_cases)
  case (more w r)
  then show ?thesis by auto
qed auto

lemma find_sep [simp]:
  "CHR ''/'' \<notin> set w \<Longrightarrow> find_first_of ''/'' w 0 = None"
  "CHR ''/'' \<notin> set w \<Longrightarrow> find_first_of ''/'' (w @ CHR ''/'' # r) 0 = Some (length w)"
  by simp_all

lemma plus_level: "CHR ''/'' \<notin> set w \<Longrightarrow>
  (w @ CHR ''/'' # r) ! 0 = CHR ''+'' \<and> length w = 1 \<longleftrightarrow> w = ''+''"
  by (cases w) auto

text \<open>The four shapes of a call.\<close>

lemma isTopicMatch_empty: "isTopicMatch flt [] = Some (flt = ''#'' \<or> flt = [])"
  by (subst isTopicMatch.simps) (auto simp: length_Suc_conv)

lemma isTopicMatch_sep_sep:
  assumes "CHR ''/'' \<notin> set fw" "CHR ''/'' \<notin> set tw"
  shows "isTopicMatch (fw @ CHR ''/'' # fr) (tw @ CHR ''/'' # tr) =
    (if fw = ''+'' \<or> fw = tw then isTopicMatch fr tr else Some False)"
  using assms plus_level [OF assms(1), of fr] find_sep(2) [of "''+''" fr]
  by (subst isTopicMatch.simps) auto

lemma isTopicMatch_sep_one:
  assumes "CHR ''/'' \<notin> set fw" "CHR ''/'' \<notin> set t" "t \<noteq> []"
  shows "isTopicMatch (fw @ CHR ''/'' # fr) t =
    Some (fr = ''#'' \<and> (fw = ''+'' \<or> fw = t))"
  using assms plus_level [OF assms(1), of fr] find_sep(2) [of "''+''" fr]
  by (subst isTopicMatch.simps) (auto simp: isTopicMatch_empty)

lemma isTopicMatch_one_sep:
  assumes "CHR ''/'' \<notin> set f" "CHR ''/'' \<notin> set tw"
  shows "isTopicMatch f (tw @ CHR ''/'' # tr) = Some (f = ''#'')"
  using assms by (subst isTopicMatch.simps) (auto simp: length_Suc_conv)

lemma isTopicMatch_one_one:
  assumes "CHR ''/'' \<notin> set f" "CHR ''/'' \<notin> set t" "t \<noteq> []"
  shows "isTopicMatch f t = (if f = [] then None else Some (f = ''#'' \<or> f = ''+'' \<or> f = t))"
  using assms by (subst isTopicMatch.simps) (auto simp: length_Suc_conv)

lemmas isTopicMatch_shapes = isTopicMatch_empty isTopicMatch_sep_sep isTopicMatch_sep_one
  isTopicMatch_one_sep isTopicMatch_one_one

section \<open>Properties of matching\<close>

text \<open>
  C27. Matching by positions of separators agrees with the rules of the protocol, level by level,
  for a topic and a filter whose last levels are not empty; \<^verbatim>\<open>#\<close> also matches the level above it.
\<close>

theorem isTopicMatch_levels:
  assumes "topic \<noteq> []" "last topic \<noteq> CHR ''/''" "flt \<noteq> []" "last flt \<noteq> CHR ''/''"
  shows "isTopicMatch flt topic = Some (levels_match (topic_levels flt) (topic_levels topic))"
  using assms
proof (induction "length flt" arbitrary: flt topic rule: less_induct)
  case less
  show ?case
  proof (cases flt rule: topic_cases)
    case f: one
    show ?thesis
    proof (cases topic rule: topic_cases)
      case one
      with f less.prems show ?thesis by (auto simp: isTopicMatch_one_one)
    next
      case (more tw tr)
      with f show ?thesis by (auto simp: isTopicMatch_one_sep)
    qed
  next
    case f: (more fw fr)
    have fr: "fr \<noteq> []" "last fr \<noteq> CHR ''/''" using f less.prems by (auto split: if_splits)
    show ?thesis
    proof (cases topic rule: topic_cases)
      case one
      have "levels_match (topic_levels fr) [] \<longleftrightarrow> fr = ''#''"
        by (cases "topic_levels fr") (auto simp: topic_levels_eq_single)
      with one f less.prems show ?thesis by (auto simp: isTopicMatch_sep_one)
    next
      case (more tw tr)
      then have "tr \<noteq> []" "last tr \<noteq> CHR ''/''" using less.prems by (auto split: if_splits)
      with f fr less.hyps [of fr tr] more show ?thesis by (simp add: isTopicMatch_sep_sep)
    qed
  qed
qed

theorem isTopicMatch_levels_witness:
  "isTopicMatch ''a/+/#'' ''a/b'' = Some True \<and> isTopicMatch ''a/+'' ''a/b/c'' = Some False"
  using isTopicMatch_levels [of "''a/b''" "''a/+/#''"] isTopicMatch_levels [of "''a/b/c''" "''a/+''"]
  by simp

text \<open>
  Two deviations from these rules. The single-level wildcard at the end of a filter does not
  match an empty last level, and a filter that ends with a separator is read past its end when the
  topic continues with one more level.
\<close>

theorem isTopicMatch_empty_levels:
  "isTopicMatch (p @ ''/+'') (p @ ''/'') = Some False \<and>
   levels_match (topic_levels (p @ ''/+'')) (topic_levels (p @ ''/'')) \<and>
   isTopicMatch (p @ ''/'') (p @ ''/a'') = None"
proof (induction "length p" arbitrary: p rule: less_induct)
  case less
  show ?case
  proof (cases p rule: topic_cases)
    case one
    then show ?thesis
      using isTopicMatch_sep_sep [of p p "''+''" "[]"] isTopicMatch_sep_sep [of p p "[]" "''a''"]
        topic_levels_sep [of p "''+''"] topic_levels_sep [of p "[]"]
      by (simp add: isTopicMatch_empty isTopicMatch_one_one)
  next
    case (more w r)
    then show ?thesis
      using less [of r] isTopicMatch_sep_sep [of w w "r @ ''/+''" "r @ ''/''"]
        isTopicMatch_sep_sep [of w w "r @ ''/''" "r @ ''/a''"]
        topic_levels_sep [of w "r @ ''/+''"] topic_levels_sep [of w "r @ ''/''"]
      by simp
  qed
qed

section \<open>Properties of the checks\<close>

text \<open>The loop over positions as a scan of the rest of the filter, with what it knows of the
  characters before: whether a level starts here.\<close>

fun scan_filter :: "bool \<Rightarrow> string \<Rightarrow> bool" where
  "scan_filter start [] = True"
| "scan_filter start (c # r) =
     (if c = CHR ''/'' then scan_filter True r
      else if c = CHR ''#'' then r = [] \<and> start
      else if c = CHR ''+'' then (r = [] \<or> hd r = CHR ''/'') \<and> start \<and> scan_filter False r
      else scan_filter False r)"

lemma c_char_append: "c_char (p @ r) (length p) = (if r = [] then CHR 0x00 else hd r)"
  by (cases r) (simp_all add: c_char_def)

lemma c_char_append_Suc:
  "r \<noteq> [] \<Longrightarrow> c_char (p @ r) (length p + 1) = (if tl r = [] then CHR 0x00 else hd (tl r))"
  by (cases r; cases "tl r") (simp_all add: c_char_def nth_append)

lemma verifySubFilter_loop_step:
  assumes "c_char s pos = c" "c \<noteq> CHR 0x00"
  shows "verifySubFilter_loop s pos lastSep =
    (let n = c_char s (pos + 1); start = (pos = 0 \<or> 0 \<le> lastSep \<and> int (pos - 1) = lastSep)
     in if c = CHR ''/'' then verifySubFilter_loop s (pos + 1) (int pos)
        else if c = CHR ''#'' then n = CHR 0x00 \<and> start
        else if c = CHR ''+'' then (n = CHR 0x00 \<or> n = CHR ''/'') \<and> start \<and>
          verifySubFilter_loop s (pos + 1) lastSep
        else verifySubFilter_loop s (pos + 1) lastSep)"
  using assms by (subst verifySubFilter_loop.simps) (auto simp: topic_char_defs Let_def)

lemma verifySubFilter_loop_scan:
  assumes "CHR 0x00 \<notin> set r" "lastSep < int (length p)"
  shows "verifySubFilter_loop (p @ r) (length p) lastSep =
    scan_filter (p = [] \<or> lastSep = int (length p) - 1) r"
  using assms
proof (induction r arbitrary: p lastSep)
  case Nil
  then show ?case by (subst verifySubFilter_loop.simps) (simp add: c_char_def)
next
  case (Cons c r)
  note IH = Cons.IH [of _ "p @ [c]", simplified]
  have ch: "c_char (p @ c # r) (length p) = c" "c \<noteq> CHR 0x00"
    "c_char (p @ c # r) (length p + 1) = (if r = [] then CHR 0x00 else hd r)"
    using Cons.prems c_char_append [of p "c # r"] c_char_append_Suc [of "c # r" p] by auto
  have nz: "r \<noteq> [] \<Longrightarrow> hd r \<noteq> CHR 0x00" using Cons.prems(1) by (cases r) auto
  have pos: "length p = 0 \<or> 0 \<le> lastSep \<and> int (length p - 1) = lastSep \<longleftrightarrow> p = [] \<or> lastSep = int (length p) - 1"
    by (cases p) auto
  have rec: "verifySubFilter_loop (p @ c # r) (length p + 1) lastSep = scan_filter False r"
    "verifySubFilter_loop (p @ c # r) (length p + 1) (int (length p)) = scan_filter True r"
    using Cons.prems IH [of lastSep] IH [of "int (length p)"] by simp_all
  have n: "c_char (p @ c # r) (length p + 1) = CHR 0x00 \<longleftrightarrow> r = []"
    "r = [] \<or> c_char (p @ c # r) (length p + 1) = CHR ''/'' \<longleftrightarrow> r = [] \<or> hd r = CHR ''/''"
    using ch(3) nz by auto
  show ?case
    unfolding verifySubFilter_loop_step [OF ch(1,2)] Let_def rec n pos scan_filter.simps
    by (rule refl)
qed

lemma valid_levels_Cons:
  "valid_levels (l # ls) \<longleftrightarrow> (plain_level l \<or> l = ''+'' \<or> l = ''#'' \<and> ls = []) \<and> valid_levels ls"
  by (cases ls) auto

lemma scan_filter_levels:
  "scan_filter start r \<longleftrightarrow>
     (if start then valid_levels (topic_levels r)
      else plain_level (hd (topic_levels r)) \<and> valid_levels (tl (topic_levels r)))"
proof (induction r arbitrary: start)
  case Nil
  then show ?case by (simp add: plain_level_def)
next
  case (Cons c r)
  obtain l ls where lv: "topic_levels r = l # ls" by (cases "topic_levels r") auto
  have "l = [] \<longleftrightarrow> r = [] \<or> hd r = CHR ''/''" "l = [] \<and> ls = [] \<longleftrightarrow> r = []"
    using lv by (cases r; auto split: if_splits)+
  with Cons show ?case by (auto simp: lv valid_levels_Cons plain_level_def)
qed

text \<open>
  The check of a subscription filter is the rule of the protocol: the filter is not empty, each
  level is free of wildcards or is \<^verbatim>\<open>+\<close> alone, and \<^verbatim>\<open>#\<close> stands alone in the last level only.
\<close>

theorem verifySubFilter_levels:
  assumes "CHR 0x00 \<notin> set flt"
  shows "verifySubFilterInternal True flt \<longleftrightarrow> flt \<noteq> [] \<and> valid_levels (topic_levels flt)"
proof -
  have "c_char flt 0 = CHR 0x00 \<longleftrightarrow> flt = []" using assms by (cases flt) (auto simp: c_char_def)
  then show ?thesis
    using verifySubFilter_loop_scan [of flt "- 1" "[]"] scan_filter_levels [of True flt] assms
    by (simp add: verifySubFilterInternal_def)
qed

theorem verifySubFilter_levels_witness:
  "verifySubFilterInternal True ''a/+/#'' \<and> \<not> verifySubFilterInternal True ''a+/b''"
  using verifySubFilter_levels [of "''a/+/#''"] verifySubFilter_levels [of "''a+/b''"]
  by (simp add: plain_level_def)

lemma verifyPubTopic_loop_plain:
  "CHR 0x00 \<notin> set r \<Longrightarrow> verifyPubTopic_loop (p @ r) (length p) = plain_level r"
proof (induction r arbitrary: p)
  case Nil
  then show ?case by (subst verifyPubTopic_loop.simps) (simp add: c_char_def plain_level_def)
next
  case (Cons c r)
  then show ?case
    using c_char_append [of p "c # r"] Cons.IH [of "p @ [c]"]
    by (subst verifyPubTopic_loop.simps) (auto simp: topic_char_defs plain_level_def Let_def)
qed

text \<open>A topic that passes the check of publications is a filter that passes the check of
  subscriptions and matches exactly itself.\<close>

lemma verifyPubTopic_plain:
  assumes "CHR 0x00 \<notin> set topic"
  shows "verifyPubTopicInternal True True topic outgoing \<longleftrightarrow> topic \<noteq> [] \<and> plain_level topic"
proof -
  have "c_char topic 0 = CHR 0x00 \<longleftrightarrow> topic = []" using assms by (cases topic) (auto simp: c_char_def)
  then show ?thesis
    using verifyPubTopic_loop_plain [of topic "[]"] assms by (simp add: verifyPubTopicInternal_def)
qed

lemma isShortTopic_length:
  "CHR 0x00 \<notin> set topic \<Longrightarrow> isShortTopic topic \<longleftrightarrow> length topic = 2"
  by (cases topic; cases "tl topic"; cases "tl (tl topic)") (auto simp: isShortTopic_def c_char_def numeral_2_eq_2)

end
