(* ===== verification/Cl_PacketId.thy ===== *)
theory Cl_PacketId
  imports Gw_Strings
begin

text \<open>
  What every operation of the client library shares, \<^verbatim>\<open>src/client/lib/src/op/Op.cpp\<close>: the
  allocation of packet ids, the retry counter and the translation of error codes.

  The ids in use are kept in an ascending vector of the client state. The search for a free id is a
  loop that ends only when it finds one: it is a partial function, and \<open>None\<close> is a call that does
  not return. The capacity of the vector is the parameter \<open>maxSize\<close>. Log messages are not part of
  the model.
\<close>

section \<open>Error codes\<close>

datatype error_code =
    Ec_Success | Ec_InternalError | Ec_NotIntitialized | Ec_Busy | Ec_NotConnected | Ec_BadParam
  | Ec_InsufficientConfig | Ec_OutOfMemory | Ec_BufferOverflow | Ec_NotSupported | Ec_RetryLater
  | Ec_Disconnecting | Ec_NotSleeping | Ec_PreparationLocked

datatype async_op_status =
    St_Complete | St_InternalError | St_Timeout | St_Aborted | St_OutOfMemory | St_BadParam
  | St_GatewayDisconnected

fun translateErrorCodeToAsyncOpStatus :: "error_code \<Rightarrow> async_op_status" where
  "translateErrorCodeToAsyncOpStatus Ec_Success = St_Complete"
| "translateErrorCodeToAsyncOpStatus Ec_BadParam = St_BadParam"
| "translateErrorCodeToAsyncOpStatus Ec_OutOfMemory = St_OutOfMemory"
| "translateErrorCodeToAsyncOpStatus Ec_BufferOverflow = St_OutOfMemory"
| "translateErrorCodeToAsyncOpStatus _ = St_InternalError"

section \<open>Packet ids\<close>

record packet_ids =
  m_allocatedPacketIds :: "u16 list"
  m_lastPacketId :: u16
  pid_faults :: "string list"

definition pid_assert :: "string \<Rightarrow> bool \<Rightarrow> packet_ids \<Rightarrow> packet_ids" where
  "pid_assert what c st = (if c then st else st\<lparr>pid_faults := pid_faults st @ [what]\<rparr>)"

text \<open>Insertion in front of the iterator \<^verbatim>\<open>lower_bound\<close> returned, and erasing its element.\<close>

definition insert_at_lower_bound :: "u16 \<Rightarrow> u16 list \<Rightarrow> u16 list" where
  "insert_at_lower_bound i ids = takeWhile (\<lambda>x. x < i) ids @ i # lower_bound id i ids"

definition erase_at_lower_bound :: "u16 \<Rightarrow> u16 list \<Rightarrow> u16 list" where
  "erase_at_lower_bound i ids = takeWhile (\<lambda>x. x < i) ids @ tl (lower_bound id i ids)"

definition wrapPacketId :: "u16 \<Rightarrow> u16" where
  "wrapPacketId n = (if n = - 1 \<or> n = 0 then 1 else n)"

partial_function (option) allocPacketId_loop :: "u16 \<Rightarrow> u16 list \<Rightarrow> (u16 \<times> u16 list) option" where
  "allocPacketId_loop n ids =
     (let nextPacketId = wrapPacketId n
      in if ids = [] \<or> last ids < nextPacketId then Some (nextPacketId, ids @ [nextPacketId])
         else
           let iter = lower_bound id nextPacketId ids
           in if iter = [] \<or> hd iter \<noteq> nextPacketId
              then Some (nextPacketId, insert_at_lower_bound nextPacketId ids)
              else allocPacketId_loop (nextPacketId + 1) ids)"

declare allocPacketId_loop.simps [code]

definition allocPacketId :: "nat \<Rightarrow> packet_ids \<Rightarrow> (u16 \<times> packet_ids) option" where
  "allocPacketId maxSize st =
     (let ids = m_allocatedPacketIds st
      in if maxSize \<le> length ids \<or> unat (- 1 :: u16) \<le> length ids then Some (0, st)
         else
           case allocPacketId_loop (m_lastPacketId st + 1) ids of
             None \<Rightarrow> None
           | Some (i, ids') \<Rightarrow>
               Some (i, st\<lparr>m_allocatedPacketIds := ids', m_lastPacketId := i\<rparr>))"

definition releasePacketId :: "u16 \<Rightarrow> packet_ids \<Rightarrow> packet_ids" where
  "releasePacketId i st =
     (if i = 0 then st
      else
        let ids = m_allocatedPacketIds st; iter = lower_bound id i ids
        in if iter = [] \<or> hd iter \<noteq> i
           then pid_assert ''releasePacketId: ShouldNotHappen'' False st
           else st\<lparr>m_allocatedPacketIds := erase_at_lower_bound i ids\<rparr>)"

section \<open>Retry counter\<close>

text \<open>The counter of an operation with the assertion that it is not exhausted.\<close>

definition decRetryCount :: "u32 \<Rightarrow> bool \<times> u32" where
  "decRetryCount m_retryCount = (m_retryCount > 0, m_retryCount - 1)"

section \<open>Reference definition\<close>

text \<open>All ids in the order in which the search visits them when it starts at an id.\<close>

definition packet_ids_from :: "u16 \<Rightarrow> u16 list" where
  "packet_ids_from i = map of_nat ([unat i..<65535] @ [1..<unat i])"

definition pid_wf :: "packet_ids \<Rightarrow> bool" where
  "pid_wf st \<longleftrightarrow> sorted_wrt (<) (m_allocatedPacketIds st) \<and>
     (\<forall>i \<in> set (m_allocatedPacketIds st). i \<noteq> 0 \<and> i \<noteq> - 1)"

lemma lower_bound_present:
  "sorted_wrt (<) ids \<Longrightarrow> (lower_bound id i ids = [] \<or> hd (lower_bound id i ids) \<noteq> i) \<longleftrightarrow> i \<notin> set ids"
  for ids :: "u16 list"
proof (induction ids)
  case (Cons x ids)
  then show ?case by (cases "x < i") (auto simp: lower_bound_def)
qed (simp add: lower_bound_def)

lemma insert_at_lower_bound_sorted:
  assumes "sorted_wrt (<) ids" "i \<notin> set ids"
  shows "insert_at_lower_bound i ids = insort i ids"
  using assms
proof (induction ids)
  case (Cons x ids)
  show ?case
  proof (cases "x < i")
    case False
    with Cons.prems have "i < x" by auto
    then have "i \<le> x" "\<not> x < i" by auto
    then show ?thesis by (simp add: insert_at_lower_bound_def lower_bound_def)
  qed (use Cons in \<open>auto simp: insert_at_lower_bound_def lower_bound_def\<close>)
qed (simp add: insert_at_lower_bound_def lower_bound_def)

lemma erase_at_lower_bound_sorted:
  assumes "sorted_wrt (<) ids" "i \<in> set ids"
  shows "erase_at_lower_bound i ids = remove1 i ids"
  using assms
  by (induction ids) (auto simp: erase_at_lower_bound_def lower_bound_def)

lemma insort_strict: "sorted_wrt (<) ids \<Longrightarrow> i \<notin> set ids \<Longrightarrow> sorted_wrt (<) (insort i ids)"
  for ids :: "u16 list"
  by (simp add: strict_sorted_iff sorted_insort distinct_insort)

lemma append_is_insort:
  assumes "sorted_wrt (<) ids" "ids = [] \<or> last ids < (i :: u16)"
  shows "ids @ [i] = insort i ids" "i \<notin> set ids"
proof -
  have "x < i" if "x \<in> set ids" for x
  proof -
    have "x \<le> last ids" using that assms(1) by (induction ids) (auto intro: less_imp_le)
    with assms(2) that show ?thesis by auto
  qed
  then show "i \<notin> set ids" "ids @ [i] = insort i ids"
    by (auto intro!: sorted_insort_is_snoc [symmetric] strict_sorted_imp_sorted less_imp_le assms(1))
qed

text \<open>One round of the search.\<close>

lemma allocPacketId_loop_round:
  assumes "sorted_wrt (<) ids"
  shows "allocPacketId_loop n ids =
    (if wrapPacketId n \<in> set ids then allocPacketId_loop (wrapPacketId n + 1) ids
     else Some (wrapPacketId n, insort (wrapPacketId n) ids))"
  using append_is_insort [OF assms] lower_bound_present [OF assms]
    insert_at_lower_bound_sorted [OF assms]
  by (subst allocPacketId_loop.simps) (auto simp: Let_def)

lemma allocPacketId_loop_wrap: "allocPacketId_loop (wrapPacketId n) ids = allocPacketId_loop n ids"
proof -
  have "wrapPacketId (wrapPacketId n) = wrapPacketId n" by (simp add: wrapPacketId_def)
  then show ?thesis by (subst (1 2) allocPacketId_loop.simps) simp
qed

lemma allocPacketId_loop_finds:
  assumes "sorted_wrt (<) ids" "successively (\<lambda>x y. y = wrapPacketId (x + 1)) xs"
    and "\<forall>x \<in> set xs. wrapPacketId x = x" "List.find (\<lambda>x. x \<notin> set ids) xs = Some i"
  shows "allocPacketId_loop (hd xs) ids = Some (i, insort i ids)"
  using assms(2-)
proof (induction xs)
  case (Cons x xs)
  show ?case
  proof (cases "x \<in> set ids")
    case True
    then have "xs \<noteq> []" "hd xs = wrapPacketId (x + 1)" using Cons.prems by (auto simp: successively_Cons)
    with True Cons show ?thesis
      using allocPacketId_loop_wrap [of "x + 1" ids]
      by (simp add: allocPacketId_loop_round [OF assms(1), of x] successively_Cons)
  next
    case False
    with Cons.prems show ?thesis using allocPacketId_loop_round [OF assms(1), of x] by simp
  qed
qed simp

lemma allocPacketId_loop_sound:
  assumes "sorted_wrt (<) ids" "allocPacketId_loop n ids = Some (i, ids')"
  shows "i \<notin> set ids \<and> i \<noteq> 0 \<and> i \<noteq> - 1"
proof -
  have "sorted_wrt (<) ids \<longrightarrow> (case r of (i, _) \<Rightarrow> i \<notin> set ids \<and> i \<noteq> 0 \<and> i \<noteq> - 1)"
    if "allocPacketId_loop n ids = Some r" for r
    using that
  proof (rule allocPacketId_loop.raw_induct
      [where P = "\<lambda>n ids r. sorted_wrt (<) ids \<longrightarrow> (case r of (i, _) \<Rightarrow> i \<notin> set ids \<and> i \<noteq> 0 \<and> i \<noteq> - 1)", rotated])
    fix loop :: "u16 \<Rightarrow> u16 list \<Rightarrow> (u16 \<times> u16 list) option" and n ids r
    assume IH: "\<And>n ids r. loop n ids = Some r \<Longrightarrow>
        sorted_wrt (<) ids \<longrightarrow> (case r of (i, _) \<Rightarrow> i \<notin> set ids \<and> i \<noteq> 0 \<and> i \<noteq> - 1)"
      and ret: "(let nextPacketId = wrapPacketId n
      in if ids = [] \<or> last ids < nextPacketId then Some (nextPacketId, ids @ [nextPacketId])
         else
           let iter = lower_bound id nextPacketId ids
           in if iter = [] \<or> hd iter \<noteq> nextPacketId
              then Some (nextPacketId, insert_at_lower_bound nextPacketId ids)
              else loop (nextPacketId + 1) ids) = Some r"
    have "wrapPacketId n \<noteq> 0 \<and> wrapPacketId n \<noteq> - 1" by (simp add: wrapPacketId_def)
    with ret IH show "sorted_wrt (<) ids \<longrightarrow> (case r of (i, _) \<Rightarrow> i \<notin> set ids \<and> i \<noteq> 0 \<and> i \<noteq> - 1)"
      using append_is_insort(2) [of ids "wrapPacketId n"] lower_bound_present [of ids "wrapPacketId n"]
      by (auto simp: Let_def split: if_splits)
  qed
  with assms show ?thesis by fastforce
qed

lemma unat_u16_top: "unat (- 1 :: u16) = 65535"
  by (simp add: unsigned_minus_1_eq_mask mask_eq_exp_minus_1)

lemma valid_packet_id: "i \<noteq> 0 \<and> i \<noteq> - 1 \<longleftrightarrow> 1 \<le> unat i \<and> unat i < 65535" for i :: u16
proof -
  have "i \<noteq> - 1 \<longleftrightarrow> unat i \<noteq> 65535" by (metis unat_u16_top word_unat_eq_iff)
  moreover have "unat i < 65536" using unsigned_less [of i, where ?'a = nat] by simp
  moreover have "i \<noteq> 0 \<longleftrightarrow> 1 \<le> unat i" by (simp add: Suc_le_eq flip: unat_gt_0)
  ultimately show ?thesis by linarith
qed

lemma wrapPacketId_valid: "wrapPacketId i = i \<longleftrightarrow> i \<noteq> 0 \<and> i \<noteq> - 1"
  by (auto simp: wrapPacketId_def)

lemma unat_u16_of_nat: "n < 65536 \<Longrightarrow> unat (of_nat n :: u16) = n"
  by (simp add: unsigned_of_nat take_bit_nat_eq_self)

lemma wrapPacketId_succ:
  "1 \<le> n \<Longrightarrow> n < 65535 \<Longrightarrow> wrapPacketId (of_nat n + 1) = (if n = 65534 then 1 else of_nat (Suc n))"
proof -
  assume n: "1 \<le> n" "n < 65535"
  have u: "unat (of_nat (Suc n) :: u16) = Suc n" using n by (intro unat_u16_of_nat) simp
  then have "of_nat (Suc n) = (- 1 :: u16) \<longleftrightarrow> n = 65534" "of_nat (Suc n) \<noteq> (0 :: u16)"
    by (simp_all only: word_unat_eq_iff unat_u16_top) auto
  then show ?thesis by (simp add: wrapPacketId_def add.commute)
qed

lemma successively_upt: "successively (\<lambda>x y. y = Suc x \<and> m \<le> x \<and> y < n) [m..<n]"
proof (induction n)
  case (Suc n)
  have "successively (\<lambda>x y. y = Suc x \<and> m \<le> x \<and> y < Suc n) [m..<n]"
    by (rule successively_mono [OF Suc]) auto
  then show ?case by (auto simp: successively_append_iff)
qed simp

lemma packet_ids_from_props:
  assumes "i \<noteq> 0" "i \<noteq> - 1"
  shows "hd (packet_ids_from i) = i"
    "successively (\<lambda>x y. y = wrapPacketId (x + 1)) (packet_ids_from i)"
    "set (packet_ids_from i) = {x. x \<noteq> 0 \<and> x \<noteq> - 1}"
proof -
  have u: "1 \<le> unat i" "unat i < 65535" using assms valid_packet_id by blast+
  show "hd (packet_ids_from i) = i"
    using u by (simp add: packet_ids_from_def upt_conv_Cons)
  have seg: "successively (\<lambda>x y. y = wrapPacketId (x + 1)) (map of_nat [m..<n] :: u16 list)"
    if "1 \<le> m" "n \<le> 65535" for m n
    unfolding successively_map
    by (rule successively_mono [OF successively_upt]) (use that in \<open>auto simp: wrapPacketId_succ\<close>)
  define A B where "A = (map of_nat [unat i..<65535] :: u16 list)"
    and "B = (map of_nat [1..<unat i] :: u16 list)"
  have "last [unat i..<65535] = 65534" using u by simp
  then have "last A = of_nat 65534" using u by (simp add: last_map A_def)
  moreover have "B \<noteq> [] \<Longrightarrow> hd B = 1" by (auto simp: hd_map B_def)
  moreover have "wrapPacketId (of_nat 65534 + 1) = 1" using wrapPacketId_succ [of 65534] by simp
  moreover have "successively (\<lambda>x y. y = wrapPacketId (x + 1)) A"
    "successively (\<lambda>x y. y = wrapPacketId (x + 1)) B"
    using u seg unfolding A_def B_def by simp_all
  ultimately have "successively (\<lambda>x y. y = wrapPacketId (x + 1)) (A @ B)"
    unfolding successively_append_iff by metis
  then show "successively (\<lambda>x y. y = wrapPacketId (x + 1)) (packet_ids_from i)"
    by (simp only: packet_ids_from_def A_def B_def map_append)
  show "set (packet_ids_from i) = {x. x \<noteq> 0 \<and> x \<noteq> - 1}"
  proof (intro equalityI subsetI)
    fix x assume "x \<in> set (packet_ids_from i)"
    then obtain n where "x = of_nat n" "1 \<le> n" "n < 65535"
      using u by (auto simp: packet_ids_from_def)
    then show "x \<in> {x. x \<noteq> 0 \<and> x \<noteq> - 1}" using unat_u16_of_nat [of n] by (simp add: valid_packet_id)
  next
    fix x :: u16 assume "x \<in> {x. x \<noteq> 0 \<and> x \<noteq> - 1}"
    then have "1 \<le> unat x" "unat x < 65535" by (simp_all add: valid_packet_id)
    then have "unat x \<in> set ([unat i..<65535] @ [1..<unat i])" by auto
    then have "(of_nat (unat x) :: u16) \<in> set (packet_ids_from i)"
      unfolding packet_ids_from_def set_map by (rule imageI)
    then show "x \<in> set (packet_ids_from i)" by simp
  qed
qed

text \<open>The search finds the first free id, and does not end when there is none.\<close>

lemma allocPacketId_loop_eq:
  assumes "sorted_wrt (<) ids"
  shows "allocPacketId_loop n ids =
    (case List.find (\<lambda>x. x \<notin> set ids) (packet_ids_from (wrapPacketId n)) of
       None \<Rightarrow> None | Some i \<Rightarrow> Some (i, insort i ids))"
proof -
  have v: "wrapPacketId n \<noteq> 0" "wrapPacketId n \<noteq> - 1" by (simp_all add: wrapPacketId_def)
  note ids_from = packet_ids_from_props [OF v]
  show ?thesis
  proof (cases "List.find (\<lambda>x. x \<notin> set ids) (packet_ids_from (wrapPacketId n))")
    case None
    then have "{x. x \<noteq> 0 \<and> x \<noteq> - 1} \<subseteq> set ids" using ids_from(3) by (auto simp: find_None_iff)
    then have "allocPacketId_loop n ids \<noteq> Some (i, ids')" for i ids'
      using allocPacketId_loop_sound [OF assms] by blast
    with None show ?thesis by (cases "allocPacketId_loop n ids") auto
  next
    case (Some i)
    have "allocPacketId_loop (hd (packet_ids_from (wrapPacketId n))) ids = Some (i, insort i ids)"
      using ids_from Some by (intro allocPacketId_loop_finds [OF assms]) (auto simp: wrapPacketId_valid)
    with Some show ?thesis by (simp add: ids_from allocPacketId_loop_wrap)
  qed
qed

lemma card_packet_ids: "card {x :: u16. x \<noteq> 0 \<and> x \<noteq> - 1} = 65534"
proof -
  have "{x :: u16. x \<noteq> 0 \<and> x \<noteq> - 1} = UNIV - {0, - 1}" by auto
  then show ?thesis by (simp add: card_Diff_subset card_word)
qed

lemma free_packet_id:
  assumes "pid_wf st" "i \<noteq> 0" "i \<noteq> - 1"
  shows "List.find (\<lambda>x. x \<notin> set (m_allocatedPacketIds st)) (packet_ids_from i) = None \<longleftrightarrow>
    length (m_allocatedPacketIds st) = 65534"
proof -
  let ?ids = "m_allocatedPacketIds st" and ?V = "{x :: u16. x \<noteq> 0 \<and> x \<noteq> - 1}"
  have sub: "set ?ids \<subseteq> ?V" and len: "length ?ids = card (set ?ids)"
    using assms(1) by (auto simp: pid_wf_def strict_sorted_iff distinct_card)
  have "List.find (\<lambda>x. x \<notin> set ?ids) (packet_ids_from i) = None \<longleftrightarrow> set ?ids = ?V"
    using sub packet_ids_from_props(3) [OF assms(2,3)] by (auto simp: find_None_iff)
  also have "\<dots> \<longleftrightarrow> length ?ids = 65534"
  proof
    assume "length ?ids = 65534"
    then have "card (set ?ids) = card ?V" by (simp only: len card_packet_ids)
    then show "set ?ids = ?V" by (intro card_subset_eq [OF _ sub]) simp_all
  qed (simp only: len card_packet_ids)
  finally show ?thesis .
qed

section \<open>Properties\<close>

text \<open>
  C26. The allocation of a packet id is the search for the first free id after the one handed out
  last, in the cyclic order of the ids 1 to 0xfffe, and keeps the vector in ascending order; 0 is
  returned when the vector is full. With all 65534 ids in use and room in the vector the call does
  not return.
\<close>

theorem allocPacketId_next_free:
  assumes "pid_wf st"
  shows "allocPacketId maxSize st =
    (if maxSize \<le> length (m_allocatedPacketIds st) then Some (0, st)
     else case List.find (\<lambda>x. x \<notin> set (m_allocatedPacketIds st))
                (packet_ids_from (wrapPacketId (m_lastPacketId st + 1))) of
            None \<Rightarrow> None
          | Some i \<Rightarrow> Some (i, st\<lparr>m_allocatedPacketIds := insort i (m_allocatedPacketIds st),
                               m_lastPacketId := i\<rparr>)) \<and>
    (allocPacketId maxSize st = None \<longleftrightarrow>
       length (m_allocatedPacketIds st) = 65534 \<and> 65534 < maxSize)"
proof -
  let ?ids = "m_allocatedPacketIds st" and ?n = "wrapPacketId (m_lastPacketId st + 1)"
  have "card (set ?ids) \<le> card {x :: u16. x \<noteq> 0 \<and> x \<noteq> - 1}"
    using assms by (intro card_mono) (auto simp: pid_wf_def)
  then have "length ?ids \<le> 65534"
    using assms by (simp add: pid_wf_def strict_sorted_iff distinct_card card_packet_ids)
  moreover have "?n \<noteq> 0" "?n \<noteq> - 1" by (simp_all add: wrapPacketId_def)
  note free_packet_id [OF assms this]
  moreover have "sorted_wrt (<) ?ids" using assms by (simp add: pid_wf_def)
  note allocPacketId_loop_eq [OF this, of "m_lastPacketId st + 1"]
  ultimately show ?thesis
    by (auto simp: allocPacketId_def Let_def unat_u16_top split: option.splits)
qed

text \<open>
  While an id is free and the vector has room, the allocation returns an id that is not in use,
  neither 0 nor 0xffff, and leaves the others alone; releasing the id gives the ids back as they
  were, without a failed assertion.
\<close>

theorem packet_id_alloc_release:
  assumes "pid_wf st" "length (m_allocatedPacketIds st) < maxSize"
    and "length (m_allocatedPacketIds st) < 65534"
  shows "\<exists>i st'. allocPacketId maxSize st = Some (i, st') \<and> i \<noteq> 0 \<and> i \<noteq> - 1 \<and>
    i \<notin> set (m_allocatedPacketIds st) \<and> pid_wf st' \<and>
    set (m_allocatedPacketIds st') = insert i (set (m_allocatedPacketIds st)) \<and>
    releasePacketId i st' = st\<lparr>m_lastPacketId := i\<rparr>"
proof -
  let ?ids = "m_allocatedPacketIds st"
  have srt: "sorted_wrt (<) ?ids" using assms(1) by (simp add: pid_wf_def)
  have v: "wrapPacketId (m_lastPacketId st + 1) \<noteq> 0" "wrapPacketId (m_lastPacketId st + 1) \<noteq> - 1"
    by (simp_all add: wrapPacketId_def)
  obtain i where i: "List.find (\<lambda>x. x \<notin> set ?ids)
      (packet_ids_from (wrapPacketId (m_lastPacketId st + 1))) = Some i"
    using free_packet_id [OF assms(1) v] assms(3) by fastforce
  then have "i \<in> set (packet_ids_from (wrapPacketId (m_lastPacketId st + 1)))" and new: "i \<notin> set ?ids"
    by (auto simp: find_Some_iff)
  then have ok: "i \<noteq> 0" "i \<noteq> - 1" using packet_ids_from_props(3) [OF v] by auto
  define st' where "st' = st\<lparr>m_allocatedPacketIds := insort i ?ids, m_lastPacketId := i\<rparr>"
  have "allocPacketId maxSize st = Some (i, st')"
    using assms i allocPacketId_loop_eq [OF srt, of "m_lastPacketId st + 1"]
    by (simp add: allocPacketId_def st'_def unat_u16_top)
  moreover have srt': "sorted_wrt (<) (insort i ?ids)" using srt new by (rule insort_strict)
  then have "pid_wf st'" using assms(1) ok by (auto simp: pid_wf_def st'_def set_insort_key)
  moreover have "remove1 i (insort i ?ids) = ?ids"
    by (rule remove1_insort_key)
  then have "releasePacketId i st' = st\<lparr>m_lastPacketId := i\<rparr>"
    using ok lower_bound_present [OF srt', of i] erase_at_lower_bound_sorted [OF srt', of i]
    by (simp add: releasePacketId_def st'_def set_insort_key Let_def)
  ultimately show ?thesis using ok new by (auto simp: st'_def set_insort_key)
qed

text \<open>One id in use and the last id handed out at the end of the range.\<close>

definition packet_ids_example :: packet_ids where
  "packet_ids_example = \<lparr>m_allocatedPacketIds = [1], m_lastPacketId = 0xfffe, pid_faults = []\<rparr>"

lemma packet_ids_example_wf: "pid_wf packet_ids_example"
  by (simp add: pid_wf_def packet_ids_example_def word_unat_eq_iff unat_u16_top)

lemma packet_ids_example_find:
  "List.find (\<lambda>x. x \<notin> set (m_allocatedPacketIds packet_ids_example))
     (packet_ids_from (wrapPacketId (m_lastPacketId packet_ids_example + 1))) = Some 2"
proof -
  have "wrapPacketId (0xfffe + 1) = 1" using wrapPacketId_succ [of 65534] by simp
  moreover have "packet_ids_from 1 = 1 # 2 # map of_nat [3..<65535]"
  proof -
    have "[1..<65535] = 1 # 2 # [3..<65535]"
      using upt_conv_Cons [of 1 65535] upt_conv_Cons [of 2 65535]
      by (simp only: one_add_one Suc_eq_plus1 numeral_plus_one semiring_norm)
    then have "map of_nat ([unat (1 :: u16)..<65535] @ [1..<unat (1 :: u16)]) =
        (of_nat 1 :: u16) # of_nat 2 # map of_nat [3..<65535]"
      by (simp only: unsigned_1 upt_rec [of 1 1] less_irrefl if_False append_Nil2 list.map)
    then show ?thesis by (simp only: packet_ids_from_def of_nat_1 of_nat_numeral)
  qed
  ultimately obtain rest where "packet_ids_from (wrapPacketId (0xfffe + 1)) = 1 # 2 # rest" by metis
  then show ?thesis by (simp add: packet_ids_example_def)
qed

theorem allocPacketId_next_free_witness:
  "allocPacketId 10 packet_ids_example =
     Some (2, \<lparr>m_allocatedPacketIds = [1, 2], m_lastPacketId = 2, pid_faults = []\<rparr>)"
  using allocPacketId_next_free [OF packet_ids_example_wf, of 10]
  unfolding packet_ids_example_find by (simp add: packet_ids_example_def word_le_nat_alt)

theorem packet_id_alloc_release_witness:
  "\<exists>i st'. allocPacketId 10 packet_ids_example = Some (i, st') \<and> i \<noteq> 0 \<and> i \<noteq> 1 \<and>
     releasePacketId i st' = packet_ids_example\<lparr>m_lastPacketId := i\<rparr>"
  using packet_id_alloc_release [OF packet_ids_example_wf, of 10]
  by (fastforce simp: packet_ids_example_def)

end
