(* ===== verification/Cl_RegTopics.thy ===== *)
theory Cl_RegTopics
  imports Cl_Topics Cl_PacketId
begin

text \<open>
  The tables of topics registered with the gateway, kept by the client of
  \<^verbatim>\<open>src/client/lib/src/ClientImpl.cpp\<close>: incoming registrations in ascending order of topic ids, outgoing
  ones in ascending order of topics. A table that has reached its limit gives up the entry whose
  timestamp is the oldest.

  Both tables are one data structure with another key. The locale \<open>lru_table\<close> holds what the
  structure relies on, its facts are proved there once, and the two tables interpret it. Storing in
  a full table without entries erases the end iterator, which is \<open>None\<close>. The builds with unbounded
  strings are modelled; \<^verbatim>\<open>max_size()\<close> of a table is a parameter.
\<close>

section \<open>Tables\<close>

record reg_topic_info =
  rt_timestamp :: u64
  rt_topic :: string
  rt_topicId :: u16

record reg_topics =
  m_inRegTopics :: "reg_topic_info list"
  m_outRegTopics :: "reg_topic_info list"
  m_inRegTopicsLimit :: nat
  m_outRegTopicsLimit :: nat

text \<open>\<^verbatim>\<open>std::min_element\<close> gives the first of the smallest elements.\<close>

fun min_element :: "('a \<Rightarrow> 'b::linorder) \<Rightarrow> 'a list \<Rightarrow> nat" where
  "min_element f [] = 0"
| "min_element f (x # xs) =
     (if xs \<noteq> [] \<and> f (xs ! min_element f xs) < f x then Suc (min_element f xs) else 0)"

definition erase_at :: "nat \<Rightarrow> 'a list \<Rightarrow> 'a list" where
  "erase_at i xs = take i xs @ drop (Suc i) xs"

definition removeLeastRecentlyUsedRegTopicInfoIfNeeded ::
    "reg_topic_info list \<Rightarrow> nat \<Rightarrow> (bool \<times> reg_topic_info list) option" where
  "removeLeastRecentlyUsedRegTopicInfoIfNeeded topics limit =
     (if length topics < limit then Some (False, topics)
      else if topics = [] then None
      else Some (True, erase_at (min_element rt_timestamp topics) topics))"

text \<open>The elements before the iterator that \<^verbatim>\<open>lower_bound\<close> returns.\<close>

definition before_lower_bound :: "('a \<Rightarrow> 'k::linorder) \<Rightarrow> 'k \<Rightarrow> 'a list \<Rightarrow> 'a list" where
  "before_lower_bound key k xs = takeWhile (\<lambda>x. key x < k) xs"

definition storeInRegTopic :: "u64 \<Rightarrow> string \<Rightarrow> u16 \<Rightarrow> reg_topics \<Rightarrow> reg_topics option" where
  "storeInRegTopic timestamp topic topicId st =
     (let topics = m_inRegTopics st;
          iter = lower_bound rt_topicId topicId topics
      in if iter \<noteq> [] \<and> rt_topicId (hd iter) = topicId then
           Some (st\<lparr>m_inRegTopics := before_lower_bound rt_topicId topicId topics @
             (hd iter)\<lparr>rt_topic := topic, rt_timestamp := timestamp\<rparr> # tl iter\<rparr>)
         else
           case removeLeastRecentlyUsedRegTopicInfoIfNeeded topics (m_inRegTopicsLimit st) of
             None \<Rightarrow> None
           | Some (_, topics) \<Rightarrow>
               Some (st\<lparr>m_inRegTopics := before_lower_bound rt_topicId topicId topics @
                 \<lparr>rt_timestamp = timestamp, rt_topic = topic, rt_topicId = topicId\<rparr> #
                 lower_bound rt_topicId topicId topics\<rparr>))"

text \<open>The topic may be \<^verbatim>\<open>nullptr\<close>; the id decides when it is valid.\<close>

definition removeInRegTopic :: "string option \<Rightarrow> u16 \<Rightarrow> reg_topics \<Rightarrow> bool \<times> reg_topics" where
  "removeInRegTopic topic topicId st =
     (let topics = m_inRegTopics st
      in if isValidTopicId topicId then
           let iter = lower_bound rt_topicId topicId topics
           in if iter \<noteq> [] \<and> rt_topicId (hd iter) = topicId
              then (True, st\<lparr>m_inRegTopics := before_lower_bound rt_topicId topicId topics @ tl iter\<rparr>)
              else (False, st)
         else
           case topic of
             None \<Rightarrow> (False, st)
           | Some t \<Rightarrow>
               if \<forall>info \<in> set topics. rt_topic info \<noteq> t then (False, st)
               else (True, st\<lparr>m_inRegTopics := erase_first (\<lambda>info. rt_topic info = t) topics\<rparr>))"

definition findInRegTopicId :: "string \<Rightarrow> reg_topics \<Rightarrow> u16" where
  "findInRegTopicId topic st =
     (case List.find (\<lambda>info. rt_topic info = topic) (m_inRegTopics st) of
        None \<Rightarrow> 0
      | Some info \<Rightarrow> if rt_topic info \<noteq> topic then 0 else rt_topicId info)"

definition storeOutRegTopic :: "u64 \<Rightarrow> string \<Rightarrow> u16 \<Rightarrow> reg_topics \<Rightarrow> reg_topics option" where
  "storeOutRegTopic timestamp topic topicId st =
     (let topics = m_outRegTopics st;
          iter = lower_bound rt_topic topic topics
      in if iter \<noteq> [] \<and> rt_topic (hd iter) = topic then
           Some (st\<lparr>m_outRegTopics := before_lower_bound rt_topic topic topics @
             (hd iter)\<lparr>rt_topicId := topicId, rt_timestamp := timestamp\<rparr> # tl iter\<rparr>)
         else
           case removeLeastRecentlyUsedRegTopicInfoIfNeeded topics (m_outRegTopicsLimit st) of
             None \<Rightarrow> None
           | Some (_, topics) \<Rightarrow>
               Some (st\<lparr>m_outRegTopics := before_lower_bound rt_topic topic topics @
                 \<lparr>rt_timestamp = timestamp, rt_topic = topic, rt_topicId = topicId\<rparr> #
                 lower_bound rt_topic topic topics\<rparr>))"

definition setIncomingRegTopicsLimit :: "nat \<Rightarrow> nat \<Rightarrow> reg_topics \<Rightarrow> error_code \<times> reg_topics" where
  "setIncomingRegTopicsLimit maxLimit limit st =
     (if maxLimit < limit then (Ec_BadParam, st)
      else (Ec_Success, st\<lparr>m_inRegTopicsLimit := (if limit = 0 then maxLimit else limit)\<rparr>))"

definition setOutgoingRegTopicsLimit :: "nat \<Rightarrow> nat \<Rightarrow> reg_topics \<Rightarrow> error_code \<times> reg_topics" where
  "setOutgoingRegTopicsLimit maxLimit limit st =
     (if maxLimit < limit then (Ec_BadParam, st)
      else (Ec_Success, st\<lparr>m_outRegTopicsLimit := (if limit = 0 then maxLimit else limit)\<rparr>))"

section \<open>The data structure\<close>

lemma min_element_less: "xs \<noteq> [] \<Longrightarrow> min_element f xs < length xs"
  by (induction xs) auto

lemma min_element_min: "x \<in> set xs \<Longrightarrow> f (xs ! min_element f xs) \<le> f x"
proof (induction xs)
  case (Cons y xs)
  show ?case
  proof (cases "x \<in> set xs")
    case True
    then have "f (xs ! min_element f xs) \<le> f x" by (rule Cons.IH)
    with True show ?thesis by (auto simp: not_less)
  next
    case False
    with Cons.prems show ?thesis by (auto intro: less_imp_le)
  qed
qed simp

lemma erase_at_split:
  assumes "i < length xs"
  obtains ys zs where "xs = ys @ xs ! i # zs" "erase_at i xs = ys @ zs"
  using assms id_take_nth_drop [of i xs] by (auto simp: erase_at_def)

definition table_map :: "('e \<Rightarrow> 'k) \<Rightarrow> ('e \<Rightarrow> 'v) \<Rightarrow> 'e list \<Rightarrow> 'k \<rightharpoonup> 'v" where
  "table_map key val xs = map_of (map (\<lambda>e. (key e, val e)) xs)"

locale lru_table =
  fixes key :: "'e \<Rightarrow> 'k::linorder"
    and val :: "'e \<Rightarrow> 'v"
    and stamp :: "'e \<Rightarrow> 'u::linorder"
    and entry :: "'u \<Rightarrow> 'k \<Rightarrow> 'v \<Rightarrow> 'e"
    and store :: "'u \<Rightarrow> 'k \<Rightarrow> 'v \<Rightarrow> nat \<Rightarrow> 'e list \<Rightarrow> 'e list option"
  assumes entry_fields [simp]: "key (entry t k v) = k" "val (entry t k v) = v" "stamp (entry t k v) = t"
    and store_present: "xs = ys @ e # zs \<Longrightarrow> sorted_wrt (<) (map key xs) \<Longrightarrow>
      store t (key e) v limit xs = Some (ys @ entry t (key e) v # zs)"
    and store_room: "k \<notin> key ` set xs \<Longrightarrow> length xs < limit \<Longrightarrow>
      store t k v limit xs = Some (before_lower_bound key k xs @ entry t k v # lower_bound key k xs)"
    and store_full: "k \<notin> key ` set xs \<Longrightarrow> limit \<le> length xs \<Longrightarrow> xs \<noteq> [] \<Longrightarrow>
      store t k v limit xs =
        (let ys = erase_at (min_element stamp xs) xs
         in Some (before_lower_bound key k ys @ entry t k v # lower_bound key k ys))"
begin

lemma sorted_insert:
  assumes "sorted_wrt (<) (map key xs)" "k \<notin> key ` set xs" "key e = k"
  shows "sorted_wrt (<) (map key (before_lower_bound key k xs @ e # lower_bound key k xs))"
    "table_map key val (before_lower_bound key k xs @ e # lower_bound key k xs) =
      (table_map key val xs)(k \<mapsto> val e)"
  using assms(1,2)
proof (induction xs)
  case (Cons x xs)
  have eqs: "before_lower_bound key k (x # xs) = (if key x < k then x # before_lower_bound key k xs else [])"
    "lower_bound key k (x # xs) = (if key x < k then lower_bound key k xs else x # xs)"
    by (simp_all add: before_lower_bound_def lower_bound_def)
  have set: "set (before_lower_bound key k xs) \<union> set (lower_bound key k xs) = set xs"
    by (metis before_lower_bound_def lower_bound_def set_append takeWhile_dropWhile_id)
  { case 1
    have "key x < key y" if "key x < k" "y \<in> set (before_lower_bound key k xs @ e # lower_bound key k xs)" for y
      using that set assms(3) 1 by auto
    moreover have "k < key y" if "\<not> key x < k" "y \<in> set (x # xs)" for y
    proof -
      have "k < key x" using that(1) 1(2) by auto
      with that(2) 1(1) show ?thesis by auto
    qed
    ultimately show ?case using Cons.IH(1) 1 assms(3) by (cases "key x < k") (auto simp: eqs)
  next
    case 2
    then show ?case using Cons.IH(2) assms(3) by (auto simp: eqs table_map_def fun_eq_iff) }
qed (simp_all add: before_lower_bound_def lower_bound_def table_map_def assms(3))

lemma table_map_split:
  assumes "sorted_wrt (<) (map key (ys @ e # zs))"
  shows "table_map key val (ys @ zs) = (table_map key val (ys @ e # zs))(key e := None)"
    "table_map key val (ys @ entry t (key e) v # zs) = (table_map key val (ys @ e # zs))(key e \<mapsto> v)"
    "sorted_wrt (<) (map key (ys @ zs))" "sorted_wrt (<) (map key (ys @ entry t (key e) v # zs))"
proof -
  have d: "key e \<notin> key ` set ys" "key e \<notin> key ` set zs"
    using assms by (auto simp: sorted_wrt_append)
  then have n: "map_of (map (\<lambda>e. (key e, val e)) ys) (key e) = None"
    "map_of (map (\<lambda>e. (key e, val e)) zs) (key e) = None"
    by (auto simp: map_of_eq_None_iff image_image)
  then show "table_map key val (ys @ zs) = (table_map key val (ys @ e # zs))(key e := None)"
    "table_map key val (ys @ entry t (key e) v # zs) = (table_map key val (ys @ e # zs))(key e \<mapsto> v)"
    by (auto simp: table_map_def fun_eq_iff map_add_def split: option.splits)
  show "sorted_wrt (<) (map key (ys @ zs))" "sorted_wrt (<) (map key (ys @ entry t (key e) v # zs))"
    using assms by (auto simp: sorted_wrt_append)
qed

text \<open>Storing always succeeds in a table with a limit, changes the entry of its key, and loses
  only the entry that was not used for the longest time, when the table is full.\<close>

lemma store_result:
  assumes "sorted_wrt (<) (map key xs)" "0 < limit"
  shows "\<exists>xs'. store t k v limit xs = Some xs' \<and> sorted_wrt (<) (map key xs') \<and>
    length xs' \<le> max limit (length xs) \<and>
    (if k \<in> key ` set xs \<or> length xs < limit
     then table_map key val xs' = (table_map key val xs)(k \<mapsto> v)
     else \<exists>e \<in> set xs. (\<forall>e' \<in> set xs. stamp e \<le> stamp e') \<and>
       table_map key val xs' = (table_map key val xs)(key e := None, k \<mapsto> v))"
proof (cases "k \<in> key ` set xs")
  case True
  then obtain ys e zs where xs: "xs = ys @ e # zs" and k: "k = key e" by (auto dest!: split_list)
  show ?thesis
    using store_present [OF xs assms(1), of t v limit] table_map_split(2,4) [OF assms(1) [unfolded xs], of t v]
    by (auto simp: k xs)
next
  case False
  have len: "length (before_lower_bound key k zs) + length (lower_bound key k zs) = length zs" for zs
    by (metis before_lower_bound_def length_append lower_bound_def takeWhile_dropWhile_id)
  show ?thesis
  proof (cases "length xs < limit")
    case room: True
    then show ?thesis
      using store_room [OF False room, of t v] sorted_insert [OF assms(1) False, of "entry t k v"]
      by (auto simp: len)
  next
    case full: False
    then have "xs \<noteq> []" using assms(2) by auto
    then obtain ys zs where s: "xs = ys @ xs ! min_element stamp xs # zs"
        "erase_at (min_element stamp xs) xs = ys @ zs"
      by (meson erase_at_split min_element_less)
    define e where "e = xs ! min_element stamp xs"
    have e: "e \<in> set xs" "\<forall>e' \<in> set xs. stamp e \<le> stamp e'"
      using min_element_min [of _ xs stamp] nth_mem [OF min_element_less [OF \<open>xs \<noteq> []\<close>, of stamp]]
      by (auto simp: e_def)
    have xs: "xs = ys @ e # zs" using s(1) by (simp add: e_def)
    note sp = table_map_split(1,3) [OF assms(1) [unfolded xs]]
    have new: "k \<notin> key ` set (ys @ zs)" using False xs by auto
    have "store t k v limit xs = Some (before_lower_bound key k (ys @ zs) @ entry t k v # lower_bound key k (ys @ zs))"
      using store_full [OF False _ \<open>xs \<noteq> []\<close>, of limit t v] full s(2) by (simp add: Let_def)
    with sorted_insert [OF sp(2) new, of "entry t k v"] e False full sp(1) show ?thesis
      by (auto simp: len xs [symmetric]) (auto simp: xs)
  qed
qed

end

section \<open>The two tables\<close>

text \<open>Storing as a function of the table alone.\<close>

definition in_store :: "u64 \<Rightarrow> u16 \<Rightarrow> string \<Rightarrow> nat \<Rightarrow> reg_topic_info list \<Rightarrow> reg_topic_info list option" where
  "in_store t k v limit xs = map_option m_inRegTopics (storeInRegTopic t v k
     \<lparr>m_inRegTopics = xs, m_outRegTopics = [], m_inRegTopicsLimit = limit, m_outRegTopicsLimit = 0\<rparr>)"

definition out_store :: "u64 \<Rightarrow> string \<Rightarrow> u16 \<Rightarrow> nat \<Rightarrow> reg_topic_info list \<Rightarrow> reg_topic_info list option" where
  "out_store t k v limit xs = map_option m_outRegTopics (storeOutRegTopic t k v
     \<lparr>m_inRegTopics = [], m_outRegTopics = xs, m_inRegTopicsLimit = 0, m_outRegTopicsLimit = limit\<rparr>)"

lemma storeInRegTopic_table:
  "storeInRegTopic t topic topicId st =
     map_option (\<lambda>xs. st\<lparr>m_inRegTopics := xs\<rparr>) (in_store t topicId topic (m_inRegTopicsLimit st) (m_inRegTopics st))"
  by (simp add: storeInRegTopic_def in_store_def Let_def split: option.splits)

lemma storeOutRegTopic_table:
  "storeOutRegTopic t topic topicId st =
     map_option (\<lambda>xs. st\<lparr>m_outRegTopics := xs\<rparr>) (out_store t topic topicId (m_outRegTopicsLimit st) (m_outRegTopics st))"
  by (simp add: storeOutRegTopic_def out_store_def Let_def split: option.splits)

lemma lower_bound_at:
  assumes "sorted_wrt (<) (map key (ys @ e # zs))"
  shows "lower_bound key (key e) (ys @ e # zs) = e # zs" "before_lower_bound key (key e) (ys @ e # zs) = ys"
proof -
  have "\<forall>y \<in> set ys. key y < key e" using assms by (auto simp: sorted_wrt_append)
  then show "lower_bound key (key e) (ys @ e # zs) = e # zs" "before_lower_bound key (key e) (ys @ e # zs) = ys"
    by (simp_all add: lower_bound_def before_lower_bound_def dropWhile_append2 takeWhile_append2)
qed

lemma lower_bound_absent:
  "k \<notin> key ` set xs \<Longrightarrow> lower_bound key k xs = [] \<or> key (hd (lower_bound key k xs)) \<noteq> k"
  unfolding lower_bound_def by (metis hd_in_set imageI set_dropWhileD)

interpretation in_table: lru_table rt_topicId rt_topic rt_timestamp
    "\<lambda>t k v. \<lparr>rt_timestamp = t, rt_topic = v, rt_topicId = k\<rparr>" in_store
proof (unfold_locales, goal_cases)
  case (4 xs ys e zs t v limit)
  then show ?case by (simp add: in_store_def storeInRegTopic_def lower_bound_at)
next
  case (5 k xs limit t v)
  then show ?case using lower_bound_absent [OF 5(1)]
    by (auto simp: in_store_def storeInRegTopic_def removeLeastRecentlyUsedRegTopicInfoIfNeeded_def)
next
  case (6 k xs limit t v)
  then show ?case using lower_bound_absent [OF 6(1)]
    by (auto simp: in_store_def storeInRegTopic_def removeLeastRecentlyUsedRegTopicInfoIfNeeded_def Let_def)
qed simp_all

interpretation out_table: lru_table rt_topic rt_topicId rt_timestamp
    "\<lambda>t k v. \<lparr>rt_timestamp = t, rt_topic = k, rt_topicId = v\<rparr>" out_store
proof (unfold_locales, goal_cases)
  case (4 xs ys e zs t v limit)
  then show ?case by (simp add: out_store_def storeOutRegTopic_def lower_bound_at)
next
  case (5 k xs limit t v)
  then show ?case using lower_bound_absent [OF 5(1)]
    by (auto simp: out_store_def storeOutRegTopic_def removeLeastRecentlyUsedRegTopicInfoIfNeeded_def)
next
  case (6 k xs limit t v)
  then show ?case using lower_bound_absent [OF 6(1)]
    by (auto simp: out_store_def storeOutRegTopic_def removeLeastRecentlyUsedRegTopicInfoIfNeeded_def Let_def)
qed simp_all

section \<open>Reachable tables\<close>

definition reg_topics_wf :: "reg_topics \<Rightarrow> bool" where
  "reg_topics_wf st \<longleftrightarrow>
     sorted_wrt (<) (map rt_topicId (m_inRegTopics st)) \<and> sorted_wrt (<) (map rt_topic (m_outRegTopics st)) \<and>
     0 < m_inRegTopicsLimit st \<and> 0 < m_outRegTopicsLimit st"

text \<open>The constructor of the client sets both limits to the capacity of the tables.\<close>

definition reg_topics_init :: "nat \<Rightarrow> nat \<Rightarrow> reg_topics" where
  "reg_topics_init maxIn maxOut =
     snd (setIncomingRegTopicsLimit maxIn 0 (snd (setOutgoingRegTopicsLimit maxOut 0
       \<lparr>m_inRegTopics = [], m_outRegTopics = [], m_inRegTopicsLimit = 2 ^ 64 - 1,
        m_outRegTopicsLimit = 2 ^ 64 - 1\<rparr>)))"

inductive reg_topics_call :: "nat \<Rightarrow> nat \<Rightarrow> reg_topics \<Rightarrow> reg_topics \<Rightarrow> bool" for maxIn maxOut where
  store_in: "storeInRegTopic t topic topicId st = Some st' \<Longrightarrow> reg_topics_call maxIn maxOut st st'"
| store_out: "storeOutRegTopic t topic topicId st = Some st' \<Longrightarrow> reg_topics_call maxIn maxOut st st'"
| remove_in: "reg_topics_call maxIn maxOut st (snd (removeInRegTopic topicOpt topicId st))"
| limit_in: "reg_topics_call maxIn maxOut st (snd (setIncomingRegTopicsLimit maxIn limit st))"
| limit_out: "reg_topics_call maxIn maxOut st (snd (setOutgoingRegTopicsLimit maxOut limit st))"

inductive reg_topics_reachable :: "nat \<Rightarrow> nat \<Rightarrow> reg_topics \<Rightarrow> bool" for maxIn maxOut where
  init: "reg_topics_reachable maxIn maxOut (reg_topics_init maxIn maxOut)"
| step: "reg_topics_reachable maxIn maxOut st \<Longrightarrow> reg_topics_call maxIn maxOut st st' \<Longrightarrow>
    reg_topics_reachable maxIn maxOut st'"

text \<open>What storing an entry of a key does to a table and to what it maps keys to.\<close>

definition stored_ok ::
    "(reg_topic_info \<Rightarrow> 'k::linorder) \<Rightarrow> (reg_topic_info \<Rightarrow> 'v) \<Rightarrow> nat \<Rightarrow> 'k \<Rightarrow> 'v \<Rightarrow>
     reg_topic_info list \<Rightarrow> reg_topic_info list \<Rightarrow> bool" where
  "stored_ok key val limit k v xs xs' \<longleftrightarrow>
     sorted_wrt (<) (map key xs') \<and> length xs' \<le> max limit (length xs) \<and>
     (if k \<in> key ` set xs \<or> length xs < limit
      then table_map key val xs' = (table_map key val xs)(k \<mapsto> v)
      else \<exists>e \<in> set xs. (\<forall>e' \<in> set xs. rt_timestamp e \<le> rt_timestamp e') \<and>
        table_map key val xs' = (table_map key val xs)(key e := None, k \<mapsto> v))"

lemma storeInRegTopic_stored:
  assumes "reg_topics_wf st"
  shows "\<exists>xs'. storeInRegTopic t topic topicId st = Some (st\<lparr>m_inRegTopics := xs'\<rparr>) \<and>
    stored_ok rt_topicId rt_topic (m_inRegTopicsLimit st) topicId topic (m_inRegTopics st) xs'"
  using in_table.store_result [of "m_inRegTopics st" "m_inRegTopicsLimit st" t topicId topic] assms
  by (fastforce simp: storeInRegTopic_table stored_ok_def reg_topics_wf_def)

lemma storeOutRegTopic_stored:
  assumes "reg_topics_wf st"
  shows "\<exists>xs'. storeOutRegTopic t topic topicId st = Some (st\<lparr>m_outRegTopics := xs'\<rparr>) \<and>
    stored_ok rt_topic rt_topicId (m_outRegTopicsLimit st) topic topicId (m_outRegTopics st) xs'"
  using out_table.store_result [of "m_outRegTopics st" "m_outRegTopicsLimit st" t topic topicId] assms
  by (fastforce simp: storeOutRegTopic_table stored_ok_def reg_topics_wf_def)

lemma sorted_wrt_subseq: "subseq ys xs \<Longrightarrow> sorted_wrt P xs \<Longrightarrow> sorted_wrt P ys"
  by (induction rule: list_emb.induct) (auto dest: list_emb_set)

lemma subseq_erase_first: "subseq (erase_first P xs) xs"
  by (induction xs) auto

lemma sorted_map_erase:
  "sorted_wrt R (map key xs) \<Longrightarrow> sorted_wrt R (map key (erase_first P xs))"
  by (rule sorted_wrt_subseq [OF subseq_map [OF subseq_erase_first]])

lemma subseq_erase_bound: "subseq (before_lower_bound key k xs @ tl (lower_bound key k xs)) xs"
  by (induction xs) (auto simp: before_lower_bound_def lower_bound_def)

lemma sorted_map_erase_bound:
  "sorted_wrt R (map key xs) \<Longrightarrow>
     sorted_wrt R (map key (before_lower_bound key' k xs @ tl (lower_bound key' k xs)))"
  by (rule sorted_wrt_subseq [OF subseq_map [OF subseq_erase_bound]])

lemma reg_topics_wf_call:
  assumes "reg_topics_call maxIn maxOut st st'" "reg_topics_wf st" "0 < maxIn" "0 < maxOut"
  shows "reg_topics_wf st'"
  using assms
proof (induction rule: reg_topics_call.induct)
  case (store_in t topic topicId st st')
  then show ?case using storeInRegTopic_stored [of st t topic topicId]
    by (auto simp: reg_topics_wf_def stored_ok_def)
next
  case (store_out t topic topicId st st')
  then show ?case using storeOutRegTopic_stored [of st t topic topicId]
    by (auto simp: reg_topics_wf_def stored_ok_def)
next
  case (remove_in st topicOpt topicId)
  then show ?case
    by (auto simp: removeInRegTopic_def Let_def reg_topics_wf_def split: option.splits
        simp del: map_append intro: sorted_map_erase sorted_map_erase_bound)
qed (auto simp: setIncomingRegTopicsLimit_def setOutgoingRegTopicsLimit_def reg_topics_wf_def)

lemma reg_topics_reachable_wf:
  assumes "reg_topics_reachable maxIn maxOut st" "0 < maxIn" "0 < maxOut"
  shows "reg_topics_wf st"
  using assms
proof induction
  case init
  then show ?case
    by (simp add: reg_topics_init_def setIncomingRegTopicsLimit_def setOutgoingRegTopicsLimit_def reg_topics_wf_def)
qed (rule reg_topics_wf_call)

section \<open>Properties\<close>

text \<open>
  In every reachable state of the tables storing a registration, incoming or outgoing, succeeds,
  keeps the order of the table and its limit, makes the new registration the one that is looked up,
  and keeps all others but one: when the table is full, the one whose timestamp is the oldest is
  given up.
\<close>

theorem reg_topics_store:
  assumes "reg_topics_reachable maxIn maxOut st" "0 < maxIn" "0 < maxOut"
  shows "(\<exists>xs'. storeInRegTopic t topic topicId st = Some (st\<lparr>m_inRegTopics := xs'\<rparr>) \<and>
      stored_ok rt_topicId rt_topic (m_inRegTopicsLimit st) topicId topic (m_inRegTopics st) xs') \<and>
    (\<exists>xs'. storeOutRegTopic t topic topicId st = Some (st\<lparr>m_outRegTopics := xs'\<rparr>) \<and>
      stored_ok rt_topic rt_topicId (m_outRegTopicsLimit st) topic topicId (m_outRegTopics st) xs')"
  using reg_topics_reachable_wf [OF assms] storeInRegTopic_stored storeOutRegTopic_stored by blast

theorem reg_topics_store_witness:
  "\<exists>xs'. storeInRegTopic 5 ''a/b'' 7 (reg_topics_init 2 2) = Some ((reg_topics_init 2 2)\<lparr>m_inRegTopics := xs'\<rparr>) \<and>
     table_map rt_topicId rt_topic xs' 7 = Some ''a/b''"
  using reg_topics_store [OF reg_topics_reachable.init, of 2 2 5 "''a/b''" 7]
  by (fastforce simp: stored_ok_def reg_topics_init_def setIncomingRegTopicsLimit_def
      setOutgoingRegTopicsLimit_def)

end
