(* ===== verification/Cl_State.thy ===== *)
theory Cl_State
  imports Gw_Messages Cl_TimerMgr Cl_RegTopics
begin

text \<open>
  The state of the client library: \<^verbatim>\<open>ClientImpl\<close> with \<^verbatim>\<open>ConfigState\<close>, \<^verbatim>\<open>ClientState\<close>, \<^verbatim>\<open>SessionState\<close>,
  \<^verbatim>\<open>ReuseState\<close> and the data of its operations, all under \<^verbatim>\<open>src/client/lib/src\<close>.

  An operation is an object that one of the lists \<^verbatim>\<open>m_sendOps\<close>, \<^verbatim>\<open>m_connectOps\<close>, ... owns and that
  \<^verbatim>\<open>m_ops\<close>, the timers and the application refer to. The owning lists map addresses to objects, a
  pointer is an address with the type of its object, and erasing an object from its list destroys
  it: a method that is called on an address no list has any more is the fault \<open>UseAfterFree\<close>, after
  which the model goes on as if the call had done nothing. Addresses are not used twice.

  What the library asks of the application, messages included, is appended to the output. The
  application does not call the library from inside a callback. The build with all features and
  quality of service up to 2 is modelled; the capacities of its containers and the length the frame
  gives a message are parameters.
\<close>

section \<open>Messages\<close>

text \<open>The messages of \<^verbatim>\<open>ProtocolDefs.h\<close> with the fields the client reads and writes. A will topic
  with no flags is the message that deletes the will.\<close>

datatype prot_msg =
    AdvertiseMsg_CL u8 u16
  | SearchgwMsg_CL u8
  | GwinfoMsg_CL u8 "u8 list"
  | ConnectMsg_CL string u16 bool bool
  | ConnackMsg_CL return_code
  | WilltopicreqMsg_CL
  | WilltopicMsg_CL "(sn_qos \<times> bool) option" string
  | WillmsgreqMsg_CL
  | WillmsgMsg_CL data_buf
  | RegisterMsg_CL u16 u16 string
  | RegackMsg_CL u16 u16 return_code
  | PublishMsg_CL sn_publish
  | PubackMsg_CL u16 u16 return_code
  | PubrecMsg_CL u16
  | PubrelMsg_CL u16
  | PubcompMsg_CL u16
  | SubscribeMsg_CL sn_subscribe
  | SubackMsg_CL sn_qos u16 u16 return_code
  | UnsubscribeMsg_CL sn_unsubscribe
  | UnsubackMsg_CL u16
  | PingreqMsg_CL string
  | PingrespMsg_CL
  | DisconnectMsg_CL "u16 option"
  | WilltopicupdMsg_CL "(sn_qos \<times> bool) option" string
  | WillmsgupdMsg_CL data_buf
  | WilltopicrespMsg_CL return_code
  | WillmsgrespMsg_CL return_code

section \<open>Configuration, session and reusable state\<close>

record config_state =
  cfg_retryPeriod :: u32
  cfg_retryCount :: u32
  cfg_broadcastRadius :: u32
  cfg_gwAdvTimeoutMs :: u32
  cfg_allowedAdvLosses :: u32
  cfg_verifyOutgoingTopic :: bool
  cfg_verifyIncomingTopic :: bool
  cfg_verifySubFilter :: bool

definition ConfigState_init :: config_state where
  "ConfigState_init = \<lparr>cfg_retryPeriod = 10000, cfg_retryCount = 3, cfg_broadcastRadius = 3,
     cfg_gwAdvTimeoutMs = 15 * 60 * 1000, cfg_allowedAdvLosses = 1, cfg_verifyOutgoingTopic = True,
     cfg_verifyIncomingTopic = True, cfg_verifySubFilter = True\<rparr>"

datatype cl_connection_status = Disconnected | Connected | Asleep
datatype data_origin = Origin_Any | Origin_ConnectedGw
datatype disconnect_reason = Reason_DisconnectMsg | Reason_NoGatewayResponse
datatype gw_status = Gw_AddedByGateway | Gw_AddedByClient | Gw_UpdatedByClient | Gw_Alive | Gw_Tentative | Gw_Removed

record cl_session_state =
  se_clientId :: string
  se_keepAliveMs :: u32
  se_connectionStatus :: cl_connection_status
  se_lastOrigin :: data_origin
  se_disconnecting :: bool

definition cl_SessionState_init :: cl_session_state where
  "cl_SessionState_init = \<lparr>se_clientId = [], se_keepAliveMs = 0, se_connectionStatus = Disconnected,
     se_lastOrigin = Origin_Any, se_disconnecting = False\<rparr>"

record gw_info =
  gi_expiryTimestamp :: u64
  gi_addr :: "u8 list"
  gi_duration :: u32
  gi_allowedAdvLosses :: u32
  gi_gwId :: u8

record cl_will_info =
  wi_topic :: string
  wi_msg :: data_buf
  wi_qos :: sn_qos
  wi_retain :: bool

definition WillInfo_init :: cl_will_info where
  "WillInfo_init = \<lparr>wi_topic = [], wi_msg = [], wi_qos = SN_AtMostOnceDelivery, wi_retain = False\<rparr>"

text \<open>A subscription: by topic, or by a predefined id with an empty topic.\<close>

record sub_filter =
  sf_topic :: string
  sf_topicId :: u16

section \<open>Operations\<close>

datatype op_type = Type_Search | Type_Connect | Type_KeepAlive | Type_Disconnect | Type_Subscribe
  | Type_Unsubscribe | Type_Send | Type_Will

type_synonym op_ptr = "op_type \<times> nat"

record op_base =
  ob_retryPeriod :: u32
  ob_retryCount :: u32

text \<open>The flags of the message with the will topic are optional: the field that ends in \<open>Flags\<close> says
  whether they exist.\<close>

record search_op = op_base +
  so_timer :: u32
  so_radius :: u32
  so_msgRadius :: u8
  so_cb :: bool

datatype connect_stage = Stage_connect | Stage_willTopic | Stage_willMsg

record cl_connect_op = op_base +
  co_clientId :: string
  co_duration :: u16
  co_will :: bool
  co_clean :: bool
  co_willFlags :: bool
  co_willQos :: sn_qos
  co_willRetain :: bool
  co_willTopic :: string
  co_willMsg :: data_buf
  co_timer :: u32
  co_stage :: connect_stage
  co_origRetryCount :: u32
  co_cb :: bool

record keepalive_op = op_base +
  ko_pingTimer :: u32
  ko_recvTimer :: u32
  ko_respTimer :: u32

record disconnect_op = op_base +
  do_duration :: "u16 option"
  do_timer :: u32
  do_cb :: bool

text \<open>SUBSCRIBE and UNSUBSCRIBE carry a topic name or a topic id; which of the two exists is set by
  \<^verbatim>\<open>doRefresh()\<close> from the type of the topic id and kept in the field that ends in \<open>_mode\<close>.\<close>

record subscribe_op = op_base +
  sb_topicIdType :: topic_id_type
  sb_qos :: sn_qos
  sb_msgId :: u16
  sb_topicName :: string
  sb_topicId :: u16
  sb_mode :: topic_id_type
  sb_timer :: u32
  sb_cb :: bool
  sb_suspended :: bool

record unsubscribe_op = op_base +
  ub_topicIdType :: topic_id_type
  ub_msgId :: u16
  ub_topicName :: string
  ub_topicId :: u16
  ub_mode :: topic_id_type
  ub_timer :: u32
  ub_cb :: bool
  ub_suspended :: bool

datatype send_stage = Stage_Register | Stage_Publish | Stage_Acked

record send_op = op_base +
  sn_regTopic :: string
  sn_regMsgId :: u16
  sn_pub :: sn_publish
  sn_timer :: u32
  sn_cb :: bool
  sn_stage :: send_stage
  sn_origRetryCount :: u32
  sn_fullRetryRemCount :: u32
  sn_suspended :: bool

datatype will_stage = Stage_updTopic | Stage_updMsg

record cl_will_op = op_base +
  wo_flags :: bool
  wo_qos :: sn_qos
  wo_retain :: bool
  wo_topic :: string
  wo_msg :: data_buf
  wo_timer :: u32
  wo_stage :: will_stage
  wo_origRetryCount :: u32
  wo_cb :: bool
  wo_topicUpdReturnCode :: "return_code option"
  wo_msgUpdReturnCode :: "return_code option"

section \<open>Output and faults\<close>

text \<open>The callbacks of timers. The data of a callback is the address of the operation, none for the
  client itself.\<close>

datatype timeout_cb = Cb_gwExpiry | Cb_sendGwinfo | Cb_search | Cb_connect | Cb_sendPing | Cb_recvTimeout
  | Cb_pingTimeout | Cb_disconnect | Cb_subscribe | Cb_unsubscribe | Cb_send | Cb_will

text \<open>A received message as the application sees it: topic, topic id, data, quality of service and
  the retain flag. The report of the completion of an operation carries its address.\<close>

datatype cl_out =
    Out_Send prot_msg u32
  | Out_ProgramTick u32
  | Out_CancelTick
  | Out_MessageReceived string u16 data_buf sn_qos bool
  | Out_GatewayDisconnected disconnect_reason
  | Out_GatewayStatus gw_status u8 "u8 list"
  | Out_SearchComplete nat async_op_status "(u8 \<times> u8 list) option"
  | Out_ConnectComplete nat async_op_status "return_code option"
  | Out_DisconnectComplete nat async_op_status
  | Out_SubscribeComplete nat async_op_status "(return_code \<times> sn_qos) option"
  | Out_UnsubscribeComplete nat async_op_status
  | Out_PublishComplete nat async_op_status "return_code option"
  | Out_WillComplete nat async_op_status "(return_code option \<times> return_code option) option"

datatype client_fault = AssertFailed string | UseAfterFree op_ptr | NoReturn string | UndefinedRead string

section \<open>The client\<close>

record cl_env =
  env_opsLimit :: nat
  env_pool :: "op_type \<Rightarrow> nat"
  env_timers :: nat
  env_packetIds :: nat
  env_gwInfos :: nat
  env_gwAddr :: nat
  env_gwinfoAddr :: nat
  env_bufSize :: nat
  env_frameLen :: "prot_msg \<Rightarrow> nat"

text \<open>Which callbacks the application has set; for the one that is asked for a delay, its answer.\<close>

record cl_callbacks =
  cb_nextTickProgram :: bool
  cb_cancelNextTickWait :: bool
  cb_sendOutputData :: bool
  cb_gatewayStatus :: bool
  cb_gatewayDisconnected :: bool
  cb_messageReceived :: bool
  cb_gwinfoDelayReq :: "u32 option"

record client =
  cbs :: cl_callbacks
  m_configState :: config_state
  m_sessionState :: cl_session_state
  m_gwInfos :: "gw_info list"
  m_pids :: packet_ids
  m_timestamp :: u64
  m_initialized :: bool
  m_firstConnect :: bool
  m_subFilters :: "sub_filter list"
  m_regs :: reg_topics
  m_lastRecvMsgId :: u16
  m_prevWill :: cl_will_info
  m_timerMgr :: "(timeout_cb, nat) timer_mgr"
  m_gwDiscoveryTimer :: u32
  m_sendGwinfoTimer :: u32
  m_apiEnterCount :: u32
  m_searchOps :: "(nat \<times> search_op) list"
  m_connectOps :: "(nat \<times> cl_connect_op) list"
  m_keepAliveOps :: "(nat \<times> keepalive_op) list"
  m_disconnectOps :: "(nat \<times> disconnect_op) list"
  m_subscribeOps :: "(nat \<times> subscribe_op) list"
  m_unsubscribeOps :: "(nat \<times> unsubscribe_op) list"
  m_sendOps :: "(nat \<times> send_op) list"
  m_willOps :: "(nat \<times> cl_will_op) list"
  m_ops :: "op_ptr option list"
  m_nextAddr :: nat
  m_pendingGwinfoBroadcastRadius :: u32
  m_opsDeleted :: bool
  m_preparationLocked :: bool
  out :: "cl_out list"
  cl_faults :: "client_fault list"

definition cl_emit :: "cl_out \<Rightarrow> client \<Rightarrow> client" where
  "cl_emit e c = c\<lparr>out := out c @ [e]\<rparr>"

definition cl_fault :: "client_fault \<Rightarrow> client \<Rightarrow> client" where
  "cl_fault f c = c\<lparr>cl_faults := cl_faults c @ [f]\<rparr>"

definition cl_assert :: "string \<Rightarrow> bool \<Rightarrow> client \<Rightarrow> client" where
  "cl_assert what b c = (if b then c else cl_fault (AssertFailed what) c)"

text \<open>Reading and writing an object of an owning list through its address.\<close>

definition obj_at :: "nat \<Rightarrow> (nat \<times> 'o) list \<Rightarrow> 'o option" where
  "obj_at a xs = map_of xs a"

definition obj_update :: "nat \<Rightarrow> ('o \<Rightarrow> 'o) \<Rightarrow> (nat \<times> 'o) list \<Rightarrow> (nat \<times> 'o) list" where
  "obj_update a f xs = map (\<lambda>(b, x). (b, if b = a then f x else x)) xs"

definition obj_erase :: "nat \<Rightarrow> (nat \<times> 'o) list \<Rightarrow> (nat \<times> 'o) list" where
  "obj_erase a xs = erase_first (\<lambda>(b, _). b = a) xs"

section \<open>Timers of the client\<close>

definition timer_wait :: "u32 \<Rightarrow> u64 \<Rightarrow> timeout_cb \<Rightarrow> nat option \<Rightarrow> client \<Rightarrow> client" where
  "timer_wait idx ms cb data c = c\<lparr>m_timerMgr := timerWait idx ms (Some cb) data (m_timerMgr c)\<rparr>"

definition timer_cancel :: "u32 \<Rightarrow> client \<Rightarrow> client" where
  "timer_cancel idx c = c\<lparr>m_timerMgr := timerCancel idx (m_timerMgr c)\<rparr>"

text \<open>The assertions of \<^verbatim>\<open>timerIsActive()\<close> are left to \<open>timerIsActive\<close>; here only its answer is used.\<close>

definition timer_active :: "u32 \<Rightarrow> client \<Rightarrow> bool" where
  "timer_active idx c = fst (timerIsActive idx (m_timerMgr c))"

definition timer_alloc :: "cl_env \<Rightarrow> client \<Rightarrow> u32 \<times> client" where
  "timer_alloc env c = (let (idx, tm) = allocTimer (env_timers env) (m_timerMgr c) in (idx, c\<lparr>m_timerMgr := tm\<rparr>))"

definition timer_free :: "u32 \<Rightarrow> client \<Rightarrow> client" where
  "timer_free idx c = c\<lparr>m_timerMgr := Timer_destroy idx (m_timerMgr c)\<rparr>"

end
