(* ===== verification/Cl_Services.thy ===== *)
theory Cl_Services
  imports Cl_State
begin

text \<open>
  The services the operations of the client share, from \<^verbatim>\<open>ClientImpl.cpp\<close> and \<^verbatim>\<open>op/Op.cpp\<close>: sending a
  message, completing an operation, and what completes or resumes the next publication or
  subscription, from \<^verbatim>\<open>op/SendOp.cpp\<close>, \<^verbatim>\<open>op/SubscribeOp.cpp\<close> and \<^verbatim>\<open>op/UnsubscribeOp.cpp\<close>.

  Completing a publication resumes the next one in the list, which may complete in turn. The
  functions that end in \<open>_with\<close> take the call of \<^verbatim>\<open>resume()\<close> as an argument, and \<open>SendOp_resume\<close>
  ties the knot with a depth; every level removes an operation from the list, so that the number
  of operations is enough.
\<close>

section \<open>Calls on objects\<close>

text \<open>A call on an operation that has been destroyed has no defined result. It is recorded as the fault
  \<open>UseAfterFree\<close> and left out, so that what follows in such a run is not what the code does; statements
  that depend on it exclude the fault.\<close>

definition on_obj :: "op_type \<Rightarrow> (client \<Rightarrow> (nat \<times> 'o) list) \<Rightarrow> nat \<Rightarrow> ('o \<Rightarrow> client \<Rightarrow> client) \<Rightarrow> client \<Rightarrow> client" where
  "on_obj ty ops a f c = (case obj_at a (ops c) of None \<Rightarrow> cl_fault (UseAfterFree (ty, a)) c | Some x \<Rightarrow> f x c)"

definition on_obj_ec :: "op_type \<Rightarrow> (client \<Rightarrow> (nat \<times> 'o) list) \<Rightarrow> nat \<Rightarrow>
    ('o \<Rightarrow> client \<Rightarrow> error_code \<times> client) \<Rightarrow> client \<Rightarrow> error_code \<times> client" where
  "on_obj_ec ty ops a f c =
     (case obj_at a (ops c) of None \<Rightarrow> (Ec_Success, cl_fault (UseAfterFree (ty, a)) c) | Some x \<Rightarrow> f x c)"

definition upd_search :: "nat \<Rightarrow> (search_op \<Rightarrow> search_op) \<Rightarrow> client \<Rightarrow> client" where
  "upd_search a f c = c\<lparr>m_searchOps := obj_update a f (m_searchOps c)\<rparr>"

definition upd_connect :: "nat \<Rightarrow> (cl_connect_op \<Rightarrow> cl_connect_op) \<Rightarrow> client \<Rightarrow> client" where
  "upd_connect a f c = c\<lparr>m_connectOps := obj_update a f (m_connectOps c)\<rparr>"

definition upd_keepalive :: "nat \<Rightarrow> (keepalive_op \<Rightarrow> keepalive_op) \<Rightarrow> client \<Rightarrow> client" where
  "upd_keepalive a f c = c\<lparr>m_keepAliveOps := obj_update a f (m_keepAliveOps c)\<rparr>"

definition upd_disconnect :: "nat \<Rightarrow> (disconnect_op \<Rightarrow> disconnect_op) \<Rightarrow> client \<Rightarrow> client" where
  "upd_disconnect a f c = c\<lparr>m_disconnectOps := obj_update a f (m_disconnectOps c)\<rparr>"

definition upd_subscribe :: "nat \<Rightarrow> (subscribe_op \<Rightarrow> subscribe_op) \<Rightarrow> client \<Rightarrow> client" where
  "upd_subscribe a f c = c\<lparr>m_subscribeOps := obj_update a f (m_subscribeOps c)\<rparr>"

definition upd_unsubscribe :: "nat \<Rightarrow> (unsubscribe_op \<Rightarrow> unsubscribe_op) \<Rightarrow> client \<Rightarrow> client" where
  "upd_unsubscribe a f c = c\<lparr>m_unsubscribeOps := obj_update a f (m_unsubscribeOps c)\<rparr>"

definition upd_send :: "nat \<Rightarrow> (send_op \<Rightarrow> send_op) \<Rightarrow> client \<Rightarrow> client" where
  "upd_send a f c = c\<lparr>m_sendOps := obj_update a f (m_sendOps c)\<rparr>"

definition upd_will :: "nat \<Rightarrow> (cl_will_op \<Rightarrow> cl_will_op) \<Rightarrow> client \<Rightarrow> client" where
  "upd_will a f c = c\<lparr>m_willOps := obj_update a f (m_willOps c)\<rparr>"

section \<open>Keep alive timers\<close>

definition KeepAliveOp_restartPingTimer :: "nat \<Rightarrow> keepalive_op \<Rightarrow> client \<Rightarrow> client" where
  "KeepAliveOp_restartPingTimer a ko c =
     (if se_keepAliveMs (m_sessionState c) = 0 then c
      else timer_wait (ko_pingTimer ko) (ucast (se_keepAliveMs (m_sessionState c))) Cb_sendPing (Some a) c)"

definition KeepAliveOp_restartRecvTimer :: "nat \<Rightarrow> keepalive_op \<Rightarrow> client \<Rightarrow> client" where
  "KeepAliveOp_restartRecvTimer a ko c =
     (if se_keepAliveMs (m_sessionState c) = 0 then c
      else timer_wait (ko_recvTimer ko) (ucast (se_keepAliveMs (m_sessionState c))) Cb_recvTimeout (Some a) c)"

definition KeepAliveOp_restartRespTimer :: "nat \<Rightarrow> keepalive_op \<Rightarrow> client \<Rightarrow> client" where
  "KeepAliveOp_restartRespTimer a ko c =
     timer_wait (ko_respTimer ko) (ucast (cfg_retryPeriod (m_configState c))) Cb_pingTimeout (Some a) c"

definition KeepAliveOp_messageSent :: "nat \<Rightarrow> keepalive_op \<Rightarrow> client \<Rightarrow> client" where
  "KeepAliveOp_messageSent a ko c = KeepAliveOp_restartPingTimer a ko c"

section \<open>Sending\<close>

definition ClientImpl_sendMessage :: "cl_env \<Rightarrow> prot_msg \<Rightarrow> u32 \<Rightarrow> client \<Rightarrow> error_code \<times> client" where
  "ClientImpl_sendMessage env msg broadcastRadius c =
     (if env_bufSize env < env_frameLen env msg then (Ec_BufferOverflow, c)
      else
        let c = cl_assert ''sendMessage: m_sendOutputDataCb'' (cb_sendOutputData (cbs c)) c;
            c = cl_emit (Out_Send msg broadcastRadius) c
        in (Ec_Success, fold (\<lambda>(a, ko) c. KeepAliveOp_messageSent a ko c) (m_keepAliveOps c) c))"

definition ClientImpl_releasePacketId :: "u16 \<Rightarrow> client \<Rightarrow> client" where
  "ClientImpl_releasePacketId i c = c\<lparr>m_pids := releasePacketId i (m_pids c)\<rparr>"

text \<open>A call that does not return leaves the fault \<open>NoReturn\<close>.\<close>

definition ClientImpl_allocPacketId :: "cl_env \<Rightarrow> client \<Rightarrow> u16 \<times> client" where
  "ClientImpl_allocPacketId env c =
     (case allocPacketId (env_packetIds env) (m_pids c) of
        None \<Rightarrow> (0, cl_fault (NoReturn ''allocPacketId'') c)
      | Some (i, pids) \<Rightarrow> (i, c\<lparr>m_pids := pids\<rparr>))"

section \<open>Completing an operation\<close>

definition opComplete_mark :: "op_ptr \<Rightarrow> client \<Rightarrow> bool \<times> client" where
  "opComplete_mark p c =
     (let i = find_index (\<lambda>q. q = Some p) (m_ops c);
          c = cl_assert ''opComplete: iter'' (i < length (m_ops c)) c
      in if i < length (m_ops c) then (True, c\<lparr>m_ops := (m_ops c)[i := None], m_opsDeleted := True\<rparr>)
         else (False, c))"

definition eraseFromList_assert :: "nat \<Rightarrow> (nat \<times> 'o) list \<Rightarrow> client \<Rightarrow> client" where
  "eraseFromList_assert a xs c = cl_assert ''eraseFromList: iter'' (obj_at a xs \<noteq> None) c"

definition opComplete_Search :: "nat \<Rightarrow> client \<Rightarrow> client" where
  "opComplete_Search a c =
     (let c = eraseFromList_assert a (m_searchOps c) c
      in case obj_at a (m_searchOps c) of None \<Rightarrow> c
         | Some x \<Rightarrow> timer_free (so_timer x) (c\<lparr>m_searchOps := obj_erase a (m_searchOps c)\<rparr>))"

definition opComplete_Connect :: "nat \<Rightarrow> client \<Rightarrow> client" where
  "opComplete_Connect a c =
     (let c = eraseFromList_assert a (m_connectOps c) c
      in case obj_at a (m_connectOps c) of None \<Rightarrow> c
         | Some x \<Rightarrow> timer_free (co_timer x) (c\<lparr>m_connectOps := obj_erase a (m_connectOps c)\<rparr>))"

definition opComplete_KeepAlive :: "nat \<Rightarrow> client \<Rightarrow> client" where
  "opComplete_KeepAlive a c =
     (let c = eraseFromList_assert a (m_keepAliveOps c) c
      in case obj_at a (m_keepAliveOps c) of None \<Rightarrow> c
         | Some x \<Rightarrow> timer_free (ko_pingTimer x) (timer_free (ko_recvTimer x) (timer_free (ko_respTimer x)
             (c\<lparr>m_keepAliveOps := obj_erase a (m_keepAliveOps c)\<rparr>))))"

definition opComplete_Disconnect :: "nat \<Rightarrow> client \<Rightarrow> client" where
  "opComplete_Disconnect a c =
     (let c = eraseFromList_assert a (m_disconnectOps c) c
      in case obj_at a (m_disconnectOps c) of None \<Rightarrow> c
         | Some x \<Rightarrow> timer_free (do_timer x) (c\<lparr>m_disconnectOps := obj_erase a (m_disconnectOps c)\<rparr>))"

definition opComplete_Will :: "nat \<Rightarrow> client \<Rightarrow> client" where
  "opComplete_Will a c =
     (let c = eraseFromList_assert a (m_willOps c) c
      in case obj_at a (m_willOps c) of None \<Rightarrow> c
         | Some x \<Rightarrow> timer_free (wo_timer x) (c\<lparr>m_willOps := obj_erase a (m_willOps c)\<rparr>))"

section \<open>Publications\<close>

definition SendOp_releasePacketIdsInternal :: "send_op \<Rightarrow> client \<Rightarrow> client" where
  "SendOp_releasePacketIdsInternal so c =
     ClientImpl_releasePacketId (sp_msgId (sn_pub so)) (ClientImpl_releasePacketId (sn_regMsgId so) c)"

definition opComplete_Send_with :: "(nat \<Rightarrow> client \<Rightarrow> client) \<Rightarrow> nat \<Rightarrow> client \<Rightarrow> client" where
  "opComplete_Send_with resume a c =
     (let c = eraseFromList_assert a (m_sendOps c) c;
          c = (case obj_at a (m_sendOps c) of None \<Rightarrow> c
               | Some so \<Rightarrow> timer_free (sn_timer so) (SendOp_releasePacketIdsInternal so
                   (c\<lparr>m_sendOps := obj_erase a (m_sendOps c)\<rparr>)))
      in case m_sendOps c of [] \<Rightarrow> c | (b, _) # _ \<Rightarrow> resume b c)"

definition SendOp_opComplete_with :: "(nat \<Rightarrow> client \<Rightarrow> client) \<Rightarrow> nat \<Rightarrow> client \<Rightarrow> client" where
  "SendOp_opComplete_with resume a c =
     (let (found, c) = opComplete_mark (Type_Send, a) c
      in if found then opComplete_Send_with resume a c else c)"

definition SendOp_completeOpInternal_with ::
    "(nat \<Rightarrow> client \<Rightarrow> client) \<Rightarrow> async_op_status \<Rightarrow> return_code option \<Rightarrow> nat \<Rightarrow> client \<Rightarrow> client" where
  "SendOp_completeOpInternal_with resume status info a c =
     on_obj Type_Send m_sendOps a (\<lambda>so c.
       let info = (if status \<noteq> St_Complete then None else info);
           c = SendOp_opComplete_with resume a c
       in if sn_cb so then cl_emit (Out_PublishComplete a status info) c else c) c"

definition SendOp_restartTimer :: "nat \<Rightarrow> send_op \<Rightarrow> client \<Rightarrow> client" where
  "SendOp_restartTimer a so c = timer_wait (sn_timer so) (ucast (ob_retryPeriod so)) Cb_send (Some a) c"

definition SendOp_sendInternal_Register :: "cl_env \<Rightarrow> nat \<Rightarrow> send_op \<Rightarrow> client \<Rightarrow> error_code \<times> client" where
  "SendOp_sendInternal_Register env a so c =
     (let (ec, c) = ClientImpl_sendMessage env (RegisterMsg_CL 0 (sn_regMsgId so) (sn_regTopic so)) 0 c
      in (ec, if ec = Ec_Success then SendOp_restartTimer a so c else c))"

definition SendOp_sendInternal_Publish_with ::
    "(nat \<Rightarrow> client \<Rightarrow> client) \<Rightarrow> cl_env \<Rightarrow> nat \<Rightarrow> send_op \<Rightarrow> client \<Rightarrow> error_code \<times> client" where
  "SendOp_sendInternal_Publish_with resume env a so c =
     (let c = cl_assert ''sendInternal_Publish: topicId''
                (sp_topicIdType (sn_pub so) = ShortTopicName \<or> isValidTopicId (sp_topicId (sn_pub so))) c;
          pub = (if ob_retryCount so < sn_origRetryCount so then (sn_pub so)\<lparr>sp_dup := True\<rparr> else sn_pub so);
          c = upd_send a (\<lambda>so. so\<lparr>sn_pub := pub\<rparr>) c;
          (ec, c) = ClientImpl_sendMessage env (PublishMsg_CL pub) 0 c
      in if ec \<noteq> Ec_Success then (ec, c)
         else if sp_qos pub = SN_AtMostOnceDelivery
         then (Ec_Success, SendOp_completeOpInternal_with resume St_Complete None a c)
         else
           let c = cl_assert ''sendInternal_Publish: msgId'' (sp_msgId pub > 0) c
           in (Ec_Success, SendOp_restartTimer a so c))"

definition SendOp_sendInternal_Pubrel :: "cl_env \<Rightarrow> nat \<Rightarrow> send_op \<Rightarrow> client \<Rightarrow> error_code \<times> client" where
  "SendOp_sendInternal_Pubrel env a so c =
     (let (ec, c) = ClientImpl_sendMessage env (PubrelMsg_CL (sp_msgId (sn_pub so))) 0 c
      in (ec, if ec = Ec_Success then SendOp_restartTimer a so c else c))"

definition SendOp_sendInternal_with ::
    "(nat \<Rightarrow> client \<Rightarrow> client) \<Rightarrow> cl_env \<Rightarrow> nat \<Rightarrow> client \<Rightarrow> error_code \<times> client" where
  "SendOp_sendInternal_with resume env a =
     on_obj_ec Type_Send m_sendOps a (\<lambda>so c.
       if sn_suspended so then (Ec_Success, c)
       else case sn_stage so of
         Stage_Register \<Rightarrow> SendOp_sendInternal_Register env a so c
       | Stage_Publish \<Rightarrow> SendOp_sendInternal_Publish_with resume env a so c
       | Stage_Acked \<Rightarrow> SendOp_sendInternal_Pubrel env a so c)"

definition SendOp_resume_with :: "(nat \<Rightarrow> client \<Rightarrow> client) \<Rightarrow> cl_env \<Rightarrow> nat \<Rightarrow> client \<Rightarrow> client" where
  "SendOp_resume_with resume env a =
     on_obj Type_Send m_sendOps a (\<lambda>so c.
       if \<not> sn_suspended so then c
       else
         let c = upd_send a (\<lambda>so. so\<lparr>sn_suspended := False\<rparr>) c;
             (ec, c) = SendOp_sendInternal_with resume env a c
         in if ec \<noteq> Ec_Success
            then SendOp_completeOpInternal_with resume (translateErrorCodeToAsyncOpStatus ec) None a c
            else c)"

fun SendOp_resume :: "cl_env \<Rightarrow> nat \<Rightarrow> nat \<Rightarrow> client \<Rightarrow> client" where
  "SendOp_resume env 0 a c = cl_fault (NoReturn ''SendOp::resume'') c"
| "SendOp_resume env (Suc n) a c = SendOp_resume_with (SendOp_resume env n) env a c"

text \<open>The depth an operation uses for what it calls: one level per publication.\<close>

definition send_depth :: "client \<Rightarrow> nat" where
  "send_depth c = length (m_sendOps c)"

definition SendOp_opComplete :: "cl_env \<Rightarrow> nat \<Rightarrow> client \<Rightarrow> client" where
  "SendOp_opComplete env a c = SendOp_opComplete_with (SendOp_resume env (send_depth c)) a c"

definition SendOp_completeOpInternal ::
    "cl_env \<Rightarrow> async_op_status \<Rightarrow> return_code option \<Rightarrow> nat \<Rightarrow> client \<Rightarrow> client" where
  "SendOp_completeOpInternal env status info a c =
     SendOp_completeOpInternal_with (SendOp_resume env (send_depth c)) status info a c"

definition SendOp_sendInternal :: "cl_env \<Rightarrow> nat \<Rightarrow> client \<Rightarrow> error_code \<times> client" where
  "SendOp_sendInternal env a c = SendOp_sendInternal_with (SendOp_resume env (send_depth c)) env a c"

section \<open>Subscriptions\<close>

definition subscribe_msg :: "subscribe_op \<Rightarrow> sn_subscribe" where
  "subscribe_msg x =
     \<lparr>ss_topicIdType = sb_topicIdType x, ss_qos = sb_qos x, ss_msgId = sb_msgId x,
      ss_topicName = (if sb_mode x = Normal then Some (sb_topicName x) else None),
      ss_topicId = (if sb_mode x = Normal then None else Some (sb_topicId x))\<rparr>"

definition unsubscribe_msg :: "unsubscribe_op \<Rightarrow> sn_unsubscribe" where
  "unsubscribe_msg x =
     \<lparr>su_topicIdType = ub_topicIdType x, su_msgId = ub_msgId x,
      su_topicName = (if ub_mode x = Normal then Some (ub_topicName x) else None),
      su_topicId = (if ub_mode x = Normal then None else Some (ub_topicId x))\<rparr>"

definition SubscribeOp_restartTimer :: "nat \<Rightarrow> subscribe_op \<Rightarrow> client \<Rightarrow> client" where
  "SubscribeOp_restartTimer a x c = timer_wait (sb_timer x) (ucast (ob_retryPeriod x)) Cb_subscribe (Some a) c"

definition SubscribeOp_sendInternal :: "cl_env \<Rightarrow> nat \<Rightarrow> client \<Rightarrow> error_code \<times> client" where
  "SubscribeOp_sendInternal env a =
     on_obj_ec Type_Subscribe m_subscribeOps a (\<lambda>x c.
       if sb_suspended x then (Ec_Success, c)
       else
         let (ec, c) = ClientImpl_sendMessage env (SubscribeMsg_CL (subscribe_msg x)) 0 c
         in (ec, if ec = Ec_Success then SubscribeOp_restartTimer a x c else c))"

definition UnsubscribeOp_restartTimer :: "nat \<Rightarrow> unsubscribe_op \<Rightarrow> client \<Rightarrow> client" where
  "UnsubscribeOp_restartTimer a x c = timer_wait (ub_timer x) (ucast (ob_retryPeriod x)) Cb_unsubscribe (Some a) c"

definition UnsubscribeOp_sendInternal :: "cl_env \<Rightarrow> nat \<Rightarrow> client \<Rightarrow> error_code \<times> client" where
  "UnsubscribeOp_sendInternal env a =
     on_obj_ec Type_Unsubscribe m_unsubscribeOps a (\<lambda>x c.
       if ub_suspended x then (Ec_Success, c)
       else
         let (ec, c) = ClientImpl_sendMessage env (UnsubscribeMsg_CL (unsubscribe_msg x)) 0 c
         in (ec, if ec = Ec_Success then UnsubscribeOp_restartTimer a x c else c))"

text \<open>The subscription or unsubscription that comes first among all operations.\<close>

definition is_sub_unsub :: "op_ptr option \<Rightarrow> bool" where
  "is_sub_unsub q = (case q of None \<Rightarrow> False | Some (ty, _) \<Rightarrow> ty = Type_Subscribe \<or> ty = Type_Unsubscribe)"

definition first_sub_unsub :: "op_ptr option list \<Rightarrow> op_ptr option" where
  "first_sub_unsub ops = (case List.find is_sub_unsub ops of None \<Rightarrow> None | Some q \<Rightarrow> q)"

definition finaliseSupUnsubOp_with :: "(op_ptr \<Rightarrow> client \<Rightarrow> client) \<Rightarrow> client \<Rightarrow> client" where
  "finaliseSupUnsubOp_with resume c =
     (case (m_subscribeOps c, m_unsubscribeOps c) of
        ([], []) \<Rightarrow> c
      | ((a, _) # _, []) \<Rightarrow> resume (Type_Subscribe, a) c
      | ([], (a, _) # _) \<Rightarrow> resume (Type_Unsubscribe, a) c
      | (_ # _, _ # _) \<Rightarrow> (case first_sub_unsub (m_ops c) of None \<Rightarrow> c | Some p \<Rightarrow> resume p c))"

definition opComplete_Subscribe_with :: "(op_ptr \<Rightarrow> client \<Rightarrow> client) \<Rightarrow> nat \<Rightarrow> client \<Rightarrow> client" where
  "opComplete_Subscribe_with resume a c =
     (let c = eraseFromList_assert a (m_subscribeOps c) c;
          c = (case obj_at a (m_subscribeOps c) of None \<Rightarrow> c
               | Some x \<Rightarrow> timer_free (sb_timer x) (ClientImpl_releasePacketId (sb_msgId x)
                   (c\<lparr>m_subscribeOps := obj_erase a (m_subscribeOps c)\<rparr>)))
      in finaliseSupUnsubOp_with resume c)"

definition opComplete_Unsubscribe_with :: "(op_ptr \<Rightarrow> client \<Rightarrow> client) \<Rightarrow> nat \<Rightarrow> client \<Rightarrow> client" where
  "opComplete_Unsubscribe_with resume a c =
     (let c = eraseFromList_assert a (m_unsubscribeOps c) c;
          c = (case obj_at a (m_unsubscribeOps c) of None \<Rightarrow> c
               | Some x \<Rightarrow> timer_free (ub_timer x) (ClientImpl_releasePacketId (ub_msgId x)
                   (c\<lparr>m_unsubscribeOps := obj_erase a (m_unsubscribeOps c)\<rparr>)))
      in finaliseSupUnsubOp_with resume c)"

definition SubscribeOp_opComplete_with :: "(op_ptr \<Rightarrow> client \<Rightarrow> client) \<Rightarrow> nat \<Rightarrow> client \<Rightarrow> client" where
  "SubscribeOp_opComplete_with resume a c =
     (let (found, c) = opComplete_mark (Type_Subscribe, a) c
      in if found then opComplete_Subscribe_with resume a c else c)"

definition UnsubscribeOp_opComplete_with :: "(op_ptr \<Rightarrow> client \<Rightarrow> client) \<Rightarrow> nat \<Rightarrow> client \<Rightarrow> client" where
  "UnsubscribeOp_opComplete_with resume a c =
     (let (found, c) = opComplete_mark (Type_Unsubscribe, a) c
      in if found then opComplete_Unsubscribe_with resume a c else c)"

definition SubscribeOp_completeOpInternal_with ::
    "(op_ptr \<Rightarrow> client \<Rightarrow> client) \<Rightarrow> async_op_status \<Rightarrow> (return_code \<times> sn_qos) option \<Rightarrow> nat \<Rightarrow> client \<Rightarrow> client" where
  "SubscribeOp_completeOpInternal_with resume status info a =
     on_obj Type_Subscribe m_subscribeOps a (\<lambda>x c.
       let c = SubscribeOp_opComplete_with resume a c
       in if sb_cb x then cl_emit (Out_SubscribeComplete a status info) c else c)"

definition UnsubscribeOp_completeOpInternal_with ::
    "(op_ptr \<Rightarrow> client \<Rightarrow> client) \<Rightarrow> async_op_status \<Rightarrow> nat \<Rightarrow> client \<Rightarrow> client" where
  "UnsubscribeOp_completeOpInternal_with resume status a =
     on_obj Type_Unsubscribe m_unsubscribeOps a (\<lambda>x c.
       let c = UnsubscribeOp_opComplete_with resume a c
       in if ub_cb x then cl_emit (Out_UnsubscribeComplete a status) c else c)"

definition SubscribeOp_resume_with :: "(op_ptr \<Rightarrow> client \<Rightarrow> client) \<Rightarrow> cl_env \<Rightarrow> nat \<Rightarrow> client \<Rightarrow> client" where
  "SubscribeOp_resume_with resume env a =
     on_obj Type_Subscribe m_subscribeOps a (\<lambda>x c.
       if \<not> sb_suspended x then c
       else
         let c = upd_subscribe a (\<lambda>x. x\<lparr>sb_suspended := False\<rparr>) c;
             (ec, c) = SubscribeOp_sendInternal env a c
         in if ec \<noteq> Ec_Success
            then SubscribeOp_completeOpInternal_with resume (translateErrorCodeToAsyncOpStatus ec) None a c
            else c)"

definition UnsubscribeOp_resume_with :: "(op_ptr \<Rightarrow> client \<Rightarrow> client) \<Rightarrow> cl_env \<Rightarrow> nat \<Rightarrow> client \<Rightarrow> client" where
  "UnsubscribeOp_resume_with resume env a =
     on_obj Type_Unsubscribe m_unsubscribeOps a (\<lambda>x c.
       if \<not> ub_suspended x then c
       else
         let c = upd_unsubscribe a (\<lambda>x. x\<lparr>ub_suspended := False\<rparr>) c;
             (ec, c) = UnsubscribeOp_sendInternal env a c
         in if ec \<noteq> Ec_Success
            then UnsubscribeOp_completeOpInternal_with resume (translateErrorCodeToAsyncOpStatus ec) a c
            else c)"

fun SubUnsub_resume :: "cl_env \<Rightarrow> nat \<Rightarrow> op_ptr \<Rightarrow> client \<Rightarrow> client" where
  "SubUnsub_resume env 0 p c = cl_fault (NoReturn ''resume'') c"
| "SubUnsub_resume env (Suc n) p c =
     (if fst p = Type_Subscribe then SubscribeOp_resume_with (SubUnsub_resume env n) env (snd p) c
      else UnsubscribeOp_resume_with (SubUnsub_resume env n) env (snd p) c)"

definition sub_depth :: "client \<Rightarrow> nat" where
  "sub_depth c = length (m_subscribeOps c) + length (m_unsubscribeOps c)"

definition SubscribeOp_opComplete :: "cl_env \<Rightarrow> nat \<Rightarrow> client \<Rightarrow> client" where
  "SubscribeOp_opComplete env a c = SubscribeOp_opComplete_with (SubUnsub_resume env (sub_depth c)) a c"

definition UnsubscribeOp_opComplete :: "cl_env \<Rightarrow> nat \<Rightarrow> client \<Rightarrow> client" where
  "UnsubscribeOp_opComplete env a c = UnsubscribeOp_opComplete_with (SubUnsub_resume env (sub_depth c)) a c"

definition SubscribeOp_completeOpInternal ::
    "cl_env \<Rightarrow> async_op_status \<Rightarrow> (return_code \<times> sn_qos) option \<Rightarrow> nat \<Rightarrow> client \<Rightarrow> client" where
  "SubscribeOp_completeOpInternal env status info a c =
     SubscribeOp_completeOpInternal_with (SubUnsub_resume env (sub_depth c)) status info a c"

definition UnsubscribeOp_completeOpInternal :: "cl_env \<Rightarrow> async_op_status \<Rightarrow> nat \<Rightarrow> client \<Rightarrow> client" where
  "UnsubscribeOp_completeOpInternal env status a c =
     UnsubscribeOp_completeOpInternal_with (SubUnsub_resume env (sub_depth c)) status a c"

end
