(* ===== verification/Cl_Ops.thy ===== *)
theory Cl_Ops
  imports Cl_Services
begin

text \<open>
  How the operations of the client react to messages and timers, one section per class of
  \<^verbatim>\<open>src/client/lib/src/op\<close>, with the parts of \<^verbatim>\<open>ClientImpl.cpp\<close> they call: the end and the start of a
  connection, sleep, and the termination of all operations.
\<close>

section \<open>Completing the other operations\<close>

definition SearchOp_opComplete :: "nat \<Rightarrow> client \<Rightarrow> client" where
  "SearchOp_opComplete a c =
     (let (found, c) = opComplete_mark (Type_Search, a) c in if found then opComplete_Search a c else c)"

definition SearchOp_completeOpInternal :: "async_op_status \<Rightarrow> (u8 \<times> u8 list) option \<Rightarrow> nat \<Rightarrow> client \<Rightarrow> client" where
  "SearchOp_completeOpInternal status info a =
     on_obj Type_Search m_searchOps a (\<lambda>x c.
       let c = SearchOp_opComplete a c
       in if so_cb x then cl_emit (Out_SearchComplete a status info) c else c)"

definition ConnectOp_opComplete :: "nat \<Rightarrow> client \<Rightarrow> client" where
  "ConnectOp_opComplete a c =
     (let (found, c) = opComplete_mark (Type_Connect, a) c in if found then opComplete_Connect a c else c)"

definition ConnectOp_completeOpInternal :: "async_op_status \<Rightarrow> return_code option \<Rightarrow> nat \<Rightarrow> client \<Rightarrow> client" where
  "ConnectOp_completeOpInternal status info a =
     on_obj Type_Connect m_connectOps a (\<lambda>x c.
       let c = ConnectOp_opComplete a c
       in if co_cb x then cl_emit (Out_ConnectComplete a status info) c else c)"

definition KeepAliveOp_opComplete :: "nat \<Rightarrow> client \<Rightarrow> client" where
  "KeepAliveOp_opComplete a c =
     (let (found, c) = opComplete_mark (Type_KeepAlive, a) c in if found then opComplete_KeepAlive a c else c)"

definition DisconnectOp_opComplete :: "nat \<Rightarrow> client \<Rightarrow> client" where
  "DisconnectOp_opComplete a c =
     (let (found, c) = opComplete_mark (Type_Disconnect, a) c in if found then opComplete_Disconnect a c else c)"

definition DisconnectOp_completeOpInternal :: "async_op_status \<Rightarrow> nat \<Rightarrow> client \<Rightarrow> client" where
  "DisconnectOp_completeOpInternal status a =
     on_obj Type_Disconnect m_disconnectOps a (\<lambda>x c.
       let c = DisconnectOp_opComplete a c
       in if do_cb x then cl_emit (Out_DisconnectComplete a status) c else c)"

definition WillOp_opComplete :: "nat \<Rightarrow> client \<Rightarrow> client" where
  "WillOp_opComplete a c =
     (let (found, c) = opComplete_mark (Type_Will, a) c in if found then opComplete_Will a c else c)"

definition WillOp_completeOpInternal ::
    "async_op_status \<Rightarrow> (return_code option \<times> return_code option) option \<Rightarrow> nat \<Rightarrow> client \<Rightarrow> client" where
  "WillOp_completeOpInternal status info a =
     on_obj Type_Will m_willOps a (\<lambda>x c.
       let c = WillOp_opComplete a c
       in if wo_cb x then cl_emit (Out_WillComplete a status info) c else c)"

section \<open>Termination of all operations\<close>

text \<open>\<^verbatim>\<open>terminateOp\<close> of an operation: the virtual \<^verbatim>\<open>terminateOpImpl\<close>, which completes it with the status; the
  keep alive operation has no callback.\<close>

definition Op_terminateOp :: "cl_env \<Rightarrow> async_op_status \<Rightarrow> op_ptr \<Rightarrow> client \<Rightarrow> client" where
  "Op_terminateOp env status p =
     (case p of
        (Type_Search, a) \<Rightarrow> SearchOp_completeOpInternal status None a
      | (Type_Connect, a) \<Rightarrow> ConnectOp_completeOpInternal status None a
      | (Type_KeepAlive, a) \<Rightarrow> on_obj Type_KeepAlive m_keepAliveOps a (\<lambda>_. KeepAliveOp_opComplete a)
      | (Type_Disconnect, a) \<Rightarrow> DisconnectOp_completeOpInternal status a
      | (Type_Subscribe, a) \<Rightarrow> SubscribeOp_completeOpInternal env status None a
      | (Type_Unsubscribe, a) \<Rightarrow> UnsubscribeOp_completeOpInternal env status a
      | (Type_Send, a) \<Rightarrow> SendOp_completeOpInternal env status None a
      | (Type_Will, a) \<Rightarrow> WillOp_completeOpInternal status None a)"

text \<open>The loop over \<^verbatim>\<open>m_ops\<close>: an entry may become null before its turn.\<close>

fun terminateOps_loop :: "cl_env \<Rightarrow> async_op_status \<Rightarrow> nat list \<Rightarrow> client \<Rightarrow> client" where
  "terminateOps_loop env status [] c = c"
| "terminateOps_loop env status (i # is) c =
     terminateOps_loop env status is
       (case m_ops c ! i of None \<Rightarrow> c | Some p \<Rightarrow> Op_terminateOp env status p c)"

definition ClientImpl_terminateOps :: "cl_env \<Rightarrow> async_op_status \<Rightarrow> client \<Rightarrow> client" where
  "ClientImpl_terminateOps env status c = terminateOps_loop env status [0..<length (m_ops c)] c"

section \<open>Connection and sleep\<close>

definition upd_session :: "(cl_session_state \<Rightarrow> cl_session_state) \<Rightarrow> client \<Rightarrow> client" where
  "upd_session f c = c\<lparr>m_sessionState := f (m_sessionState c)\<rparr>"

definition ClientImpl_gatewayDisconnected ::
    "cl_env \<Rightarrow> disconnect_reason option \<Rightarrow> async_op_status \<Rightarrow> client \<Rightarrow> client" where
  "ClientImpl_gatewayDisconnected env reason status c =
     (let c = c\<lparr>m_initialized := False\<rparr>;
          c = upd_session (\<lambda>s. s\<lparr>se_connectionStatus := Disconnected, se_disconnecting := True\<rparr>) c;
          c = ClientImpl_terminateOps env status c
      in case reason of
           None \<Rightarrow> c
         | Some r \<Rightarrow> cl_emit (Out_GatewayDisconnected r)
             (cl_assert ''gatewayDisconnected: m_gatewayDisconnectedReportCb'' (cb_gatewayDisconnected (cbs c)) c))"

text \<open>The constructor of the keep alive operation allocates three timers and starts one.\<close>

definition KeepAliveOp_new :: "cl_env \<Rightarrow> client \<Rightarrow> client" where
  "KeepAliveOp_new env c =
     (let (t1, c) = timer_alloc env c; (t2, c) = timer_alloc env c; (t3, c) = timer_alloc env c;
          c = cl_assert ''KeepAliveOp: m_pingTimer'' (Timer_isValid t1) c;
          c = cl_assert ''KeepAliveOp: m_recvTimer'' (Timer_isValid t2) c;
          c = cl_assert ''KeepAliveOp: m_respTimer'' (Timer_isValid t3) c;
          ko = \<lparr>ob_retryPeriod = cfg_retryPeriod (m_configState c), ob_retryCount = cfg_retryCount (m_configState c),
                ko_pingTimer = t1, ko_recvTimer = t2, ko_respTimer = t3\<rparr>;
          a = m_nextAddr c;
          c = KeepAliveOp_restartPingTimer a ko c
      in c\<lparr>m_nextAddr := a + 1, m_ops := m_ops c @ [Some (Type_KeepAlive, a)],
           m_keepAliveOps := m_keepAliveOps c @ [(a, ko)]\<rparr>)"

definition ClientImpl_createKeepAliveOpIfNeeded :: "cl_env \<Rightarrow> client \<Rightarrow> client" where
  "ClientImpl_createKeepAliveOpIfNeeded env c =
     (if m_keepAliveOps c \<noteq> [] then c
      else if env_pool env Type_KeepAlive \<le> length (m_keepAliveOps c)
      then cl_assert ''createKeepAliveOpIfNeeded: ptr'' False c
      else KeepAliveOp_new env
             (cl_assert ''createKeepAliveOpIfNeeded: m_ops'' (length (m_ops c) < env_opsLimit env) c))"

definition ClientImpl_gatewayConnected :: "cl_env \<Rightarrow> client \<Rightarrow> client" where
  "ClientImpl_gatewayConnected env c =
     ClientImpl_createKeepAliveOpIfNeeded env
       (upd_session (\<lambda>s. s\<lparr>se_connectionStatus := Connected\<rparr>) (c\<lparr>m_firstConnect := False\<rparr>))"

definition ClientImpl_enterSleepMode :: "cl_env \<Rightarrow> u32 \<Rightarrow> client \<Rightarrow> client" where
  "ClientImpl_enterSleepMode env durationMs c =
     (let c = cl_assert ''enterSleepMode: durationMs'' (0 < durationMs) c;
          c = cl_assert ''enterSleepMode: m_connectionStatus''
                (se_connectionStatus (m_sessionState c) = Connected) c;
          c = upd_session (\<lambda>s. s\<lparr>se_connectionStatus := Asleep\<rparr>) c;
          c = ClientImpl_terminateOps env St_Aborted c;
          c = cl_assert ''enterSleepMode: m_keepAliveOps'' (m_keepAliveOps c = []) c;
          diff = cfg_retryPeriod (m_configState c) * (cfg_retryCount (m_configState c) + 1);
          maxDuration = max durationMs (diff + 1);
          c = upd_session (\<lambda>s. s\<lparr>se_keepAliveMs := maxDuration - diff\<rparr>) c
      in ClientImpl_createKeepAliveOpIfNeeded env c)"

section \<open>KeepAliveOp\<close>

definition KeepAliveOp_sendPing :: "cl_env \<Rightarrow> nat \<Rightarrow> client \<Rightarrow> client" where
  "KeepAliveOp_sendPing env a =
     on_obj Type_KeepAlive m_keepAliveOps a (\<lambda>ko c.
       if timer_active (ko_respTimer ko) c then c
       else
         let cid = (if se_connectionStatus (m_sessionState c) = Asleep then se_clientId (m_sessionState c) else []);
             (_, c) = ClientImpl_sendMessage env (PingreqMsg_CL cid) 0 c
         in KeepAliveOp_restartRespTimer a ko c)"

definition KeepAliveOp_pingTimeoutInternal :: "cl_env \<Rightarrow> nat \<Rightarrow> client \<Rightarrow> client" where
  "KeepAliveOp_pingTimeoutInternal env a =
     on_obj Type_KeepAlive m_keepAliveOps a (\<lambda>ko c.
       let c = cl_assert ''pingTimeoutInternal: m_respTimer'' (\<not> timer_active (ko_respTimer ko) c) c
       in if ob_retryCount ko = 0
          then ClientImpl_gatewayDisconnected env (Some Reason_NoGatewayResponse) St_GatewayDisconnected c
          else KeepAliveOp_sendPing env a (upd_keepalive a (\<lambda>ko. ko\<lparr>ob_retryCount := ob_retryCount ko - 1\<rparr>) c))"

definition KeepAliveOp_handle_Pingreq :: "cl_env \<Rightarrow> nat \<Rightarrow> client \<Rightarrow> client" where
  "KeepAliveOp_handle_Pingreq env a =
     on_obj Type_KeepAlive m_keepAliveOps a (\<lambda>ko c.
       if se_connectionStatus (m_sessionState c) = Disconnected then c
       else KeepAliveOp_restartRecvTimer a ko (snd (ClientImpl_sendMessage env PingrespMsg_CL 0 c)))"

definition KeepAliveOp_handle_Pingresp :: "nat \<Rightarrow> client \<Rightarrow> client" where
  "KeepAliveOp_handle_Pingresp a =
     on_obj Type_KeepAlive m_keepAliveOps a (\<lambda>ko c.
       let c = timer_cancel (ko_respTimer ko) c;
           c = cl_assert ''handle_Pingresp: m_respTimer'' (\<not> timer_active (ko_respTimer ko) c) c;
           c = upd_keepalive a (\<lambda>ko. ko\<lparr>ob_retryCount := cfg_retryCount (m_configState c)\<rparr>) c
       in KeepAliveOp_restartRecvTimer a ko c)"

definition KeepAliveOp_handle_ProtMessage :: "nat \<Rightarrow> client \<Rightarrow> client" where
  "KeepAliveOp_handle_ProtMessage a =
     on_obj Type_KeepAlive m_keepAliveOps a (\<lambda>ko c.
       let c = (if se_connectionStatus (m_sessionState c) = Asleep \<and> timer_active (ko_respTimer ko) c
                then KeepAliveOp_restartRespTimer a ko c else c)
       in KeepAliveOp_restartRecvTimer a ko c)"

section \<open>SearchOp\<close>

definition SearchOp_restartTimer :: "nat \<Rightarrow> search_op \<Rightarrow> client \<Rightarrow> client" where
  "SearchOp_restartTimer a x c = timer_wait (so_timer x) (ucast (ob_retryPeriod x)) Cb_search (Some a) c"

definition SearchOp_sendInternal :: "cl_env \<Rightarrow> nat \<Rightarrow> client \<Rightarrow> error_code \<times> client" where
  "SearchOp_sendInternal env a =
     on_obj_ec Type_Search m_searchOps a (\<lambda>x c.
       let (ec, c) = ClientImpl_sendMessage env (SearchgwMsg_CL (so_msgRadius x)) (so_radius x) c
       in (ec, if ec = Ec_Success then SearchOp_restartTimer a x c else c))"

definition SearchOp_timeoutInternal :: "cl_env \<Rightarrow> nat \<Rightarrow> client \<Rightarrow> client" where
  "SearchOp_timeoutInternal env a =
     on_obj Type_Search m_searchOps a (\<lambda>x c.
       if ob_retryCount x = 0 then SearchOp_completeOpInternal St_Timeout None a c
       else
         let c = upd_search a (\<lambda>x. x\<lparr>ob_retryCount := ob_retryCount x - 1\<rparr>) c;
             (ec, c) = SearchOp_sendInternal env a c
         in if ec \<noteq> Ec_Success
            then SearchOp_completeOpInternal (translateErrorCodeToAsyncOpStatus ec) None a c else c)"

definition SearchOp_handle_Advertise :: "u8 \<Rightarrow> nat \<Rightarrow> client \<Rightarrow> client" where
  "SearchOp_handle_Advertise gwId a =
     on_obj Type_Search m_searchOps a (\<lambda>x c.
       SearchOp_completeOpInternal St_Complete (Some (gwId, [])) a (timer_cancel (so_timer x) c))"

definition SearchOp_handle_Gwinfo :: "u8 \<Rightarrow> u8 list \<Rightarrow> nat \<Rightarrow> client \<Rightarrow> client" where
  "SearchOp_handle_Gwinfo gwId addr a =
     on_obj Type_Search m_searchOps a (\<lambda>x c.
       SearchOp_completeOpInternal St_Complete (Some (gwId, addr)) a (timer_cancel (so_timer x) c))"

section \<open>ConnectOp\<close>

definition ConnectOp_restartTimer :: "nat \<Rightarrow> cl_connect_op \<Rightarrow> client \<Rightarrow> client" where
  "ConnectOp_restartTimer a x c = timer_wait (co_timer x) (ucast (ob_retryPeriod x)) Cb_connect (Some a) c"

definition ConnectOp_getMsg :: "cl_connect_op \<Rightarrow> prot_msg" where
  "ConnectOp_getMsg x =
     (case co_stage x of
        Stage_connect \<Rightarrow> ConnectMsg_CL (co_clientId x) (co_duration x) (co_will x) (co_clean x)
      | Stage_willTopic \<Rightarrow> WilltopicMsg_CL (if co_willFlags x then Some (co_willQos x, co_willRetain x) else None) (co_willTopic x)
      | Stage_willMsg \<Rightarrow> WillmsgMsg_CL (co_willMsg x))"

definition ConnectOp_sendInternal :: "cl_env \<Rightarrow> nat \<Rightarrow> client \<Rightarrow> error_code \<times> client" where
  "ConnectOp_sendInternal env a =
     on_obj_ec Type_Connect m_connectOps a (\<lambda>x c.
       let (ec, c) = ClientImpl_sendMessage env (ConnectOp_getMsg x) 0 c
       in (ec, if ec = Ec_Success then ConnectOp_restartTimer a x c else c))"

text \<open>Sending, and completing the operation with an error when that fails.\<close>

definition ConnectOp_sendOrComplete :: "cl_env \<Rightarrow> nat \<Rightarrow> client \<Rightarrow> client" where
  "ConnectOp_sendOrComplete env a c =
     (let (ec, c) = ConnectOp_sendInternal env a c
      in if ec \<noteq> Ec_Success
         then ConnectOp_completeOpInternal (translateErrorCodeToAsyncOpStatus ec) None a c else c)"

definition ConnectOp_timeoutInternal :: "cl_env \<Rightarrow> nat \<Rightarrow> client \<Rightarrow> client" where
  "ConnectOp_timeoutInternal env a =
     on_obj Type_Connect m_connectOps a (\<lambda>x c.
       if ob_retryCount x = 0 then ConnectOp_completeOpInternal St_Timeout None a c
       else ConnectOp_sendOrComplete env a (upd_connect a (\<lambda>x. x\<lparr>ob_retryCount := ob_retryCount x - 1\<rparr>) c))"

definition ConnectOp_handle_Willtopicreq :: "cl_env \<Rightarrow> nat \<Rightarrow> client \<Rightarrow> client" where
  "ConnectOp_handle_Willtopicreq env a =
     on_obj Type_Connect m_connectOps a (\<lambda>x c.
       if \<not> co_will x then c
       else
         let c = (if co_willTopic x = [] then c\<lparr>m_prevWill := WillInfo_init\<rparr> else c)
         in ConnectOp_sendOrComplete env a (upd_connect a
              (\<lambda>x. x\<lparr>ob_retryCount := co_origRetryCount x, co_stage := Stage_willTopic\<rparr>) c))"

definition ConnectOp_handle_Willmsgreq :: "cl_env \<Rightarrow> nat \<Rightarrow> client \<Rightarrow> client" where
  "ConnectOp_handle_Willmsgreq env a =
     on_obj Type_Connect m_connectOps a (\<lambda>x c.
       if \<not> co_will x then c
       else if co_stage x \<noteq> Stage_willTopic then c
       else
         let c = c\<lparr>m_prevWill := \<lparr>wi_topic = co_willTopic x, wi_msg = [], wi_qos = co_willQos x,
                                   wi_retain = co_willRetain x\<rparr>\<rparr>
         in ConnectOp_sendOrComplete env a (upd_connect a
              (\<lambda>x. x\<lparr>ob_retryCount := co_origRetryCount x, co_stage := Stage_willMsg\<rparr>) c))"

definition ConnectOp_handle_Connack :: "cl_env \<Rightarrow> return_code \<Rightarrow> nat \<Rightarrow> client \<Rightarrow> client" where
  "ConnectOp_handle_Connack env rc a =
     on_obj Type_Connect m_connectOps a (\<lambda>x c.
       let clearPrevWillInfo = (rc \<noteq> Accepted \<or> co_stage x \<noteq> Stage_willMsg \<and> co_will x);
           c = (if clearPrevWillInfo then c\<lparr>m_prevWill := WillInfo_init\<rparr>
                else if co_stage x = Stage_willMsg
                then c\<lparr>m_prevWill := (m_prevWill c)\<lparr>wi_msg := co_willMsg x\<rparr>\<rparr> else c);
           c = (if rc = Accepted
                then ClientImpl_gatewayConnected env (upd_session
                       (\<lambda>s. s\<lparr>se_clientId := co_clientId x, se_keepAliveMs := ucast (co_duration x) * 1000\<rparr>) c)
                else c)
       in ConnectOp_completeOpInternal St_Complete (Some rc) a c)"

section \<open>DisconnectOp\<close>

definition DisconnectOp_restartTimer :: "nat \<Rightarrow> disconnect_op \<Rightarrow> client \<Rightarrow> client" where
  "DisconnectOp_restartTimer a x c = timer_wait (do_timer x) (ucast (ob_retryPeriod x)) Cb_disconnect (Some a) c"

definition DisconnectOp_sendInternal :: "cl_env \<Rightarrow> nat \<Rightarrow> client \<Rightarrow> error_code \<times> client" where
  "DisconnectOp_sendInternal env a =
     on_obj_ec Type_Disconnect m_disconnectOps a (\<lambda>x c.
       let (ec, c) = ClientImpl_sendMessage env (DisconnectMsg_CL (do_duration x)) 0 c
       in (ec, if ec = Ec_Success then DisconnectOp_restartTimer a x c else c))"

definition DisconnectOp_timeoutInternal :: "cl_env \<Rightarrow> nat \<Rightarrow> client \<Rightarrow> client" where
  "DisconnectOp_timeoutInternal env a =
     on_obj Type_Disconnect m_disconnectOps a (\<lambda>x c.
       if ob_retryCount x = 0 then DisconnectOp_completeOpInternal St_Timeout a c
       else
         let c = upd_disconnect a (\<lambda>x. x\<lparr>ob_retryCount := ob_retryCount x - 1\<rparr>) c;
             (ec, c) = DisconnectOp_sendInternal env a c
         in if ec \<noteq> Ec_Success
            then DisconnectOp_completeOpInternal (translateErrorCodeToAsyncOpStatus ec) a c else c)"

definition DisconnectOp_handle_Disconnect :: "cl_env \<Rightarrow> nat \<Rightarrow> client \<Rightarrow> client" where
  "DisconnectOp_handle_Disconnect env a =
     on_obj Type_Disconnect m_disconnectOps a (\<lambda>x c.
       let c = timer_cancel (do_timer x) c;
           sleepDurationMs = (case do_duration x of None \<Rightarrow> 0 | Some d \<Rightarrow> ucast d * 1000);
           c = DisconnectOp_completeOpInternal St_Complete a c
       in if 0 < sleepDurationMs then ClientImpl_enterSleepMode env sleepDurationMs c
          else ClientImpl_gatewayDisconnected env None St_Aborted c)"

section \<open>SubscribeOp\<close>

definition SubscribeOp_timeoutInternal :: "cl_env \<Rightarrow> nat \<Rightarrow> client \<Rightarrow> client" where
  "SubscribeOp_timeoutInternal env a =
     on_obj Type_Subscribe m_subscribeOps a (\<lambda>x c.
       if ob_retryCount x = 0 then SubscribeOp_completeOpInternal env St_Timeout None a c
       else
         let c = upd_subscribe a (\<lambda>x. x\<lparr>ob_retryCount := ob_retryCount x - 1\<rparr>) c;
             (ec, c) = SubscribeOp_sendInternal env a c
         in if ec \<noteq> Ec_Success
            then SubscribeOp_completeOpInternal env (translateErrorCodeToAsyncOpStatus ec) None a c else c)"

text \<open>The two characters of a short topic as a C string.\<close>

definition short_topic :: "u16 \<Rightarrow> string" where
  "short_topic i = c_str [char_of (unat (drop_bit 8 i)), char_of (unat (take_bit 8 i))]"

definition subscribe_topic :: "subscribe_op \<Rightarrow> string option" where
  "subscribe_topic x =
     (if sb_topicName x \<noteq> [] then Some (sb_topicName x)
      else if sb_topicIdType x = ShortTopicName then Some (short_topic (sb_topicId x))
      else None)"

definition ClientImpl_storeInRegTopic :: "string \<Rightarrow> u16 \<Rightarrow> client \<Rightarrow> client" where
  "ClientImpl_storeInRegTopic topic topicId c =
     (case storeInRegTopic (m_timestamp c) topic topicId (m_regs c) of
        None \<Rightarrow> cl_fault (UndefinedRead ''storeInRegTopic'') c
      | Some regs \<Rightarrow> c\<lparr>m_regs := regs\<rparr>)"

definition ClientImpl_storeOutRegTopic :: "string \<Rightarrow> u16 \<Rightarrow> client \<Rightarrow> client" where
  "ClientImpl_storeOutRegTopic topic topicId c =
     (case storeOutRegTopic (m_timestamp c) topic topicId (m_regs c) of
        None \<Rightarrow> cl_fault (UndefinedRead ''storeOutRegTopic'') c
      | Some regs \<Rightarrow> c\<lparr>m_regs := regs\<rparr>)"

definition subFilters_add :: "string option \<Rightarrow> u16 \<Rightarrow> sub_filter list \<Rightarrow> sub_filter list" where
  "subFilters_add topic topicId fs =
     (case topic of
        Some t \<Rightarrow>
          let iter = lower_bound sf_topic t fs
          in if iter = [] \<or> sf_topic (hd iter) \<noteq> t
             then before_lower_bound sf_topic t fs @ \<lparr>sf_topic = t, sf_topicId = 0\<rparr> # iter else fs
      | None \<Rightarrow>
          takeWhile (\<lambda>f. sf_topic f = []) fs @ \<lparr>sf_topic = [], sf_topicId = topicId\<rparr> #
          dropWhile (\<lambda>f. sf_topic f = []) fs)"

definition SubscribeOp_handle_Suback :: "cl_env \<Rightarrow> sn_qos \<Rightarrow> u16 \<Rightarrow> u16 \<Rightarrow> return_code \<Rightarrow> nat \<Rightarrow> client \<Rightarrow> client" where
  "SubscribeOp_handle_Suback env qos topicId msgId rc a =
     on_obj Type_Subscribe m_subscribeOps a (\<lambda>x c.
       if sb_suspended x \<or> msgId \<noteq> sb_msgId x then c
       else
         let c = timer_cancel (sb_timer x) c;
             topicPtr = subscribe_topic x;
             c = (case topicPtr of
                    Some t \<Rightarrow> if topicId \<noteq> 0 then ClientImpl_storeInRegTopic t topicId c else c
                  | None \<Rightarrow> c);
             c = (if topicPtr = None
                  then cl_assert ''handle_Suback: topicId''  (sb_topicId x \<noteq> 0)
                         (cl_assert ''handle_Suback: doesExist'' (sb_mode x \<noteq> Normal) c)
                  else c);
             c = c\<lparr>m_subFilters := subFilters_add topicPtr (sb_topicId x) (m_subFilters c)\<rparr>
         in SubscribeOp_completeOpInternal env St_Complete (Some (rc, qos)) a c)"

section \<open>UnsubscribeOp\<close>

definition UnsubscribeOp_timeoutInternal :: "cl_env \<Rightarrow> nat \<Rightarrow> client \<Rightarrow> client" where
  "UnsubscribeOp_timeoutInternal env a =
     on_obj Type_Unsubscribe m_unsubscribeOps a (\<lambda>x c.
       if ob_retryCount x = 0 then UnsubscribeOp_completeOpInternal env St_Timeout a c
       else
         let c = upd_unsubscribe a (\<lambda>x. x\<lparr>ob_retryCount := ob_retryCount x - 1\<rparr>) c;
             (ec, c) = UnsubscribeOp_sendInternal env a c
         in if ec \<noteq> Ec_Success
            then UnsubscribeOp_completeOpInternal env (translateErrorCodeToAsyncOpStatus ec) a c else c)"

definition UnsubscribeOp_handle_Unsuback :: "cl_env \<Rightarrow> u16 \<Rightarrow> nat \<Rightarrow> client \<Rightarrow> client" where
  "UnsubscribeOp_handle_Unsuback env msgId a =
     on_obj Type_Unsubscribe m_unsubscribeOps a (\<lambda>x c.
       if ub_suspended x \<or> msgId \<noteq> ub_msgId x then c
       else UnsubscribeOp_completeOpInternal env St_Complete a (timer_cancel (ub_timer x) c))"

section \<open>SendOp\<close>

definition SendOp_sendOrComplete :: "cl_env \<Rightarrow> nat \<Rightarrow> client \<Rightarrow> client" where
  "SendOp_sendOrComplete env a c =
     (let (ec, c) = SendOp_sendInternal env a c
      in if ec \<noteq> Ec_Success
         then SendOp_completeOpInternal env (translateErrorCodeToAsyncOpStatus ec) None a c else c)"

definition SendOp_timeoutInternal :: "cl_env \<Rightarrow> nat \<Rightarrow> client \<Rightarrow> client" where
  "SendOp_timeoutInternal env a =
     on_obj Type_Send m_sendOps a (\<lambda>so c.
       if ob_retryCount so = 0 then SendOp_completeOpInternal env St_Timeout None a c
       else SendOp_sendOrComplete env a (upd_send a (\<lambda>so. so\<lparr>ob_retryCount := ob_retryCount so - 1\<rparr>) c))"

definition SendOp_allocPacketIdsInternal :: "cl_env \<Rightarrow> nat \<Rightarrow> client \<Rightarrow> client" where
  "SendOp_allocPacketIdsInternal env a =
     on_obj Type_Send m_sendOps a (\<lambda>so c.
       let c = (if sn_stage so = Stage_Register
                then let (i, c) = ClientImpl_allocPacketId env c in upd_send a (\<lambda>so. so\<lparr>sn_regMsgId := i\<rparr>) c
                else c)
       in if sp_qos (sn_pub so) \<noteq> SN_AtMostOnceDelivery
          then let (i, c) = ClientImpl_allocPacketId env c
               in upd_send a (\<lambda>so. so\<lparr>sn_pub := (sn_pub so)\<lparr>sp_msgId := i\<rparr>\<rparr>) c
          else c)"

text \<open>The limit of the table of topics never exceeds its capacity, since every call that sets it checks this;
  the assertion that repeats the check is left out.\<close>

definition SendOp_handle_Regack :: "cl_env \<Rightarrow> u16 \<Rightarrow> u16 \<Rightarrow> return_code \<Rightarrow> nat \<Rightarrow> client \<Rightarrow> client" where
  "SendOp_handle_Regack env topicId msgId rc a =
     on_obj Type_Send m_sendOps a (\<lambda>so c.
       if sn_suspended so then c
       else if sn_stage so \<noteq> Stage_Register \<or> msgId \<noteq> sn_regMsgId so then c
       else if rc \<noteq> Accepted then SendOp_completeOpInternal env St_Complete (Some rc) a c
       else if \<not> isValidTopicId topicId then c
       else
         let c = cl_assert ''handle_Regack: topicStr'' (sn_regTopic so \<noteq> []) c;
             c = ClientImpl_storeOutRegTopic (sn_regTopic so) topicId c;
             c = upd_send a (\<lambda>so. so\<lparr>sn_stage := Stage_Publish, sn_pub := (sn_pub so)\<lparr>sp_topicId := topicId\<rparr>,
                                     ob_retryCount := sn_origRetryCount so\<rparr>) c
         in SendOp_sendOrComplete env a c)"

definition SendOp_handle_Puback :: "cl_env \<Rightarrow> u16 \<Rightarrow> u16 \<Rightarrow> return_code \<Rightarrow> nat \<Rightarrow> client \<Rightarrow> client" where
  "SendOp_handle_Puback env topicId msgId rc a =
     on_obj Type_Send m_sendOps a (\<lambda>so c.
       if sn_suspended so \<or> sn_stage so = Stage_Register \<or> msgId \<noteq> sp_msgId (sn_pub so) \<or>
          topicId \<noteq> sp_topicId (sn_pub so) then c
       else if rc = Accepted \<and> sp_qos (sn_pub so) \<noteq> SN_AtLeastOnceDelivery then c
       else if rc \<noteq> InvalidTopicId \<or> sp_topicIdType (sn_pub so) = PredefinedTopicId \<or>
               sp_topicIdType (sn_pub so) \<noteq> Normal \<or> sn_fullRetryRemCount so = 0
       then SendOp_completeOpInternal env St_Complete (Some rc) a c
       else
         let c = upd_send a (\<lambda>so. so\<lparr>sn_fullRetryRemCount := sn_fullRetryRemCount so - 1,
                                     sn_stage := Stage_Register, sn_pub := (sn_pub so)\<lparr>sp_dup := False\<rparr>\<rparr>) c;
             c = SendOp_releasePacketIdsInternal so c;
             c = SendOp_allocPacketIdsInternal env a c;
             c = upd_send a (\<lambda>so. so\<lparr>ob_retryCount := sn_origRetryCount so\<rparr>) c;
             (ec, c) = SendOp_sendInternal env a c
         in if ec \<noteq> Ec_Success
            then SendOp_completeOpInternal env (translateErrorCodeToAsyncOpStatus ec) (Some rc) a c else c)"

definition SendOp_handle_Pubrec :: "cl_env \<Rightarrow> u16 \<Rightarrow> nat \<Rightarrow> client \<Rightarrow> client" where
  "SendOp_handle_Pubrec env msgId a =
     on_obj Type_Send m_sendOps a (\<lambda>so c.
       if sn_suspended so \<or> sn_stage so = Stage_Register \<or> msgId \<noteq> sp_msgId (sn_pub so) then c
       else if sp_qos (sn_pub so) \<noteq> SN_ExactlyOnceDelivery then c
       else SendOp_sendOrComplete env a
              (upd_send a (\<lambda>so. so\<lparr>sn_stage := Stage_Acked, ob_retryCount := sn_origRetryCount so\<rparr>) c))"

definition SendOp_handle_Pubcomp :: "cl_env \<Rightarrow> u16 \<Rightarrow> nat \<Rightarrow> client \<Rightarrow> client" where
  "SendOp_handle_Pubcomp env msgId a =
     on_obj Type_Send m_sendOps a (\<lambda>so c.
       if sn_suspended so \<or> sn_stage so \<noteq> Stage_Acked \<or> msgId \<noteq> sp_msgId (sn_pub so) then c
       else SendOp_completeOpInternal env St_Complete None a c)"

section \<open>WillOp\<close>

definition WillOp_restartTimer :: "nat \<Rightarrow> cl_will_op \<Rightarrow> client \<Rightarrow> client" where
  "WillOp_restartTimer a x c = timer_wait (wo_timer x) (ucast (ob_retryPeriod x)) Cb_will (Some a) c"

definition WillOp_getMsg :: "cl_will_op \<Rightarrow> prot_msg" where
  "WillOp_getMsg x =
     (case wo_stage x of
        Stage_updTopic \<Rightarrow> WilltopicupdMsg_CL (if wo_flags x then Some (wo_qos x, wo_retain x) else None) (wo_topic x)
      | Stage_updMsg \<Rightarrow> WillmsgupdMsg_CL (wo_msg x))"

definition WillOp_sendInternal :: "cl_env \<Rightarrow> nat \<Rightarrow> client \<Rightarrow> error_code \<times> client" where
  "WillOp_sendInternal env a =
     on_obj_ec Type_Will m_willOps a (\<lambda>x c.
       let (ec, c) = ClientImpl_sendMessage env (WillOp_getMsg x) 0 c
       in (ec, if ec = Ec_Success then WillOp_restartTimer a x c else c))"

definition WillOp_sendOrComplete :: "cl_env \<Rightarrow> nat \<Rightarrow> client \<Rightarrow> client" where
  "WillOp_sendOrComplete env a c =
     (let (ec, c) = WillOp_sendInternal env a c
      in if ec \<noteq> Ec_Success
         then WillOp_completeOpInternal (translateErrorCodeToAsyncOpStatus ec) None a c else c)"

definition WillOp_timeoutInternal :: "cl_env \<Rightarrow> nat \<Rightarrow> client \<Rightarrow> client" where
  "WillOp_timeoutInternal env a =
     on_obj Type_Will m_willOps a (\<lambda>x c.
       if ob_retryCount x = 0 then WillOp_completeOpInternal St_Timeout None a c
       else WillOp_sendOrComplete env a (upd_will a (\<lambda>x. x\<lparr>ob_retryCount := ob_retryCount x - 1\<rparr>) c))"

definition WillOp_handle_Willtopicresp :: "cl_env \<Rightarrow> return_code \<Rightarrow> nat \<Rightarrow> client \<Rightarrow> client" where
  "WillOp_handle_Willtopicresp env rc a =
     on_obj Type_Will m_willOps a (\<lambda>x c.
       if wo_stage x \<noteq> Stage_updTopic then c
       else
         let c = upd_will a (\<lambda>x. x\<lparr>wo_topicUpdReturnCode := Some rc\<rparr>) c;
             info = Some (Some rc, wo_msgUpdReturnCode x)
         in if rc \<noteq> Accepted then WillOp_completeOpInternal St_Complete info a c
            else
              let c = c\<lparr>m_prevWill := (m_prevWill c)\<lparr>wi_topic := wo_topic x, wi_qos := wo_qos x,
                                                        wi_retain := wo_retain x\<rparr>\<rparr>;
                  c = upd_will a (\<lambda>x. x\<lparr>wo_stage := Stage_updMsg\<rparr>) c
              in if wo_msg x = wi_msg (m_prevWill c) then WillOp_completeOpInternal St_Complete info a c
                 else
                   let c = c\<lparr>m_prevWill := (m_prevWill c)\<lparr>wi_msg := []\<rparr>\<rparr>;
                       c = upd_will a (\<lambda>x. x\<lparr>ob_retryCount := wo_origRetryCount x\<rparr>) c
                   in WillOp_sendOrComplete env a c)"

definition WillOp_handle_Willmsgresp :: "return_code \<Rightarrow> nat \<Rightarrow> client \<Rightarrow> client" where
  "WillOp_handle_Willmsgresp rc a =
     on_obj Type_Will m_willOps a (\<lambda>x c.
       if wo_stage x \<noteq> Stage_updMsg then c
       else
         let c = (if rc = Accepted then c\<lparr>m_prevWill := (m_prevWill c)\<lparr>wi_msg := wo_msg x\<rparr>\<rparr> else c);
             c = upd_will a (\<lambda>x. x\<lparr>wo_msgUpdReturnCode := Some rc\<rparr>) c
         in WillOp_completeOpInternal St_Complete (Some (wo_topicUpdReturnCode x, Some rc)) a c)"

end
