(* ===== verification/Cl_Client.thy ===== *)
theory Cl_Client
  imports Cl_Ops
begin

text \<open>
  \<^verbatim>\<open>ClientImpl\<close>: the handlers of received messages, gateway discovery, timers and the bracket around a
  call of the application. The frame that decodes bytes is a parameter: \<^verbatim>\<open>processData\<close> gets the
  message it decodes, none when decoding fails. What the application answers when it is asked for
  the time since the last tick was programmed is an argument of the calls.
\<close>

section \<open>Dispatching to operations\<close>

definition Op_handle :: "cl_env \<Rightarrow> prot_msg \<Rightarrow> op_ptr \<Rightarrow> client \<Rightarrow> client" where
  "Op_handle env msg p =
     (case p of
        (Type_Search, a) \<Rightarrow> (case msg of
            AdvertiseMsg_CL gwId _ \<Rightarrow> SearchOp_handle_Advertise gwId a
          | GwinfoMsg_CL gwId addr \<Rightarrow> SearchOp_handle_Gwinfo gwId addr a
          | _ \<Rightarrow> id)
      | (Type_Connect, a) \<Rightarrow> (case msg of
            WilltopicreqMsg_CL \<Rightarrow> ConnectOp_handle_Willtopicreq env a
          | WillmsgreqMsg_CL \<Rightarrow> ConnectOp_handle_Willmsgreq env a
          | ConnackMsg_CL rc \<Rightarrow> ConnectOp_handle_Connack env rc a
          | _ \<Rightarrow> id)
      | (Type_KeepAlive, a) \<Rightarrow> (case msg of
            PingreqMsg_CL _ \<Rightarrow> KeepAliveOp_handle_Pingreq env a
          | PingrespMsg_CL \<Rightarrow> KeepAliveOp_handle_Pingresp a
          | _ \<Rightarrow> KeepAliveOp_handle_ProtMessage a)
      | (Type_Disconnect, a) \<Rightarrow> (case msg of
            DisconnectMsg_CL _ \<Rightarrow> DisconnectOp_handle_Disconnect env a
          | _ \<Rightarrow> id)
      | (Type_Subscribe, a) \<Rightarrow> (case msg of
            SubackMsg_CL qos topicId msgId rc \<Rightarrow> SubscribeOp_handle_Suback env qos topicId msgId rc a
          | _ \<Rightarrow> id)
      | (Type_Unsubscribe, a) \<Rightarrow> (case msg of
            UnsubackMsg_CL msgId \<Rightarrow> UnsubscribeOp_handle_Unsuback env msgId a
          | _ \<Rightarrow> id)
      | (Type_Send, a) \<Rightarrow> (case msg of
            RegackMsg_CL topicId msgId rc \<Rightarrow> SendOp_handle_Regack env topicId msgId rc a
          | PubackMsg_CL topicId msgId rc \<Rightarrow> SendOp_handle_Puback env topicId msgId rc a
          | PubrecMsg_CL msgId \<Rightarrow> SendOp_handle_Pubrec env msgId a
          | PubcompMsg_CL msgId \<Rightarrow> SendOp_handle_Pubcomp env msgId a
          | _ \<Rightarrow> id)
      | (Type_Will, a) \<Rightarrow> (case msg of
            WilltopicrespMsg_CL rc \<Rightarrow> WillOp_handle_Willtopicresp env rc a
          | WillmsgrespMsg_CL rc \<Rightarrow> WillOp_handle_Willmsgresp rc a
          | _ \<Rightarrow> id))"

definition dispatch_keepAlive :: "cl_env \<Rightarrow> prot_msg \<Rightarrow> client \<Rightarrow> client" where
  "dispatch_keepAlive env msg c = fold (\<lambda>(a, _). Op_handle env msg (Type_KeepAlive, a)) (m_keepAliveOps c) c"

section \<open>Gateway discovery\<close>

definition ClientImpl_reportGwStatus :: "gw_status \<Rightarrow> gw_info \<Rightarrow> client \<Rightarrow> client" where
  "ClientImpl_reportGwStatus status info c =
     (if \<not> cb_gatewayStatus (cbs c) then c else cl_emit (Out_GatewayStatus status (gi_gwId info) (gi_addr info)) c)"

definition ClientImpl_monitorGatewayExpiry :: "client \<Rightarrow> client" where
  "ClientImpl_monitorGatewayExpiry c =
     (let infos = m_gwInfos c;
          c = cl_assert ''monitorGatewayExpiry: m_expiryTimestamp''
                (length infos < 2 \<or> (\<forall>info \<in> set infos. gi_expiryTimestamp info \<noteq> 0)) c
      in if infos = [] then c
         else
           let iter = infos ! min_element gi_expiryTimestamp infos;
               c = cl_assert ''monitorGatewayExpiry: m_timestamp'' (m_timestamp c < gi_expiryTimestamp iter) c
           in timer_wait (m_gwDiscoveryTimer c) (gi_expiryTimestamp iter - m_timestamp c) Cb_gwExpiry None c)"

text \<open>One round of the loop of \<^verbatim>\<open>gwExpiryTimeout\<close>: the entry afterwards, and what is reported.\<close>

definition gwExpiry_round :: "gw_info \<Rightarrow> gw_info list \<times> client \<Rightarrow> gw_info list \<times> client" where
  "gwExpiry_round info = (\<lambda>(done, c).
     if m_timestamp c < gi_expiryTimestamp info then (done @ [info], c)
     else if gi_allowedAdvLosses info = 0 then (done @ [info], ClientImpl_reportGwStatus Gw_Removed info c)
     else
       let info = info\<lparr>gi_allowedAdvLosses := gi_allowedAdvLosses info - 1,
                       gi_expiryTimestamp := gi_expiryTimestamp info + ucast (gi_duration info)\<rparr>
       in (done @ [info], ClientImpl_reportGwStatus Gw_Tentative info c))"

definition ClientImpl_gwExpiryTimeout :: "client \<Rightarrow> client" where
  "ClientImpl_gwExpiryTimeout c =
     (let (infos, c) = fold gwExpiry_round (m_gwInfos c) ([], c);
          c = c\<lparr>m_gwInfos := filter (\<lambda>info. \<not> gi_expiryTimestamp info \<le> m_timestamp c) infos\<rparr>
      in ClientImpl_monitorGatewayExpiry c)"

definition gwinfo_less :: "gw_info \<Rightarrow> gw_info \<Rightarrow> bool" where
  "gwinfo_less x y \<longleftrightarrow>
     (if gi_addr x = [] then gi_addr y \<noteq> []
      else if gi_addr y = [] then False
      else gi_expiryTimestamp x < gi_expiryTimestamp y)"

fun max_gwinfo :: "gw_info \<Rightarrow> gw_info list \<Rightarrow> gw_info" where
  "max_gwinfo x [] = x"
| "max_gwinfo x (y # ys) = max_gwinfo (if gwinfo_less x y then y else x) ys"

definition ClientImpl_sendGwinfo :: "cl_env \<Rightarrow> client \<Rightarrow> client" where
  "ClientImpl_sendGwinfo env c =
     (case m_gwInfos c of
        [] \<Rightarrow> c
      | x # xs \<Rightarrow>
          let iter = max_gwinfo x xs
          in if gi_addr iter = [] then c
             else if env_gwinfoAddr env < length (gi_addr iter) then c
             else snd (ClientImpl_sendMessage env (GwinfoMsg_CL (gi_gwId iter) (gi_addr iter))
                         (max (m_pendingGwinfoBroadcastRadius c) 1) c))"

text \<open>The status is reported after the search operations have got the message.\<close>

definition dispatch_search :: "cl_env \<Rightarrow> prot_msg \<Rightarrow> client \<Rightarrow> client" where
  "dispatch_search env msg c = fold (\<lambda>(a, _). Op_handle env msg (Type_Search, a)) (m_searchOps c) c"

definition report_opt :: "(gw_status \<times> gw_info) option \<Rightarrow> client \<Rightarrow> client" where
  "report_opt r c = (case r of None \<Rightarrow> c | Some (status, info) \<Rightarrow> ClientImpl_reportGwStatus status info c)"

definition ClientImpl_handle_Advertise :: "cl_env \<Rightarrow> u8 \<Rightarrow> u16 \<Rightarrow> client \<Rightarrow> client" where
  "ClientImpl_handle_Advertise env gwId dur c =
     (let c = timer_cancel (m_gwDiscoveryTimer c) c;
          duration = ucast dur * 1000;
          nextExpiryTimestamp = m_timestamp c + ucast duration + ucast (cfg_retryPeriod (m_configState c));
          losses = cfg_allowedAdvLosses (m_configState c);
          (report, c) =
            (case List.find (\<lambda>info. gi_gwId info = gwId) (m_gwInfos c) of
               Some info \<Rightarrow>
                 let info = info\<lparr>gi_expiryTimestamp := nextExpiryTimestamp, gi_duration := duration,
                                 gi_allowedAdvLosses := losses\<rparr>
                 in (Some (Gw_Alive, info),
                     c\<lparr>m_gwInfos := update_first (\<lambda>info. gi_gwId info = gwId) (\<lambda>_. info) (m_gwInfos c)\<rparr>)
             | None \<Rightarrow>
                 if env_gwInfos env \<le> length (m_gwInfos c) then (None, c)
                 else
                   let info = \<lparr>gi_expiryTimestamp = nextExpiryTimestamp, gi_addr = [], gi_duration = duration,
                               gi_allowedAdvLosses = losses, gi_gwId = gwId\<rparr>
                   in (Some (Gw_AddedByGateway, info), c\<lparr>m_gwInfos := m_gwInfos c @ [info]\<rparr>));
          c = dispatch_search env (AdvertiseMsg_CL gwId dur) c
      in ClientImpl_monitorGatewayExpiry (report_opt report c))"

definition ClientImpl_handle_Searchgw :: "u8 \<Rightarrow> client \<Rightarrow> client" where
  "ClientImpl_handle_Searchgw radius c =
     (if se_lastOrigin (m_sessionState c) \<noteq> Origin_Any then c
      else case cb_gwinfoDelayReq (cbs c) of
        None \<Rightarrow> c
      | Some delay \<Rightarrow>
          if m_gwInfos c = [] then c
          else if delay = 0 then c
          else timer_wait (m_sendGwinfoTimer c) (ucast delay) Cb_sendGwinfo None
                 (c\<lparr>m_pendingGwinfoBroadcastRadius := ucast radius\<rparr>))"

text \<open>The address of a new gateway is kept whole, as in builds whose addresses have no fixed capacity.\<close>

definition ClientImpl_handle_Gwinfo :: "cl_env \<Rightarrow> u8 \<Rightarrow> u8 list \<Rightarrow> client \<Rightarrow> client" where
  "ClientImpl_handle_Gwinfo env gwId addr c =
     (let c = timer_cancel (m_sendGwinfoTimer c) c;
          upd = (\<lambda>info. c\<lparr>m_gwInfos := update_first (\<lambda>info. gi_gwId info = gwId) (\<lambda>_. info) (m_gwInfos c)\<rparr>);
          (report, c) =
            (case List.find (\<lambda>info. gi_gwId info = gwId) (m_gwInfos c) of
               Some info \<Rightarrow>
                 if addr = [] then
                   let info = info\<lparr>gi_allowedAdvLosses := cfg_allowedAdvLosses (m_configState c)\<rparr>
                   in (Some (Gw_Alive, info), upd info)
                 else if env_gwAddr env < length addr then (None, c)
                 else if addr = gi_addr info then (None, c)
                 else
                   let info = info\<lparr>gi_addr := addr\<rparr>
                   in (Some (Gw_UpdatedByClient, info), upd info)
             | None \<Rightarrow>
                 if env_gwInfos env \<le> length (m_gwInfos c) then (None, c)
                 else
                   let info = \<lparr>gi_expiryTimestamp = m_timestamp c + ucast (cfg_gwAdvTimeoutMs (m_configState c)) +
                                 ucast (cfg_retryPeriod (m_configState c)),
                               gi_addr = addr, gi_duration = cfg_gwAdvTimeoutMs (m_configState c),
                               gi_allowedAdvLosses = cfg_allowedAdvLosses (m_configState c), gi_gwId = gwId\<rparr>
                   in (Some (if addr = [] then Gw_AddedByGateway else Gw_AddedByClient, info),
                       ClientImpl_monitorGatewayExpiry (c\<lparr>m_gwInfos := m_gwInfos c @ [info]\<rparr>)));
          c = dispatch_search env (GwinfoMsg_CL gwId addr) c
      in report_opt report c)"

section \<open>Received registrations and publications\<close>

definition from_gateway :: "client \<Rightarrow> bool" where
  "from_gateway c \<longleftrightarrow> se_lastOrigin (m_sessionState c) = Origin_ConnectedGw \<and> \<not> se_disconnecting (m_sessionState c) \<and>
     se_connectionStatus (m_sessionState c) \<noteq> Disconnected"

definition ClientImpl_verifyPubTopic :: "string \<Rightarrow> bool \<Rightarrow> client \<Rightarrow> bool" where
  "ClientImpl_verifyPubTopic topic outgoing c =
     verifyPubTopicInternal (cfg_verifyOutgoingTopic (m_configState c)) (cfg_verifyIncomingTopic (m_configState c))
       topic outgoing"

definition ClientImpl_handle_Register :: "cl_env \<Rightarrow> u16 \<Rightarrow> u16 \<Rightarrow> string \<Rightarrow> client \<Rightarrow> client" where
  "ClientImpl_handle_Register env topicId msgId topic c =
     (if \<not> from_gateway c then c
      else
        let c = dispatch_keepAlive env (RegisterMsg_CL topicId msgId topic) c;
            (rc, c) =
              (if topic = [] \<or> \<not> ClientImpl_verifyPubTopic (c_str topic) False c then (NotSupported, c)
               else if \<not> isValidTopicId topicId then (InvalidTopicId, c)
               else (Accepted, ClientImpl_storeInRegTopic (c_str topic) topicId c))
        in snd (ClientImpl_sendMessage env (RegackMsg_CL topicId msgId rc) 0 c))"

definition send_puback :: "cl_env \<Rightarrow> sn_publish \<Rightarrow> return_code \<Rightarrow> client \<Rightarrow> client" where
  "send_puback env pub rc c = snd (ClientImpl_sendMessage env (PubackMsg_CL (sp_topicId pub) (sp_msgId pub) rc) 0 c)"

text \<open>The topic of a publication: found by its id among the incoming, then the outgoing
  registrations, or in the id itself.\<close>

definition inReg_lookup :: "u16 \<Rightarrow> reg_topics \<Rightarrow> string option" where
  "inReg_lookup i regs =
     (let iter = lower_bound rt_topicId i (m_inRegTopics regs)
      in if iter \<noteq> [] \<and> rt_topicId (hd iter) = i then Some (rt_topic (hd iter)) else None)"

definition outReg_lookup :: "u16 \<Rightarrow> reg_topics \<Rightarrow> string option" where
  "outReg_lookup i regs = map_option rt_topic (List.find (\<lambda>info. rt_topicId info = i) (m_outRegTopics regs))"

definition publish_topic :: "sn_publish \<Rightarrow> client \<Rightarrow> string option \<times> client" where
  "publish_topic pub c =
     (case sp_topicIdType pub of
        Normal \<Rightarrow>
          (case inReg_lookup (sp_topicId pub) (m_regs c) of
             Some t \<Rightarrow> (Some t, cl_assert ''handle_Publish: inIter'' (t \<noteq> []) c)
           | None \<Rightarrow>
               (case outReg_lookup (sp_topicId pub) (m_regs c) of
                  Some t \<Rightarrow> (Some t, ClientImpl_storeInRegTopic (c_str t) (sp_topicId pub)
                               (cl_assert ''handle_Publish: outIter'' (t \<noteq> []) c))
                | None \<Rightarrow> (None, c)))
      | ShortTopicName \<Rightarrow>
          (Some [char_of (unat (drop_bit 8 (sp_topicId pub))), char_of (unat (take_bit 8 (sp_topicId pub)))], c)
      | _ \<Rightarrow> (Some [], c))"

fun find_matching_filter :: "sub_filter list \<Rightarrow> string \<Rightarrow> client \<Rightarrow> bool \<times> client" where
  "find_matching_filter [] topic c = (False, c)"
| "find_matching_filter (f # fs) topic c =
     (case isTopicMatch (sf_topic f) topic of
        Some True \<Rightarrow> (True, c)
      | Some False \<Rightarrow> find_matching_filter fs topic c
      | None \<Rightarrow> find_matching_filter fs topic (cl_fault (UndefinedRead ''isTopicMatch'') c))"

definition publish_subscribed :: "sn_publish \<Rightarrow> string \<Rightarrow> client \<Rightarrow> bool \<times> client" where
  "publish_subscribed pub topic c =
     (if \<not> cfg_verifySubFilter (m_configState c) then (True, c)
      else if sp_topicIdType pub = PredefinedTopicId
      then (\<exists>f \<in> set (m_subFilters c). sf_topicId f = sp_topicId pub \<and> sf_topic f = [], c)
      else if topic = [] then (False, c)
      else find_matching_filter (m_subFilters c) topic c)"

definition report_publish :: "sn_publish \<Rightarrow> string \<Rightarrow> client \<Rightarrow> client" where
  "report_publish pub topic c =
     cl_emit (Out_MessageReceived (c_str topic) (if topic = [] then sp_topicId pub else 0) (sp_data pub) (sp_qos pub)
             (sp_retain pub))
       (cl_assert ''handle_Publish: m_messageReceivedReportCb'' (cb_messageReceived (cbs c)) c)"

definition send_pubrec :: "cl_env \<Rightarrow> sn_publish \<Rightarrow> client \<Rightarrow> client" where
  "send_pubrec env pub c = snd (ClientImpl_sendMessage env (PubrecMsg_CL (sp_msgId pub)) 0 c)"

definition publish_qos2 :: "cl_env \<Rightarrow> sn_publish \<Rightarrow> string \<Rightarrow> client \<Rightarrow> client" where
  "publish_qos2 env pub topic c =
     (if m_lastRecvMsgId c \<noteq> 0 \<and> m_lastRecvMsgId c = sp_msgId pub then
        (if \<not> sp_dup pub then c else send_pubrec env pub c)
      else
        let c = c\<lparr>m_lastRecvMsgId := sp_msgId pub\<rparr>;
            c = send_pubrec env pub c
        in report_publish pub topic c)"

definition ClientImpl_handle_Publish :: "cl_env \<Rightarrow> sn_publish \<Rightarrow> client \<Rightarrow> client" where
  "ClientImpl_handle_Publish env pub c =
     (if \<not> from_gateway c then c
      else
        let c = dispatch_keepAlive env (PublishMsg_CL pub) c
        in if sp_qos pub = SN_NoGwPublish then send_puback env pub NotSupported c
           else
             let (found, c) = publish_topic pub c
             in case found of
                  None \<Rightarrow> send_puback env pub InvalidTopicId c
                | Some topic \<Rightarrow>
                    let (subscribed, c) = publish_subscribed pub topic c
                    in if \<not> subscribed then c
                       else if sp_qos pub = SN_AtMostOnceDelivery then report_publish pub topic c
                       else if sp_qos pub = SN_AtLeastOnceDelivery
                       then report_publish pub topic (send_puback env pub Accepted (c\<lparr>m_lastRecvMsgId := 0\<rparr>))
                       else publish_qos2 env pub topic c)"

definition ClientImpl_handle_Puback :: "cl_env \<Rightarrow> u16 \<Rightarrow> u16 \<Rightarrow> return_code \<Rightarrow> client \<Rightarrow> client" where
  "ClientImpl_handle_Puback env topicId msgId rc c =
     (if \<not> from_gateway c then c
      else
        let c = dispatch_keepAlive env (PubackMsg_CL topicId msgId rc) c;
            iter = List.find (\<lambda>(_, so). sp_msgId (sn_pub so) = msgId) (m_sendOps c);
            c = (if rc = InvalidTopicId
                 then c\<lparr>m_regs := (m_regs c)\<lparr>m_outRegTopics :=
                        filter (\<lambda>info. rt_topicId info \<noteq> topicId) (m_outRegTopics (m_regs c))\<rparr>\<rparr>
                 else c)
        in case iter of None \<Rightarrow> c
           | Some (a, _) \<Rightarrow> Op_handle env (PubackMsg_CL topicId msgId rc) (Type_Send, a) c)"

definition ClientImpl_handle_Pubrel :: "cl_env \<Rightarrow> u16 \<Rightarrow> client \<Rightarrow> client" where
  "ClientImpl_handle_Pubrel env msgId c =
     (if \<not> from_gateway c then c
      else
        let c = (if m_lastRecvMsgId c = msgId then c\<lparr>m_lastRecvMsgId := 0\<rparr> else c)
        in snd (ClientImpl_sendMessage env (PubcompMsg_CL msgId) 0 c))"

definition ClientImpl_handle_Pingreq :: "cl_env \<Rightarrow> string \<Rightarrow> client \<Rightarrow> client" where
  "ClientImpl_handle_Pingreq env cid c =
     (if se_lastOrigin (m_sessionState c) \<noteq> Origin_ConnectedGw then c
      else if se_disconnecting (m_sessionState c) \<or> se_connectionStatus (m_sessionState c) \<noteq> Connected then c
      else dispatch_keepAlive env (PingreqMsg_CL cid) c)"

definition ClientImpl_handle_Disconnect :: "cl_env \<Rightarrow> u16 option \<Rightarrow> client \<Rightarrow> client" where
  "ClientImpl_handle_Disconnect env d c =
     (if \<not> from_gateway c then c
      else if m_disconnectOps c = []
      then ClientImpl_gatewayDisconnected env (Some Reason_DisconnectMsg) St_GatewayDisconnected c
      else fold (\<lambda>(a, _). Op_handle env (DisconnectMsg_CL d) (Type_Disconnect, a)) (m_disconnectOps c) c)"

text \<open>The loop over the operations by index; operations that are added meanwhile do not get the
  message, and the loop ends when the session is being disconnected.\<close>

fun dispatch_loop :: "cl_env \<Rightarrow> prot_msg \<Rightarrow> nat list \<Rightarrow> client \<Rightarrow> client" where
  "dispatch_loop env msg [] c = c"
| "dispatch_loop env msg (i # is) c =
     (case m_ops c ! i of
        None \<Rightarrow> dispatch_loop env msg is c
      | Some p \<Rightarrow>
          let c = Op_handle env msg p c
          in if se_disconnecting (m_sessionState c) then c else dispatch_loop env msg is c)"

definition ClientImpl_handle_ProtMessage :: "cl_env \<Rightarrow> prot_msg \<Rightarrow> client \<Rightarrow> client" where
  "ClientImpl_handle_ProtMessage env msg c =
     (if se_lastOrigin (m_sessionState c) \<noteq> Origin_ConnectedGw then c
      else if se_disconnecting (m_sessionState c) then c
      else dispatch_loop env msg [0..<length (m_ops c)] c)"

text \<open>The messages the frame accepts as input; others fail to decode.\<close>

definition ClientImpl_handle :: "cl_env \<Rightarrow> prot_msg \<Rightarrow> client \<Rightarrow> client" where
  "ClientImpl_handle env msg =
     (case msg of
        AdvertiseMsg_CL gwId dur \<Rightarrow> ClientImpl_handle_Advertise env gwId dur
      | SearchgwMsg_CL radius \<Rightarrow> ClientImpl_handle_Searchgw radius
      | GwinfoMsg_CL gwId addr \<Rightarrow> ClientImpl_handle_Gwinfo env gwId addr
      | RegisterMsg_CL topicId msgId topic \<Rightarrow> ClientImpl_handle_Register env topicId msgId topic
      | PublishMsg_CL pub \<Rightarrow> ClientImpl_handle_Publish env pub
      | PubackMsg_CL topicId msgId rc \<Rightarrow> ClientImpl_handle_Puback env topicId msgId rc
      | PubrelMsg_CL msgId \<Rightarrow> ClientImpl_handle_Pubrel env msgId
      | PingreqMsg_CL cid \<Rightarrow> ClientImpl_handle_Pingreq env cid
      | DisconnectMsg_CL d \<Rightarrow> ClientImpl_handle_Disconnect env d
      | _ \<Rightarrow> ClientImpl_handle_ProtMessage env msg)"

section \<open>Timers and the bracket of a call\<close>

definition timer_callback :: "cl_env \<Rightarrow> timeout_cb \<times> nat option \<Rightarrow> client \<Rightarrow> client" where
  "timer_callback env e =
     (case e of
        (Cb_gwExpiry, _) \<Rightarrow> ClientImpl_gwExpiryTimeout
      | (Cb_sendGwinfo, _) \<Rightarrow> ClientImpl_sendGwinfo env
      | (_, None) \<Rightarrow> id
      | (Cb_search, Some a) \<Rightarrow> SearchOp_timeoutInternal env a
      | (Cb_connect, Some a) \<Rightarrow> ConnectOp_timeoutInternal env a
      | (Cb_sendPing, Some a) \<Rightarrow> KeepAliveOp_sendPing env a
      | (Cb_recvTimeout, Some a) \<Rightarrow> KeepAliveOp_sendPing env a
      | (Cb_pingTimeout, Some a) \<Rightarrow> KeepAliveOp_pingTimeoutInternal env a
      | (Cb_disconnect, Some a) \<Rightarrow> DisconnectOp_timeoutInternal env a
      | (Cb_subscribe, Some a) \<Rightarrow> SubscribeOp_timeoutInternal env a
      | (Cb_unsubscribe, Some a) \<Rightarrow> UnsubscribeOp_timeoutInternal env a
      | (Cb_send, Some a) \<Rightarrow> SendOp_timeoutInternal env a
      | (Cb_will, Some a) \<Rightarrow> WillOp_timeoutInternal env a)"

definition cl_tick_timers :: "cl_env \<Rightarrow> u32 \<Rightarrow> client \<Rightarrow> client" where
  "cl_tick_timers env ms c =
     (let (events, tm) = TimerMgr_tick ms (m_timerMgr c)
      in fold (timer_callback env) events (c\<lparr>m_timerMgr := tm\<rparr>))"

definition ClientImpl_doApiEnter :: "cl_env \<Rightarrow> u32 \<Rightarrow> client \<Rightarrow> client" where
  "ClientImpl_doApiEnter env elapsed c =
     (let c = c\<lparr>m_apiEnterCount := m_apiEnterCount c + 1\<rparr>
      in if m_apiEnterCount c > 1 \<or> \<not> cb_cancelNextTickWait (cbs c) then c
         else if getMinWait (m_timerMgr c) = 0 then c
         else
           let c = cl_emit Out_CancelTick c;
               c = c\<lparr>m_timestamp := m_timestamp c + ucast elapsed\<rparr>
           in cl_tick_timers env elapsed c)"

definition ClientImpl_cleanOps :: "client \<Rightarrow> client" where
  "ClientImpl_cleanOps c =
     (if \<not> m_opsDeleted c then c
      else c\<lparr>m_ops := filter (\<lambda>p. p \<noteq> None) (m_ops c), m_opsDeleted := False\<rparr>)"

definition ClientImpl_doApiExit :: "client \<Rightarrow> client" where
  "ClientImpl_doApiExit c =
     (let c = cl_assert ''doApiExit: m_apiEnterCount'' (m_apiEnterCount c > 0) c;
          c = c\<lparr>m_apiEnterCount := m_apiEnterCount c - 1\<rparr>
      in if m_apiEnterCount c > 0 then c
         else
           let c = ClientImpl_cleanOps c
           in if \<not> cb_nextTickProgram (cbs c) then c
              else
                let nextWait = getMinWait (m_timerMgr c)
                in if nextWait = 0 then c else cl_emit (Out_ProgramTick nextWait) c)"

definition ClientImpl_tick :: "cl_env \<Rightarrow> u32 \<Rightarrow> client \<Rightarrow> client" where
  "ClientImpl_tick env ms c =
     (let c = cl_assert ''tick: m_apiEnterCount'' (m_apiEnterCount c = 0) c;
          c = c\<lparr>m_apiEnterCount := m_apiEnterCount c + 1, m_timestamp := m_timestamp c + ucast ms\<rparr>
      in ClientImpl_doApiExit (cl_tick_timers env ms c))"

definition ClientImpl_processData :: "cl_env \<Rightarrow> u32 \<Rightarrow> prot_msg option \<Rightarrow> data_origin \<Rightarrow> client \<Rightarrow> client" where
  "ClientImpl_processData env elapsed msg origin c =
     (let c = ClientImpl_doApiEnter env elapsed c;
          c = upd_session (\<lambda>s. s\<lparr>se_lastOrigin := origin\<rparr>) c;
          c = (case msg of None \<Rightarrow> c | Some m \<Rightarrow> ClientImpl_handle env m c)
      in ClientImpl_doApiExit c)"

end
