(* ===== verification/Cl_Api.thy ===== *)
theory Cl_Api
  imports Cl_Client
begin

text \<open>
  The calls of the application: preparing, configuring, sending and cancelling an operation, from
  \<^verbatim>\<open>ClientImpl.cpp\<close> and the classes of \<^verbatim>\<open>src/client/lib/src/op\<close>. A pointer that may be null is an option.
  A \<^verbatim>\<open>send\<close> completes its operation when it fails, after the bracket of the call has been left.
\<close>

section \<open>The client\<close>

definition callbacks_none :: cl_callbacks where
  "callbacks_none = \<lparr>cb_nextTickProgram = False, cb_cancelNextTickWait = False, cb_sendOutputData = False,
     cb_gatewayStatus = False, cb_gatewayDisconnected = False, cb_messageReceived = False, cb_gwinfoDelayReq = None\<rparr>"

text \<open>The constructor: two timers, and the limits of the tables of registrations.\<close>

definition ClientImpl_init :: "cl_env \<Rightarrow> nat \<Rightarrow> nat \<Rightarrow> client" where
  "ClientImpl_init env maxIn maxOut =
     (let c = \<lparr>cbs = callbacks_none, m_configState = ConfigState_init, m_sessionState = cl_SessionState_init,
               m_gwInfos = [], m_pids = \<lparr>m_allocatedPacketIds = [], m_lastPacketId = 0, pid_faults = []\<rparr>,
               m_timestamp = 0, m_initialized = False, m_firstConnect = True, m_subFilters = [],
               m_regs = reg_topics_init maxIn maxOut, m_lastRecvMsgId = 0, m_prevWill = WillInfo_init,
               m_timerMgr = TimerMgr_init, m_gwDiscoveryTimer = InvalidIdx, m_sendGwinfoTimer = InvalidIdx,
               m_apiEnterCount = 0, m_searchOps = [], m_connectOps = [], m_keepAliveOps = [],
               m_disconnectOps = [], m_subscribeOps = [], m_unsubscribeOps = [], m_sendOps = [], m_willOps = [],
               m_ops = [], m_nextAddr = 0, m_pendingGwinfoBroadcastRadius = 0, m_opsDeleted = False,
               m_preparationLocked = False, out = [], cl_faults = []\<rparr>;
          (t1, c) = timer_alloc env c;
          (t2, c) = timer_alloc env c
      in c\<lparr>m_gwDiscoveryTimer := t1, m_sendGwinfoTimer := t2\<rparr>)"

text \<open>The setters of the callbacks; a null pointer changes nothing, except for the request of a delay.\<close>

definition ClientImpl_setNextTickProgramCallback :: "bool \<Rightarrow> client \<Rightarrow> client" where
  "ClientImpl_setNextTickProgramCallback cb c = (if cb then c\<lparr>cbs := (cbs c)\<lparr>cb_nextTickProgram := True\<rparr>\<rparr> else c)"

definition ClientImpl_setCancelNextTickWaitCallback :: "bool \<Rightarrow> client \<Rightarrow> client" where
  "ClientImpl_setCancelNextTickWaitCallback cb c = (if cb then c\<lparr>cbs := (cbs c)\<lparr>cb_cancelNextTickWait := True\<rparr>\<rparr> else c)"

definition ClientImpl_setSendOutputDataCallback :: "bool \<Rightarrow> client \<Rightarrow> client" where
  "ClientImpl_setSendOutputDataCallback cb c = (if cb then c\<lparr>cbs := (cbs c)\<lparr>cb_sendOutputData := True\<rparr>\<rparr> else c)"

definition ClientImpl_setGatewayStatusReportCallback :: "bool \<Rightarrow> client \<Rightarrow> client" where
  "ClientImpl_setGatewayStatusReportCallback cb c = (if cb then c\<lparr>cbs := (cbs c)\<lparr>cb_gatewayStatus := True\<rparr>\<rparr> else c)"

definition ClientImpl_setGatewayDisconnectedReportCallback :: "bool \<Rightarrow> client \<Rightarrow> client" where
  "ClientImpl_setGatewayDisconnectedReportCallback cb c = (if cb then c\<lparr>cbs := (cbs c)\<lparr>cb_gatewayDisconnected := True\<rparr>\<rparr> else c)"

definition ClientImpl_setMessageReceivedCallback :: "bool \<Rightarrow> client \<Rightarrow> client" where
  "ClientImpl_setMessageReceivedCallback cb c = (if cb then c\<lparr>cbs := (cbs c)\<lparr>cb_messageReceived := True\<rparr>\<rparr> else c)"

definition ClientImpl_setGwinfoDelayReqCb :: "u32 option \<Rightarrow> client \<Rightarrow> client" where
  "ClientImpl_setGwinfoDelayReqCb cb c = c\<lparr>cbs := (cbs c)\<lparr>cb_gwinfoDelayReq := cb\<rparr>\<rparr>"

definition ClientImpl_allowNextPrepare :: "client \<Rightarrow> client" where
  "ClientImpl_allowNextPrepare c =
     (cl_assert ''allowNextPrepare: m_preparationLocked'' (m_preparationLocked c) c)\<lparr>m_preparationLocked := False\<rparr>"

definition ClientImpl_initInternal :: "cl_env \<Rightarrow> u32 \<Rightarrow> client \<Rightarrow> error_code \<times> client" where
  "ClientImpl_initInternal env elapsed c =
     (let c = ClientImpl_doApiEnter env elapsed c;
          (ec, c) =
            (if \<not> cb_sendOutputData (cbs c) \<or> \<not> cb_messageReceived (cbs c) \<or> \<not> cb_gatewayDisconnected (cbs c)
             then (Ec_NotIntitialized, c)
             else if cb_nextTickProgram (cbs c) \<noteq> cb_cancelNextTickWait (cbs c) then (Ec_NotIntitialized, c)
             else if \<not> Timer_isValid (m_gwDiscoveryTimer c) \<or> \<not> Timer_isValid (m_sendGwinfoTimer c)
             then (Ec_OutOfMemory, c)
             else
               let c = ClientImpl_terminateOps env St_Aborted c
               in (Ec_Success, c\<lparr>m_sessionState := cl_SessionState_init, m_initialized := True\<rparr>))
      in (ec, ClientImpl_doApiExit c))"

definition init_if_needed :: "cl_env \<Rightarrow> u32 \<Rightarrow> client \<Rightarrow> error_code \<times> client" where
  "init_if_needed env elapsed c =
     (if m_initialized c then (Ec_Success, c)
      else if m_apiEnterCount c > 0 then (Ec_RetryLater, c)
      else ClientImpl_initInternal env elapsed c)"

text \<open>The destructor.\<close>

definition ClientImpl_destroy :: "cl_env \<Rightarrow> client \<Rightarrow> client" where
  "ClientImpl_destroy env c =
     ClientImpl_terminateOps env St_Aborted (cl_assert ''~ClientImpl: m_apiEnterCount'' (m_apiEnterCount c = 0) c)"

section \<open>Preparing an operation\<close>

text \<open>The last checks before an operation is created, in the order of the code: room in \<^verbatim>\<open>m_ops\<close>, no
  other operation in preparation, and memory.\<close>

definition prepare_checks :: "cl_env \<Rightarrow> op_type \<Rightarrow> nat \<Rightarrow> client \<Rightarrow> error_code" where
  "prepare_checks env ty n c =
     (if env_opsLimit env \<le> length (m_ops c) then Ec_RetryLater
      else if m_preparationLocked c then Ec_PreparationLocked
      else if env_pool env ty \<le> n then Ec_OutOfMemory
      else Ec_Success)"

definition op_created :: "op_type \<Rightarrow> client \<Rightarrow> nat \<times> client" where
  "op_created ty c =
     (m_nextAddr c, c\<lparr>m_preparationLocked := True, m_ops := m_ops c @ [Some (ty, m_nextAddr c)],
                      m_nextAddr := m_nextAddr c + 1\<rparr>)"

definition ClientImpl_searchPrepare :: "cl_env \<Rightarrow> u32 \<Rightarrow> client \<Rightarrow> (error_code + nat) \<times> client" where
  "ClientImpl_searchPrepare env elapsed c =
     (let (ec, c) = init_if_needed env elapsed c
      in if ec \<noteq> Ec_Success then (Inl ec, c)
         else if m_searchOps c \<noteq> [] then (Inl Ec_Busy, c)
         else
           let ec = prepare_checks env Type_Search (length (m_searchOps c)) c
           in if ec \<noteq> Ec_Success then (Inl ec, c)
              else
                let (t, c) = timer_alloc env c;
                    x = \<lparr>ob_retryPeriod = cfg_retryPeriod (m_configState c), ob_retryCount = cfg_retryCount (m_configState c),
                         so_timer = t, so_radius = cfg_broadcastRadius (m_configState c), so_msgRadius = 0, so_cb = False\<rparr>;
                    (a, c) = op_created Type_Search c
                in (Inr a, c\<lparr>m_searchOps := m_searchOps c @ [(a, x)]\<rparr>))"

definition ClientImpl_connectPrepare :: "cl_env \<Rightarrow> u32 \<Rightarrow> client \<Rightarrow> (error_code + nat) \<times> client" where
  "ClientImpl_connectPrepare env elapsed c =
     (let (ec, c) = init_if_needed env elapsed c
      in if ec \<noteq> Ec_Success then (Inl ec, c)
         else if m_connectOps c \<noteq> [] \<or> m_disconnectOps c \<noteq> [] then (Inl Ec_Busy, c)
         else if se_disconnecting (m_sessionState c) then (Inl Ec_Disconnecting, c)
         else
           let ec = prepare_checks env Type_Connect (length (m_connectOps c)) c
           in if ec \<noteq> Ec_Success then (Inl ec, c)
              else
                let (t, c) = timer_alloc env c;
                    x = \<lparr>ob_retryPeriod = cfg_retryPeriod (m_configState c), ob_retryCount = cfg_retryCount (m_configState c),
                         co_clientId = [], co_duration = 0, co_will = False, co_clean = False, co_willFlags = False,
                         co_willQos = SN_AtMostOnceDelivery, co_willRetain = False, co_willTopic = [], co_willMsg = [],
                         co_timer = t, co_stage = Stage_connect, co_origRetryCount = 0, co_cb = False\<rparr>;
                    (a, c) = op_created Type_Connect c
                in (Inr a, c\<lparr>m_connectOps := m_connectOps c @ [(a, x)]\<rparr>))"

definition ClientImpl_disconnectPrepare :: "cl_env \<Rightarrow> client \<Rightarrow> (error_code + nat) \<times> client" where
  "ClientImpl_disconnectPrepare env c =
     (if se_connectionStatus (m_sessionState c) = Disconnected then (Inl Ec_NotConnected, c)
      else if m_disconnectOps c \<noteq> [] \<or> m_connectOps c \<noteq> [] then (Inl Ec_Busy, c)
      else if se_disconnecting (m_sessionState c) then (Inl Ec_Disconnecting, c)
      else
        let ec = prepare_checks env Type_Disconnect (length (m_disconnectOps c)) c
        in if ec \<noteq> Ec_Success then (Inl ec, c)
           else
             let (t, c) = timer_alloc env c;
                 x = \<lparr>ob_retryPeriod = cfg_retryPeriod (m_configState c), ob_retryCount = cfg_retryCount (m_configState c),
                      do_duration = None, do_timer = t, do_cb = False\<rparr>;
                 (a, c) = op_created Type_Disconnect c
             in (Inr a, c\<lparr>m_disconnectOps := m_disconnectOps c @ [(a, x)]\<rparr>))"

definition ClientImpl_subscribePrepare :: "cl_env \<Rightarrow> client \<Rightarrow> (error_code + nat) \<times> client" where
  "ClientImpl_subscribePrepare env c =
     (if se_connectionStatus (m_sessionState c) \<noteq> Connected then (Inl Ec_NotConnected, c)
      else if se_disconnecting (m_sessionState c) then (Inl Ec_Disconnecting, c)
      else
        let ec = prepare_checks env Type_Subscribe (length (m_subscribeOps c)) c
        in if ec \<noteq> Ec_Success then (Inl ec, c)
           else
             let (t, c) = timer_alloc env c;
                 x = \<lparr>ob_retryPeriod = cfg_retryPeriod (m_configState c), ob_retryCount = cfg_retryCount (m_configState c),
                      sb_topicIdType = Normal, sb_qos = SN_AtMostOnceDelivery, sb_msgId = 0, sb_topicName = [],
                      sb_topicId = 0, sb_mode = Normal, sb_timer = t, sb_cb = False,
                      sb_suspended = (m_subscribeOps c \<noteq> [] \<or> m_unsubscribeOps c \<noteq> [])\<rparr>;
                 (a, c) = op_created Type_Subscribe c
             in (Inr a, c\<lparr>m_subscribeOps := m_subscribeOps c @ [(a, x)]\<rparr>))"

definition ClientImpl_unsubscribePrepare :: "cl_env \<Rightarrow> client \<Rightarrow> (error_code + nat) \<times> client" where
  "ClientImpl_unsubscribePrepare env c =
     (if se_connectionStatus (m_sessionState c) \<noteq> Connected then (Inl Ec_NotConnected, c)
      else if se_disconnecting (m_sessionState c) then (Inl Ec_Disconnecting, c)
      else
        let ec = prepare_checks env Type_Unsubscribe (length (m_unsubscribeOps c)) c
        in if ec \<noteq> Ec_Success then (Inl ec, c)
           else
             let (t, c) = timer_alloc env c;
                 x = \<lparr>ob_retryPeriod = cfg_retryPeriod (m_configState c), ob_retryCount = cfg_retryCount (m_configState c),
                      ub_topicIdType = Normal, ub_msgId = 0, ub_topicName = [], ub_topicId = 0, ub_mode = Normal,
                      ub_timer = t, ub_cb = False,
                      ub_suspended = (m_unsubscribeOps c \<noteq> [] \<or> m_subscribeOps c \<noteq> [])\<rparr>;
                 (a, c) = op_created Type_Unsubscribe c
             in (Inr a, c\<lparr>m_unsubscribeOps := m_unsubscribeOps c @ [(a, x)]\<rparr>))"

definition publish_default :: sn_publish where
  "publish_default = \<lparr>sp_topicIdType = Normal, sp_retain = False, sp_qos = SN_AtMostOnceDelivery, sp_dup = False,
     sp_topicId = 0, sp_msgId = 0, sp_data = []\<rparr>"

text \<open>The object of a publication is created before the check of the preparation lock, and destroyed
  again when the check fails.\<close>

definition ClientImpl_publishPrepare :: "cl_env \<Rightarrow> client \<Rightarrow> (error_code + nat) \<times> client" where
  "ClientImpl_publishPrepare env c =
     (if se_connectionStatus (m_sessionState c) \<noteq> Connected then (Inl Ec_NotConnected, c)
      else if se_disconnecting (m_sessionState c) then (Inl Ec_Disconnecting, c)
      else if env_opsLimit env \<le> length (m_ops c) then (Inl Ec_RetryLater, c)
      else if env_pool env Type_Send \<le> length (m_sendOps c) then (Inl Ec_OutOfMemory, c)
      else
        let (t, c) = timer_alloc env c
        in if m_preparationLocked c then (Inl Ec_PreparationLocked, timer_free t c)
           else
             let so = \<lparr>ob_retryPeriod = cfg_retryPeriod (m_configState c), ob_retryCount = cfg_retryCount (m_configState c),
                       sn_regTopic = [], sn_regMsgId = 0, sn_pub = publish_default, sn_timer = t, sn_cb = False,
                       sn_stage = Stage_Register, sn_origRetryCount = 0, sn_fullRetryRemCount = 0,
                       sn_suspended = (m_sendOps c \<noteq> [])\<rparr>;
                 (a, c) = op_created Type_Send c
             in (Inr a, c\<lparr>m_sendOps := m_sendOps c @ [(a, so)]\<rparr>))"

definition ClientImpl_willPrepare :: "cl_env \<Rightarrow> client \<Rightarrow> (error_code + nat) \<times> client" where
  "ClientImpl_willPrepare env c =
     (if se_connectionStatus (m_sessionState c) \<noteq> Connected then (Inl Ec_NotConnected, c)
      else if se_disconnecting (m_sessionState c) then (Inl Ec_Disconnecting, c)
      else if m_willOps c \<noteq> [] \<or> m_connectOps c \<noteq> [] \<or> m_disconnectOps c \<noteq> [] then (Inl Ec_Busy, c)
      else
        let ec = prepare_checks env Type_Will (length (m_willOps c)) c
        in if ec \<noteq> Ec_Success then (Inl ec, c)
           else
             let (t, c) = timer_alloc env c;
                 x = \<lparr>ob_retryPeriod = cfg_retryPeriod (m_configState c), ob_retryCount = cfg_retryCount (m_configState c),
                      wo_flags = False, wo_qos = SN_AtMostOnceDelivery, wo_retain = False, wo_topic = [], wo_msg = [],
                      wo_timer = t, wo_stage = Stage_updTopic, wo_origRetryCount = 0, wo_cb = False,
                      wo_topicUpdReturnCode = None, wo_msgUpdReturnCode = None\<rparr>;
                 (a, c) = op_created Type_Will c
             in (Inr a, c\<lparr>m_willOps := m_willOps c @ [(a, x)]\<rparr>))"

definition ClientImpl_asleepCheckMessages :: "cl_env \<Rightarrow> client \<Rightarrow> error_code \<times> client" where
  "ClientImpl_asleepCheckMessages env c =
     (if se_connectionStatus (m_sessionState c) \<noteq> Asleep then (Ec_NotSleeping, c)
      else if m_keepAliveOps c = [] then (Ec_InternalError, c)
      else (Ec_Success, fold (\<lambda>(a, _). KeepAliveOp_sendPing env a) (m_keepAliveOps c) c))"

section \<open>Configuring an operation\<close>

text \<open>Data with a length: the pointer may be null.\<close>

record publish_config =
  pc_data :: "data_buf option"
  pc_dataLen :: nat
  pc_topic :: "string option"
  pc_topicId :: u16
  pc_qos :: sn_qos
  pc_retain :: bool

record subscribe_config =
  sc_topic :: "string option"
  sc_topicId :: u16
  sc_qos :: sn_qos

record unsubscribe_config =
  uc_topic :: "string option"
  uc_topicId :: u16

record connect_config =
  cc_clientId :: "string option"
  cc_duration :: u32
  cc_cleanSession :: bool

record will_config =
  wc_topic :: "string option"
  wc_data :: "data_buf option"
  wc_dataLen :: nat
  wc_qos :: sn_qos
  wc_retain :: bool

definition empty_topic :: "string option \<Rightarrow> bool" where
  "empty_topic t \<longleftrightarrow> (case t of None \<Rightarrow> True | Some s \<Rightarrow> c_char s 0 = CHR 0x00)"

definition short_topic_id :: "string \<Rightarrow> u16" where
  "short_topic_id s = or (push_bit 8 (of_char (s ! 0))) (of_char (s ! 1))"

definition SendOp_config :: "publish_config option \<Rightarrow> nat \<Rightarrow> client \<Rightarrow> error_code \<times> client" where
  "SendOp_config config a =
     on_obj_ec Type_Send m_sendOps a (\<lambda>so c.
       case config of None \<Rightarrow> (Ec_BadParam, c)
       | Some pc \<Rightarrow>
         let emptyTopic = empty_topic (pc_topic pc); topic = the (pc_topic pc)
         in if emptyTopic \<and> \<not> isValidTopicId (pc_topicId pc) then (Ec_BadParam, c)
            else if pc_qos pc = SN_NoGwPublish then (Ec_BadParam, c)
            else if 0 < pc_dataLen pc \<and> pc_data pc = None then (Ec_BadParam, c)
            else if \<not> emptyTopic \<and> \<not> ClientImpl_verifyPubTopic topic True c then (Ec_BadParam, c)
            else
              let pub = (sn_pub so)\<lparr>sp_qos := pc_qos pc, sp_retain := pc_retain pc,
                          sp_data := (if 0 < pc_dataLen pc then take (pc_dataLen pc) (the (pc_data pc)) else [])\<rparr>
              in if emptyTopic then
                   (Ec_Success, upd_send a (\<lambda>so. so\<lparr>sn_stage := Stage_Publish,
                      sn_pub := pub\<lparr>sp_topicId := pc_topicId pc, sp_topicIdType := PredefinedTopicId\<rparr>\<rparr>) c)
                 else if isShortTopic topic then
                   (Ec_Success, upd_send a (\<lambda>so. so\<lparr>sn_stage := Stage_Publish,
                      sn_pub := pub\<lparr>sp_topicId := short_topic_id topic, sp_topicIdType := ShortTopicName\<rparr>\<rparr>) c)
                 else
                   let c = upd_send a (\<lambda>so. so\<lparr>sn_regTopic := topic, sn_pub := pub\<lparr>sp_topicIdType := Normal\<rparr>\<rparr>) c;
                       outMap = m_outRegTopics (m_regs c);
                       outIter = lower_bound rt_topic topic outMap
                   in if outIter \<noteq> [] \<and> rt_topic (hd outIter) = topic then
                        (Ec_Success, upd_send a (\<lambda>so. so\<lparr>sn_stage := Stage_Publish,
                           sn_pub := (sn_pub so)\<lparr>sp_topicId := rt_topicId (hd outIter)\<rparr>\<rparr>)
                           (c\<lparr>m_regs := (m_regs c)\<lparr>m_outRegTopics := before_lower_bound rt_topic topic outMap @
                              (hd outIter)\<lparr>rt_timestamp := m_timestamp c\<rparr> # tl outIter\<rparr>\<rparr>))
                      else
                        let inTopicId = findInRegTopicId topic (m_regs c)
                        in if inTopicId \<noteq> 0 then
                             (Ec_Success, ClientImpl_storeOutRegTopic topic inTopicId
                                (upd_send a (\<lambda>so. so\<lparr>sn_stage := Stage_Publish,
                                   sn_pub := (sn_pub so)\<lparr>sp_topicId := inTopicId\<rparr>\<rparr>) c))
                           else (Ec_Success, upd_send a (\<lambda>so. so\<lparr>sn_stage := Stage_Register\<rparr>) c))"

definition SubscribeOp_config :: "subscribe_config option \<Rightarrow> nat \<Rightarrow> client \<Rightarrow> error_code \<times> client" where
  "SubscribeOp_config config a =
     on_obj_ec Type_Subscribe m_subscribeOps a (\<lambda>x c.
       case config of None \<Rightarrow> (Ec_BadParam, c)
       | Some sc \<Rightarrow>
         let emptyTopic = empty_topic (sc_topic sc); topic = the (sc_topic sc)
         in if emptyTopic \<and> \<not> isValidTopicId (sc_topicId sc) then (Ec_BadParam, c)
            else if sc_qos sc = SN_NoGwPublish then (Ec_BadParam, c)
            else if \<not> emptyTopic \<and> \<not> verifySubFilterInternal (cfg_verifyOutgoingTopic (m_configState c)) topic
            then (Ec_BadParam, c)
            else
              let c = upd_subscribe a (\<lambda>x. x\<lparr>sb_qos := sc_qos sc\<rparr>) c
              in if emptyTopic then
                   (Ec_Success, upd_subscribe a (\<lambda>x. x\<lparr>sb_topicId := sc_topicId sc, sb_topicIdType := PredefinedTopicId\<rparr>) c)
                 else if isShortTopic topic then
                   (Ec_Success, upd_subscribe a (\<lambda>x. x\<lparr>sb_topicId := short_topic_id topic, sb_topicIdType := ShortTopicName\<rparr>) c)
                 else (Ec_Success, upd_subscribe a (\<lambda>x. x\<lparr>sb_topicName := topic, sb_topicIdType := Normal\<rparr>) c))"

definition UnsubscribeOp_config :: "unsubscribe_config option \<Rightarrow> nat \<Rightarrow> client \<Rightarrow> error_code \<times> client" where
  "UnsubscribeOp_config config a =
     on_obj_ec Type_Unsubscribe m_unsubscribeOps a (\<lambda>x c.
       case config of None \<Rightarrow> (Ec_BadParam, c)
       | Some uc \<Rightarrow>
         let emptyTopic = empty_topic (uc_topic uc); topic = the (uc_topic uc);
             iter = lower_bound sf_topic topic (m_subFilters c)
         in if emptyTopic \<and> \<not> isValidTopicId (uc_topicId uc) then (Ec_BadParam, c)
            else if \<not> emptyTopic \<and> \<not> verifySubFilterInternal (cfg_verifyOutgoingTopic (m_configState c)) topic
            then (Ec_BadParam, c)
            else if cfg_verifySubFilter (m_configState c) \<and> \<not> emptyTopic \<and> (iter = [] \<or> sf_topic (hd iter) \<noteq> topic)
            then (Ec_BadParam, c)
            else if cfg_verifySubFilter (m_configState c) \<and> emptyTopic \<and>
                    (\<forall>f \<in> set (m_subFilters c). sf_topicId f \<noteq> uc_topicId uc)
            then (Ec_BadParam, c)
            else if emptyTopic then
              (Ec_Success, upd_unsubscribe a (\<lambda>x. x\<lparr>ub_topicId := uc_topicId uc, ub_topicIdType := PredefinedTopicId\<rparr>) c)
            else if isShortTopic topic then
              (Ec_Success, upd_unsubscribe a (\<lambda>x. x\<lparr>ub_topicId := short_topic_id topic, ub_topicIdType := ShortTopicName\<rparr>) c)
            else (Ec_Success, upd_unsubscribe a (\<lambda>x. x\<lparr>ub_topicName := topic, ub_topicIdType := Normal\<rparr>) c))"

definition ConnectOp_config :: "connect_config option \<Rightarrow> nat \<Rightarrow> client \<Rightarrow> error_code \<times> client" where
  "ConnectOp_config config a =
     on_obj_ec Type_Connect m_connectOps a (\<lambda>x c.
       case config of None \<Rightarrow> (Ec_BadParam, c)
       | Some cc \<Rightarrow>
         if m_firstConnect c \<and> \<not> cc_cleanSession cc \<and> cfg_verifySubFilter (m_configState c) then (Ec_BadParam, c)
         else if cc_duration cc = 0 then (Ec_BadParam, c)
         else (Ec_Success, upd_connect a (\<lambda>x. x\<lparr>
                 co_clientId := (case cc_clientId cc of None \<Rightarrow> co_clientId x | Some s \<Rightarrow> s),
                 co_duration := ucast (cc_duration cc), co_clean := cc_cleanSession cc\<rparr>) c))"

definition ConnectOp_willConfig :: "will_config option \<Rightarrow> nat \<Rightarrow> client \<Rightarrow> error_code \<times> client" where
  "ConnectOp_willConfig config a =
     on_obj_ec Type_Connect m_connectOps a (\<lambda>x c.
       case config of None \<Rightarrow> (Ec_BadParam, c)
       | Some wc \<Rightarrow>
         let c = upd_connect a (\<lambda>x. x\<lparr>co_will := True\<rparr>) c
         in if empty_topic (wc_topic wc) then
              (if 0 < wc_dataLen wc then (Ec_BadParam, c)
               else (Ec_Success, upd_connect a (\<lambda>x. x\<lparr>co_willFlags := False, co_willTopic := []\<rparr>) c))
            else if wc_qos wc = SN_NoGwPublish then (Ec_BadParam, c)
            else
              let c = upd_connect a (\<lambda>x. x\<lparr>co_willFlags := True, co_willQos := wc_qos wc, co_willRetain := wc_retain wc,
                                           co_willTopic := the (wc_topic wc)\<rparr>) c
              in if 0 < wc_dataLen wc then
                   (case wc_data wc of None \<Rightarrow> (Ec_BadParam, c)
                    | Some d \<Rightarrow> (Ec_Success, upd_connect a (\<lambda>x. x\<lparr>co_willMsg := take (wc_dataLen wc) d\<rparr>) c))
                 else (Ec_Success, c))"

definition DisconnectOp_config :: "u32 option \<Rightarrow> nat \<Rightarrow> client \<Rightarrow> error_code \<times> client" where
  "DisconnectOp_config config a =
     on_obj_ec Type_Disconnect m_disconnectOps a (\<lambda>x c.
       case config of None \<Rightarrow> (Ec_BadParam, c)
       | Some duration \<Rightarrow>
         let minDurationMs = cfg_retryPeriod (m_configState c) * (cfg_retryCount (m_configState c) + 1)
         in if duration * 1000 \<le> minDurationMs then (Ec_BadParam, c)
            else if 65535 < duration then (Ec_BadParam, c)
            else (Ec_Success, upd_disconnect a (\<lambda>x. x\<lparr>do_duration := Some (ucast duration)\<rparr>) c))"

definition WillOp_config :: "will_config option \<Rightarrow> nat \<Rightarrow> client \<Rightarrow> error_code \<times> client" where
  "WillOp_config config a =
     on_obj_ec Type_Will m_willOps a (\<lambda>x c.
       case config of None \<Rightarrow> (Ec_BadParam, c)
       | Some wc \<Rightarrow>
         if 0 < wc_dataLen wc \<and> wc_topic wc = None then (Ec_BadParam, c)
         else if 0 < wc_dataLen wc \<and> wc_data wc = None then (Ec_BadParam, c)
         else if wc_qos wc = SN_NoGwPublish then (Ec_BadParam, c)
         else
           let c = upd_will a (\<lambda>x. x\<lparr>wo_topic := [], wo_flags := False, wo_msg := []\<rparr>) c;
               c = (case wc_topic wc of None \<Rightarrow> c
                    | Some t \<Rightarrow> upd_will a (\<lambda>x. x\<lparr>wo_topic := t, wo_flags := True, wo_qos := wc_qos wc,
                                                    wo_retain := wc_retain wc\<rparr>) c)
           in (Ec_Success, if 0 < wc_dataLen wc
                 then upd_will a (\<lambda>x. x\<lparr>wo_msg := take (wc_dataLen wc) (the (wc_data wc))\<rparr>) c else c))"

end
