(* ===== verification/Cl_Send.thy ===== *)
theory Cl_Send
  imports Cl_Api
begin

text \<open>
  Sending and cancelling an operation, from the classes of \<^verbatim>\<open>src/client/lib/src/op\<close>, and the setters the
  application calls on the client and on an operation.

  Every \<^verbatim>\<open>send()\<close> has two scope guards: the one that completes the operation when the call fails is
  declared first and runs last, after the guard of the bracket \<^verbatim>\<open>apiEnter()\<close> has left the call. The
  argument \<open>cb\<close> says whether the completion callback is given.
\<close>

section \<open>Sending\<close>

text \<open>The part of \<^verbatim>\<open>send()\<close> between the two guards: the bracket of the call around \<open>body\<close>, and the
  completion of the operation when \<open>body\<close> fails.\<close>

definition with_guards :: "cl_env \<Rightarrow> u32 \<Rightarrow> (client \<Rightarrow> error_code \<times> client) \<Rightarrow> (client \<Rightarrow> client) \<Rightarrow> client \<Rightarrow> error_code \<times> client" where
  "with_guards env elapsed body complete c =
     (let c = ClientImpl_doApiEnter env elapsed c;
          (ec, c) = body c;
          c = ClientImpl_doApiExit c
      in (ec, if ec = Ec_Success then c else complete c))"

definition SearchOp_send :: "cl_env \<Rightarrow> u32 \<Rightarrow> bool \<Rightarrow> nat \<Rightarrow> client \<Rightarrow> error_code \<times> client" where
  "SearchOp_send env elapsed cb a c =
     (let c = ClientImpl_allowNextPrepare c
      in on_obj_ec Type_Search m_searchOps a (\<lambda>x c.
           if \<not> cb then (Ec_BadParam, SearchOp_opComplete a c)
           else if \<not> Timer_isValid (so_timer x) then (Ec_InternalError, SearchOp_opComplete a c)
           else with_guards env elapsed (on_obj_ec Type_Search m_searchOps a (\<lambda>x c.
                   let c = upd_search a (\<lambda>x. x\<lparr>so_cb := True, so_msgRadius := ucast (so_radius x)\<rparr>) c;
                       (ec, c) = SearchOp_sendInternal env a c
                   in (ec, if ec = Ec_Success then SearchOp_restartTimer a x c else c))) (SearchOp_opComplete a) c) c)"

text \<open>A connection request with the clean session flag resets what a session reuses.\<close>

definition reuse_reset :: "client \<Rightarrow> client" where
  "reuse_reset c = c\<lparr>m_subFilters := [], m_regs := (m_regs c)\<lparr>m_inRegTopics := [], m_outRegTopics := []\<rparr>,
                     m_lastRecvMsgId := 0, m_prevWill := WillInfo_init\<rparr>"

definition ConnectOp_send :: "cl_env \<Rightarrow> u32 \<Rightarrow> bool \<Rightarrow> nat \<Rightarrow> client \<Rightarrow> error_code \<times> client" where
  "ConnectOp_send env elapsed cb a c =
     (let c = ClientImpl_allowNextPrepare c
      in on_obj_ec Type_Connect m_connectOps a (\<lambda>x c.
           if \<not> cb then (Ec_BadParam, ConnectOp_opComplete a c)
           else if co_duration x = 0 then (Ec_InsufficientConfig, ConnectOp_opComplete a c)
           else if \<not> co_clean x \<and> m_firstConnect c \<and> cfg_verifySubFilter (m_configState c)
           then (Ec_InsufficientConfig, ConnectOp_opComplete a c)
           else if \<not> Timer_isValid (co_timer x) then (Ec_InternalError, ConnectOp_opComplete a c)
           else with_guards env elapsed (on_obj_ec Type_Connect m_connectOps a (\<lambda>x c.
                   let c = upd_connect a (\<lambda>x. x\<lparr>co_cb := True, co_origRetryCount := ob_retryCount x\<rparr>) c;
                       (ec, c) = ConnectOp_sendInternal env a c
                   in if ec \<noteq> Ec_Success then (ec, c)
                      else
                        let c = upd_session (\<lambda>s. s\<lparr>se_clientId := [], se_connectionStatus := Disconnected\<rparr>) c
                        in (Ec_Success, if co_clean x then reuse_reset c else c))) (ConnectOp_opComplete a) c) c)"

definition DisconnectOp_send :: "cl_env \<Rightarrow> u32 \<Rightarrow> bool \<Rightarrow> nat \<Rightarrow> client \<Rightarrow> error_code \<times> client" where
  "DisconnectOp_send env elapsed cb a c =
     (let c = ClientImpl_allowNextPrepare c
      in on_obj_ec Type_Disconnect m_disconnectOps a (\<lambda>x c.
           if \<not> cb then (Ec_BadParam, DisconnectOp_opComplete a c)
           else if \<not> Timer_isValid (do_timer x) then (Ec_InternalError, DisconnectOp_opComplete a c)
           else with_guards env elapsed (on_obj_ec Type_Disconnect m_disconnectOps a (\<lambda>_ c.
                   DisconnectOp_sendInternal env a (upd_disconnect a (\<lambda>x. x\<lparr>do_cb := True\<rparr>) c))) (DisconnectOp_opComplete a) c) c)"

definition SubscribeOp_send :: "cl_env \<Rightarrow> u32 \<Rightarrow> bool \<Rightarrow> nat \<Rightarrow> client \<Rightarrow> error_code \<times> client" where
  "SubscribeOp_send env elapsed cb a c =
     (let c = ClientImpl_allowNextPrepare c
      in on_obj_ec Type_Subscribe m_subscribeOps a (\<lambda>x c.
           if \<not> cb then (Ec_BadParam, SubscribeOp_opComplete env a c)
           else if \<not> Timer_isValid (sb_timer x) then (Ec_InternalError, SubscribeOp_opComplete env a c)
           else with_guards env elapsed (on_obj_ec Type_Subscribe m_subscribeOps a (\<lambda>_ c.
                   let (i, c) = ClientImpl_allocPacketId env c
                   in SubscribeOp_sendInternal env a
                        (upd_subscribe a (\<lambda>x. x\<lparr>sb_cb := True, sb_msgId := i, sb_mode := sb_topicIdType x\<rparr>) c))) (SubscribeOp_opComplete env a) c) c)"

text \<open>The filters after an unsubscription, with the comparison of the code.\<close>

definition subFilters_remove :: "string option \<Rightarrow> u16 \<Rightarrow> sub_filter list \<Rightarrow> sub_filter list" where
  "subFilters_remove topic topicId fs =
     (case topic of
        Some t \<Rightarrow>
          let iter = lower_bound sf_topic t fs
          in if iter \<noteq> [] \<and> sf_topic (hd iter) \<noteq> t then before_lower_bound sf_topic t fs @ tl iter else fs
      | None \<Rightarrow> erase_first (\<lambda>f. sf_topicId f = topicId) fs)"

text \<open>What the client forgets once UNSUBSCRIBE has been sent or queued.\<close>

definition unsubscribe_forget :: "unsubscribe_op \<Rightarrow> client \<Rightarrow> client" where
  "unsubscribe_forget x c =
     (let topicPtr = (if ub_mode x = Normal then Some (c_str (ub_topicName x)) else None);
          topicId = ub_topicId x;
          c = cl_assert ''UnsubscribeOp::send: field_topicId'' (ub_mode x \<noteq> Normal \<or> topicId = 0) c;
          c = cl_assert ''UnsubscribeOp::send: topicPtr'' (topicPtr = None \<or> topicId = 0) c;
          c = cl_assert ''UnsubscribeOp::send: topicId'' (topicPtr \<noteq> None \<or> topicId \<noteq> 0) c;
          c = c\<lparr>m_regs := snd (removeInRegTopic topicPtr topicId (m_regs c))\<rparr>
      in c\<lparr>m_subFilters := subFilters_remove topicPtr topicId (m_subFilters c)\<rparr>)"

definition UnsubscribeOp_send :: "cl_env \<Rightarrow> u32 \<Rightarrow> bool \<Rightarrow> nat \<Rightarrow> client \<Rightarrow> error_code \<times> client" where
  "UnsubscribeOp_send env elapsed cb a c =
     (let c = ClientImpl_allowNextPrepare c
      in on_obj_ec Type_Unsubscribe m_unsubscribeOps a (\<lambda>x c.
           if \<not> cb then (Ec_BadParam, UnsubscribeOp_opComplete env a c)
           else if \<not> Timer_isValid (ub_timer x) then (Ec_InternalError, UnsubscribeOp_opComplete env a c)
           else with_guards env elapsed (on_obj_ec Type_Unsubscribe m_unsubscribeOps a (\<lambda>x c.
                   let (i, c) = ClientImpl_allocPacketId env c;
                       c = upd_unsubscribe a (\<lambda>x. x\<lparr>ub_cb := True, ub_msgId := i, ub_mode := ub_topicIdType x\<rparr>) c;
                       (ec, c) = UnsubscribeOp_sendInternal env a c
                   in (ec, if ec = Ec_Success
                           then unsubscribe_forget (x\<lparr>ub_mode := ub_topicIdType x\<rparr>) c else c))) (UnsubscribeOp_opComplete env a) c) c)"

definition SendOp_send :: "cl_env \<Rightarrow> u32 \<Rightarrow> bool \<Rightarrow> nat \<Rightarrow> client \<Rightarrow> error_code \<times> client" where
  "SendOp_send env elapsed cb a c =
     (let c = ClientImpl_allowNextPrepare c
      in on_obj_ec Type_Send m_sendOps a (\<lambda>so c.
           if \<not> cb then (Ec_BadParam, SendOp_opComplete env a c)
           else if \<not> Timer_isValid (sn_timer so) then (Ec_InternalError, SendOp_opComplete env a c)
           else with_guards env elapsed (on_obj_ec Type_Send m_sendOps a (\<lambda>_ c.
                   let c = upd_send a (\<lambda>so. so\<lparr>sn_cb := True\<rparr>) c;
                       c = SendOp_allocPacketIdsInternal env a c;
                       c = upd_send a (\<lambda>so. so\<lparr>sn_origRetryCount := ob_retryCount so,
                                               sn_fullRetryRemCount := ob_retryCount so\<rparr>) c
                   in SendOp_sendInternal env a c)) (SendOp_opComplete env a) c) c)"

text \<open>An update of the will sends what differs from the will the gateway has. Its \<^verbatim>\<open>send()\<close> does not
  check the timer.\<close>

definition will_same_topic :: "cl_will_op \<Rightarrow> cl_will_info \<Rightarrow> bool" where
  "will_same_topic x w \<longleftrightarrow> wi_topic w \<noteq> [] \<and> wo_topic x = wi_topic w \<and> wi_qos w = wo_qos x \<and> wi_retain w = wo_retain x"

definition WillOp_send :: "cl_env \<Rightarrow> u32 \<Rightarrow> bool \<Rightarrow> nat \<Rightarrow> client \<Rightarrow> error_code \<times> client" where
  "WillOp_send env elapsed cb a c =
     (let c = ClientImpl_allowNextPrepare c
      in on_obj_ec Type_Will m_willOps a (\<lambda>x c.
           if \<not> cb then (Ec_BadParam, WillOp_opComplete a c)
           else with_guards env elapsed (on_obj_ec Type_Will m_willOps a (\<lambda>x c.
                   let stage = (if will_same_topic x (m_prevWill c) then Stage_updMsg else Stage_updTopic);
                       c = upd_will a (\<lambda>x. x\<lparr>wo_cb := True, wo_stage := stage\<rparr>) c
                   in if stage = Stage_updMsg \<and> wo_msg x = wi_msg (m_prevWill c)
                      then (Ec_Success, WillOp_completeOpInternal St_Complete
                              (Some (wo_topicUpdReturnCode x, wo_msgUpdReturnCode x)) a c)
                      else
                        let c = (if stage = Stage_updTopic
                                 then c\<lparr>m_prevWill := (m_prevWill c)\<lparr>wi_topic := []\<rparr>\<rparr> else c);
                            c = (if wo_topic x = [] then c\<lparr>m_prevWill := WillInfo_init\<rparr> else c);
                            c = upd_will a (\<lambda>x. x\<lparr>wo_origRetryCount := ob_retryCount x\<rparr>) c
                        in WillOp_sendInternal env a c)) (WillOp_opComplete a) c) c)"

section \<open>Cancelling\<close>

text \<open>An operation that has not been sent yet still holds the preparation lock.\<close>

definition unlock_unsent :: "bool \<Rightarrow> client \<Rightarrow> client" where
  "unlock_unsent cb c = (if cb then c else ClientImpl_allowNextPrepare c)"

definition SearchOp_cancel :: "nat \<Rightarrow> client \<Rightarrow> error_code \<times> client" where
  "SearchOp_cancel a = on_obj_ec Type_Search m_searchOps a (\<lambda>x c.
     (Ec_Success, SearchOp_opComplete a (unlock_unsent (so_cb x) c)))"

definition ConnectOp_cancel :: "nat \<Rightarrow> client \<Rightarrow> error_code \<times> client" where
  "ConnectOp_cancel a = on_obj_ec Type_Connect m_connectOps a (\<lambda>x c.
     (Ec_Success, ConnectOp_opComplete a (unlock_unsent (co_cb x) c)))"

definition DisconnectOp_cancel :: "nat \<Rightarrow> client \<Rightarrow> error_code \<times> client" where
  "DisconnectOp_cancel a = on_obj_ec Type_Disconnect m_disconnectOps a (\<lambda>x c.
     (Ec_Success, DisconnectOp_opComplete a (unlock_unsent (do_cb x) c)))"

definition SubscribeOp_cancel :: "cl_env \<Rightarrow> nat \<Rightarrow> client \<Rightarrow> error_code \<times> client" where
  "SubscribeOp_cancel env a = on_obj_ec Type_Subscribe m_subscribeOps a (\<lambda>x c.
     (Ec_Success, SubscribeOp_opComplete env a (unlock_unsent (sb_cb x) c)))"

definition UnsubscribeOp_cancel :: "cl_env \<Rightarrow> nat \<Rightarrow> client \<Rightarrow> error_code \<times> client" where
  "UnsubscribeOp_cancel env a = on_obj_ec Type_Unsubscribe m_unsubscribeOps a (\<lambda>x c.
     (Ec_Success, UnsubscribeOp_opComplete env a (unlock_unsent (ub_cb x) c)))"

definition SendOp_cancel :: "cl_env \<Rightarrow> nat \<Rightarrow> client \<Rightarrow> error_code \<times> client" where
  "SendOp_cancel env a = on_obj_ec Type_Send m_sendOps a (\<lambda>so c.
     (Ec_Success, SendOp_opComplete env a (unlock_unsent (sn_cb so) c)))"

definition WillOp_cancel :: "nat \<Rightarrow> client \<Rightarrow> error_code \<times> client" where
  "WillOp_cancel a = on_obj_ec Type_Will m_willOps a (\<lambda>x c.
     (Ec_Success, WillOp_opComplete a (unlock_unsent (wo_cb x) c)))"

section \<open>Setting up an operation\<close>

definition Op_setRetryPeriod :: "u32 \<Rightarrow> op_ptr \<Rightarrow> client \<Rightarrow> client" where
  "Op_setRetryPeriod ms p =
     (case p of
        (Type_Search, a) \<Rightarrow> on_obj Type_Search m_searchOps a (\<lambda>_. upd_search a (\<lambda>x. x\<lparr>ob_retryPeriod := ms\<rparr>))
      | (Type_Connect, a) \<Rightarrow> on_obj Type_Connect m_connectOps a (\<lambda>_. upd_connect a (\<lambda>x. x\<lparr>ob_retryPeriod := ms\<rparr>))
      | (Type_KeepAlive, a) \<Rightarrow> on_obj Type_KeepAlive m_keepAliveOps a (\<lambda>_. upd_keepalive a (\<lambda>x. x\<lparr>ob_retryPeriod := ms\<rparr>))
      | (Type_Disconnect, a) \<Rightarrow> on_obj Type_Disconnect m_disconnectOps a (\<lambda>_. upd_disconnect a (\<lambda>x. x\<lparr>ob_retryPeriod := ms\<rparr>))
      | (Type_Subscribe, a) \<Rightarrow> on_obj Type_Subscribe m_subscribeOps a (\<lambda>_. upd_subscribe a (\<lambda>x. x\<lparr>ob_retryPeriod := ms\<rparr>))
      | (Type_Unsubscribe, a) \<Rightarrow> on_obj Type_Unsubscribe m_unsubscribeOps a (\<lambda>_. upd_unsubscribe a (\<lambda>x. x\<lparr>ob_retryPeriod := ms\<rparr>))
      | (Type_Send, a) \<Rightarrow> on_obj Type_Send m_sendOps a (\<lambda>_. upd_send a (\<lambda>x. x\<lparr>ob_retryPeriod := ms\<rparr>))
      | (Type_Will, a) \<Rightarrow> on_obj Type_Will m_willOps a (\<lambda>_. upd_will a (\<lambda>x. x\<lparr>ob_retryPeriod := ms\<rparr>)))"

definition Op_setRetryCount :: "u32 \<Rightarrow> op_ptr \<Rightarrow> client \<Rightarrow> client" where
  "Op_setRetryCount value p =
     (case p of
        (Type_Search, a) \<Rightarrow> on_obj Type_Search m_searchOps a (\<lambda>_. upd_search a (\<lambda>x. x\<lparr>ob_retryCount := value\<rparr>))
      | (Type_Connect, a) \<Rightarrow> on_obj Type_Connect m_connectOps a (\<lambda>_. upd_connect a (\<lambda>x. x\<lparr>ob_retryCount := value\<rparr>))
      | (Type_KeepAlive, a) \<Rightarrow> on_obj Type_KeepAlive m_keepAliveOps a (\<lambda>_. upd_keepalive a (\<lambda>x. x\<lparr>ob_retryCount := value\<rparr>))
      | (Type_Disconnect, a) \<Rightarrow> on_obj Type_Disconnect m_disconnectOps a (\<lambda>_. upd_disconnect a (\<lambda>x. x\<lparr>ob_retryCount := value\<rparr>))
      | (Type_Subscribe, a) \<Rightarrow> on_obj Type_Subscribe m_subscribeOps a (\<lambda>_. upd_subscribe a (\<lambda>x. x\<lparr>ob_retryCount := value\<rparr>))
      | (Type_Unsubscribe, a) \<Rightarrow> on_obj Type_Unsubscribe m_unsubscribeOps a (\<lambda>_. upd_unsubscribe a (\<lambda>x. x\<lparr>ob_retryCount := value\<rparr>))
      | (Type_Send, a) \<Rightarrow> on_obj Type_Send m_sendOps a (\<lambda>_. upd_send a (\<lambda>x. x\<lparr>ob_retryCount := value\<rparr>))
      | (Type_Will, a) \<Rightarrow> on_obj Type_Will m_willOps a (\<lambda>_. upd_will a (\<lambda>x. x\<lparr>ob_retryCount := value\<rparr>)))"

definition SearchOp_setBroadcastRadius :: "u32 \<Rightarrow> nat \<Rightarrow> client \<Rightarrow> client" where
  "SearchOp_setBroadcastRadius value a =
     on_obj Type_Search m_searchOps a (\<lambda>_. upd_search a (\<lambda>x. x\<lparr>so_radius := value\<rparr>))"

end
