(* ===== verification/Cl_Frame.thy ===== *)
theory Cl_Frame
  imports Cl_Send
begin

text \<open>
  The consistency of the operations of the client. An operation is known twice: \<^verbatim>\<open>m_ops\<close> has a pointer
  with its type, and the list of its type owns the object. \<open>ops_wf\<close> states that the two agree, and
  that of the publications at most the first is not suspended.

  \<open>op_view\<close> is what these facts depend on. A function of the client either keeps the view, which the
  simplifier proves with \<open>view_simps\<close>, or it completes operations, and then \<open>keeps\<close> relates the states
  before and after: consistency is kept, every operation is accounted for, and the depth of the chain
  of calls of \<^verbatim>\<open>resume()\<close> is enough.
\<close>

section \<open>Pointers and objects\<close>

definition live :: "op_ptr option list \<Rightarrow> op_ptr list" where
  "live ops = List.map_filter id ops"

definition addrs :: "op_type \<Rightarrow> op_ptr option list \<Rightarrow> nat list" where
  "addrs ty ops = map snd (filter (\<lambda>p. fst p = ty) (live ops))"

text \<open>Address, completion callback and suspension of the objects of a type.\<close>

fun objs :: "op_type \<Rightarrow> client \<Rightarrow> (nat \<times> bool \<times> bool) list" where
  "objs Type_Search c = map (\<lambda>(a, x). (a, so_cb x, False)) (m_searchOps c)"
| "objs Type_Connect c = map (\<lambda>(a, x). (a, co_cb x, False)) (m_connectOps c)"
| "objs Type_KeepAlive c = map (\<lambda>(a, x). (a, False, False)) (m_keepAliveOps c)"
| "objs Type_Disconnect c = map (\<lambda>(a, x). (a, do_cb x, False)) (m_disconnectOps c)"
| "objs Type_Subscribe c = map (\<lambda>(a, x). (a, sb_cb x, sb_suspended x)) (m_subscribeOps c)"
| "objs Type_Unsubscribe c = map (\<lambda>(a, x). (a, ub_cb x, ub_suspended x)) (m_unsubscribeOps c)"
| "objs Type_Send c = map (\<lambda>(a, x). (a, sn_cb x, sn_suspended x)) (m_sendOps c)"
| "objs Type_Will c = map (\<lambda>(a, x). (a, wo_cb x, False)) (m_willOps c)"

fun completion :: "cl_out \<Rightarrow> op_ptr option" where
  "completion (Out_SearchComplete a _ _) = Some (Type_Search, a)"
| "completion (Out_ConnectComplete a _ _) = Some (Type_Connect, a)"
| "completion (Out_DisconnectComplete a _) = Some (Type_Disconnect, a)"
| "completion (Out_SubscribeComplete a _ _) = Some (Type_Subscribe, a)"
| "completion (Out_UnsubscribeComplete a _) = Some (Type_Unsubscribe, a)"
| "completion (Out_PublishComplete a _ _) = Some (Type_Send, a)"
| "completion (Out_WillComplete a _ _) = Some (Type_Will, a)"
| "completion _ = None"

text \<open>The faults that a consistent client never has.\<close>

definition severe :: "client_fault \<Rightarrow> bool" where
  "severe f \<longleftrightarrow> f \<in> set [NoReturn ''SendOp::resume'', NoReturn ''resume'', AssertFailed ''opComplete: iter'',
     AssertFailed ''eraseFromList: iter'', AssertFailed ''tick: m_apiEnterCount'',
     AssertFailed ''doApiExit: m_apiEnterCount'']"

record op_view =
  vw_objs :: "op_type \<Rightarrow> (nat \<times> bool \<times> bool) list"
  vw_ops :: "op_ptr option list"
  vw_nextAddr :: nat
  vw_reports :: "op_ptr list"
  vw_severe :: "client_fault list"
  vw_calls :: u32

definition view :: "client \<Rightarrow> op_view" where
  "view c = \<lparr>vw_objs = (\<lambda>ty. objs ty c), vw_ops = m_ops c, vw_nextAddr = m_nextAddr c,
     vw_reports = List.map_filter completion (out c), vw_severe = filter severe (cl_faults c),
     vw_calls = m_apiEnterCount c\<rparr>"

section \<open>What keeps the view\<close>

named_theorems view_simps

lemma objs_upd_nonops [simp]:
  "objs ty (c\<lparr>m_timerMgr := x1\<rparr>) = objs ty c" "objs ty (c\<lparr>m_pids := x2\<rparr>) = objs ty c"
  "objs ty (c\<lparr>m_regs := x3\<rparr>) = objs ty c" "objs ty (c\<lparr>m_sessionState := x4\<rparr>) = objs ty c"
  "objs ty (c\<lparr>out := x5\<rparr>) = objs ty c" "objs ty (c\<lparr>cl_faults := x6\<rparr>) = objs ty c"
  "objs ty (c\<lparr>m_prevWill := x7\<rparr>) = objs ty c" "objs ty (c\<lparr>m_lastRecvMsgId := x8\<rparr>) = objs ty c"
  "objs ty (c\<lparr>m_gwInfos := x9\<rparr>) = objs ty c" "objs ty (c\<lparr>m_subFilters := y1\<rparr>) = objs ty c"
  "objs ty (c\<lparr>m_timestamp := y2\<rparr>) = objs ty c" "objs ty (c\<lparr>m_initialized := y3\<rparr>) = objs ty c"
  "objs ty (c\<lparr>m_firstConnect := y4\<rparr>) = objs ty c" "objs ty (c\<lparr>m_pendingGwinfoBroadcastRadius := y5\<rparr>) = objs ty c"
  "objs ty (c\<lparr>m_ops := y6\<rparr>) = objs ty c" "objs ty (c\<lparr>m_opsDeleted := y7\<rparr>) = objs ty c"
  "objs ty (c\<lparr>m_nextAddr := y8\<rparr>) = objs ty c" "objs ty (c\<lparr>m_apiEnterCount := y9\<rparr>) = objs ty c"
  "objs ty (c\<lparr>m_preparationLocked := z1\<rparr>) = objs ty c"
  by (cases ty; simp)+

lemma view_upd_nonops [view_simps]:
  "view (c\<lparr>m_timerMgr := x1\<rparr>) = view c" "view (c\<lparr>m_pids := x2\<rparr>) = view c"
  "view (c\<lparr>m_regs := x3\<rparr>) = view c" "view (c\<lparr>m_sessionState := x4\<rparr>) = view c"
  "view (c\<lparr>m_prevWill := x7\<rparr>) = view c" "view (c\<lparr>m_lastRecvMsgId := x8\<rparr>) = view c"
  "view (c\<lparr>m_gwInfos := x9\<rparr>) = view c" "view (c\<lparr>m_subFilters := y1\<rparr>) = view c"
  "view (c\<lparr>m_timestamp := y2\<rparr>) = view c" "view (c\<lparr>m_initialized := y3\<rparr>) = view c"
  "view (c\<lparr>m_firstConnect := y4\<rparr>) = view c" "view (c\<lparr>m_pendingGwinfoBroadcastRadius := y5\<rparr>) = view c"
  "view (c\<lparr>m_preparationLocked := z1\<rparr>) = view c" "view (c\<lparr>m_opsDeleted := z2\<rparr>) = view c"
  by (simp_all add: view_def)

lemma view_cl_emit [view_simps]: "completion e = None \<Longrightarrow> view (cl_emit e c) = view c"
  by (simp add: view_def cl_emit_def List.map_filter_def)

lemma view_cl_fault [view_simps]: "\<not> severe f \<Longrightarrow> view (cl_fault f c) = view c"
  by (simp add: view_def cl_fault_def)

lemma view_cl_assert [view_simps]: "\<not> severe (AssertFailed s) \<Longrightarrow> view (cl_assert s b c) = view c"
  by (simp add: cl_assert_def view_cl_fault)

lemma severe_UseAfterFree [simp]: "\<not> severe (UseAfterFree p)" and severe_UndefinedRead [simp]: "\<not> severe (UndefinedRead s)"
  by (simp_all add: severe_def)

lemma view_timers [view_simps]:
  "view (timer_wait i ms cb d c) = view c" "view (timer_cancel i c) = view c" "view (timer_free i c) = view c"
  "view (snd (timer_alloc env c)) = view c"
  by (simp_all add: timer_wait_def timer_cancel_def timer_free_def timer_alloc_def split_beta Let_def view_upd_nonops)

lemma map_obj_update: "(\<And>x. g (a, f x) = g (a, x)) \<Longrightarrow> map g (obj_update a f xs) = map g xs"
  by (auto simp: obj_update_def)

lemma op_type_all:
  "(\<forall>ty. P ty) \<longleftrightarrow> P Type_Search \<and> P Type_Connect \<and> P Type_KeepAlive \<and> P Type_Disconnect \<and> P Type_Subscribe \<and>
     P Type_Unsubscribe \<and> P Type_Send \<and> P Type_Will"
  by (metis op_type.exhaust)

lemma view_objsI:
  "\<forall>ty. objs ty d = objs ty c \<Longrightarrow> m_ops d = m_ops c \<Longrightarrow> m_nextAddr d = m_nextAddr c \<Longrightarrow> out d = out c \<Longrightarrow>
   cl_faults d = cl_faults c \<Longrightarrow> m_apiEnterCount d = m_apiEnterCount c \<Longrightarrow> view d = view c"
  by (simp add: view_def)

lemma view_upd_search [view_simps]: "(\<And>x. so_cb (f x) = so_cb x) \<Longrightarrow> view (upd_search a f c) = view c"
  by (rule view_objsI) (simp_all add: op_type_all upd_search_def map_obj_update)

lemma view_upd_connect [view_simps]: "(\<And>x. co_cb (f x) = co_cb x) \<Longrightarrow> view (upd_connect a f c) = view c"
  by (rule view_objsI) (simp_all add: op_type_all upd_connect_def map_obj_update)

lemma view_upd_keepalive [view_simps]: "view (upd_keepalive a f c) = view c"
  by (rule view_objsI) (simp_all add: op_type_all upd_keepalive_def map_obj_update)

lemma view_upd_disconnect [view_simps]: "(\<And>x. do_cb (f x) = do_cb x) \<Longrightarrow> view (upd_disconnect a f c) = view c"
  by (rule view_objsI) (simp_all add: op_type_all upd_disconnect_def map_obj_update)

lemma view_upd_subscribe [view_simps]: "(\<And>x. sb_cb (f x) = sb_cb x) \<Longrightarrow> (\<And>x. sb_suspended (f x) = sb_suspended x) \<Longrightarrow> view (upd_subscribe a f c) = view c"
  by (rule view_objsI) (simp_all add: op_type_all upd_subscribe_def map_obj_update)

lemma view_upd_unsubscribe [view_simps]: "(\<And>x. ub_cb (f x) = ub_cb x) \<Longrightarrow> (\<And>x. ub_suspended (f x) = ub_suspended x) \<Longrightarrow> view (upd_unsubscribe a f c) = view c"
  by (rule view_objsI) (simp_all add: op_type_all upd_unsubscribe_def map_obj_update)

lemma view_upd_send [view_simps]: "(\<And>x. sn_cb (f x) = sn_cb x) \<Longrightarrow> (\<And>x. sn_suspended (f x) = sn_suspended x) \<Longrightarrow> view (upd_send a f c) = view c"
  by (rule view_objsI) (simp_all add: op_type_all upd_send_def map_obj_update)

lemma view_upd_will [view_simps]: "(\<And>x. wo_cb (f x) = wo_cb x) \<Longrightarrow> view (upd_will a f c) = view c"
  by (rule view_objsI) (simp_all add: op_type_all upd_will_def map_obj_update)

lemma view_on_obj:
  "(\<And>x. obj_at a (ops c) = Some x \<Longrightarrow> view (f x c) = view c) \<Longrightarrow> view (on_obj ty ops a f c) = view c"
  by (simp add: on_obj_def view_cl_fault split: option.splits)

lemma view_on_obj_ec:
  "(\<And>x. obj_at a (ops c) = Some x \<Longrightarrow> view (snd (f x c)) = view c) \<Longrightarrow> view (snd (on_obj_ec ty ops a f c)) = view c"
  by (simp add: on_obj_ec_def view_cl_fault split: option.splits)

lemma view_fold: "(\<And>x c. x \<in> set xs \<Longrightarrow> view (f x c) = view c) \<Longrightarrow> view (fold f xs c) = view c"
  by (induction xs arbitrary: c) simp_all

lemma view_restart [view_simps]:
  "view (KeepAliveOp_restartPingTimer a ko c) = view c" "view (KeepAliveOp_restartRecvTimer a ko c) = view c"
  "view (KeepAliveOp_restartRespTimer a ko c) = view c" "view (SendOp_restartTimer a so c) = view c"
  "view (SubscribeOp_restartTimer a sb c) = view c" "view (UnsubscribeOp_restartTimer a ub c) = view c"
  "view (SearchOp_restartTimer a se c) = view c" "view (ConnectOp_restartTimer a co c) = view c"
  "view (DisconnectOp_restartTimer a di c) = view c" "view (WillOp_restartTimer a wi c) = view c"
  by (simp_all add: KeepAliveOp_restartPingTimer_def KeepAliveOp_restartRecvTimer_def KeepAliveOp_restartRespTimer_def
      SendOp_restartTimer_def SubscribeOp_restartTimer_def UnsubscribeOp_restartTimer_def SearchOp_restartTimer_def
      ConnectOp_restartTimer_def DisconnectOp_restartTimer_def WillOp_restartTimer_def view_simps)

lemma view_sendMessage [view_simps]: "view (snd (ClientImpl_sendMessage env msg r c)) = view c"
proof -
  have "view (fold (\<lambda>(a, ko). KeepAliveOp_messageSent a ko) xs d) = view d" for xs d
    by (rule view_fold) (auto simp: KeepAliveOp_messageSent_def view_simps)
  then show ?thesis
    by (simp add: ClientImpl_sendMessage_def Let_def view_simps severe_def split_beta)
qed

lemma view_packetIds [view_simps]:
  "view (ClientImpl_releasePacketId i c) = view c" "view (snd (ClientImpl_allocPacketId env c)) = view c"
  "view (SendOp_releasePacketIdsInternal so c) = view c"
  by (simp_all add: ClientImpl_releasePacketId_def ClientImpl_allocPacketId_def SendOp_releasePacketIdsInternal_def
      view_simps severe_def split: option.splits)

lemma view_allocPacketIdsInternal [view_simps]: "view (SendOp_allocPacketIdsInternal env a c) = view c"
  unfolding SendOp_allocPacketIdsInternal_def
  by (rule view_on_obj) (simp add: Let_def split_beta view_simps)

lemma view_sendInternal [view_simps]:
  "view (snd (SendOp_sendInternal_Register env a so c)) = view c"
  "view (snd (SendOp_sendInternal_Pubrel env a so c)) = view c"
  "view (snd (SubscribeOp_sendInternal env a c)) = view c"
  "view (snd (UnsubscribeOp_sendInternal env a c)) = view c"
  "view (snd (SearchOp_sendInternal env a c)) = view c"
  "view (snd (ConnectOp_sendInternal env a c)) = view c"
  "view (snd (DisconnectOp_sendInternal env a c)) = view c"
  "view (snd (WillOp_sendInternal env a c)) = view c"
  unfolding SubscribeOp_sendInternal_def UnsubscribeOp_sendInternal_def SearchOp_sendInternal_def
    ConnectOp_sendInternal_def DisconnectOp_sendInternal_def WillOp_sendInternal_def
  by ((rule view_on_obj_ec)?; simp add: SendOp_sendInternal_Register_def SendOp_sendInternal_Pubrel_def Let_def
      split_beta view_simps)+

lemma view_registrations [view_simps]:
  "view (ClientImpl_storeInRegTopic t i c) = view c" "view (ClientImpl_storeOutRegTopic t i c) = view c"
  by (simp_all add: ClientImpl_storeInRegTopic_def ClientImpl_storeOutRegTopic_def view_simps split: option.splits)

lemma view_upd_session [view_simps]: "view (upd_session f c) = view c"
  by (simp add: upd_session_def view_simps)

section \<open>Consistency\<close>

definition send_active :: "op_view \<Rightarrow> bool" where
  "send_active v \<longleftrightarrow> (case vw_objs v Type_Send of [] \<Rightarrow> True | (_, _, suspended) # _ \<Rightarrow> \<not> suspended)"

definition ops_wf :: "op_view \<Rightarrow> bool" where
  "ops_wf v \<longleftrightarrow> (\<forall>ty. map fst (vw_objs v ty) = addrs ty (vw_ops v)) \<and> distinct (live (vw_ops v)) \<and>
     (\<forall>p \<in> set (live (vw_ops v)). snd p < vw_nextAddr v) \<and>
     (\<forall>(_, _, suspended) \<in> set (tl (vw_objs v Type_Send)). suspended)"

text \<open>How often an operation is reported: what it still owes, and what has been reported.\<close>

definition waiting :: "op_ptr \<Rightarrow> op_view \<Rightarrow> bool" where
  "waiting p v \<longleftrightarrow> (\<exists>(a, cb, _) \<in> set (vw_objs v (fst p)). a = snd p \<and> cb)"

definition reported :: "op_ptr \<Rightarrow> op_view \<Rightarrow> nat" where
  "reported p v = count_list (vw_reports v) p"

definition account :: "op_ptr \<Rightarrow> op_view \<Rightarrow> nat" where
  "account p v = (if waiting p v then 1 else 0) + reported p v"

definition vw_remove :: "op_ptr \<Rightarrow> op_view \<Rightarrow> op_view" where
  "vw_remove p v =
     v\<lparr>vw_objs := (vw_objs v)(fst p := filter (\<lambda>x. fst x \<noteq> snd p) (vw_objs v (fst p))),
       vw_ops := map (\<lambda>q. if q = Some p then None else q) (vw_ops v)\<rparr>"

definition vw_report :: "bool \<Rightarrow> op_ptr \<Rightarrow> op_view \<Rightarrow> op_view" where
  "vw_report b p v = (if b then v\<lparr>vw_reports := vw_reports v @ [p]\<rparr> else v)"

text \<open>Pointers only become null.\<close>

definition cleared :: "op_ptr option list \<Rightarrow> op_ptr option list \<Rightarrow> bool" where
  "cleared = list_all2 (\<lambda>x y. y = None \<or> y = x)"

lemma cleared_refl [simp]: "cleared xs xs"
  by (simp add: cleared_def list_all2_same)

lemma cleared_trans: "cleared xs ys \<Longrightarrow> cleared ys zs \<Longrightarrow> cleared xs zs"
  by (auto simp: cleared_def list_all2_conv_all_nth) metis

lemma cleared_map: "(\<And>x. f x = None \<or> f x = x) \<Longrightarrow> cleared xs (map f xs)"
  by (auto simp: cleared_def list_all2_conv_all_nth)

lemma live_simps [simp]: "live [] = []" "live (q # qs) = (case q of None \<Rightarrow> live qs | Some p \<Rightarrow> p # live qs)"
  "live (qs @ rs) = live qs @ live rs"
  by (auto simp: live_def List.map_filter_def split: option.splits)

lemma set_live: "set (live qs) = {p. Some p \<in> set qs}"
  by (induction qs) (auto split: option.splits)

lemma cleared_live: "cleared xs ys \<Longrightarrow> set (live ys) \<subseteq> set (live xs)"
  unfolding cleared_def by (induction rule: list_all2_induct) (auto split: option.splits)

text \<open>A change that creates no operation, keeps consistency and accounts for every operation.\<close>

definition steady :: "op_view \<Rightarrow> op_view \<Rightarrow> bool" where
  "steady v w \<longleftrightarrow> (ops_wf v \<longrightarrow> ops_wf w \<and> (\<forall>p. account p w = account p v) \<and> vw_severe w = vw_severe v \<and>
     vw_nextAddr w = vw_nextAddr v \<and> vw_calls w = vw_calls v \<and>
     cleared (vw_ops v) (vw_ops w) \<and> (\<forall>p \<in> set (live (vw_ops w)). reported p w = reported p v))"

lemma steady_refl [simp]: "steady v v"
  by (simp add: steady_def)

lemma steadyI: "(ops_wf v \<Longrightarrow> steady v w) \<Longrightarrow> steady v w"
  by (auto simp: steady_def)

lemma steady_trans: "steady u v \<Longrightarrow> steady v w \<Longrightarrow> steady u w"
  unfolding steady_def by (metis cleared_trans cleared_live subsetD)

lemma live_remove: "live (map (\<lambda>q. if q = Some p then None else q) qs) = filter (\<lambda>q. q \<noteq> p) (live qs)"
  by (induction qs) (auto split: option.splits)

lemma addrs_remove:
  "addrs ty (map (\<lambda>q. if q = Some p then None else q) qs) =
     (if ty = fst p then filter (\<lambda>a. a \<noteq> snd p) (addrs ty qs) else addrs ty qs)"
  by (cases p) (auto simp: addrs_def live_remove filter_map comp_def intro!: arg_cong [of _ _ "map snd"] filter_cong)

lemma set_tl: "set (tl xs) \<subseteq> set xs"
  by (cases xs) auto

lemma set_tl_filter: "set (tl (filter P xs)) \<subseteq> set (tl xs)"
proof (cases xs)
  case (Cons x ys)
  then show ?thesis
    using set_tl [of "filter P ys"] by auto
qed simp

lemma ops_wf_remove: "ops_wf v \<Longrightarrow> ops_wf (vw_remove p v)"
  unfolding ops_wf_def
proof (intro conjI allI ballI; (elim conjE)?)
  fix ty
  assume "\<forall>ty. map fst (vw_objs v ty) = addrs ty (vw_ops v)"
  then have "map fst (vw_objs v ty) = addrs ty (vw_ops v)" ..
  moreover have "map fst (filter (\<lambda>x. fst x \<noteq> a) xs) = filter (\<lambda>x. x \<noteq> a) (map fst xs)"
    for a :: nat and xs :: "(nat \<times> bool \<times> bool) list"
    by (simp add: filter_map comp_def)
  ultimately show "map fst (vw_objs (vw_remove p v) ty) = addrs ty (vw_ops (vw_remove p v))"
    by (cases "ty = fst p") (auto simp: vw_remove_def addrs_remove)
next
  fix x
  assume "x \<in> set (tl (vw_objs (vw_remove p v) Type_Send))"
    and *: "\<forall>(_, _, suspended)\<in>set (tl (vw_objs v Type_Send)). suspended"
  then have "x \<in> set (tl (vw_objs v Type_Send))"
    using subsetD [OF set_tl_filter] by (auto simp: vw_remove_def split: if_splits)
  with * show "case x of (_, _, suspended) \<Rightarrow> suspended" by blast
qed (simp_all add: vw_remove_def live_remove)

lemma ops_wf_report [simp]: "ops_wf (vw_report b p v) = ops_wf v"
  by (simp add: vw_report_def ops_wf_def)

lemma vw_report_simps [simp]:
  "vw_severe (vw_report b p v) = vw_severe v" "vw_nextAddr (vw_report b p v) = vw_nextAddr v"
  "vw_calls (vw_report b p v) = vw_calls v" "vw_ops (vw_report b p v) = vw_ops v"
  by (simp_all add: vw_report_def)

lemma vw_remove_simps [simp]:
  "vw_severe (vw_remove p v) = vw_severe v" "vw_nextAddr (vw_remove p v) = vw_nextAddr v"
  "vw_calls (vw_remove p v) = vw_calls v"
  by (simp_all add: vw_remove_def)

lemma send_active_report [simp]: "send_active (vw_report b p v) = send_active v"
  by (simp add: vw_report_def send_active_def)

lemma distinct_addrs: "ops_wf v \<Longrightarrow> distinct (map fst (vw_objs v ty))"
  by (auto simp: ops_wf_def addrs_def distinct_map intro!: inj_onI)

lemma removed_gone: "steady (vw_remove p v) w \<Longrightarrow> ops_wf v \<Longrightarrow> p \<notin> set (live (vw_ops w))"
  using ops_wf_remove [of v p] cleared_live [of "vw_ops (vw_remove p v)" "vw_ops w"]
  by (auto simp: steady_def vw_remove_def live_remove)

lemma reported_objs [simp]: "reported p (v\<lparr>vw_objs := xs\<rparr>) = reported p v"
  by (simp add: reported_def)

lemma waiting_remove [simp]: "waiting p (vw_remove q v) \<longleftrightarrow> waiting p v \<and> p \<noteq> q"
  by (cases p; cases q) (auto simp: waiting_def vw_remove_def)

lemma waiting_report [simp]: "waiting p (vw_report b q v) = waiting p v"
  by (simp add: waiting_def vw_report_def)

lemma reported_remove [simp]: "reported p (vw_remove q v) = reported p v"
  by (simp add: reported_def vw_remove_def)

lemma reported_report [simp]: "reported p (vw_report b q v) = reported p v + (if b \<and> p = q then 1 else 0)"
  by (auto simp: reported_def vw_report_def)

lemma waiting_obj: "ops_wf v \<Longrightarrow> (a, b, s) \<in> set (vw_objs v ty) \<Longrightarrow> waiting (ty, a) v \<longleftrightarrow> b"
  using eq_key_imp_eq_value [OF distinct_addrs] by (fastforce simp: waiting_def)

text \<open>Removing an operation and reporting it at the end accounts for it.\<close>

lemma steady_remove_report:
  assumes obj: "(a, b, s) \<in> set (vw_objs v ty)" and steady: "steady (vw_remove (ty, a) v) w"
  shows "steady v (vw_report b (ty, a) w)"
proof (rule steadyI)
  assume wf: "ops_wf v"
  have "account p (vw_report b (ty, a) w) = account p v" for p
  proof -
    have "account p w = account p (vw_remove (ty, a) v)"
      using steady ops_wf_remove [OF wf, of "(ty, a)"] by (simp add: steady_def del: split_paired_All)
    then show ?thesis
      using waiting_obj [OF wf obj] by (cases "p = (ty, a)") (simp_all add: account_def del: split_paired_All)
  qed
  moreover have "cleared (vw_ops v) (vw_ops (vw_remove (ty, a) v))"
    by (simp add: vw_remove_def cleared_map)
  ultimately show ?thesis
    using steady removed_gone [OF steady wf] ops_wf_remove [OF wf, of "(ty, a)"] cleared_trans
    by (auto simp: steady_def)
qed

section \<open>Completing one operation\<close>

lemma mark_map:
  "distinct (live qs) \<Longrightarrow> Some p \<in> set qs \<Longrightarrow>
   qs[find_index (\<lambda>q. q = Some p) qs := None] = map (\<lambda>q. if q = Some p then None else q) qs"
proof (induction qs)
  case (Cons q qs)
  moreover have "map (\<lambda>q. if q = Some p then None else q) qs = qs" if "Some p \<notin> set qs"
    using that by (auto intro!: map_idI)
  ultimately show ?case by (auto simp: set_live split: option.splits)
qed simp

lemma obj_erase_filter: "distinct (map fst xs) \<Longrightarrow> obj_erase a xs = filter (\<lambda>x. fst x \<noteq> a) xs"
  by (induction xs) (auto simp: obj_erase_def filter_id_conv intro!: sym [OF filter_True])

lemma map_filter_key:
  "(\<And>x. fst (g x) = fst x) \<Longrightarrow> map g (filter (\<lambda>x. fst x \<noteq> a) xs) = filter (\<lambda>x. fst x \<noteq> a) (map g xs)"
  by (simp add: filter_map comp_def)

lemma view_fields [simp]:
  "vw_objs (view c) ty = objs ty c" "vw_ops (view c) = m_ops c" "vw_nextAddr (view c) = m_nextAddr c"
  "vw_calls (view c) = m_apiEnterCount c"
  by (simp_all add: view_def)

lemma obj_live: "ops_wf v \<Longrightarrow> (a, b, s) \<in> set (vw_objs v ty) \<Longrightarrow> (ty, a) \<in> set (live (vw_ops v))"
proof -
  assume "ops_wf v" and obj: "(a, b, s) \<in> set (vw_objs v ty)"
  then have "map fst (vw_objs v ty) = addrs ty (vw_ops v)" by (simp add: ops_wf_def)
  moreover have "a \<in> set (map fst (vw_objs v ty))" using obj by force
  ultimately show ?thesis by (auto simp: addrs_def)
qed

lemma obj_at_objs:
  "obj_at a (m_searchOps c) = Some x1 \<Longrightarrow> (a, so_cb x1, False) \<in> set (objs Type_Search c)"
  "obj_at a (m_connectOps c) = Some x2 \<Longrightarrow> (a, co_cb x2, False) \<in> set (objs Type_Connect c)"
  "obj_at a (m_keepAliveOps c) = Some x3 \<Longrightarrow> (a, False, False) \<in> set (objs Type_KeepAlive c)"
  "obj_at a (m_disconnectOps c) = Some x4 \<Longrightarrow> (a, do_cb x4, False) \<in> set (objs Type_Disconnect c)"
  "obj_at a (m_subscribeOps c) = Some x5 \<Longrightarrow> (a, sb_cb x5, sb_suspended x5) \<in> set (objs Type_Subscribe c)"
  "obj_at a (m_unsubscribeOps c) = Some x6 \<Longrightarrow> (a, ub_cb x6, ub_suspended x6) \<in> set (objs Type_Unsubscribe c)"
  "obj_at a (m_sendOps c) = Some x7 \<Longrightarrow> (a, sn_cb x7, sn_suspended x7) \<in> set (objs Type_Send c)"
  "obj_at a (m_willOps c) = Some x8 \<Longrightarrow> (a, wo_cb x8, False) \<in> set (objs Type_Will c)"
  by (force simp: obj_at_def dest!: map_of_SomeD)+

lemma opComplete_mark_wf:
  "ops_wf (view c) \<Longrightarrow> Some (ty, a) \<in> set (m_ops c) \<Longrightarrow> opComplete_mark (ty, a) c =
    (True, c\<lparr>m_ops := map (\<lambda>q. if q = Some (ty, a) then None else q) (m_ops c), m_opsDeleted := True\<rparr>)"
  by (auto simp: opComplete_mark_def find_index_less mark_map cl_assert_def Let_def ops_wf_def)

lemma distinct_objs:
  "ops_wf (view c) \<Longrightarrow> distinct (map fst (m_searchOps c))"
  "ops_wf (view c) \<Longrightarrow> distinct (map fst (m_connectOps c))"
  "ops_wf (view c) \<Longrightarrow> distinct (map fst (m_keepAliveOps c))"
  "ops_wf (view c) \<Longrightarrow> distinct (map fst (m_disconnectOps c))"
  "ops_wf (view c) \<Longrightarrow> distinct (map fst (m_subscribeOps c))"
  "ops_wf (view c) \<Longrightarrow> distinct (map fst (m_unsubscribeOps c))"
  "ops_wf (view c) \<Longrightarrow> distinct (map fst (m_sendOps c))"
  "ops_wf (view c) \<Longrightarrow> distinct (map fst (m_willOps c))"
  using distinct_addrs [of "view c" Type_Search] distinct_addrs [of "view c" Type_Connect]
    distinct_addrs [of "view c" Type_KeepAlive] distinct_addrs [of "view c" Type_Disconnect]
    distinct_addrs [of "view c" Type_Subscribe] distinct_addrs [of "view c" Type_Unsubscribe]
    distinct_addrs [of "view c" Type_Send] distinct_addrs [of "view c" Type_Will]
  by (simp_all add: comp_def split_beta)

text \<open>The view without an operation, as marking and erasing leave it.\<close>

abbreviation without :: "op_ptr \<Rightarrow> client \<Rightarrow> client" where
  "without p c \<equiv> c\<lparr>m_ops := map (\<lambda>q. if q = Some p then None else q) (m_ops c), m_opsDeleted := True\<rparr>"

lemma view_without:
  "view ((without (Type_Search, a) c)\<lparr>m_searchOps := filter (\<lambda>x. fst x \<noteq> a) (m_searchOps c)\<rparr>) = vw_remove (Type_Search, a) (view c)"
  "view ((without (Type_Connect, a) c)\<lparr>m_connectOps := filter (\<lambda>x. fst x \<noteq> a) (m_connectOps c)\<rparr>) = vw_remove (Type_Connect, a) (view c)"
  "view ((without (Type_KeepAlive, a) c)\<lparr>m_keepAliveOps := filter (\<lambda>x. fst x \<noteq> a) (m_keepAliveOps c)\<rparr>) = vw_remove (Type_KeepAlive, a) (view c)"
  "view ((without (Type_Disconnect, a) c)\<lparr>m_disconnectOps := filter (\<lambda>x. fst x \<noteq> a) (m_disconnectOps c)\<rparr>) = vw_remove (Type_Disconnect, a) (view c)"
  "view ((without (Type_Subscribe, a) c)\<lparr>m_subscribeOps := filter (\<lambda>x. fst x \<noteq> a) (m_subscribeOps c)\<rparr>) = vw_remove (Type_Subscribe, a) (view c)"
  "view ((without (Type_Unsubscribe, a) c)\<lparr>m_unsubscribeOps := filter (\<lambda>x. fst x \<noteq> a) (m_unsubscribeOps c)\<rparr>) = vw_remove (Type_Unsubscribe, a) (view c)"
  "view ((without (Type_Send, a) c)\<lparr>m_sendOps := filter (\<lambda>x. fst x \<noteq> a) (m_sendOps c)\<rparr>) = vw_remove (Type_Send, a) (view c)"
  "view ((without (Type_Will, a) c)\<lparr>m_willOps := filter (\<lambda>x. fst x \<noteq> a) (m_willOps c)\<rparr>) = vw_remove (Type_Will, a) (view c)"
  by (simp_all add: view_def vw_remove_def fun_eq_iff op_type_all map_filter_key split_beta)

lemma view_report: "completion e = Some p \<Longrightarrow> view (if b then cl_emit e c else c) = vw_report b p (view c)"
  by (simp add: view_def vw_report_def cl_emit_def List.map_filter_def)

definition keeps :: "client \<Rightarrow> client \<Rightarrow> bool" where
  "keeps c d \<longleftrightarrow> steady (view c) (view d) \<and> (ops_wf (view c) \<and> send_active (view c) \<longrightarrow> send_active (view d))"

lemma keepsI: "(ops_wf (view c) \<Longrightarrow> keeps c d) \<Longrightarrow> keeps c d"
  by (auto simp: keeps_def steady_def)

lemma keeps_trans: "keeps c d \<Longrightarrow> keeps d e \<Longrightarrow> keeps c e"
  unfolding keeps_def by (metis steady_trans steady_def)

lemma keeps_view: "view d = view c \<Longrightarrow> keeps c d"
  by (simp add: keeps_def)

lemma send_active_remove: "ty \<noteq> Type_Send \<Longrightarrow> send_active (vw_remove (ty, a) v) = send_active v"
  by (simp add: send_active_def vw_remove_def)

lemma m_ops_cl_fault [simp]: "m_ops (cl_fault f c) = m_ops c"
  by (simp add: cl_fault_def)

definition completes :: "op_ptr \<Rightarrow> client \<Rightarrow> client \<Rightarrow> bool" where
  "completes p c d \<longleftrightarrow> keeps c d \<and> (ops_wf (view c) \<longrightarrow> p \<notin> set (live (m_ops d)))"

lemma completesI: "(ops_wf (view c) \<Longrightarrow> completes p c d) \<Longrightarrow> completes p c d"
  using keepsI by (auto simp: completes_def)

text \<open>A call on an operation that does not exist.\<close>

lemma not_live:
  assumes "ops_wf (view c)" "obj_at a xs = None" "map fst (objs ty c) = map fst xs"
  shows "(ty, a) \<notin> set (live (m_ops c))"
proof -
  have "addrs ty (m_ops c) = map fst xs" using assms by (metis ops_wf_def view_fields(1,2))
  moreover have "a \<notin> set (map fst xs)" using assms(2) by (simp add: obj_at_def map_of_eq_None_iff)
  ultimately have "a \<notin> set (addrs ty (m_ops c))" by simp
  then show ?thesis by (force simp: addrs_def)
qed

text \<open>An operation that has no successor in a queue.\<close>

lemma keeps_complete:
  assumes obj: "\<And>x. obj_at a (ops c) = Some x \<Longrightarrow> (a, b x, s x) \<in> set (objs ty c)" and "ty \<noteq> Type_Send"
    and view: "\<And>x. obj_at a (ops c) = Some x \<Longrightarrow> ops_wf (view c) \<Longrightarrow> Some (ty, a) \<in> set (m_ops c) \<Longrightarrow>
      view (f x c) = vw_report (b x) (ty, a) (vw_remove (ty, a) (view c))"
    and keys: "map fst (objs ty c) = map fst (ops c)"
  shows "completes (ty, a) c (on_obj ty ops a f c)"
proof (rule completesI)
  assume wf: "ops_wf (view c)"
  show ?thesis
  proof (cases "obj_at a (ops c)")
    case (Some x)
    have "Some (ty, a) \<in> set (m_ops c)"
      using obj_live [OF wf, of a "b x" "s x" ty] obj [OF Some] by (simp add: set_live)
    then show ?thesis
      using view [OF Some wf] obj [OF Some] \<open>ty \<noteq> Type_Send\<close>
        steady_remove_report [of a "b x" "s x" "view c" ty "vw_remove (ty, a) (view c)"]
        removed_gone [of "(ty, a)" "view c" "vw_remove (ty, a) (view c)"] wf
      by (simp add: completes_def keeps_def send_active_remove on_obj_def Some flip: view_fields)
  next
    case None
    then show ?thesis
      using not_live [OF wf None keys] by (simp add: completes_def on_obj_def keeps_view view_simps m_ops_cl_fault)
  qed
qed

lemmas completing = eraseFromList_assert_def cl_assert_def Let_def opComplete_mark_wf obj_erase_filter
  distinct_objs view_without view_report view_timers view_packetIds comp_def split_beta

lemma SearchOp_completes: "completes (Type_Search, a) c (SearchOp_completeOpInternal st info a c)"
  unfolding SearchOp_completeOpInternal_def
  by (rule keeps_complete [OF obj_at_objs(1)]) (simp_all add: SearchOp_opComplete_def opComplete_Search_def completing)

lemma ConnectOp_completes: "completes (Type_Connect, a) c (ConnectOp_completeOpInternal st info a c)"
  unfolding ConnectOp_completeOpInternal_def
  by (rule keeps_complete [OF obj_at_objs(2)]) (simp_all add: ConnectOp_opComplete_def opComplete_Connect_def completing)

lemma KeepAliveOp_completes: "completes (Type_KeepAlive, a) c (on_obj Type_KeepAlive m_keepAliveOps a (\<lambda>_. KeepAliveOp_opComplete a) c)"
  by (rule keeps_complete [OF obj_at_objs(3)])
    (simp_all add: KeepAliveOp_opComplete_def opComplete_KeepAlive_def vw_report_def completing)

lemma DisconnectOp_completes: "completes (Type_Disconnect, a) c (DisconnectOp_completeOpInternal st a c)"
  unfolding DisconnectOp_completeOpInternal_def
  by (rule keeps_complete [OF obj_at_objs(4)])
    (simp_all add: DisconnectOp_opComplete_def opComplete_Disconnect_def completing)

lemma WillOp_completes: "completes (Type_Will, a) c (WillOp_completeOpInternal st info a c)"
  unfolding WillOp_completeOpInternal_def
  by (rule keeps_complete [OF obj_at_objs(8)]) (simp_all add: WillOp_opComplete_def opComplete_Will_def completing)

section \<open>Publications\<close>

lemma sendOps_unchanged [simp]:
  "m_sendOps (timer_free i c) = m_sendOps c" "m_sendOps (SendOp_releasePacketIdsInternal so c) = m_sendOps c"
  by (simp_all add: timer_free_def SendOp_releasePacketIdsInternal_def ClientImpl_releasePacketId_def)

text \<open>What the call of \<^verbatim>\<open>resume()\<close> promises for the first publication of a list shorter than \<open>n\<close>.\<close>

definition resumes :: "(nat \<Rightarrow> client \<Rightarrow> client) \<Rightarrow> nat \<Rightarrow> bool" where
  "resumes resume n \<longleftrightarrow> (\<forall>b so rest d. ops_wf (view d) \<longrightarrow> m_sendOps d = (b, so) # rest \<longrightarrow> length (m_sendOps d) < n \<longrightarrow>
     steady (view d) (view (resume b d)) \<and> send_active (view (resume b d)))"

lemma SendOp_opComplete_with_removes:
  assumes wf: "ops_wf (view c)" and so: "obj_at a (m_sendOps c) = Some so"
    and resume: "resumes resume n" and n: "length (m_sendOps c) \<le> n"
  shows "steady (vw_remove (Type_Send, a) (view c)) (view (SendOp_opComplete_with resume a c)) \<and>
    send_active (view (SendOp_opComplete_with resume a c))"
proof -
  define d where "d = timer_free (sn_timer so) (SendOp_releasePacketIdsInternal so
    ((without (Type_Send, a) c)\<lparr>m_sendOps := filter (\<lambda>x. fst x \<noteq> a) (m_sendOps c)\<rparr>))"
  have d: "view d = vw_remove (Type_Send, a) (view c)" by (simp add: d_def view_timers view_packetIds view_without)
  have len: "length (m_sendOps d) < length (m_sendOps c)"
    using so by (auto simp: d_def obj_at_def dest!: map_of_SomeD intro!: length_filter_less)
  have "Some (Type_Send, a) \<in> set (m_ops c)"
    using obj_live [OF wf, of a _ _ Type_Send] obj_at_objs(7) [OF so] by (simp add: set_live)
  then have e: "SendOp_opComplete_with resume a c = (case m_sendOps d of [] \<Rightarrow> d | (b, _) # _ \<Rightarrow> resume b d)"
    using wf so by (simp add: SendOp_opComplete_with_def opComplete_Send_with_def completing d_def cong: list.case_cong)
  show ?thesis
  proof (cases "m_sendOps d")
    case Nil
    then show ?thesis by (simp add: e send_active_def flip: d)
  next
    case (Cons x rest)
    then show ?thesis
      using resume n len ops_wf_remove [OF wf, of "(Type_Send, a)"]
      by (cases x) (simp add: e resumes_def d [symmetric])
  qed
qed

lemma SendOp_complete_with:
  assumes wf: "ops_wf (view c)" and so: "obj_at a (m_sendOps c) = Some so"
    and resume: "resumes resume n" and n: "length (m_sendOps c) \<le> n"
  shows "steady (view c) (view (SendOp_completeOpInternal_with resume st info a c)) \<and>
    send_active (view (SendOp_completeOpInternal_with resume st info a c)) \<and>
    (Type_Send, a) \<notin> set (live (m_ops (SendOp_completeOpInternal_with resume st info a c)))"
proof -
  define e where "e = SendOp_opComplete_with resume a c"
  have e: "steady (vw_remove (Type_Send, a) (view c)) (view e)" "send_active (view e)"
    using SendOp_opComplete_with_removes [OF assms] by (simp_all add: e_def)
  have "SendOp_completeOpInternal_with resume st info a c =
      (if sn_cb so then cl_emit (Out_PublishComplete a st (if st \<noteq> St_Complete then None else info)) e else e)"
    using so by (simp add: SendOp_completeOpInternal_with_def on_obj_def e_def)
  then show ?thesis
    using e removed_gone [OF e(1) wf] steady_remove_report [OF _ e(1), of "sn_cb so" "sn_suspended so"] obj_at_objs(7) [OF so]
    by (simp add: view_report cl_emit_def)
qed

text \<open>Sending a publication keeps the view when it fails; it completes a publication of quality of
  service 0.\<close>

lemma SendOp_sendInternal_with_steady:
  assumes wf: "ops_wf (view c)" and resume: "resumes resume n" and n: "length (m_sendOps c) \<le> n"
  shows "(fst (SendOp_sendInternal_with resume env a c) \<noteq> Ec_Success \<longrightarrow>
      view (snd (SendOp_sendInternal_with resume env a c)) = view c) \<and>
    steady (view c) (view (snd (SendOp_sendInternal_with resume env a c))) \<and>
    (send_active (view c) \<longrightarrow> send_active (view (snd (SendOp_sendInternal_with resume env a c))))"
proof (cases "obj_at a (m_sendOps c)")
  case None
  then show ?thesis by (simp add: SendOp_sendInternal_with_def on_obj_ec_def view_simps)
next
  case (Some so)
  define pub where "pub = (if ob_retryCount so < sn_origRetryCount so then (sn_pub so)\<lparr>sp_dup := True\<rparr> else sn_pub so)"
  define d where "d = snd (ClientImpl_sendMessage env (PublishMsg_CL pub) 0 (upd_send a (\<lambda>so. so\<lparr>sn_pub := pub\<rparr>)
    (cl_assert ''sendInternal_Publish: topicId''
      (sp_topicIdType (sn_pub so) = ShortTopicName \<or> isValidTopicId (sp_topicId (sn_pub so))) c)))"
  have d: "view d = view c" by (simp add: d_def view_simps severe_def)
  have len: "length (objs Type_Send c) = length (m_sendOps c)" for c by simp
  have "length (m_sendOps d) \<le> n" using n d len [of c] len [of d] by (metis view_fields(1))
  moreover have "\<exists>so'. obj_at a (m_sendOps d) = Some so'"
  proof -
    have "fst ` set (objs Type_Send d) = fst ` set (objs Type_Send c)" using d by (metis view_fields(1))
    then have "fst ` set (m_sendOps d) = fst ` set (m_sendOps c)" by (force simp: image_image split_beta)
    then show ?thesis using Some by (metis obj_at_def map_of_eq_None_iff not_None_eq)
  qed
  ultimately have "steady (view c) (view (SendOp_completeOpInternal_with resume St_Complete None a d)) \<and>
      send_active (view (SendOp_completeOpInternal_with resume St_Complete None a d))"
    using SendOp_complete_with [of d a _ resume n St_Complete None] wf resume d by auto
  moreover have "SendOp_sendInternal_Publish_with resume env a so c =
     (let ec = fst (ClientImpl_sendMessage env (PublishMsg_CL pub) 0 (upd_send a (\<lambda>so. so\<lparr>sn_pub := pub\<rparr>)
        (cl_assert ''sendInternal_Publish: topicId''
          (sp_topicIdType (sn_pub so) = ShortTopicName \<or> isValidTopicId (sp_topicId (sn_pub so))) c)))
      in if ec \<noteq> Ec_Success then (ec, d)
         else if sp_qos pub = SN_AtMostOnceDelivery
         then (Ec_Success, SendOp_completeOpInternal_with resume St_Complete None a d)
         else (Ec_Success, SendOp_restartTimer a so (cl_assert ''sendInternal_Publish: msgId'' (sp_msgId pub > 0) d)))"
    by (simp add: SendOp_sendInternal_Publish_with_def Let_def split_beta pub_def d_def)
  ultimately show ?thesis
    using d by (auto simp: SendOp_sendInternal_with_def on_obj_ec_def Some Let_def view_simps severe_def split: send_stage.split)
qed

lemma obj_update_head:
  "distinct (map fst ((a, x) # rest)) \<Longrightarrow> obj_update a f ((a, x) # rest) = (a, f x) # rest"
  by (force simp: obj_update_def intro: map_idI)

text \<open>The first publication stops being suspended.\<close>

lemma SendOp_unsuspend:
  assumes wf: "ops_wf (view d)" and ops: "m_sendOps d = (b, so) # rest"
  shows "steady (view d) (view (upd_send b (\<lambda>so. so\<lparr>sn_suspended := False\<rparr>) d)) \<and>
    send_active (view (upd_send b (\<lambda>so. so\<lparr>sn_suspended := False\<rparr>) d))"
proof -
  define d1 where "d1 = upd_send b (\<lambda>so. so\<lparr>sn_suspended := False\<rparr>) d"
  have ops1: "m_sendOps d1 = (b, so\<lparr>sn_suspended := False\<rparr>) # rest"
    using distinct_objs(7) [OF wf] ops by (simp add: d1_def upd_send_def obj_update_head)
  have view: "view d1 = (view d)\<lparr>vw_objs := (vw_objs (view d))(Type_Send := objs Type_Send d1)\<rparr>"
    by (simp add: view_def d1_def upd_send_def fun_eq_iff op_type_all)
  have "ops_wf (view d1)"
    using wf by (auto simp: view ops_wf_def ops ops1 dest: spec [of _ Type_Send])
  moreover have "account p (view d1) = account p (view d)" for p
    by (auto simp: view account_def waiting_def ops ops1)
  ultimately show ?thesis
    unfolding d1_def [symmetric] by (simp add: steady_def view send_active_def ops1)
qed

lemma SendOp_resume_resumes: "resumes (SendOp_resume env n) (Suc n)"
proof (induction n)
  case (Suc n)
  show ?case unfolding resumes_def
  proof (intro allI impI)
    fix b so rest d
    assume wf: "ops_wf (view d)" and ops: "m_sendOps d = (b, so) # rest" and len: "length (m_sendOps d) < Suc (Suc n)"
    define d1 where "d1 = upd_send b (\<lambda>so. so\<lparr>sn_suspended := False\<rparr>) d"
    define r where "r = SendOp_sendInternal_with (SendOp_resume env n) env b d1"
    have d1: "steady (view d) (view d1)" "send_active (view d1)"
      using SendOp_unsuspend [OF wf ops] by (simp_all add: d1_def)
    have wf1: "ops_wf (view d1)" using d1 wf by (simp add: steady_def)
    have len1: "length (m_sendOps d1) \<le> Suc n" using len by (simp add: d1_def upd_send_def obj_update_def)
    note r = SendOp_sendInternal_with_steady [OF wf1 Suc.IH len1, of env b, folded r_def]
    have same: "m_sendOps (snd r) \<noteq> [] \<and> length (m_sendOps (snd r)) \<le> Suc n \<and> fst (hd (m_sendOps (snd r))) = b"
      if "fst r \<noteq> Ec_Success"
    proof -
      have "objs Type_Send (snd r) = objs Type_Send d1" using r that by (metis view_fields(1))
      then show ?thesis using len1 ops by (cases "m_sendOps (snd r)") (auto simp: d1_def upd_send_def obj_update_def dest: map_eq_imp_length_eq split: if_splits)
    qed
    have "steady (view d1) (view e) \<and> send_active (view e)"
      if err: "fst r \<noteq> Ec_Success" and e: "e = SendOp_completeOpInternal_with (SendOp_resume env n) st None b (snd r)" for e st
    proof -
      obtain so' rest' where "m_sendOps (snd r) = (b, so') # rest'"
        using same [OF err] by (cases "m_sendOps (snd r)") auto
      then show ?thesis
        using SendOp_complete_with [of "snd r" b so' "SendOp_resume env n" "Suc n" st None] Suc.IH same r err e wf1
        by (simp add: obj_at_def)
    qed
    then have "steady (view d1) (view (SendOp_resume env (Suc n) b d)) \<and> send_active (view (SendOp_resume env (Suc n) b d))"
      if "sn_suspended so"
      using that r d1 by (auto simp: SendOp_resume_with_def on_obj_def obj_at_def ops Let_def split_beta d1_def r_def)
    then show "steady (view d) (view (SendOp_resume env (Suc n) b d)) \<and> send_active (view (SendOp_resume env (Suc n) b d))"
      using d1 by (cases "sn_suspended so")
        (auto simp: SendOp_resume_with_def on_obj_def obj_at_def ops send_active_def intro: steady_trans)
  qed
qed (simp add: resumes_def)

lemma SendOp_completes: "completes (Type_Send, a) c (SendOp_completeOpInternal env st info a c)"
proof (rule completesI)
  assume wf: "ops_wf (view c)"
  show ?thesis
  proof (cases "obj_at a (m_sendOps c)")
    case None
    then show ?thesis
      using not_live [OF wf None, of Type_Send]
      by (simp add: completes_def SendOp_completeOpInternal_def SendOp_completeOpInternal_with_def on_obj_def keeps_view
          view_simps comp_def split_beta)
  next
    case (Some so)
    show ?thesis
      using SendOp_complete_with [OF wf Some SendOp_resume_resumes [of env "length (m_sendOps c)"], of st info]
      by (simp add: completes_def keeps_def SendOp_completeOpInternal_def send_depth_def)
  qed
qed

lemma SendOp_sendInternal_error:
  "ops_wf (view c) \<Longrightarrow> fst (SendOp_sendInternal env a c) \<noteq> Ec_Success \<Longrightarrow> view (snd (SendOp_sendInternal env a c)) = view c"
  using SendOp_sendInternal_with_steady [OF _ SendOp_resume_resumes [of env "length (m_sendOps c)"], of c env a]
  by (simp add: SendOp_sendInternal_def send_depth_def)

lemma SendOp_sendInternal_keeps: "keeps c (snd (SendOp_sendInternal env a c))"
proof (rule keepsI)
  assume "ops_wf (view c)"
  then show ?thesis
    using SendOp_sendInternal_with_steady [OF _ SendOp_resume_resumes [of env "length (m_sendOps c)"], of c env a]
    by (simp add: SendOp_sendInternal_def send_depth_def keeps_def)
qed

section \<open>Subscriptions\<close>

definition sub_resumes :: "(op_ptr \<Rightarrow> client \<Rightarrow> client) \<Rightarrow> nat \<Rightarrow> bool" where
  "sub_resumes resume n \<longleftrightarrow> (\<forall>p d. 0 < sub_depth d \<longrightarrow> sub_depth d < n \<longrightarrow> keeps d (resume p d))"

lemma finaliseSupUnsubOp_keeps:
  "sub_resumes resume n \<Longrightarrow> sub_depth d < n \<Longrightarrow> keeps d (finaliseSupUnsubOp_with resume d)"
  by (auto simp: finaliseSupUnsubOp_with_def sub_resumes_def sub_depth_def keeps_view split: list.splits option.splits)

text \<open>An operation whose successor is resumed before the report.\<close>

lemma completes_then:
  assumes "(a, b, s) \<in> set (objs ty c)" "ty \<noteq> Type_Send" "view d = vw_remove (ty, a) (view c)" "keeps d e"
    "completion ev = Some (ty, a)"
  shows "completes (ty, a) c (if b then cl_emit ev e else e)"
proof (rule completesI)
  assume wf: "ops_wf (view c)"
  have "steady (vw_remove (ty, a) (view c)) (view e)" using assms(3,4) by (simp add: keeps_def)
  then have "steady (view c) (vw_report b (ty, a) (view e))" "(ty, a) \<notin> set (live (m_ops e))"
    using steady_remove_report [of a b s "view c" ty "view e"] removed_gone [of "(ty, a)" "view c" "view e"] wf assms(1)
    by simp_all
  moreover have "send_active (view c) \<Longrightarrow> send_active (view e)"
    using assms(2-4) ops_wf_remove [OF wf] by (simp add: keeps_def send_active_remove)
  ultimately show ?thesis
    using view_report [OF assms(5), of b e] by (auto simp: completes_def keeps_def cl_emit_def)
qed

lemma subOps_unchanged [simp]:
  "m_subscribeOps (timer_free i c) = m_subscribeOps c" "m_unsubscribeOps (timer_free i c) = m_unsubscribeOps c"
  "m_subscribeOps (ClientImpl_releasePacketId j c) = m_subscribeOps c"
  "m_unsubscribeOps (ClientImpl_releasePacketId j c) = m_unsubscribeOps c"
  by (simp_all add: timer_free_def ClientImpl_releasePacketId_def)

lemma length_filter_key: "obj_at a xs = Some x \<Longrightarrow> length (filter (\<lambda>x. fst x \<noteq> a) xs) < length xs"
  by (auto simp: obj_at_def dest!: map_of_SomeD intro!: length_filter_less)

lemma SubscribeOp_opComplete_with_removes:
  assumes wf: "ops_wf (view c)" and x: "obj_at a (m_subscribeOps c) = Some x"
    and resume: "sub_resumes resume n" and n: "sub_depth c \<le> n"
  shows "\<exists>d. view d = vw_remove (Type_Subscribe, a) (view c) \<and> keeps d (SubscribeOp_opComplete_with resume a c)"
proof -
  define d where "d = timer_free (sb_timer x) (ClientImpl_releasePacketId (sb_msgId x)
    ((without (Type_Subscribe, a) c)\<lparr>m_subscribeOps := filter (\<lambda>x. fst x \<noteq> a) (m_subscribeOps c)\<rparr>))"
  have "Some (Type_Subscribe, a) \<in> set (m_ops c)"
    using obj_live [OF wf, of a _ _ Type_Subscribe] obj_at_objs(5) [OF x] by (simp add: set_live)
  then have "SubscribeOp_opComplete_with resume a c = finaliseSupUnsubOp_with resume d"
    using wf x by (simp add: SubscribeOp_opComplete_with_def opComplete_Subscribe_with_def completing d_def)
  moreover have "sub_depth d < n" using n length_filter_key [OF x] by (simp add: d_def sub_depth_def)
  ultimately have "keeps d (SubscribeOp_opComplete_with resume a c)" by (simp add: finaliseSupUnsubOp_keeps [OF resume])
  then show ?thesis by (intro exI [of _ d]) (simp add: d_def view_timers view_packetIds view_without)
qed

lemma SubscribeOp_completes_with:
  assumes resume: "sub_resumes resume n" and n: "sub_depth c \<le> n"
  shows "completes (Type_Subscribe, a) c (SubscribeOp_completeOpInternal_with resume st info a c)"
proof (rule completesI)
  assume wf: "ops_wf (view c)"
  show ?thesis
  proof (cases "obj_at a (m_subscribeOps c)")
    case None
    then show ?thesis
      using not_live [OF wf None, of Type_Subscribe]
      by (simp add: completes_def SubscribeOp_completeOpInternal_with_def on_obj_def keeps_view view_simps comp_def split_beta)
  next
    case (Some x)
    then show ?thesis
      using completes_then [OF obj_at_objs(5) [OF Some], where ev = "Out_SubscribeComplete a st info"]
        SubscribeOp_opComplete_with_removes [OF wf Some assms]
      by (auto simp: SubscribeOp_completeOpInternal_with_def on_obj_def Let_def)
  qed
qed

lemma UnsubscribeOp_opComplete_with_removes:
  assumes wf: "ops_wf (view c)" and x: "obj_at a (m_unsubscribeOps c) = Some x"
    and resume: "sub_resumes resume n" and n: "sub_depth c \<le> n"
  shows "\<exists>d. view d = vw_remove (Type_Unsubscribe, a) (view c) \<and> keeps d (UnsubscribeOp_opComplete_with resume a c)"
proof -
  define d where "d = timer_free (ub_timer x) (ClientImpl_releasePacketId (ub_msgId x)
    ((without (Type_Unsubscribe, a) c)\<lparr>m_unsubscribeOps := filter (\<lambda>x. fst x \<noteq> a) (m_unsubscribeOps c)\<rparr>))"
  have "Some (Type_Unsubscribe, a) \<in> set (m_ops c)"
    using obj_live [OF wf, of a _ _ Type_Unsubscribe] obj_at_objs(6) [OF x] by (simp add: set_live)
  then have "UnsubscribeOp_opComplete_with resume a c = finaliseSupUnsubOp_with resume d"
    using wf x by (simp add: UnsubscribeOp_opComplete_with_def opComplete_Unsubscribe_with_def completing d_def)
  moreover have "sub_depth d < n" using n length_filter_key [OF x] by (simp add: d_def sub_depth_def)
  ultimately have "keeps d (UnsubscribeOp_opComplete_with resume a c)" by (simp add: finaliseSupUnsubOp_keeps [OF resume])
  then show ?thesis by (intro exI [of _ d]) (simp add: d_def view_timers view_packetIds view_without)
qed

lemma UnsubscribeOp_completes_with:
  assumes resume: "sub_resumes resume n" and n: "sub_depth c \<le> n"
  shows "completes (Type_Unsubscribe, a) c (UnsubscribeOp_completeOpInternal_with resume st a c)"
proof (rule completesI)
  assume wf: "ops_wf (view c)"
  show ?thesis
  proof (cases "obj_at a (m_unsubscribeOps c)")
    case None
    then show ?thesis
      using not_live [OF wf None, of Type_Unsubscribe]
      by (simp add: completes_def UnsubscribeOp_completeOpInternal_with_def on_obj_def keeps_view view_simps comp_def split_beta)
  next
    case (Some x)
    then show ?thesis
      using completes_then [OF obj_at_objs(6) [OF Some], where ev = "Out_UnsubscribeComplete a st"]
        UnsubscribeOp_opComplete_with_removes [OF wf Some assms]
      by (auto simp: UnsubscribeOp_completeOpInternal_with_def on_obj_def Let_def)
  qed
qed

lemma keeps_flags:
  assumes view: "view d = (view c)\<lparr>vw_objs := (vw_objs (view c))(ty := map g (objs ty c))\<rparr>" and "ty \<noteq> Type_Send"
    and g: "\<And>x. fst (g x) = fst x \<and> fst (snd (g x)) = fst (snd x)"
  shows "keeps c d"
proof -
  have "account p (view d) = account p (view c)" for p
    using g by (simp add: view account_def waiting_def split_beta)
  moreover have "ops_wf (view d)" if "ops_wf (view c)"
    using that g assms(2) by (simp add: view ops_wf_def comp_def)
  ultimately show ?thesis
    using assms(2) by (simp add: keeps_def steady_def view send_active_def)
qed

lemma SubscribeOp_unsuspend: "keeps c (upd_subscribe a (\<lambda>x. x\<lparr>sb_suspended := False\<rparr>) c)"
  by (rule keeps_flags [of _ _ Type_Subscribe "\<lambda>(b, cb, s). (b, cb, if b = a then False else s)"])
    (auto simp: view_def upd_subscribe_def obj_update_def fun_eq_iff op_type_all split: if_splits)

lemma UnsubscribeOp_unsuspend: "keeps c (upd_unsubscribe a (\<lambda>x. x\<lparr>ub_suspended := False\<rparr>) c)"
  by (rule keeps_flags [of _ _ Type_Unsubscribe "\<lambda>(b, cb, s). (b, cb, if b = a then False else s)"])
    (auto simp: view_def upd_unsubscribe_def obj_update_def fun_eq_iff op_type_all split: if_splits)

lemma sub_depth_view: "view d = view c \<Longrightarrow> sub_depth d = sub_depth c"
proof -
  have "sub_depth c = length (vw_objs (view c) Type_Subscribe) + length (vw_objs (view c) Type_Unsubscribe)" for c
    by (simp add: sub_depth_def)
  then show "view d = view c \<Longrightarrow> sub_depth d = sub_depth c" by metis
qed

lemma sub_depth_upd [simp]: "sub_depth (upd_subscribe a f c) = sub_depth c" "sub_depth (upd_unsubscribe a g c) = sub_depth c"
  by (simp_all add: sub_depth_def upd_subscribe_def upd_unsubscribe_def obj_update_def)

lemma completes_keeps: "completes p c d \<Longrightarrow> keeps c d"
  by (simp add: completes_def)

lemma SubUnsub_resume_resumes: "sub_resumes (SubUnsub_resume env n) (Suc n)"
proof (induction n)
  case (Suc n)
  show ?case unfolding sub_resumes_def
  proof (intro allI impI)
    fix p :: op_ptr and d
    assume "0 < sub_depth d" and len: "sub_depth d < Suc (Suc n)"
    define s where "s = upd_subscribe (snd p) (\<lambda>x. x\<lparr>sb_suspended := False\<rparr>) d"
    define u where "u = upd_unsubscribe (snd p) (\<lambda>x. x\<lparr>ub_suspended := False\<rparr>) d"
    define sr where "sr = SubscribeOp_sendInternal env (snd p) s"
    define ur where "ur = UnsubscribeOp_sendInternal env (snd p) u"
    have v: "view (snd sr) = view s" "view (snd ur) = view u" by (simp_all add: sr_def ur_def view_simps)
    then have dep: "sub_depth (snd sr) \<le> Suc n" "sub_depth (snd ur) \<le> Suc n"
      using len sub_depth_view [of "snd sr" s] sub_depth_view [of "snd ur" u] by (simp_all add: s_def u_def)
    have sk: "keeps d (snd sr)" and uk: "keeps d (snd ur)"
      using v SubscribeOp_unsuspend [of d "snd p"] UnsubscribeOp_unsuspend [of d "snd p"]
      by (simp_all add: keeps_def s_def u_def)
    note sc = SubscribeOp_completes_with [OF Suc.IH dep(1), THEN completes_keeps]
      and uc = UnsubscribeOp_completes_with [OF Suc.IH dep(2), THEN completes_keeps]
    show "keeps d (SubUnsub_resume env (Suc n) p d)"
      using keeps_trans [OF sk sc] keeps_trans [OF uk uc] sk uk
      by (auto simp: SubscribeOp_resume_with_def UnsubscribeOp_resume_with_def on_obj_def Let_def split_beta keeps_view
          view_simps s_def [symmetric] u_def [symmetric] sr_def [symmetric] ur_def [symmetric] split: option.splits)
  qed
qed (simp add: sub_resumes_def)

lemma SubscribeOp_completes: "completes (Type_Subscribe, a) c (SubscribeOp_completeOpInternal env st info a c)"
  and UnsubscribeOp_completes: "completes (Type_Unsubscribe, a) c (UnsubscribeOp_completeOpInternal env st a c)"
  by (simp_all add: SubscribeOp_completeOpInternal_def UnsubscribeOp_completeOpInternal_def
      SubscribeOp_completes_with [OF SubUnsub_resume_resumes] UnsubscribeOp_completes_with [OF SubUnsub_resume_resumes])

end
