(* ===== verification/Cl_Reactions.thy ===== *)
theory Cl_Reactions
  imports Cl_Frame
begin

text \<open>
  What the reactions of the client to messages and timers keep. The locale \<open>ops_frame\<close> is the interface
  between completing an operation and everything that reacts; \<open>ops_frame_create\<close> adds the creation of the
  keep alive operation. \<open>keeps\<close> interprets the first.
\<close>

section \<open>Reactions that keep the view\<close>

lemma view_KeepAlive [view_simps]:
  "view (KeepAliveOp_sendPing env a c) = view c" "view (KeepAliveOp_handle_Pingreq env a c) = view c"
  "view (KeepAliveOp_handle_Pingresp a c) = view c" "view (KeepAliveOp_handle_ProtMessage a c) = view c"
  unfolding KeepAliveOp_sendPing_def KeepAliveOp_handle_Pingreq_def KeepAliveOp_handle_Pingresp_def
    KeepAliveOp_handle_ProtMessage_def
  by (rule view_on_obj, simp add: Let_def split_beta view_simps severe_def)+

lemma view_gateways [view_simps]:
  "view (ClientImpl_reportGwStatus st info c) = view c" "view (ClientImpl_monitorGatewayExpiry c) = view c"
  "view (report_opt r c) = view c" "view (ClientImpl_sendGwinfo env c) = view c"
  "view (ClientImpl_handle_Searchgw rad c) = view c"
  by (simp_all add: ClientImpl_reportGwStatus_def ClientImpl_monitorGatewayExpiry_def report_opt_def
      ClientImpl_sendGwinfo_def ClientImpl_handle_Searchgw_def Let_def split_beta view_simps severe_def
      split: option.split list.split)

lemma view_gwExpiryTimeout [view_simps]: "view (ClientImpl_gwExpiryTimeout c) = view c"
proof -
  have "view (snd (fold gwExpiry_round infos p)) = view (snd p)" for infos p
    by (induction infos arbitrary: p) (simp_all add: gwExpiry_round_def Let_def split_beta view_simps)
  then show ?thesis by (simp add: ClientImpl_gwExpiryTimeout_def Let_def split_beta view_simps)
qed

lemma view_dispatch_keepAlive [view_simps]: "view (dispatch_keepAlive env msg c) = view c"
  unfolding dispatch_keepAlive_def
  by (rule view_fold) (auto simp: Op_handle_def view_simps split: prot_msg.split)

lemma view_publish [view_simps]:
  "view (send_puback env pub rc c) = view c" "view (send_pubrec env pub c) = view c"
  "view (report_publish pub t c) = view c" "view (publish_qos2 env pub t c) = view c"
  "view (snd (publish_topic pub c)) = view c"
  by (simp_all add: send_puback_def send_pubrec_def report_publish_def publish_qos2_def publish_topic_def Let_def
      view_simps severe_def split: option.split topic_id_type.split)

lemma view_publish_subscribed [view_simps]: "view (snd (publish_subscribed pub t c)) = view c"
proof -
  have "view (snd (find_matching_filter fs t c)) = view c" for fs c
    by (induction fs arbitrary: c) (auto simp: view_simps split: option.split bool.split)
  then show ?thesis by (simp add: publish_subscribed_def)
qed

lemma view_handlers [view_simps]:
  "view (ClientImpl_handle_Register env i j t c) = view c" "view (ClientImpl_handle_Publish env pub c) = view c"
  "view (ClientImpl_handle_Pubrel env i c) = view c" "view (ClientImpl_handle_Pingreq env cid c) = view c"
  by (simp_all add: ClientImpl_handle_Register_def ClientImpl_handle_Publish_def ClientImpl_handle_Pubrel_def
      ClientImpl_handle_Pingreq_def Let_def split_beta view_simps split: option.split)

section \<open>What completing promises, and who relies on it\<close>

text \<open>The interface between completing an operation and everything that reacts to messages and timers:
  a relation on clients that only depends on the view and holds for each way to complete an operation
  holds for every reaction that creates no operation.\<close>

locale ops_frame =
  fixes R :: "client \<Rightarrow> client \<Rightarrow> bool"
  assumes frame: "view d = view c \<Longrightarrow> R c d"
    and trans: "R c d \<Longrightarrow> R d e \<Longrightarrow> R c e"
    and search_law: "R c (SearchOp_completeOpInternal st1 info1 a c)"
    and connect_law: "R c (ConnectOp_completeOpInternal st2 info2 a c)"
    and keepalive_law: "R c (on_obj Type_KeepAlive m_keepAliveOps a (\<lambda>_. KeepAliveOp_opComplete a) c)"
    and disconnect_law: "R c (DisconnectOp_completeOpInternal st4 a c)"
    and subscribe_law: "R c (SubscribeOp_completeOpInternal env st5 info5 a c)"
    and unsubscribe_law: "R c (UnsubscribeOp_completeOpInternal env st6 a c)"
    and send_law: "R c (SendOp_completeOpInternal env st7 info7 a c)"
    and will_law: "R c (WillOp_completeOpInternal st8 info8 a c)"
    and sendInternal_law: "R c (snd (SendOp_sendInternal env a c))"
begin

text \<open>The laws in the form that goes backwards through a composition of calls.\<close>

lemma after_view: "view e = view d \<Longrightarrow> R c d \<Longrightarrow> R c e"
  using frame trans by blast

lemma after_complete:
  "R c d \<Longrightarrow> R c (SearchOp_completeOpInternal st1 info1 a d)"
  "R c d \<Longrightarrow> R c (ConnectOp_completeOpInternal st2 info2 a d)"
  "R c d \<Longrightarrow> R c (on_obj Type_KeepAlive m_keepAliveOps a (\<lambda>_. KeepAliveOp_opComplete a) d)"
  "R c d \<Longrightarrow> R c (DisconnectOp_completeOpInternal st4 a d)"
  "R c d \<Longrightarrow> R c (SubscribeOp_completeOpInternal env st5 info5 a d)"
  "R c d \<Longrightarrow> R c (UnsubscribeOp_completeOpInternal env st6 a d)"
  "R c d \<Longrightarrow> R c (SendOp_completeOpInternal env st7 info7 a d)"
  "R c d \<Longrightarrow> R c (WillOp_completeOpInternal st8 info8 a d)"
  "R c d \<Longrightarrow> R c (snd (SendOp_sendInternal env a d))"
  by (erule trans, rule search_law connect_law keepalive_law disconnect_law subscribe_law unsubscribe_law send_law
      will_law sendInternal_law)+

lemma after_on_obj: "R c d \<Longrightarrow> (\<And>x. obj_at a (ops d) = Some x \<Longrightarrow> R c (f x d)) \<Longrightarrow> R c (on_obj ty ops a f d)"
  by (auto simp: on_obj_def view_simps intro: after_view split: option.split)

lemma after_fold: "R c d \<Longrightarrow> (\<And>x d. x \<in> set xs \<Longrightarrow> R c d \<Longrightarrow> R c (f x d)) \<Longrightarrow> R c (fold f xs d)"
  by (induction xs arbitrary: d) simp_all

lemma after_terminateOp: "R c d \<Longrightarrow> R c (Op_terminateOp env st p d)"
  by (cases p) (simp add: Op_terminateOp_def after_complete split: op_type.split)

lemma after_terminateOps: "R c d \<Longrightarrow> R c (ClientImpl_terminateOps env st d)"
proof -
  have "R c d \<Longrightarrow> R c (terminateOps_loop env st is d)" for "is"
    by (induction "is" arbitrary: d) (simp_all add: after_terminateOp split: option.split)
  then show "R c d \<Longrightarrow> R c (ClientImpl_terminateOps env st d)" by (simp add: ClientImpl_terminateOps_def)
qed

lemma after_gatewayDisconnected:
  assumes "R c d"
  shows "R c (ClientImpl_gatewayDisconnected env reason st d)"
proof -
  have *: "R c (ClientImpl_terminateOps env st (upd_session f (d\<lparr>m_initialized := b\<rparr>)))" for f b
    by (rule after_terminateOps, rule after_view [OF _ assms]) (simp add: view_simps)
  show ?thesis
    by (auto simp: ClientImpl_gatewayDisconnected_def Let_def severe_def view_simps intro: * after_view [OF _ *] split: option.split)
qed

end

context ops_frame
begin

text \<open>Changes that keep the view, in the form that goes backwards.\<close>

lemma after_views:
  "R c d \<Longrightarrow> R c (timer_cancel i d)" "R c d \<Longrightarrow> R c (SendOp_releasePacketIdsInternal so d)"
  "R c d \<Longrightarrow> R c (SendOp_allocPacketIdsInternal env a d)" "R c d \<Longrightarrow> R c (upd_session f d)"
  "R c d \<Longrightarrow> R c (ClientImpl_storeInRegTopic t j d)" "R c d \<Longrightarrow> R c (ClientImpl_storeOutRegTopic t j d)"
  "R c d \<Longrightarrow> R c (upd_keepalive a f3 d)" "R c d \<Longrightarrow> R c (d\<lparr>m_prevWill := w\<rparr>)" "R c d \<Longrightarrow> R c (d\<lparr>m_subFilters := fs\<rparr>)"
  "R c d \<Longrightarrow> R c (d\<lparr>m_regs := rs\<rparr>)"
  "R c d \<Longrightarrow> \<not> severe (AssertFailed s) \<Longrightarrow> R c (cl_assert s b d)"
  "R c d \<Longrightarrow> (\<And>x. so_cb (f1 x) = so_cb x) \<Longrightarrow> R c (upd_search a f1 d)"
  "R c d \<Longrightarrow> (\<And>x. co_cb (f2 x) = co_cb x) \<Longrightarrow> R c (upd_connect a f2 d)"
  "R c d \<Longrightarrow> (\<And>x. do_cb (f4 x) = do_cb x) \<Longrightarrow> R c (upd_disconnect a f4 d)"
  "R c d \<Longrightarrow> (\<And>x. sb_cb (f5 x) = sb_cb x) \<Longrightarrow> (\<And>x. sb_suspended (f5 x) = sb_suspended x) \<Longrightarrow> R c (upd_subscribe a f5 d)"
  "R c d \<Longrightarrow> (\<And>x. ub_cb (f6 x) = ub_cb x) \<Longrightarrow> (\<And>x. ub_suspended (f6 x) = ub_suspended x) \<Longrightarrow> R c (upd_unsubscribe a f6 d)"
  "R c d \<Longrightarrow> (\<And>x. sn_cb (f7 x) = sn_cb x) \<Longrightarrow> (\<And>x. sn_suspended (f7 x) = sn_suspended x) \<Longrightarrow> R c (upd_send a f7 d)"
  "R c d \<Longrightarrow> (\<And>x. wo_cb (f8 x) = wo_cb x) \<Longrightarrow> R c (upd_will a f8 d)"
  "R c d \<Longrightarrow> R c (snd (SubscribeOp_sendInternal env a d))" "R c d \<Longrightarrow> R c (snd (UnsubscribeOp_sendInternal env a d))"
  "R c d \<Longrightarrow> R c (snd (SearchOp_sendInternal env a d))" "R c d \<Longrightarrow> R c (snd (ConnectOp_sendInternal env a d))"
  "R c d \<Longrightarrow> R c (snd (DisconnectOp_sendInternal env a d))" "R c d \<Longrightarrow> R c (snd (WillOp_sendInternal env a d))"
  "R c d \<Longrightarrow> R c (KeepAliveOp_sendPing env a d)"
  by (rule after_view; simp add: view_simps)+

lemmas reacting = Let_def split_beta severe_def

lemma after_KeepAlive_timeout: "R c d \<Longrightarrow> R c (KeepAliveOp_pingTimeoutInternal env a d)"
  by (auto simp: KeepAliveOp_pingTimeoutInternal_def reacting intro!: after_on_obj after_gatewayDisconnected after_views)

lemma after_Search:
  "R c d \<Longrightarrow> R c (SearchOp_timeoutInternal env a d)" "R c d \<Longrightarrow> R c (SearchOp_handle_Advertise i a d)"
  "R c d \<Longrightarrow> R c (SearchOp_handle_Gwinfo i ad a d)"
  by (auto simp: SearchOp_timeoutInternal_def SearchOp_handle_Advertise_def SearchOp_handle_Gwinfo_def reacting
      intro!: after_on_obj after_complete after_views)

lemma after_Connect:
  "R c d \<Longrightarrow> R c (ConnectOp_timeoutInternal env a d)" "R c d \<Longrightarrow> R c (ConnectOp_handle_Willtopicreq env a d)"
  "R c d \<Longrightarrow> R c (ConnectOp_handle_Willmsgreq env a d)"
  by (auto simp: ConnectOp_timeoutInternal_def ConnectOp_handle_Willtopicreq_def ConnectOp_handle_Willmsgreq_def
      ConnectOp_sendOrComplete_def reacting intro!: after_on_obj after_complete after_views)

lemma after_Disconnect_timeout: "R c d \<Longrightarrow> R c (DisconnectOp_timeoutInternal env a d)"
  by (auto simp: DisconnectOp_timeoutInternal_def reacting intro!: after_on_obj after_complete after_views)

lemma after_Subscribe:
  "R c d \<Longrightarrow> R c (SubscribeOp_timeoutInternal env a d)" "R c d \<Longrightarrow> R c (SubscribeOp_handle_Suback env q i j rc a d)"
  "R c d \<Longrightarrow> R c (UnsubscribeOp_timeoutInternal env a d)" "R c d \<Longrightarrow> R c (UnsubscribeOp_handle_Unsuback env j a d)"
  by (auto simp: SubscribeOp_timeoutInternal_def SubscribeOp_handle_Suback_def UnsubscribeOp_timeoutInternal_def
      UnsubscribeOp_handle_Unsuback_def reacting intro!: after_on_obj after_complete after_views split: option.split)

lemma after_Send:
  "R c d \<Longrightarrow> R c (SendOp_timeoutInternal env a d)" "R c d \<Longrightarrow> R c (SendOp_handle_Regack env i j rc a d)"
  "R c d \<Longrightarrow> R c (SendOp_handle_Puback env i j rc a d)" "R c d \<Longrightarrow> R c (SendOp_handle_Pubrec env j a d)"
  "R c d \<Longrightarrow> R c (SendOp_handle_Pubcomp env j a d)"
  by (auto simp: SendOp_timeoutInternal_def SendOp_handle_Regack_def SendOp_handle_Puback_def SendOp_handle_Pubrec_def
      SendOp_handle_Pubcomp_def SendOp_sendOrComplete_def reacting intro!: after_on_obj after_complete after_views)

lemma after_Will:
  "R c d \<Longrightarrow> R c (WillOp_timeoutInternal env a d)" "R c d \<Longrightarrow> R c (WillOp_handle_Willtopicresp env rc a d)"
  "R c d \<Longrightarrow> R c (WillOp_handle_Willmsgresp rc a d)"
  by (auto simp: WillOp_timeoutInternal_def WillOp_handle_Willtopicresp_def WillOp_handle_Willmsgresp_def
      WillOp_sendOrComplete_def reacting intro!: after_on_obj after_complete after_views)

text \<open>Timers never create an operation.\<close>

lemma after_timer_callback:
  assumes "R c d"
  shows "R c (timer_callback env e d)"
proof -
  obtain cb data where "e = (cb, data)" by fastforce
  then show ?thesis
    using assms by (cases cb; cases data) (auto simp: timer_callback_def view_simps intro!: after_KeepAlive_timeout
        after_Search after_Connect after_Disconnect_timeout after_Subscribe after_Send after_Will after_views
        intro: after_view)
qed

lemma after_tick_timers: "R c d \<Longrightarrow> R c (cl_tick_timers env ms d)"
  by (auto simp: cl_tick_timers_def split_beta view_simps intro!: after_fold after_timer_callback intro: after_view)

end

text \<open>Messages create the keep alive operation: at the end of the handshake of a connection, and when the
  client goes to sleep.\<close>

locale ops_frame_create = ops_frame +
  assumes create_law: "R c (ClientImpl_createKeepAliveOpIfNeeded env c)"
begin

lemma after_create: "R c d \<Longrightarrow> R c (ClientImpl_createKeepAliveOpIfNeeded env d)"
  using trans create_law by blast

lemma after_gatewayConnected: "R c d \<Longrightarrow> R c (ClientImpl_gatewayConnected env d)"
  by (simp add: ClientImpl_gatewayConnected_def after_create after_views after_view [OF view_upd_nonops(11)])

lemma after_enterSleepMode: "R c d \<Longrightarrow> R c (ClientImpl_enterSleepMode env ms d)"
  by (auto simp: ClientImpl_enterSleepMode_def reacting intro!: after_create after_terminateOps after_views)

lemma after_Connack: "R c d \<Longrightarrow> R c (ConnectOp_handle_Connack env rc a d)"
  by (auto simp: ConnectOp_handle_Connack_def reacting
      intro!: after_on_obj after_complete after_gatewayConnected after_views)

lemma after_Disconnect: "R c d \<Longrightarrow> R c (DisconnectOp_handle_Disconnect env a d)"
  by (auto simp: DisconnectOp_handle_Disconnect_def reacting
      intro!: after_on_obj after_complete after_enterSleepMode after_gatewayDisconnected after_views)

lemma after_Op_handle:
  assumes "R c d"
  shows "R c (Op_handle env msg p d)"
proof -
  obtain ty a where "p = (ty, a)" by fastforce
  then show ?thesis
    using assms by (cases ty) (auto simp: Op_handle_def view_simps intro!: after_Search after_Connect after_Connack
        after_Disconnect after_Subscribe after_Send after_Will intro: after_view split: prot_msg.split)
qed

lemma after_dispatch_loop: "R c d \<Longrightarrow> R c (dispatch_loop env msg is d)"
  by (induction "is" arbitrary: d) (auto simp: Let_def after_Op_handle split: option.split)

lemma after_dispatch_search: "R c d \<Longrightarrow> R c (dispatch_search env msg d)"
  by (auto simp: dispatch_search_def intro!: after_fold after_Op_handle)

lemma after_handle_Advertise: "R c d \<Longrightarrow> R c (ClientImpl_handle_Advertise env i dur d)"
  by (auto simp: ClientImpl_handle_Advertise_def Let_def split_beta view_simps
      intro!: after_view [OF view_gateways(2)] after_view [OF view_gateways(3)] after_dispatch_search
      intro: after_view split: option.split)

lemma after_handle_Gwinfo: "R c d \<Longrightarrow> R c (ClientImpl_handle_Gwinfo env i addr d)"
  by (auto simp: ClientImpl_handle_Gwinfo_def Let_def split_beta view_simps
      intro!: after_view [OF view_gateways(3)] after_dispatch_search intro: after_view split: option.split)

lemma after_handle_Puback: "R c d \<Longrightarrow> R c (ClientImpl_handle_Puback env i j rc d)"
  by (auto simp: ClientImpl_handle_Puback_def Let_def intro!: after_Op_handle after_views
      after_view [OF view_dispatch_keepAlive] split: option.split)

lemma after_handle_Disconnect: "R c d \<Longrightarrow> R c (ClientImpl_handle_Disconnect env dur d)"
  by (auto simp: ClientImpl_handle_Disconnect_def intro!: after_gatewayDisconnected after_fold after_Op_handle)

lemma after_handle: "R c d \<Longrightarrow> R c (ClientImpl_handle env msg d)"
  by (cases msg) (auto simp: ClientImpl_handle_def ClientImpl_handle_ProtMessage_def view_simps
      intro!: after_handle_Advertise after_handle_Gwinfo after_handle_Puback after_handle_Disconnect
        after_dispatch_loop intro: after_view)

end

end
