(* ===== verification/Cl_Invariant.thy ===== *)
theory Cl_Invariant
  imports Cl_Reactions
begin

text \<open>
  The invariant of the client over all calls of its application: the operations are consistent, no
  operation is reported twice, and the first publication is always active. The relation \<open>keeps\<close>
  interprets the locale of reactions that create no operation, \<open>evolves\<close> the one of all reactions.
\<close>

declare split_paired_All [simp del] split_paired_Ex [simp del]

section \<open>Reactions\<close>

interpretation keep: ops_frame keeps
  by unfold_locales (auto intro: keeps_view keeps_trans SearchOp_completes [THEN completes_keeps]
      ConnectOp_completes [THEN completes_keeps] KeepAliveOp_completes [THEN completes_keeps]
      DisconnectOp_completes [THEN completes_keeps] SubscribeOp_completes [THEN completes_keeps]
      UnsubscribeOp_completes [THEN completes_keeps] SendOp_completes [THEN completes_keeps]
      WillOp_completes [THEN completes_keeps] SendOp_sendInternal_keeps)

text \<open>As \<open>keeps\<close>, but keep alive operations may appear.\<close>

definition evolves :: "client \<Rightarrow> client \<Rightarrow> bool" where
  "evolves c d \<longleftrightarrow> (ops_wf (view c) \<longrightarrow> ops_wf (view d) \<and> (\<forall>p. account p (view d) = account p (view c)) \<and>
     vw_severe (view d) = vw_severe (view c) \<and> m_nextAddr c \<le> m_nextAddr d \<and> m_apiEnterCount d = m_apiEnterCount c \<and>
     (\<forall>p \<in> set (live (m_ops d)). p \<in> set (live (m_ops c)) \<and> reported p (view d) = reported p (view c) \<or>
        m_nextAddr c \<le> snd p) \<and>
     (send_active (view c) \<longrightarrow> send_active (view d)))"

lemma evolves_keeps: "keeps c d \<Longrightarrow> evolves c d"
  using cleared_live by (auto simp: evolves_def keeps_def steady_def)

lemma evolves_trans:
  assumes cd: "evolves c d" and de: "evolves d e"
  shows "evolves c e"
  unfolding evolves_def
proof (intro impI conjI ballI)
  assume wf: "ops_wf (view c)"
  note c = cd [unfolded evolves_def, rule_format, OF wf]
  then have wfd: "ops_wf (view d)" by blast
  note d = de [unfolded evolves_def, rule_format, OF wfd]
  show "ops_wf (view e)" "vw_severe (view e) = vw_severe (view c)" "m_nextAddr c \<le> m_nextAddr e"
    "m_apiEnterCount e = m_apiEnterCount c" "\<forall>p. account p (view e) = account p (view c)"
    using c d by (simp_all)
  show "send_active (view e)" if "send_active (view c)" using c d that by blast
  fix p assume "p \<in> set (live (m_ops e))"
  then have "p \<in> set (live (m_ops d)) \<and> reported p (view e) = reported p (view d) \<or> m_nextAddr d \<le> snd p" using d by blast
  then show "p \<in> set (live (m_ops c)) \<and> reported p (view e) = reported p (view c) \<or> m_nextAddr c \<le> snd p"
    using c by (metis order_trans)
qed

text \<open>A new operation, at the end of the list of its type and of all operations.\<close>

definition vw_add :: "op_type \<Rightarrow> bool \<Rightarrow> op_view \<Rightarrow> op_view" where
  "vw_add ty s v = v\<lparr>vw_objs := (vw_objs v)(ty := vw_objs v ty @ [(vw_nextAddr v, False, s)]),
     vw_ops := vw_ops v @ [Some (ty, vw_nextAddr v)], vw_nextAddr := vw_nextAddr v + 1\<rparr>"

lemma vw_add_simps [simp]:
  "waiting p (vw_add ty s v) = waiting p v" "reported p (vw_add ty s v) = reported p v"
  "account p (vw_add ty s v) = account p v" "vw_severe (vw_add ty s v) = vw_severe v"
  "vw_calls (vw_add ty s v) = vw_calls v" "vw_nextAddr (vw_add ty s v) = vw_nextAddr v + 1"
  "vw_ops (vw_add ty s v) = vw_ops v @ [Some (ty, vw_nextAddr v)]"
  by (auto simp: vw_add_def waiting_def reported_def account_def)

lemma ops_wf_add:
  assumes "ops_wf v" "ty = Type_Send \<Longrightarrow> s = (vw_objs v Type_Send \<noteq> [])"
  shows "ops_wf (vw_add ty s v)"
proof -
  have "(ty, vw_nextAddr v) \<notin> set (live (vw_ops v))" using assms(1) by (force simp: ops_wf_def)
  moreover have "tl (xs @ [x]) = (if xs = [] then [] else tl xs @ [x])" for xs and x :: "nat \<times> bool \<times> bool"
    by (cases xs) auto
  ultimately show ?thesis
    using assms by (auto simp: ops_wf_def vw_add_def addrs_def)
qed

lemma send_active_add: "send_active v \<Longrightarrow> (ty = Type_Send \<Longrightarrow> s = (vw_objs v Type_Send \<noteq> [])) \<Longrightarrow> send_active (vw_add ty s v)"
  by (auto simp: send_active_def vw_add_def split: list.splits)

text \<open>The view after an object has been added to the list of its type.\<close>

lemma view_created:
  "m_nextAddr c = a \<Longrightarrow> view (c\<lparr>m_nextAddr := a + 1, m_ops := m_ops c @ [Some (Type_KeepAlive, a)], m_keepAliveOps := m_keepAliveOps c @ [(a, x3)]\<rparr>) =
     vw_add Type_KeepAlive False (view c)"
  "m_nextAddr c = a \<Longrightarrow> \<not> so_cb x1 \<Longrightarrow> view (snd (op_created Type_Search c)\<lparr>m_searchOps := m_searchOps c @ [(a, x1)]\<rparr>) =
     vw_add Type_Search False (view c)"
  "m_nextAddr c = a \<Longrightarrow> \<not> co_cb x2 \<Longrightarrow> view (snd (op_created Type_Connect c)\<lparr>m_connectOps := m_connectOps c @ [(a, x2)]\<rparr>) =
     vw_add Type_Connect False (view c)"
  "m_nextAddr c = a \<Longrightarrow> \<not> do_cb x4 \<Longrightarrow> view (snd (op_created Type_Disconnect c)\<lparr>m_disconnectOps := m_disconnectOps c @ [(a, x4)]\<rparr>) =
     vw_add Type_Disconnect False (view c)"
  "m_nextAddr c = a \<Longrightarrow> \<not> sb_cb x5 \<Longrightarrow> view (snd (op_created Type_Subscribe c)\<lparr>m_subscribeOps := m_subscribeOps c @ [(a, x5)]\<rparr>) =
     vw_add Type_Subscribe (sb_suspended x5) (view c)"
  "m_nextAddr c = a \<Longrightarrow> \<not> ub_cb x6 \<Longrightarrow> view (snd (op_created Type_Unsubscribe c)\<lparr>m_unsubscribeOps := m_unsubscribeOps c @ [(a, x6)]\<rparr>) =
     vw_add Type_Unsubscribe (ub_suspended x6) (view c)"
  "m_nextAddr c = a \<Longrightarrow> \<not> sn_cb x7 \<Longrightarrow> view (snd (op_created Type_Send c)\<lparr>m_sendOps := m_sendOps c @ [(a, x7)]\<rparr>) =
     vw_add Type_Send (sn_suspended x7) (view c)"
  "m_nextAddr c = a \<Longrightarrow> \<not> wo_cb x8 \<Longrightarrow> view (snd (op_created Type_Will c)\<lparr>m_willOps := m_willOps c @ [(a, x8)]\<rparr>) =
     vw_add Type_Will False (view c)"
  by (simp_all add: view_def vw_add_def op_created_def fun_eq_iff op_type_all)

lemma evolves_create: "evolves c (ClientImpl_createKeepAliveOpIfNeeded env c)"
proof -
  have "view (KeepAliveOp_new env d) = vw_add Type_KeepAlive False (view d)" for d
    unfolding KeepAliveOp_new_def Let_def split_beta
    by (subst view_created(1)) (simp_all add: KeepAliveOp_restartPingTimer_def timer_wait_def view_simps severe_def)
  then show ?thesis
    by (auto simp: ClientImpl_createKeepAliveOpIfNeeded_def view_simps severe_def evolves_def
        simp flip: view_fields(2-4) intro!: ops_wf_add send_active_add)
qed

interpretation evolve: ops_frame_create evolves
  by unfold_locales (auto intro: evolves_keeps keeps_view evolves_trans evolves_create keep.search_law keep.connect_law
      keep.keepalive_law keep.disconnect_law keep.subscribe_law keep.unsubscribe_law keep.send_law keep.will_law
      keep.sendInternal_law)

section \<open>The invariant\<close>

definition once :: "op_view \<Rightarrow> bool" where
  "once v \<longleftrightarrow> (\<forall>p. account p v \<le> 1 \<and> (p \<in> set (live (vw_ops v)) \<longrightarrow> reported p v = 0) \<and>
     (vw_nextAddr v \<le> snd p \<longrightarrow> account p v = 0))"

definition client_inv :: "u32 \<Rightarrow> client \<Rightarrow> bool" where
  "client_inv n c \<longleftrightarrow> ops_wf (view c) \<and> once (view c) \<and> send_active (view c) \<and> vw_severe (view c) = [] \<and>
     m_apiEnterCount c = n"

text \<open>A step from \<open>m\<close> to \<open>n\<close> nested calls that keeps the invariant and accounts for every operation.\<close>

definition inv_step :: "u32 \<Rightarrow> u32 \<Rightarrow> client \<Rightarrow> client \<Rightarrow> bool" where
  "inv_step m n c d \<longleftrightarrow> (client_inv m c \<longrightarrow> client_inv n d \<and> (\<forall>p. account p (view d) = account p (view c)))"

lemma inv_step_trans: "inv_step k m c d \<Longrightarrow> inv_step m n d e \<Longrightarrow> inv_step k n c e"
  by (simp add: inv_step_def)

lemma inv_step_inv: "inv_step m n c d \<Longrightarrow> client_inv m c \<Longrightarrow> client_inv n d"
  by (simp add: inv_step_def)

lemma inv_step_evolves: "evolves c d \<Longrightarrow> inv_step n n c d"
  unfolding inv_step_def
proof (intro impI)
  assume ev: "evolves c d" and inv: "client_inv n c"
  then have d: "ops_wf (view d)" "\<forall>p. account p (view d) = account p (view c)" "vw_severe (view d) = vw_severe (view c)"
    "m_nextAddr c \<le> m_nextAddr d" "m_apiEnterCount d = m_apiEnterCount c" "send_active (view d)"
    and live: "\<forall>p \<in> set (live (m_ops d)). p \<in> set (live (m_ops c)) \<and> reported p (view d) = reported p (view c) \<or>
        m_nextAddr c \<le> snd p"
    by (auto simp: evolves_def client_inv_def)
  have "reported p (view d) = 0" if "p \<in> set (live (m_ops d))" for p
  proof (cases "m_nextAddr c \<le> snd p")
    case True
    then have "account p (view d) = 0" using d(2) inv by (simp add: client_inv_def once_def)
    then show ?thesis by (simp add: account_def)
  next
    case False
    then show ?thesis using live that inv by (simp add: client_inv_def once_def) metis
  qed
  then show "client_inv n d \<and> (\<forall>p. account p (view d) = account p (view c))"
    using d inv by (auto simp: client_inv_def once_def)
qed

lemma inv_step_view: "view d = view c \<Longrightarrow> inv_step n n c d"
  by (intro inv_step_evolves evolves_keeps keeps_view)

text \<open>Leaving a call removes the null pointers.\<close>

lemma live_filter: "live (filter (\<lambda>p. p \<noteq> None) qs) = live qs"
  by (induction qs) (auto simp del: not_None_eq)

lemma calls_simps [simp]:
  "ops_wf (v\<lparr>vw_calls := n\<rparr>) = ops_wf v" "once (v\<lparr>vw_calls := n\<rparr>) = once v"
  "send_active (v\<lparr>vw_calls := n\<rparr>) = send_active v" "account p (v\<lparr>vw_calls := n\<rparr>) = account p v"
  by (simp_all add: ops_wf_def once_def send_active_def account_def waiting_def reported_def)

lemma clean_simps [simp]:
  "ops_wf (v\<lparr>vw_ops := filter (\<lambda>p. p \<noteq> None) (vw_ops v)\<rparr>) = ops_wf v"
  "once (v\<lparr>vw_ops := filter (\<lambda>p. p \<noteq> None) (vw_ops v)\<rparr>) = once v"
  "send_active (v\<lparr>vw_ops := filter (\<lambda>p. p \<noteq> None) (vw_ops v)\<rparr>) = send_active v"
  "account p (v\<lparr>vw_ops := filter (\<lambda>p. p \<noteq> None) (vw_ops v)\<rparr>) = account p v"
  by (simp_all add: ops_wf_def addrs_def live_filter once_def send_active_def account_def waiting_def reported_def
      del: not_None_eq)

lemma inv_step_calls: "inv_step m n c (c\<lparr>m_apiEnterCount := n\<rparr>)"
proof -
  have "view (c\<lparr>m_apiEnterCount := n\<rparr>) = (view c)\<lparr>vw_calls := n\<rparr>" by (simp add: view_def)
  then show ?thesis by (simp add: inv_step_def client_inv_def)
qed

lemma inv_step_cleanOps: "inv_step n n c (ClientImpl_cleanOps c)"
proof -
  have "view (c\<lparr>m_ops := qs, m_opsDeleted := b\<rparr>) = (view c)\<lparr>vw_ops := qs\<rparr>" for qs b by (simp add: view_def)
  then show ?thesis
    using clean_simps [where v = "view c"] by (auto simp: inv_step_def client_inv_def ClientImpl_cleanOps_def simp del: not_None_eq)
qed

lemma inv_step_doApiEnter: "inv_step 0 1 c (ClientImpl_doApiEnter env elapsed c)"
proof -
  have "inv_step 1 1 d (cl_tick_timers env ms (cl_emit Out_CancelTick d\<lparr>m_timestamp := x\<rparr>))" for d ms x
    by (intro inv_step_evolves evolves_keeps keep.after_tick_timers keeps_view) (simp add: view_simps)
  from inv_step_trans [OF inv_step_calls this] show ?thesis
    using inv_step_calls [of 0 1 c] by (auto simp: ClientImpl_doApiEnter_def Let_def inv_step_def client_inv_def)
qed

lemma inv_step_doApiExit: "inv_step 1 0 c (ClientImpl_doApiExit c)"
proof -
  define d where "d = ClientImpl_cleanOps (c\<lparr>m_apiEnterCount := 0\<rparr>)"
  have d: "inv_step 1 0 c d" unfolding d_def by (rule inv_step_trans [OF inv_step_calls inv_step_cleanOps])
  have "inv_step 0 0 d (cl_emit (Out_ProgramTick w) d)" for w by (rule inv_step_view) (simp add: view_simps)
  note e = inv_step_trans [OF d this]
  have "ClientImpl_doApiExit c = (if \<not> cb_nextTickProgram (cbs d) then d
      else if getMinWait (m_timerMgr d) = 0 then d else cl_emit (Out_ProgramTick (getMinWait (m_timerMgr d))) d)"
    if "m_apiEnterCount c = 1"
    using that by (simp add: ClientImpl_doApiExit_def cl_assert_def Let_def d_def)
  then show ?thesis using d e by (auto simp: inv_step_def client_inv_def)
qed

section \<open>Calls that send or cancel an operation\<close>

lemma once_remove: "once v \<Longrightarrow> once (vw_remove p v)"
  unfolding once_def
proof (intro allI impI conjI)
  fix q
  assume once: "\<forall>p. account p v \<le> 1 \<and> (p \<in> set (live (vw_ops v)) \<longrightarrow> reported p v = 0) \<and> (vw_nextAddr v \<le> snd p \<longrightarrow> account p v = 0)"
  have le: "account q (vw_remove p v) \<le> account q v" by (simp add: account_def)
  show "account q (vw_remove p v) \<le> 1" using once le by (meson order_trans)
  show "account q (vw_remove p v) = 0" if "vw_nextAddr (vw_remove p v) \<le> snd q"
    using once le that by (metis le_zero_eq vw_remove_simps(2))
  show "reported q (vw_remove p v) = 0" if "q \<in> set (live (vw_ops (vw_remove p v)))"
  proof -
    have "q \<in> set (live (vw_ops v))" using that by (simp add: vw_remove_def live_remove)
    then show ?thesis using once by (simp)
  qed
qed

lemma once_steady: "ops_wf v \<Longrightarrow> once v \<Longrightarrow> steady v w \<Longrightarrow> once w"
  using cleared_live [of "vw_ops v" "vw_ops w"] by (auto simp: once_def steady_def)

lemma inv_removed:
  assumes "client_inv n c" "steady (vw_remove p (view c)) (view d)" "send_active (view d)"
  shows "client_inv n d"
proof -
  have "ops_wf (vw_remove p (view c))" "once (vw_remove p (view c))"
    using assms(1) by (simp_all add: client_inv_def ops_wf_remove once_remove)
  moreover from this have "once (view d)" using assms(2) by (rule once_steady)
  ultimately show ?thesis using assms by (simp add: client_inv_def steady_def)
qed

lemma inv_removed_view: "client_inv n c \<Longrightarrow> view d = vw_remove (ty, a) (view c) \<Longrightarrow> ty \<noteq> Type_Send \<Longrightarrow> client_inv n d"
  by (rule inv_removed [of n c "(ty, a)"]) (simp_all add: send_active_remove client_inv_def)

definition has :: "op_type \<Rightarrow> nat \<Rightarrow> client \<Rightarrow> bool" where
  "has ty a c \<longleftrightarrow> a \<in> set (map fst (objs ty c))"

lemma has_view: "view d = view c \<Longrightarrow> has ty a d = has ty a c"
  unfolding has_def by (metis view_fields(1))

lemma has_live: "ops_wf (view c) \<Longrightarrow> has ty a c \<Longrightarrow> Some (ty, a) \<in> set (m_ops c)"
  using obj_live [of "view c" a _ _ ty] by (auto simp: has_def set_live)

lemma obj_at_key: "obj_at a xs \<noteq> None \<longleftrightarrow> a \<in> set (map fst xs)"
  by (simp add: obj_at_def map_of_eq_None_iff)

lemma has_obj_at:
  "has Type_Search a c \<longleftrightarrow> obj_at a (m_searchOps c) \<noteq> None" "has Type_Connect a c \<longleftrightarrow> obj_at a (m_connectOps c) \<noteq> None"
  "has Type_Disconnect a c \<longleftrightarrow> obj_at a (m_disconnectOps c) \<noteq> None"
  "has Type_Subscribe a c \<longleftrightarrow> obj_at a (m_subscribeOps c) \<noteq> None"
  "has Type_Unsubscribe a c \<longleftrightarrow> obj_at a (m_unsubscribeOps c) \<noteq> None" "has Type_Send a c \<longleftrightarrow> obj_at a (m_sendOps c) \<noteq> None"
  "has Type_Will a c \<longleftrightarrow> obj_at a (m_willOps c) \<noteq> None"
  unfolding obj_at_key has_def by (simp_all add: image_image split_beta)

lemma view_opComplete:
  "ops_wf (view c) \<Longrightarrow> has Type_Search a c \<Longrightarrow> view (SearchOp_opComplete a c) = vw_remove (Type_Search, a) (view c)"
  "ops_wf (view c) \<Longrightarrow> has Type_Connect a c \<Longrightarrow> view (ConnectOp_opComplete a c) = vw_remove (Type_Connect, a) (view c)"
  "ops_wf (view c) \<Longrightarrow> has Type_Disconnect a c \<Longrightarrow> view (DisconnectOp_opComplete a c) = vw_remove (Type_Disconnect, a) (view c)"
  "ops_wf (view c) \<Longrightarrow> has Type_Will a c \<Longrightarrow> view (WillOp_opComplete a c) = vw_remove (Type_Will, a) (view c)"
  by (frule (1) has_live, clarsimp simp: has_obj_at SearchOp_opComplete_def opComplete_Search_def
      ConnectOp_opComplete_def opComplete_Connect_def DisconnectOp_opComplete_def opComplete_Disconnect_def
      WillOp_opComplete_def opComplete_Will_def completing)+

lemma inv_opComplete:
  "client_inv n c \<Longrightarrow> has Type_Search a c \<Longrightarrow> client_inv n (SearchOp_opComplete a c)"
  "client_inv n c \<Longrightarrow> has Type_Connect a c \<Longrightarrow> client_inv n (ConnectOp_opComplete a c)"
  "client_inv n c \<Longrightarrow> has Type_Disconnect a c \<Longrightarrow> client_inv n (DisconnectOp_opComplete a c)"
  "client_inv n c \<Longrightarrow> has Type_Will a c \<Longrightarrow> client_inv n (WillOp_opComplete a c)"
  by (rule inv_removed_view, assumption, rule view_opComplete, simp add: client_inv_def, assumption, simp)+

lemma inv_removed_keeps:
  assumes "client_inv n c" "view e = vw_remove (ty, a) (view c)" "keeps e d" "ty \<noteq> Type_Send"
  shows "client_inv n d"
  using assms ops_wf_remove [of "view c" "(ty, a)"]
  by (intro inv_removed [OF assms(1), of "(ty, a)"]) (auto simp: keeps_def client_inv_def send_active_remove)

lemma inv_opComplete_queued:
  "client_inv n c \<Longrightarrow> has Type_Subscribe a c \<Longrightarrow> client_inv n (SubscribeOp_opComplete env a c)"
  "client_inv n c \<Longrightarrow> has Type_Unsubscribe a c \<Longrightarrow> client_inv n (UnsubscribeOp_opComplete env a c)"
  "client_inv n c \<Longrightarrow> has Type_Send a c \<Longrightarrow> client_inv n (SendOp_opComplete env a c)"
proof -
  assume inv: "client_inv n c"
  then have wf: "ops_wf (view c)" by (simp add: client_inv_def)
  show "client_inv n (SubscribeOp_opComplete env a c)" if "has Type_Subscribe a c"
    using that SubscribeOp_opComplete_with_removes [OF wf _ SubUnsub_resume_resumes [of env "sub_depth c"], of a]
    by (auto simp: has_obj_at SubscribeOp_opComplete_def intro: inv_removed_keeps [OF inv])
  show "client_inv n (UnsubscribeOp_opComplete env a c)" if "has Type_Unsubscribe a c"
    using that UnsubscribeOp_opComplete_with_removes [OF wf _ SubUnsub_resume_resumes [of env "sub_depth c"], of a]
    by (auto simp: has_obj_at UnsubscribeOp_opComplete_def intro: inv_removed_keeps [OF inv])
  show "client_inv n (SendOp_opComplete env a c)" if "has Type_Send a c"
    using that SendOp_opComplete_with_removes [OF wf _ SendOp_resume_resumes [of env "length (m_sendOps c)"], of a]
    by (auto simp: has_obj_at SendOp_opComplete_def send_depth_def intro: inv_removed [OF inv])
qed

text \<open>An operation gets its callback.\<close>

definition vw_sent :: "op_ptr \<Rightarrow> op_view \<Rightarrow> op_view" where
  "vw_sent p v = v\<lparr>vw_objs := (vw_objs v)(fst p := map (\<lambda>(b, cb, s). (b, cb \<or> b = snd p, s)) (vw_objs v (fst p)))\<rparr>"

lemma vw_sent_simps [simp]:
  "reported q (vw_sent p v) = reported q v" "vw_ops (vw_sent p v) = vw_ops v" "vw_severe (vw_sent p v) = vw_severe v"
  "vw_nextAddr (vw_sent p v) = vw_nextAddr v" "map fst (vw_objs (vw_sent p v) ty) = map fst (vw_objs v ty)"
  "send_active (vw_sent p v) = send_active v" "vw_calls (vw_sent p v) = vw_calls v"
  by (auto simp: vw_sent_def send_active_def split: list.split)

lemma waiting_key: "waiting q v \<Longrightarrow> snd q \<in> set (map fst (vw_objs v (fst q)))"
  by (force simp: waiting_def)

lemma waiting_sent: "waiting q (vw_sent p v) \<Longrightarrow> waiting q v \<or> q = p \<and> snd p \<in> set (map fst (vw_objs v (fst p)))"
  by (cases q; cases p) (force simp: waiting_def vw_sent_def split: if_splits)

lemma ops_wf_sent:
  assumes "ops_wf v"
  shows "ops_wf (vw_sent p v)"
proof -
  have "\<forall>(_, _, s) \<in> set (tl (vw_objs v Type_Send)). s" using assms by (simp add: ops_wf_def)
  then have "\<forall>(_, _, s) \<in> set (tl (vw_objs (vw_sent p v) Type_Send)). s"
    by (auto simp: vw_sent_def simp flip: map_tl)
  then show ?thesis using assms by (simp add: ops_wf_def)
qed

lemma inv_sent:
  assumes inv: "client_inv n c" and view: "view d = vw_sent p (view c)"
  shows "client_inv n d"
proof -
  have wf: "ops_wf (view d)" using inv by (simp add: view client_inv_def ops_wf_sent)
  have acc: "account q (view d) \<le> 1 \<and> (m_nextAddr c \<le> snd q \<longrightarrow> account q (view d) = 0)" for q
  proof (cases "waiting q (view d) = waiting q (view c)")
    case True
    then have "account q (view d) = account q (view c)" by (simp add: view account_def)
    then show ?thesis using inv by (simp add: client_inv_def once_def)
  next
    case False
    then have "has (fst q) (snd q) c"
      using waiting_sent [of q p "view c"] waiting_key [of q "view c"] by (auto simp: view has_def)
    then have "q \<in> set (live (m_ops c))" using has_live [of c "fst q" "snd q"] inv by (simp add: client_inv_def set_live)
    then have "reported q (view c) = 0" "snd q < m_nextAddr c"
      using inv by (simp_all add: client_inv_def once_def ops_wf_def)
    then show ?thesis by (simp add: view account_def)
  qed
  have "vw_calls (view d) = vw_calls (view c)" by (simp only: view vw_sent_simps)
  then have "m_apiEnterCount d = m_apiEnterCount c" by simp
  then show ?thesis using inv wf acc by (auto simp: client_inv_def once_def view)
qed

lemma view_sent:
  "(\<And>x. so_cb (f1 x)) \<Longrightarrow> view (upd_search a f1 c) = vw_sent (Type_Search, a) (view c)"
  "(\<And>x. co_cb (f2 x)) \<Longrightarrow> view (upd_connect a f2 c) = vw_sent (Type_Connect, a) (view c)"
  "(\<And>x. do_cb (f4 x)) \<Longrightarrow> view (upd_disconnect a f4 c) = vw_sent (Type_Disconnect, a) (view c)"
  "(\<And>x. sb_cb (f5 x)) \<Longrightarrow> (\<And>x. sb_suspended (f5 x) = sb_suspended x) \<Longrightarrow> view (upd_subscribe a f5 c) = vw_sent (Type_Subscribe, a) (view c)"
  "(\<And>x. ub_cb (f6 x)) \<Longrightarrow> (\<And>x. ub_suspended (f6 x) = ub_suspended x) \<Longrightarrow> view (upd_unsubscribe a f6 c) = vw_sent (Type_Unsubscribe, a) (view c)"
  "(\<And>x. sn_cb (f7 x)) \<Longrightarrow> (\<And>x. sn_suspended (f7 x) = sn_suspended x) \<Longrightarrow> view (upd_send a f7 c) = vw_sent (Type_Send, a) (view c)"
  "(\<And>x. wo_cb (f8 x)) \<Longrightarrow> view (upd_will a f8 c) = vw_sent (Type_Will, a) (view c)"
  by (auto simp: view_def vw_sent_def fun_eq_iff op_type_all upd_search_def upd_connect_def upd_disconnect_def
      upd_subscribe_def upd_unsubscribe_def upd_send_def upd_will_def obj_update_def split: if_splits)

text \<open>The common shape of \<^verbatim>\<open>send()\<close> after its checks: the bracket of the call, and the completion of the
  operation when sending fails.\<close>

lemma objs_doApiExit: "objs ty (ClientImpl_doApiExit c) = objs ty c"
  by (simp add: ClientImpl_doApiExit_def ClientImpl_cleanOps_def cl_assert_def cl_fault_def cl_emit_def Let_def)

lemma inv_fault: "client_inv n c \<Longrightarrow> client_inv n (cl_fault (UseAfterFree p) c)"
  by (rule inv_step_inv [OF inv_step_view]) (simp_all add: view_simps)

lemma inv_view: "client_inv n c \<Longrightarrow> view d = view c \<Longrightarrow> client_inv n d"
  by (rule inv_step_inv [OF inv_step_view])

lemma inv_keeps: "client_inv n c \<Longrightarrow> keeps c d \<Longrightarrow> client_inv n d"
  by (rule inv_step_inv [OF inv_step_evolves [OF evolves_keeps]])

lemma inv_allowNextPrepare: "client_inv n c \<Longrightarrow> client_inv n (ClientImpl_allowNextPrepare c)"
  by (erule inv_view) (simp add: ClientImpl_allowNextPrepare_def view_simps severe_def)

definition sends :: "op_type \<Rightarrow> nat \<Rightarrow> (client \<Rightarrow> error_code \<times> client) \<Rightarrow> bool" where
  "sends ty a body \<longleftrightarrow> (\<forall>d. client_inv 1 d \<longrightarrow> client_inv 1 (snd (body d)) \<and>
     (fst (body d) \<noteq> Ec_Success \<longrightarrow> has ty a (snd (body d))))"

lemma inv_with_guards:
  assumes inv: "client_inv 0 c" and body: "sends ty a body"
    and complete: "\<And>d. client_inv 0 d \<Longrightarrow> has ty a d \<Longrightarrow> client_inv 0 (complete d)"
  shows "client_inv 0 (snd (with_guards env elapsed body complete c))"
proof -
  define d where "d = body (ClientImpl_doApiEnter env elapsed c)"
  have "client_inv 1 (ClientImpl_doApiEnter env elapsed c)" by (rule inv_step_inv [OF inv_step_doApiEnter inv])
  then have d: "client_inv 1 (snd d)" "fst d \<noteq> Ec_Success \<Longrightarrow> has ty a (snd d)" using body by (auto simp: d_def sends_def)
  have "client_inv 0 (ClientImpl_doApiExit (snd d))" by (rule inv_step_inv [OF inv_step_doApiExit d(1)])
  moreover have "has ty a (ClientImpl_doApiExit (snd d)) = has ty a (snd d)" by (simp add: has_def objs_doApiExit)
  ultimately show ?thesis using d(2) complete by (simp add: with_guards_def Let_def split_beta d_def)
qed

text \<open>A call on an operation whose object exists.\<close>

lemma inv_call:
  assumes "client_inv n c" "\<And>d. has ty a d \<longleftrightarrow> obj_at a (ops d) \<noteq> None" "\<And>x. has ty a c \<Longrightarrow> client_inv n (snd (f x c))"
  shows "client_inv n (snd (on_obj_ec ty ops a f c))"
  using assms by (auto simp: on_obj_ec_def inv_fault split: option.split)

text \<open>What a body does: the callback is set, then the view is kept.\<close>

lemma has_sent: "view d = vw_sent p (view c) \<Longrightarrow> has ty a d = has ty a c"
  unfolding has_def by (metis view_fields(1) vw_sent_simps(5))

lemma inv_body_completing:
  assumes has: "\<And>d. has ty a d \<longleftrightarrow> obj_at a (ops d) \<noteq> None"
    and body: "\<And>x c. client_inv 1 c \<Longrightarrow> obj_at a (ops c) = Some x \<Longrightarrow> \<exists>e. view e = vw_sent (ty, a) (view c) \<and>
      keeps e (snd (f x c)) \<and> (ops_wf (view e) \<and> fst (f x c) \<noteq> Ec_Success \<longrightarrow> view (snd (f x c)) = view e)"
  shows "sends ty a (on_obj_ec ty ops a f)"
  unfolding sends_def
proof (intro allI impI)
  fix d
  assume inv: "client_inv 1 d"
  show "client_inv 1 (snd (on_obj_ec ty ops a f d)) \<and>
    (fst (on_obj_ec ty ops a f d) \<noteq> Ec_Success \<longrightarrow> has ty a (snd (on_obj_ec ty ops a f d)))"
  proof (cases "obj_at a (ops d)")
    case (Some x)
    obtain e where e: "view e = vw_sent (ty, a) (view d)" "keeps e (snd (f x d))"
        "ops_wf (view e) \<and> fst (f x d) \<noteq> Ec_Success \<longrightarrow> view (snd (f x d)) = view e"
      using body [OF inv Some] by blast
    have "client_inv 1 e" by (rule inv_sent [OF inv e(1)])
    moreover from this have "client_inv 1 (snd (f x d))" using e(2) by (rule inv_keeps)
    moreover have "has ty a e" using has_sent [OF e(1), of ty a] has [of d] Some by simp
    ultimately show ?thesis
      using e(3) has_view [of "snd (f x d)" e ty a] by (auto simp: on_obj_ec_def Some client_inv_def)
  qed (simp add: on_obj_ec_def inv inv_fault)
qed

lemma inv_body:
  assumes "\<And>d. has ty a d \<longleftrightarrow> obj_at a (ops d) \<noteq> None"
    and "\<And>x c. obj_at a (ops c) = Some x \<Longrightarrow> view (snd (f x c)) = vw_sent (ty, a) (view c)"
  shows "sends ty a (on_obj_ec ty ops a f)"
  by (rule inv_body_completing [OF assms(1)]) (blast intro: assms(2) keeps_view)

lemmas sending = Let_def split_beta view_simps view_sent

lemma inv_SearchOp_send: "client_inv 0 c \<Longrightarrow> client_inv 0 (snd (SearchOp_send env el cb a c))"
  by (auto simp: SearchOp_send_def sending intro!: inv_call [OF inv_allowNextPrepare has_obj_at(1)]
      inv_with_guards [where ty = Type_Search and a = a] inv_body [OF has_obj_at(1)] inv_opComplete inv_allowNextPrepare)

lemma inv_ConnectOp_send: "client_inv 0 c \<Longrightarrow> client_inv 0 (snd (ConnectOp_send env el cb a c))"
  by (auto simp: ConnectOp_send_def reuse_reset_def sending intro!: inv_call [OF inv_allowNextPrepare has_obj_at(2)]
      inv_with_guards [where ty = Type_Connect and a = a] inv_body [OF has_obj_at(2)] inv_opComplete inv_allowNextPrepare)

lemma inv_DisconnectOp_send: "client_inv 0 c \<Longrightarrow> client_inv 0 (snd (DisconnectOp_send env el cb a c))"
  by (auto simp: DisconnectOp_send_def sending intro!: inv_call [OF inv_allowNextPrepare has_obj_at(3)]
      inv_with_guards [where ty = Type_Disconnect and a = a] inv_body [OF has_obj_at(3)] inv_opComplete inv_allowNextPrepare)

lemma inv_SubscribeOp_send: "client_inv 0 c \<Longrightarrow> client_inv 0 (snd (SubscribeOp_send env el cb a c))"
  by (auto simp: SubscribeOp_send_def sending intro!: inv_call [OF inv_allowNextPrepare has_obj_at(4)]
      inv_with_guards [where ty = Type_Subscribe and a = a] inv_body [OF has_obj_at(4)] inv_opComplete_queued inv_allowNextPrepare)

lemma inv_UnsubscribeOp_send: "client_inv 0 c \<Longrightarrow> client_inv 0 (snd (UnsubscribeOp_send env el cb a c))"
  by (auto simp: UnsubscribeOp_send_def unsubscribe_forget_def severe_def sending intro!: inv_call [OF inv_allowNextPrepare has_obj_at(5)]
      inv_with_guards [where ty = Type_Unsubscribe and a = a] inv_body [OF has_obj_at(5)] inv_opComplete_queued inv_allowNextPrepare)

lemma inv_SendOp_send: "client_inv 0 c \<Longrightarrow> client_inv 0 (snd (SendOp_send env el cb a c))"
proof -
  have "sends Type_Send a (on_obj_ec Type_Send m_sendOps a (\<lambda>_ c.
      let c = upd_send a (\<lambda>so. so\<lparr>sn_cb := True\<rparr>) c;
          c = SendOp_allocPacketIdsInternal env a c;
          c = upd_send a (\<lambda>so. so\<lparr>sn_origRetryCount := ob_retryCount so, sn_fullRetryRemCount := ob_retryCount so\<rparr>) c
      in SendOp_sendInternal env a c))" (is "sends _ _ (on_obj_ec _ _ _ (\<lambda>_. ?body))")
  proof (rule inv_body_completing [OF has_obj_at(6)])
    fix d
    define e where "e = upd_send a (\<lambda>so. so\<lparr>sn_origRetryCount := ob_retryCount so, sn_fullRetryRemCount := ob_retryCount so\<rparr>)
      (SendOp_allocPacketIdsInternal env a (upd_send a (\<lambda>so. so\<lparr>sn_cb := True\<rparr>) d))"
    have "view e = vw_sent (Type_Send, a) (view d)" by (simp add: e_def view_simps view_sent)
    moreover have "?body d = SendOp_sendInternal env a e" by (simp add: e_def Let_def)
    ultimately show "\<exists>e. view e = vw_sent (Type_Send, a) (view d) \<and> keeps e (snd (?body d)) \<and>
        (ops_wf (view e) \<and> fst (?body d) \<noteq> Ec_Success \<longrightarrow> view (snd (?body d)) = view e)"
      using SendOp_sendInternal_keeps SendOp_sendInternal_error by metis
  qed
  then show "client_inv 0 c \<Longrightarrow> client_inv 0 (snd (SendOp_send env el cb a c))"
    unfolding SendOp_send_def Let_def [of "ClientImpl_allowNextPrepare c"]
    by (auto intro!: inv_call [OF inv_allowNextPrepare has_obj_at(6)] inv_with_guards [where ty = Type_Send and a = a]
        inv_opComplete_queued inv_allowNextPrepare)
qed

lemma inv_WillOp_send: "client_inv 0 c \<Longrightarrow> client_inv 0 (snd (WillOp_send env el cb a c))"
proof -
  define body where "body = (\<lambda>x c.
      let stage = (if will_same_topic x (m_prevWill c) then Stage_updMsg else Stage_updTopic);
          c = upd_will a (\<lambda>x. x\<lparr>wo_cb := True, wo_stage := stage\<rparr>) c
      in if stage = Stage_updMsg \<and> wo_msg x = wi_msg (m_prevWill c)
         then (Ec_Success, WillOp_completeOpInternal St_Complete
                 (Some (wo_topicUpdReturnCode x, wo_msgUpdReturnCode x)) a c)
         else
           let c = (if stage = Stage_updTopic
                    then c\<lparr>m_prevWill := (m_prevWill c)\<lparr>wi_topic := []\<rparr>\<rparr> else c);
               c = (if wo_topic x = [] then c\<lparr>m_prevWill := WillInfo_init\<rparr> else c);
               c = upd_will a (\<lambda>x. x\<lparr>wo_origRetryCount := ob_retryCount x\<rparr>) c
           in WillOp_sendInternal env a c)"
  have "sends Type_Will a (on_obj_ec Type_Will m_willOps a body)"
  proof (rule inv_body_completing [OF has_obj_at(7)])
    fix x and d :: client
    define stage where "stage = (if will_same_topic x (m_prevWill d) then Stage_updMsg else Stage_updTopic)"
    define e where "e = upd_will a (\<lambda>y. y\<lparr>wo_cb := True, wo_stage := stage\<rparr>) d"
    have "view e = vw_sent (Type_Will, a) (view d)" by (simp add: e_def view_sent)
    moreover have "keeps e (snd (body x d))"
      unfolding body_def Let_def stage_def [symmetric] e_def [symmetric]
      by (auto simp: view_simps intro!: keep.will_law keeps_view)
    moreover have "fst (body x d) \<noteq> Ec_Success \<longrightarrow> view (snd (body x d)) = view e"
      unfolding body_def Let_def stage_def [symmetric] e_def [symmetric] by (simp add: view_simps)
    ultimately show "\<exists>e. view e = vw_sent (Type_Will, a) (view d) \<and> keeps e (snd (body x d)) \<and>
        (ops_wf (view e) \<and> fst (body x d) \<noteq> Ec_Success \<longrightarrow> view (snd (body x d)) = view e)" by blast
  qed
  then show "client_inv 0 c \<Longrightarrow> client_inv 0 (snd (WillOp_send env el cb a c))"
    unfolding WillOp_send_def Let_def [of "ClientImpl_allowNextPrepare c"] body_def [symmetric]
    by (auto intro!: inv_call [OF inv_allowNextPrepare has_obj_at(7)] inv_with_guards [where ty = Type_Will and a = a]
        inv_opComplete inv_allowNextPrepare)
qed

lemma view_unlock: "view (unlock_unsent b c) = view c"
  by (simp add: unlock_unsent_def ClientImpl_allowNextPrepare_def view_simps severe_def)

lemma inv_unlock: "client_inv n c \<Longrightarrow> client_inv n (unlock_unsent b c)" "has ty a (unlock_unsent b c) = has ty a c"
  using inv_view view_unlock has_view by blast+

lemma inv_cancel:
  "client_inv n c \<Longrightarrow> client_inv n (snd (SearchOp_cancel a c))" "client_inv n c \<Longrightarrow> client_inv n (snd (ConnectOp_cancel a c))"
  "client_inv n c \<Longrightarrow> client_inv n (snd (DisconnectOp_cancel a c))"
  "client_inv n c \<Longrightarrow> client_inv n (snd (SubscribeOp_cancel env a c))"
  "client_inv n c \<Longrightarrow> client_inv n (snd (UnsubscribeOp_cancel env a c))"
  "client_inv n c \<Longrightarrow> client_inv n (snd (SendOp_cancel env a c))" "client_inv n c \<Longrightarrow> client_inv n (snd (WillOp_cancel a c))"
  unfolding SearchOp_cancel_def ConnectOp_cancel_def DisconnectOp_cancel_def SubscribeOp_cancel_def
    UnsubscribeOp_cancel_def SendOp_cancel_def WillOp_cancel_def
  by (rule inv_call [OF _ has_obj_at(1)] inv_call [OF _ has_obj_at(2)] inv_call [OF _ has_obj_at(3)]
      inv_call [OF _ has_obj_at(4)] inv_call [OF _ has_obj_at(5)] inv_call [OF _ has_obj_at(6)]
      inv_call [OF _ has_obj_at(7)];
      simp add: inv_opComplete inv_opComplete_queued inv_unlock)+

section \<open>Calls that prepare or configure an operation\<close>

lemma once_add: "once v \<Longrightarrow> once (vw_add ty s v)"
proof -
  assume "once v"
  then have *: "account p v \<le> 1" "p \<in> set (live (vw_ops v)) \<longrightarrow> reported p v = 0" "vw_nextAddr v \<le> snd p \<longrightarrow> account p v = 0" for p
    by (auto simp: once_def)
  have "reported (ty, vw_nextAddr v) v = 0" using *(3) [of "(ty, vw_nextAddr v)"] by (simp add: account_def)
  then show ?thesis using * by (auto simp: once_def)
qed

lemma inv_added:
  assumes "client_inv n c" "view d = vw_add ty s (view c)" "ty = Type_Send \<Longrightarrow> s = (objs Type_Send c \<noteq> [])"
  shows "client_inv n d"
proof -
  have "vw_calls (view d) = vw_calls (view c)" by (simp only: assms(2) vw_add_simps)
  then have "m_apiEnterCount d = m_apiEnterCount c" by simp
  then show ?thesis
    using assms by (simp add: client_inv_def ops_wf_add once_add send_active_add)
qed

lemma inv_terminateOps: "client_inv n c \<Longrightarrow> client_inv n (ClientImpl_terminateOps env st c)"
  using inv_keeps keep.after_terminateOps [OF keeps_view [OF refl]] by blast

lemma inv_init_if_needed: "client_inv 0 c \<Longrightarrow> client_inv 0 (snd (init_if_needed env el c))"
proof -
  assume "client_inv 0 c"
  then have e: "client_inv 1 (ClientImpl_doApiEnter env el c)" by (rule inv_step_inv [OF inv_step_doApiEnter])
  have "client_inv 1 (ClientImpl_terminateOps env St_Aborted (ClientImpl_doApiEnter env el c)
      \<lparr>m_sessionState := s, m_initialized := b\<rparr>)" for s b
    by (rule inv_view [OF inv_terminateOps [OF e]]) (simp add: view_simps)
  note t = inv_step_inv [OF inv_step_doApiExit this] inv_step_inv [OF inv_step_doApiExit e]
  show ?thesis
    using \<open>client_inv 0 c\<close> t by (simp add: init_if_needed_def ClientImpl_initInternal_def Let_def split_beta)
qed

lemma op_created_simps [simp]:
  "fst (op_created ty c) = m_nextAddr c" "m_searchOps (snd (op_created ty c)) = m_searchOps c"
  "m_connectOps (snd (op_created ty c)) = m_connectOps c" "m_disconnectOps (snd (op_created ty c)) = m_disconnectOps c"
  "m_subscribeOps (snd (op_created ty c)) = m_subscribeOps c" "m_unsubscribeOps (snd (op_created ty c)) = m_unsubscribeOps c"
  "m_sendOps (snd (op_created ty c)) = m_sendOps c" "m_willOps (snd (op_created ty c)) = m_willOps c"
  by (simp_all add: op_created_def)

lemma sendOps_timer_alloc: "m_sendOps (snd (timer_alloc env c)) = m_sendOps c"
  by (simp add: timer_alloc_def split_beta Let_def)

lemmas preparing = Let_def split_beta view_created view_simps

lemma inv_searchPrepare: "client_inv 0 c \<Longrightarrow> client_inv 0 (snd (ClientImpl_searchPrepare env el c))"
  using inv_init_if_needed [of c env el]
  by (auto simp: ClientImpl_searchPrepare_def preparing
      intro!: inv_added [where c = "snd (init_if_needed env el c)" and ty = Type_Search])

lemma inv_connectPrepare: "client_inv 0 c \<Longrightarrow> client_inv 0 (snd (ClientImpl_connectPrepare env el c))"
  using inv_init_if_needed [of c env el]
  by (auto simp: ClientImpl_connectPrepare_def preparing
      intro!: inv_added [where c = "snd (init_if_needed env el c)" and ty = Type_Connect])

lemma inv_disconnectPrepare: "client_inv 0 c \<Longrightarrow> client_inv 0 (snd (ClientImpl_disconnectPrepare env c))"
  by (auto simp: ClientImpl_disconnectPrepare_def preparing intro!: inv_added [where c = c and ty = Type_Disconnect])

lemma inv_subscribePrepare: "client_inv 0 c \<Longrightarrow> client_inv 0 (snd (ClientImpl_subscribePrepare env c))"
  by (auto simp: ClientImpl_subscribePrepare_def preparing intro!: inv_added [where c = c and ty = Type_Subscribe])

lemma inv_unsubscribePrepare: "client_inv 0 c \<Longrightarrow> client_inv 0 (snd (ClientImpl_unsubscribePrepare env c))"
  by (auto simp: ClientImpl_unsubscribePrepare_def preparing intro!: inv_added [where c = c and ty = Type_Unsubscribe])

lemma inv_publishPrepare: "client_inv 0 c \<Longrightarrow> client_inv 0 (snd (ClientImpl_publishPrepare env c))"
  using inv_view [of 0 c "timer_free (fst (timer_alloc env c)) (snd (timer_alloc env c))"]
  by (auto simp: ClientImpl_publishPrepare_def preparing
      intro!: inv_added [where c = c and ty = Type_Send and s = "m_sendOps (snd (timer_alloc env c)) \<noteq> []"])
    (simp_all add: sendOps_timer_alloc)

lemma inv_willPrepare: "client_inv 0 c \<Longrightarrow> client_inv 0 (snd (ClientImpl_willPrepare env c))"
  by (auto simp: ClientImpl_willPrepare_def preparing intro!: inv_added [where c = c and ty = Type_Will])

lemma view_config [view_simps]:
  "view (snd (SendOp_config c7 a c)) = view c" "view (snd (SubscribeOp_config c5 a c)) = view c"
  "view (snd (UnsubscribeOp_config c6 a c)) = view c" "view (snd (ConnectOp_config c2 a c)) = view c"
  "view (snd (ConnectOp_willConfig c3 a c)) = view c" "view (snd (DisconnectOp_config c4 a c)) = view c"
  "view (snd (WillOp_config c8 a c)) = view c"
  unfolding SendOp_config_def SubscribeOp_config_def UnsubscribeOp_config_def ConnectOp_config_def
    ConnectOp_willConfig_def DisconnectOp_config_def WillOp_config_def
  by (rule view_on_obj_ec, simp add: Let_def view_simps split: option.split)+

lemma view_setters [view_simps]:
  "view (Op_setRetryPeriod ms p c) = view c" "view (Op_setRetryCount n p c) = view c"
  "view (SearchOp_setBroadcastRadius r a c) = view c"
proof -
  obtain ty b where p: "p = (ty, b)" by fastforce
  show "view (Op_setRetryPeriod ms p c) = view c" "view (Op_setRetryCount n p c) = view c"
    by (cases ty; auto simp: p Op_setRetryPeriod_def Op_setRetryCount_def view_simps intro!: view_on_obj)+
  show "view (SearchOp_setBroadcastRadius r a c) = view c"
    by (auto simp: SearchOp_setBroadcastRadius_def view_simps intro!: view_on_obj)
qed

lemma view_cbs [view_simps]: "view (c\<lparr>cbs := x\<rparr>) = view c" "view (c\<lparr>m_configState := y\<rparr>) = view c"
  by (rule view_objsI; simp add: op_type_all)+

section \<open>All calls of the application\<close>

lemma inv_step_tick: "inv_step 0 0 c (ClientImpl_tick env ms c)"
proof -
  have "inv_step 1 1 d (cl_tick_timers env ms (d\<lparr>m_timestamp := x\<rparr>))" for d x
    by (intro inv_step_evolves evolves_keeps keep.after_tick_timers keeps_view) (simp add: view_simps)
  from inv_step_trans [OF inv_step_trans [OF inv_step_calls [of 0 1] this] inv_step_doApiExit]
  show ?thesis
    by (auto simp: ClientImpl_tick_def cl_assert_def Let_def inv_step_def client_inv_def)
qed

lemma inv_step_processData: "inv_step 0 0 c (ClientImpl_processData env el msg origin c)"
proof -
  have "evolves d (case msg of None \<Rightarrow> upd_session f d | Some m \<Rightarrow> ClientImpl_handle env m (upd_session f d))" for d f
    by (auto simp: view_simps intro!: evolve.after_handle intro: evolve.frame split: option.split)
  from inv_step_trans [OF inv_step_trans [OF inv_step_doApiEnter inv_step_evolves [OF this]] inv_step_doApiExit]
  show ?thesis by (simp add: ClientImpl_processData_def Let_def)
qed

inductive client_call :: "cl_env \<Rightarrow> client \<Rightarrow> client \<Rightarrow> bool" for env where
  setNextTickProgramCallback: "client_call env c (ClientImpl_setNextTickProgramCallback cb c)"
| setCancelNextTickWaitCallback: "client_call env c (ClientImpl_setCancelNextTickWaitCallback cb c)"
| setSendOutputDataCallback: "client_call env c (ClientImpl_setSendOutputDataCallback cb c)"
| setGatewayStatusReportCallback: "client_call env c (ClientImpl_setGatewayStatusReportCallback cb c)"
| setGatewayDisconnectedReportCallback: "client_call env c (ClientImpl_setGatewayDisconnectedReportCallback cb c)"
| setMessageReceivedCallback: "client_call env c (ClientImpl_setMessageReceivedCallback cb c)"
| setGwinfoDelayReqCb: "client_call env c (ClientImpl_setGwinfoDelayReqCb delay c)"
| configure: "client_call env c (c\<lparr>m_configState := config\<rparr>)"
| inRegTopicsLimit: "client_call env c (c\<lparr>m_regs := snd (setIncomingRegTopicsLimit maxIn limit (m_regs c))\<rparr>)"
| outRegTopicsLimit: "client_call env c (c\<lparr>m_regs := snd (setOutgoingRegTopicsLimit maxOut limit (m_regs c))\<rparr>)"
| setRetryPeriod: "client_call env c (Op_setRetryPeriod ms p c)"
| setRetryCount: "client_call env c (Op_setRetryCount n p c)"
| setBroadcastRadius: "client_call env c (SearchOp_setBroadcastRadius radius a c)"
| tick: "client_call env c (ClientImpl_tick env ms c)"
| processData: "client_call env c (ClientImpl_processData env elapsed msg origin c)"
| asleepCheckMessages: "client_call env c (snd (ClientImpl_asleepCheckMessages env c))"
| searchPrepare: "client_call env c (snd (ClientImpl_searchPrepare env elapsed c))"
| searchSend: "client_call env c (snd (SearchOp_send env elapsed cb a c))"
| searchCancel: "client_call env c (snd (SearchOp_cancel a c))"
| connectPrepare: "client_call env c (snd (ClientImpl_connectPrepare env elapsed c))"
| connectConfig: "client_call env c (snd (ConnectOp_config cc a c))"
| connectWillConfig: "client_call env c (snd (ConnectOp_willConfig wc a c))"
| connectSend: "client_call env c (snd (ConnectOp_send env elapsed cb a c))"
| connectCancel: "client_call env c (snd (ConnectOp_cancel a c))"
| disconnectPrepare: "client_call env c (snd (ClientImpl_disconnectPrepare env c))"
| disconnectConfig: "client_call env c (snd (DisconnectOp_config dc a c))"
| disconnectSend: "client_call env c (snd (DisconnectOp_send env elapsed cb a c))"
| disconnectCancel: "client_call env c (snd (DisconnectOp_cancel a c))"
| subscribePrepare: "client_call env c (snd (ClientImpl_subscribePrepare env c))"
| subscribeConfig: "client_call env c (snd (SubscribeOp_config sc a c))"
| subscribeSend: "client_call env c (snd (SubscribeOp_send env elapsed cb a c))"
| subscribeCancel: "client_call env c (snd (SubscribeOp_cancel env a c))"
| unsubscribePrepare: "client_call env c (snd (ClientImpl_unsubscribePrepare env c))"
| unsubscribeConfig: "client_call env c (snd (UnsubscribeOp_config uc a c))"
| unsubscribeSend: "client_call env c (snd (UnsubscribeOp_send env elapsed cb a c))"
| unsubscribeCancel: "client_call env c (snd (UnsubscribeOp_cancel env a c))"
| publishPrepare: "client_call env c (snd (ClientImpl_publishPrepare env c))"
| publishConfig: "client_call env c (snd (SendOp_config pc a c))"
| publishSend: "client_call env c (snd (SendOp_send env elapsed cb a c))"
| publishCancel: "client_call env c (snd (SendOp_cancel env a c))"
| willPrepare: "client_call env c (snd (ClientImpl_willPrepare env c))"
| willConfig: "client_call env c (snd (WillOp_config wc a c))"
| willSend: "client_call env c (snd (WillOp_send env elapsed cb a c))"
| willCancel: "client_call env c (snd (WillOp_cancel a c))"

inductive client_reachable :: "cl_env \<Rightarrow> client \<Rightarrow> bool" for env where
  init: "client_reachable env (ClientImpl_init env maxIn maxOut)"
| call: "client_reachable env c \<Longrightarrow> client_call env c d \<Longrightarrow> client_reachable env d"

lemma view_asleepCheckMessages: "view (snd (ClientImpl_asleepCheckMessages env c)) = view c"
  by (auto simp: ClientImpl_asleepCheckMessages_def view_simps intro!: view_fold)

lemma client_inv_call: "client_call env c d \<Longrightarrow> client_inv 0 c \<Longrightarrow> client_inv 0 d"
  by (induction rule: client_call.induct)
    (simp_all add: inv_step_inv [OF inv_step_tick] inv_step_inv [OF inv_step_processData] inv_cancel
      inv_searchPrepare inv_connectPrepare inv_disconnectPrepare inv_subscribePrepare inv_unsubscribePrepare
      inv_publishPrepare inv_willPrepare inv_SearchOp_send inv_ConnectOp_send inv_DisconnectOp_send
      inv_SubscribeOp_send inv_UnsubscribeOp_send inv_SendOp_send inv_WillOp_send
      ClientImpl_setNextTickProgramCallback_def
      ClientImpl_setCancelNextTickWaitCallback_def ClientImpl_setSendOutputDataCallback_def
      ClientImpl_setGatewayStatusReportCallback_def ClientImpl_setGatewayDisconnectedReportCallback_def
      ClientImpl_setMessageReceivedCallback_def ClientImpl_setGwinfoDelayReqCb_def,
      auto simp: view_simps view_asleepCheckMessages elim!: inv_view)

lemma client_inv_init: "client_inv 0 (ClientImpl_init env maxIn maxOut)"
proof -
  have "view (ClientImpl_init env maxIn maxOut) = \<lparr>vw_objs = \<lambda>_. [], vw_ops = [], vw_nextAddr = 0, vw_reports = [],
      vw_severe = [], vw_calls = 0\<rparr>"
    by (simp add: ClientImpl_init_def timer_alloc_def Let_def split_beta view_def fun_eq_iff op_type_all List.map_filter_def)
  moreover from this have "m_apiEnterCount (ClientImpl_init env maxIn maxOut) = 0" by (simp add: view_def)
  ultimately show ?thesis
    by (simp add: client_inv_def ops_wf_def once_def send_active_def account_def waiting_def reported_def addrs_def)
qed

lemma client_reachable_inv: "client_reachable env c \<Longrightarrow> client_inv 0 c"
  by (induction rule: client_reachable.induct) (auto intro: client_inv_init client_inv_call)

end
