(* ===== verification/Cl_Safety.thy ===== *)
theory Cl_Safety
  imports Cl_Invariant
begin

text \<open>
  What holds in every reachable state of the client: pointers and objects agree, no completion is
  reported twice, an operation in progress ends in exactly one report, publications never stall, and
  the end of the connection leaves no operation behind.
\<close>

section \<open>The end of the connection\<close>

lemma Op_terminateOp_completes: "completes p c (Op_terminateOp env st p c)"
  by (cases p) (auto simp: Op_terminateOp_def SearchOp_completes ConnectOp_completes KeepAliveOp_completes
      DisconnectOp_completes SubscribeOp_completes UnsubscribeOp_completes SendOp_completes WillOp_completes
      split: op_type.split)

text \<open>The loop has nulled every pointer behind it.\<close>

lemma terminateOps_loop_clears:
  "ops_wf (view c) \<Longrightarrow> length (m_ops c) = n \<Longrightarrow> k \<le> n \<Longrightarrow> \<forall>i < k. m_ops c ! i = None \<Longrightarrow>
   ops_wf (view (terminateOps_loop env st [k..<n] c)) \<and> (\<forall>q \<in> set (m_ops (terminateOps_loop env st [k..<n] c)). q = None)"
proof (induction "n - k" arbitrary: k c)
  case 0
  then show ?case by (auto simp: in_set_conv_nth)
next
  case (Suc m)
  define d where "d = (case m_ops c ! k of None \<Rightarrow> c | Some p \<Rightarrow> Op_terminateOp env st p c)"
  have k: "k < n" "[k..<n] = k # [Suc k..<n]" using Suc.hyps(2) by (auto simp: upt_conv_Cons)
  have keeps: "keeps c d" using Op_terminateOp_completes by (auto simp: d_def completes_def keeps_view split: option.split)
  then have d: "ops_wf (view d)" "cleared (m_ops c) (m_ops d)" using Suc.prems(1) by (auto simp: keeps_def steady_def)
  then have nth: "length (m_ops d) = n" "\<And>i. i < n \<Longrightarrow> m_ops d ! i = None \<or> m_ops d ! i = m_ops c ! i"
    using Suc.prems(2) by (auto simp: cleared_def list_all2_conv_all_nth)
  have "m_ops d ! k = None"
  proof (cases "m_ops c ! k")
    case (Some p)
    then have "Some p \<notin> set (m_ops d)"
      using Op_terminateOp_completes [of p c env st] Suc.prems(1) by (simp add: completes_def set_live d_def)
    then show ?thesis using nth k(1) Some by (metis nth_mem)
  qed (simp add: d_def)
  then have "\<forall>i < Suc k. m_ops d ! i = None" using nth Suc.prems(4) k(1) by (metis less_Suc_eq less_trans)
  then show ?case
    using Suc.hyps(1) [of "Suc k" d] Suc.hyps(2) d(1) nth(1) k by (simp add: d_def)
qed

lemma terminateOps_clears:
  assumes "ops_wf (view c)"
  shows "\<forall>ty. objs ty (ClientImpl_terminateOps env st c) = []" "\<forall>q \<in> set (m_ops (ClientImpl_terminateOps env st c)). q = None"
proof -
  define d where "d = ClientImpl_terminateOps env st c"
  have d: "ops_wf (view d)" "\<forall>q \<in> set (m_ops d). q = None"
    using terminateOps_loop_clears [OF assms refl, of 0] by (simp_all add: d_def ClientImpl_terminateOps_def)
  then have "set (live (m_ops d)) = {}" by (auto simp: set_live)
  then have "live (m_ops d) = []" by simp
  then have "map fst (objs ty d) = []" for ty using d(1) by (simp add: ops_wf_def addrs_def)
  then show "\<forall>ty. objs ty d = []" "\<forall>q \<in> set (m_ops d). q = None" using d(2) by auto
qed

lemma gatewayDisconnected_clears:
  assumes "ops_wf (view c)"
  shows "\<forall>ty. objs ty (ClientImpl_gatewayDisconnected env reason st c) = []"
proof -
  have "ops_wf (view (upd_session f (c\<lparr>m_initialized := b\<rparr>)))" for f b using assms by (simp add: view_simps)
  note empty = terminateOps_clears(1) [OF this]
  have "objs ty (cl_emit e (cl_assert s b d)) = objs ty d" for ty e s b d
    by (simp add: cl_emit_def cl_assert_def cl_fault_def)
  then show ?thesis
    using empty by (simp add: ClientImpl_gatewayDisconnected_def Let_def split: option.split)
qed

lemma inv_before_exit:
  assumes "client_inv 0 c" "d = ClientImpl_tick env ms c \<or> d = ClientImpl_processData env elapsed msg origin c"
  shows "\<exists>e. client_inv 1 e \<and> d = ClientImpl_doApiExit e"
proof -
  have t: "client_inv 1 (cl_tick_timers env ms (e\<lparr>m_timestamp := x\<rparr>))" if "client_inv 1 e" for e x
    by (rule inv_keeps [OF that keep.after_tick_timers [OF keeps_view]]) (simp add: view_simps)
  have "client_inv 1 (cl_tick_timers env ms (c\<lparr>m_apiEnterCount := 1, m_timestamp := x\<rparr>))" for x
    using t [OF inv_step_inv [OF inv_step_calls assms(1)]] by simp
  moreover have "client_inv 1 (case msg of None \<Rightarrow> upd_session f (ClientImpl_doApiEnter env elapsed c)
      | Some m \<Rightarrow> ClientImpl_handle env m (upd_session f (ClientImpl_doApiEnter env elapsed c)))" for f
    using inv_step_inv [OF inv_step_evolves [OF evolve.after_handle [OF evolve.frame]]]
      inv_view [OF inv_step_inv [OF inv_step_doApiEnter assms(1)]]
    by (auto simp: view_simps split: option.split)
  ultimately show ?thesis
    using assms by (auto simp: ClientImpl_tick_def ClientImpl_processData_def cl_assert_def Let_def client_inv_def)
qed

text \<open>The timers that count down, and what the client has to wait for the first of them: all of them
  have at least that long to go, and one of them has exactly that long, unless it is longer than a tick can be.\<close>

definition running_timers :: "('cb, 'd) timer_mgr \<Rightarrow> ('cb, 'd) timer_info list" where
  "running_timers tm = filter (\<lambda>info. m_allocated info \<and> m_timeoutCb info \<noteq> None \<and> \<not> m_suspended info) (m_timers tm)"

lemma getMinWait_least:
  assumes "m_allocatedTimers tm \<noteq> 0" "\<exists>info \<in> set (running_timers tm). m_timeoutMs info \<noteq> - 1"
  shows "(\<forall>info \<in> set (running_timers tm). unat (getMinWait tm) \<le> unat (m_timeoutMs info)) \<and>
    ((\<exists>info \<in> set (running_timers tm). unat (getMinWait tm) = unat (m_timeoutMs info)) \<or> getMinWait tm = - 1)"
proof -
  define w where "w = fold (\<lambda>info result. if timer_skipped info then result
    else min result (m_timeoutMs info)) (m_timers tm) (- 1)"
  have run: "info \<in> set (running_timers tm) \<longleftrightarrow> info \<in> set (m_timers tm) \<and> \<not> timer_skipped info" for info
    by (auto simp: running_timers_def timer_skipped_def)
  have low: "w \<le> m_timeoutMs info" if "info \<in> set (running_timers tm)" for info
    using that fold_min_wait(2) unfolding w_def run by blast
  have hit: "w = - 1 \<or> (\<exists>info \<in> set (running_timers tm). w = m_timeoutMs info)"
    using fold_min_wait(3) [where xs = "m_timers tm" and r = "- 1"] unfolding w_def run Bex_def by auto
  have "w \<noteq> - 1" using assms(2) low by (auto simp: word_order.extremum_unique)
  then have g: "unat (getMinWait tm) = min (unat w) (2 ^ 32 - 1)"
    using assms(1) unat_saturated [of w] by (simp add: getMinWait_def Let_def w_def)
  have "getMinWait tm = - 1" if "\<not> unat w \<le> 2 ^ 32 - 1"
    using that g by (simp add: word_unat_eq_iff unsigned_minus_1_eq_mask mask_eq_exp_minus_1)
  then show ?thesis using g hit low \<open>w \<noteq> - 1\<close> by (fastforce simp: word_le_nat_alt min_def)
qed

lemma doApiExit_programs:
  assumes "client_inv 1 c" "d = ClientImpl_doApiExit c" "cb_nextTickProgram (cbs d)" "getMinWait (m_timerMgr d) \<noteq> 0"
  shows "out d \<noteq> [] \<and> last (out d) = Out_ProgramTick (getMinWait (m_timerMgr d))"
proof -
  have "m_apiEnterCount c = 1" using assms(1) by (simp add: client_inv_def)
  then show ?thesis
    using assms(3,4) unfolding assms(2)
    by (auto simp: ClientImpl_doApiExit_def ClientImpl_cleanOps_def cl_assert_def cl_emit_def Let_def)
qed

section \<open>Timers that are due together\<close>

lemma faults_doApiExit: "set (cl_faults c) \<subseteq> set (cl_faults (ClientImpl_doApiExit c))"
  by (auto simp: ClientImpl_doApiExit_def ClientImpl_cleanOps_def cl_assert_def cl_fault_def cl_emit_def Let_def)

lemma destroyed_send_timeout:
  assumes "ops_wf (view c)" "obj_at k (m_keepAliveOps c) = Some ko" "ob_retryCount ko = 0"
  shows "UseAfterFree (Type_Send, a) \<in>
    set (cl_faults (SendOp_timeoutInternal env a (KeepAliveOp_pingTimeoutInternal env k c)))"
proof -
  define d where "d = KeepAliveOp_pingTimeoutInternal env k c"
  define e where "e = cl_assert ''pingTimeoutInternal: m_respTimer'' (\<not> timer_active (ko_respTimer ko) c) c"
  have "ops_wf (view e)" using assms(1) by (simp add: e_def view_simps severe_def)
  from gatewayDisconnected_clears [OF this] have "objs Type_Send d = []"
    using assms(2,3) by (simp only: d_def KeepAliveOp_pingTimeoutInternal_def on_obj_def e_def [symmetric] Let_def
        option.case if_True simp_thms)
  then show ?thesis
    unfolding d_def [symmetric] by (simp add: SendOp_timeoutInternal_def on_obj_def obj_at_def cl_fault_def)
qed

section \<open>Properties\<close>

lemma reported_filter: "reported p (view c) = length (filter (\<lambda>e. completion e = Some p) (out c))"
proof -
  have "count_list (List.map_filter completion es) p = length (filter (\<lambda>e. completion e = Some p) es)" for es
    by (induction es) (auto simp: List.map_filter_def split: option.splits)
  then show ?thesis by (simp add: reported_def view_def)
qed

lemma waiting_cases: "account p v = account p w \<Longrightarrow> waiting p v \<Longrightarrow> waiting p w \<and> reported p w = reported p v \<or>
    \<not> waiting p w \<and> reported p w = reported p v + 1"
  by (auto simp: account_def split: if_splits)

text \<open>
  C6. In every reachable state of the client the pointers of \<^verbatim>\<open>m_ops\<close> and the lists that own the
  operations agree: for each type, the pointers of that type are the addresses of its list, in the same
  order, and no operation is pointed to twice. The assertions of \<^verbatim>\<open>opComplete()\<close> and \<^verbatim>\<open>eraseFromList()\<close> that rely
  on this do not fail before a call on a destroyed operation, no chain of calls of \<^verbatim>\<open>resume()\<close> gets deeper than the number of operations, and
  calls are properly nested.
\<close>

theorem client_pointers_typed:
  assumes "client_reachable env c"
  shows "(\<forall>ty. addrs ty (m_ops c) = map fst (objs ty c)) \<and> distinct (live (m_ops c)) \<and>
    filter severe (cl_faults c) = [] \<and> m_apiEnterCount c = 0"
proof -
  have "vw_severe (view c) = filter severe (cl_faults c)" by (simp add: view_def)
  then show ?thesis using client_reachable_inv [OF assms] by (simp add: client_inv_def ops_wf_def)
qed

text \<open>
  An operation is reported as complete at most once, and never while it still exists: in every
  reachable state the output has at most one report for each operation, and none for an operation that
  is still pointed to.
\<close>

theorem client_reports_once:
  assumes "client_reachable env c"
  shows "length (filter (\<lambda>e. completion e = Some p) (out c)) \<le> 1 \<and>
    (Some p \<in> set (m_ops c) \<longrightarrow> (\<forall>e \<in> set (out c). completion e \<noteq> Some p))"
proof -
  have inv: "account p (view c) \<le> 1" "p \<in> set (live (m_ops c)) \<longrightarrow> reported p (view c) = 0"
    using client_reachable_inv [OF assms] by (auto simp: client_inv_def once_def)
  then show ?thesis by (auto simp: account_def reported_filter set_live filter_empty_conv)
qed

text \<open>A run in which the model follows the code to the end: no call on a destroyed operation, no call that
  does not return and no read past the end of a text has been recorded.\<close>

definition defined_run :: "client \<Rightarrow> bool" where
  "defined_run c \<longleftrightarrow> list_all (\<lambda>f. case f of AssertFailed _ \<Rightarrow> True | _ \<Rightarrow> False) (cl_faults c)"

text \<open>
  C5. An operation in progress is never lost and never silently dropped by what happens to the client:
  when time passes or a message arrives in a reachable state, an operation the application waits for
  is afterwards either still in progress with nothing reported, or gone with exactly one report. The
  statement is about runs up to there in which no call on a destroyed operation has occurred: such a
  call, which a tick can make, is recorded and left out by the model, while the code runs it on freed
  memory and may report again.
\<close>

theorem client_operation_ends_in_one_report:
  assumes "client_reachable env c" "d = ClientImpl_tick env ms c \<or> d = ClientImpl_processData env elapsed msg origin c"
    "waiting p (view c)" "defined_run d"
  shows "if waiting p (view d) then filter (\<lambda>e. completion e = Some p) (out d) = []
    else length (filter (\<lambda>e. completion e = Some p) (out d)) = 1"
proof -
  have inv: "client_inv 0 c" by (rule client_reachable_inv [OF assms(1)])
  have "inv_step 0 0 c d" using assms(2) inv_step_tick inv_step_processData by blast
  then have acc: "account p (view c) = account p (view d)" using inv by (simp add: inv_step_def)
  have "account p (view c) \<le> 1" using inv by (simp add: client_inv_def once_def)
  then have "reported p (view c) = 0" using assms(3) by (simp add: account_def)
  then show ?thesis
    using waiting_cases [OF acc assms(3)] by (auto simp: reported_filter)
qed

text \<open>
  C7. Publications are sent one at a time and the queue never stalls: in every reachable state the
  first publication is not suspended, and all others are.
\<close>

theorem client_publications_never_stall:
  assumes "client_reachable env c" "m_sendOps c = (a, so) # rest"
  shows "\<not> sn_suspended so \<and> (\<forall>(_, x) \<in> set rest. sn_suspended x)"
  using client_reachable_inv [OF assms(1)] assms(2)
  by (auto simp: client_inv_def ops_wf_def send_active_def)

text \<open>
  C8. The end of the connection leaves no operation behind: when the client is told or finds out that
  the gateway is gone, every operation is destroyed, and each one the application waits for is reported
  exactly once.
\<close>

theorem client_disconnection_ends_all_operations:
  assumes "client_reachable env c" "d = ClientImpl_gatewayDisconnected env reason st c"
  shows "(\<forall>ty. objs ty d = []) \<and>
    (\<forall>p. length (filter (\<lambda>e. completion e = Some p) (out d)) =
       length (filter (\<lambda>e. completion e = Some p) (out c)) + (if waiting p (view c) then 1 else 0))"
proof -
  have wf: "ops_wf (view c)" using client_reachable_inv [OF assms(1)] by (simp add: client_inv_def)
  have empty: "\<forall>ty. objs ty d = []" using gatewayDisconnected_clears [OF wf] assms(2) by simp
  then have "\<not> waiting p (view d)" for p by (simp add: waiting_def)
  moreover have "keeps c d" using keep.after_gatewayDisconnected [OF keeps_view [OF refl]] assms(2) by simp
  then have "account p (view d) = account p (view c)" for p using wf by (simp add: keeps_def steady_def)
  ultimately have "reported p (view d) = reported p (view c) + (if waiting p (view c) then 1 else 0)" for p
    by (simp add: account_def)
  then show ?thesis using empty by (simp add: reported_filter)
qed

text \<open>
  C13. The client asks for the tick it needs: after time has passed or a message has arrived in a
  reachable state, and the application has set the callback, the last thing the client does is to
  program the next tick. No running timer is due earlier, and one of them is due exactly then, or
  later than the longest tick. This needs a running timer, a timer manager that counts it, and no
  timer that was armed with 0 milliseconds, for which the client programs nothing.
\<close>

theorem client_programs_next_tick:
  assumes "client_reachable env c" "d = ClientImpl_tick env ms c \<or> d = ClientImpl_processData env elapsed msg origin c"
    "cb_nextTickProgram (cbs d)" "m_allocatedTimers (m_timerMgr d) \<noteq> 0"
    "\<exists>info \<in> set (running_timers (m_timerMgr d)). m_timeoutMs info \<noteq> - 1"
    "\<forall>info \<in> set (running_timers (m_timerMgr d)). m_timeoutMs info \<noteq> 0"
  shows "\<exists>wait. out d \<noteq> [] \<and> last (out d) = Out_ProgramTick wait \<and> wait \<noteq> 0 \<and>
    (\<forall>info \<in> set (running_timers (m_timerMgr d)). unat wait \<le> unat (m_timeoutMs info)) \<and>
    ((\<exists>info \<in> set (running_timers (m_timerMgr d)). unat wait = unat (m_timeoutMs info)) \<or> wait = - 1)"
proof -
  note least = getMinWait_least [OF assms(4,5)]
  then have nz: "getMinWait (m_timerMgr d) \<noteq> 0" using assms(6) by (auto simp: unat_eq_zero)
  obtain e where "client_inv 1 e" "d = ClientImpl_doApiExit e"
    using inv_before_exit [OF client_reachable_inv [OF assms(1)] assms(2)] by blast
  from doApiExit_programs [OF this assms(3) nz] show ?thesis using nz least by blast
qed

text \<open>
  C18. The callbacks of all timers that are due in a tick are collected before the first of them is
  called. When the supervision of the gateway gives up in the same tick in which a publication has to be
  sent again, the first callback destroys all operations, and the second one is called on the
  publication that no longer exists.
\<close>

theorem client_tick_uses_destroyed_operation:
  assumes "client_reachable env c" "TimerMgr_tick ms (m_timerMgr c) = ([(Cb_pingTimeout, Some k), (Cb_send, Some a)], tm)"
    "obj_at k (m_keepAliveOps c) = Some ko" "ob_retryCount ko = 0"
  shows "UseAfterFree (Type_Send, a) \<in> set (cl_faults (ClientImpl_tick env ms c))"
proof -
  have inv: "client_inv 0 c" by (rule client_reachable_inv [OF assms(1)])
  define d where "d = c\<lparr>m_apiEnterCount := 1, m_timestamp := m_timestamp c + ucast ms, m_timerMgr := tm\<rparr>"
  have "client_inv 1 d"
    by (rule inv_view [OF inv_step_inv [OF inv_step_calls inv]]) (simp add: d_def view_simps)
  then have "UseAfterFree (Type_Send, a) \<in>
      set (cl_faults (SendOp_timeoutInternal env a (KeepAliveOp_pingTimeoutInternal env k d)))"
    using assms(3,4) by (intro destroyed_send_timeout) (simp_all add: client_inv_def d_def)
  then show ?thesis
    using inv faults_doApiExit assms(2)
    by (auto simp: ClientImpl_tick_def cl_tick_timers_def timer_callback_def cl_assert_def client_inv_def Let_def d_def)
qed

end
