(* ===== verification/Cl_Exchanges.thy ===== *)
theory Cl_Exchanges
  imports Cl_Safety
begin

text \<open>
  Exchanges of messages over several steps: a publication with its registration and acknowledgement,
  a publication nobody acknowledges, a gateway that stays silent, and the reception of a publication
  that the gateway sends again.
\<close>

section \<open>Sending\<close>

text \<open>Sending a message that fits the buffer only arms timers of the keep alive operations.\<close>

lemma fold_messageSent: "\<exists>tm. fold (\<lambda>(a, ko) c. KeepAliveOp_messageSent a ko c) kos c = c\<lparr>m_timerMgr := tm\<rparr>"
proof (induction kos arbitrary: c)
  case Nil
  have "c = c\<lparr>m_timerMgr := m_timerMgr c\<rparr>" by simp
  then show ?case by (metis fold_simps(1))
next
  case (Cons k kos)
  obtain a ko where k: "k = (a, ko)" by fastforce
  have "\<exists>tm. KeepAliveOp_messageSent a ko c = c\<lparr>m_timerMgr := tm\<rparr>"
  proof (cases "se_keepAliveMs (m_sessionState c) = 0")
    case True
    have "c = c\<lparr>m_timerMgr := m_timerMgr c\<rparr>" by simp
    then show ?thesis using True by (metis KeepAliveOp_messageSent_def KeepAliveOp_restartPingTimer_def)
  qed (auto simp: KeepAliveOp_messageSent_def KeepAliveOp_restartPingTimer_def timer_wait_def)
  then obtain tm where tm: "KeepAliveOp_messageSent a ko c = c\<lparr>m_timerMgr := tm\<rparr>" by blast
  from Cons [of "c\<lparr>m_timerMgr := tm\<rparr>"] show ?case by (simp add: k tm)
qed

text \<open>A client that differs only in timers, output and recorded faults.\<close>

lemma assert_faults: "\<exists>fs. cl_assert s b c = c\<lparr>cl_faults := fs\<rparr>"
proof (cases b)
  case True
  have "c = c\<lparr>cl_faults := cl_faults c\<rparr>" by simp
  then show ?thesis using True by (metis cl_assert_def)
qed (auto simp: cl_assert_def cl_fault_def)

lemma sendMessage_fits:
  assumes "env_frameLen env msg \<le> env_bufSize env"
  shows "\<exists>tm fs. ClientImpl_sendMessage env msg r c =
    (Ec_Success, c\<lparr>m_timerMgr := tm, cl_faults := fs, out := out c @ [Out_Send msg r]\<rparr>)"
proof -
  obtain fs where fs: "cl_assert ''sendMessage: m_sendOutputDataCb'' (cb_sendOutputData (cbs c)) c = c\<lparr>cl_faults := fs\<rparr>"
    using assert_faults by blast
  obtain tm where "fold (\<lambda>(a, ko) c. KeepAliveOp_messageSent a ko c) (m_keepAliveOps c)
      (cl_emit (Out_Send msg r) (c\<lparr>cl_faults := fs\<rparr>)) = (cl_emit (Out_Send msg r) (c\<lparr>cl_faults := fs\<rparr>))\<lparr>m_timerMgr := tm\<rparr>"
    using fold_messageSent by blast
  then show ?thesis
    using assms by (intro exI [of _ tm] exI [of _ fs])
      (simp add: ClientImpl_sendMessage_def fs Let_def cl_emit_def)
qed

section \<open>Sending a publication\<close>

lemma obj_at_update: "obj_at a (obj_update b f xs) = (if a = b then map_option f (obj_at a xs) else obj_at a xs)"
  by (induction xs) (auto simp: obj_at_def obj_update_def)

lemma sendInternal_Publish_sends:
  assumes so: "obj_at a (m_sendOps c) = Some so" "sn_stage so = Stage_Publish" "\<not> sn_suspended so"
    and pub: "pub = (if ob_retryCount so < sn_origRetryCount so then (sn_pub so)\<lparr>sp_dup := True\<rparr> else sn_pub so)"
    and qos: "sp_qos (sn_pub so) \<noteq> SN_AtMostOnceDelivery"
    and fits: "env_frameLen env (PublishMsg_CL pub) \<le> env_bufSize env"
  shows "\<exists>tm fs. SendOp_sendInternal env a c =
    (Ec_Success, c\<lparr>m_sendOps := obj_update a (\<lambda>so. so\<lparr>sn_pub := pub\<rparr>) (m_sendOps c), m_timerMgr := tm, cl_faults := fs,
       out := out c @ [Out_Send (PublishMsg_CL pub) 0]\<rparr>)"
proof -
  obtain fs where fs: "cl_assert ''sendInternal_Publish: topicId''
      (sp_topicIdType (sn_pub so) = ShortTopicName \<or> isValidTopicId (sp_topicId (sn_pub so))) c = c\<lparr>cl_faults := fs\<rparr>"
    using assert_faults by blast
  define e where "e = upd_send a (\<lambda>so. so\<lparr>sn_pub := pub\<rparr>) (c\<lparr>cl_faults := fs\<rparr>)"
  obtain tm1 fs1 where sent: "ClientImpl_sendMessage env (PublishMsg_CL pub) 0 e =
      (Ec_Success, e\<lparr>m_timerMgr := tm1, cl_faults := fs1, out := out e @ [Out_Send (PublishMsg_CL pub) 0]\<rparr>)"
    using sendMessage_fits [OF fits] by blast
  obtain fs2 where fs2: "cl_assert ''sendInternal_Publish: msgId'' (sp_msgId pub > 0) (e\<lparr>m_timerMgr := tm1, cl_faults := fs1,
      out := out e @ [Out_Send (PublishMsg_CL pub) 0]\<rparr>) =
      (e\<lparr>m_timerMgr := tm1, cl_faults := fs1, out := out e @ [Out_Send (PublishMsg_CL pub) 0]\<rparr>)\<lparr>cl_faults := fs2\<rparr>"
    using assert_faults by blast
  have "sp_qos pub \<noteq> SN_AtMostOnceDelivery" using pub qos by auto
  then have "SendOp_sendInternal env a c = (Ec_Success, SendOp_restartTimer a so
      ((e\<lparr>m_timerMgr := tm1, cl_faults := fs1, out := out e @ [Out_Send (PublishMsg_CL pub) 0]\<rparr>)\<lparr>cl_faults := fs2\<rparr>))"
    using so by (simp add: SendOp_sendInternal_def SendOp_sendInternal_with_def on_obj_ec_def
        SendOp_sendInternal_Publish_with_def fs pub [symmetric] e_def [symmetric] sent fs2 Let_def)
  then show ?thesis
    by (intro exI [of _ "timerWait (sn_timer so) (ucast (ob_retryPeriod so)) (Some Cb_send) (Some a) tm1"] exI [of _ fs2])
      (simp add: SendOp_restartTimer_def timer_wait_def e_def upd_send_def)
qed

section \<open>A publication nobody acknowledges\<close>

text \<open>A publication that waits for its acknowledgement, with what it sends again and the retries it has left.\<close>

definition unacknowledged :: "cl_env \<Rightarrow> nat \<Rightarrow> sn_publish \<Rightarrow> u32 \<Rightarrow> client \<Rightarrow> bool" where
  "unacknowledged env a pub n c \<longleftrightarrow> (\<exists>so. obj_at a (m_sendOps c) = Some so \<and> sn_stage so = Stage_Publish \<and>
     \<not> sn_suspended so \<and> sn_cb so \<and> (sn_pub so)\<lparr>sp_dup := True\<rparr> = pub \<and> sp_qos pub \<noteq> SN_AtMostOnceDelivery \<and>
     ob_retryCount so = n \<and> n \<le> sn_origRetryCount so \<and> env_frameLen env (PublishMsg_CL pub) \<le> env_bufSize env)"

lemma timeout_sends_again:
  assumes "unacknowledged env a pub n c" "n \<noteq> 0"
  shows "unacknowledged env a pub (n - 1) (SendOp_timeoutInternal env a c) \<and>
    out (SendOp_timeoutInternal env a c) = out c @ [Out_Send (PublishMsg_CL pub) 0]"
proof -
  obtain so where so: "obj_at a (m_sendOps c) = Some so" "sn_stage so = Stage_Publish" "\<not> sn_suspended so"
      "(sn_pub so)\<lparr>sp_dup := True\<rparr> = pub" "ob_retryCount so = n" "n \<le> sn_origRetryCount so" "sn_cb so"
    and qos: "sp_qos pub \<noteq> SN_AtMostOnceDelivery" and fits: "env_frameLen env (PublishMsg_CL pub) \<le> env_bufSize env"
    using assms(1) by (auto simp: unacknowledged_def)
  have less: "n - 1 < sn_origRetryCount so"
    using so(6) assms(2) measure_unat [of n] by (simp add: word_less_nat_alt word_le_nat_alt)
  define d where "d = upd_send a (\<lambda>so. so\<lparr>ob_retryCount := ob_retryCount so - 1\<rparr>) c"
  define x where "x = so\<lparr>ob_retryCount := n - 1\<rparr>"
  have x: "obj_at a (m_sendOps d) = Some x" using so by (simp add: d_def x_def upd_send_def obj_at_update)
  have "sp_qos (sn_pub x) \<noteq> SN_AtMostOnceDelivery" using so(4) qos by (auto simp: x_def)
  moreover have "pub = (if ob_retryCount x < sn_origRetryCount x then (sn_pub x)\<lparr>sp_dup := True\<rparr> else sn_pub x)"
    using so less by (simp add: x_def)
  moreover have "sn_stage x = Stage_Publish" "\<not> sn_suspended x" using so by (simp_all add: x_def)
  ultimately obtain tm fs where sent: "SendOp_sendInternal env a d = (Ec_Success, d\<lparr>m_sendOps :=
      obj_update a (\<lambda>so. so\<lparr>sn_pub := pub\<rparr>) (m_sendOps d), m_timerMgr := tm, cl_faults := fs,
      out := out d @ [Out_Send (PublishMsg_CL pub) 0]\<rparr>)"
    using sendInternal_Publish_sends [OF x] fits by blast
  then have "SendOp_timeoutInternal env a c = d\<lparr>m_sendOps := obj_update a (\<lambda>so. so\<lparr>sn_pub := pub\<rparr>) (m_sendOps d),
      m_timerMgr := tm, cl_faults := fs, out := out d @ [Out_Send (PublishMsg_CL pub) 0]\<rparr>"
    using so(1,5) assms(2) by (simp add: SendOp_timeoutInternal_def on_obj_def SendOp_sendOrComplete_def d_def [symmetric])
  moreover have "out d = out c" by (simp add: d_def upd_send_def)
  ultimately show ?thesis
    using so less qos fits by (auto simp: unacknowledged_def obj_at_update x x_def)
qed

lemma retries_left: "Suc k \<le> unat n \<Longrightarrow> n - of_nat k \<noteq> 0" for n :: u32
proof -
  have "unat (of_nat k :: u32) \<le> k" by (simp add: unat_of_nat)
  then show "Suc k \<le> unat n \<Longrightarrow> n - of_nat k \<noteq> 0" by auto
qed

lemma timeouts_send_again:
  "unacknowledged env a pub n c \<Longrightarrow> k \<le> unat n \<Longrightarrow>
   unacknowledged env a pub (n - of_nat k) ((SendOp_timeoutInternal env a ^^ k) c) \<and>
   out ((SendOp_timeoutInternal env a ^^ k) c) = out c @ replicate k (Out_Send (PublishMsg_CL pub) 0)"
proof (induction k)
  case (Suc k)
  then have IH: "unacknowledged env a pub (n - of_nat k) ((SendOp_timeoutInternal env a ^^ k) c)"
    "out ((SendOp_timeoutInternal env a ^^ k) c) = out c @ replicate k (Out_Send (PublishMsg_CL pub) 0)" by simp_all
  have "n - of_nat k \<noteq> 0" using Suc.prems(2) by (rule retries_left)
  from timeout_sends_again [OF IH(1) this] show ?case
    using IH(2) by (simp add: replicate_append_same diff_diff_eq add.commute)
qed simp

lemma send_gone:
  assumes "ops_wf (view c)" "(Type_Send, a) \<notin> set (live (m_ops c))"
  shows "obj_at a (m_sendOps c) = None"
proof -
  have "map fst (objs Type_Send c) = addrs Type_Send (m_ops c)" using assms(1) unfolding ops_wf_def by (metis view_fields(1,2))
  moreover have "map fst (objs Type_Send c) = map fst (m_sendOps c)" by (simp add: split_beta)
  moreover have "a \<notin> set (addrs Type_Send (m_ops c))" using assms(2) by (force simp: addrs_def)
  ultimately have "a \<notin> set (map fst (m_sendOps c))" by metis
  then show ?thesis by (simp add: obj_at_def map_of_eq_None_iff)
qed

lemma timeout_gives_up:
  assumes "unacknowledged env a pub 0 c" "ops_wf (view c)"
  shows "last (out (SendOp_timeoutInternal env a c)) = Out_PublishComplete a St_Timeout None \<and>
    obj_at a (m_sendOps (SendOp_timeoutInternal env a c)) = None"
proof -
  obtain so where so: "obj_at a (m_sendOps c) = Some so" "ob_retryCount so = 0" "sn_cb so"
    using assms(1) by (auto simp: unacknowledged_def)
  then have d: "SendOp_timeoutInternal env a c = SendOp_completeOpInternal env St_Timeout None a c"
    by (simp add: SendOp_timeoutInternal_def on_obj_def)
  then have "last (out (SendOp_timeoutInternal env a c)) = Out_PublishComplete a St_Timeout None"
    using so by (simp add: SendOp_completeOpInternal_def SendOp_completeOpInternal_with_def on_obj_def Let_def cl_emit_def)
  moreover have "obj_at a (m_sendOps (SendOp_timeoutInternal env a c)) = None"
    using SendOp_completes [of a c env St_Timeout None] assms(2) unfolding d
    by (auto simp: completes_def keeps_def steady_def intro: send_gone)
  ultimately show ?thesis by blast
qed


lemma timeouts_keep: "keeps c ((SendOp_timeoutInternal env a ^^ k) c)"
  by (induction k) (simp_all add: keeps_view keep.after_Send(1))

text \<open>
  C11. A publication that nobody acknowledges is sent again once for each retry that is left, always
  with the flag of a duplicate, and then given up: the last thing that happens is the report of the
  timeout, and the operation is gone.
\<close>

theorem client_publication_given_up:
  assumes "client_reachable env c" "obj_at a (m_sendOps c) = Some so" "sn_stage so = Stage_Publish" "\<not> sn_suspended so"
    "sn_cb so" "sp_qos (sn_pub so) \<noteq> SN_AtMostOnceDelivery" "ob_retryCount so \<le> sn_origRetryCount so"
    "pub = (sn_pub so)\<lparr>sp_dup := True\<rparr>" "env_frameLen env (PublishMsg_CL pub) \<le> env_bufSize env"
    "n = unat (ob_retryCount so)" "step = SendOp_timeoutInternal env a"
  shows "out ((step ^^ n) c) = out c @ replicate n (Out_Send (PublishMsg_CL pub) 0) \<and>
    last (out ((step ^^ Suc n) c)) = Out_PublishComplete a St_Timeout None \<and>
    obj_at a (m_sendOps ((step ^^ Suc n) c)) = None"
proof -
  have "unacknowledged env a pub (ob_retryCount so) c" using assms by (simp add: unacknowledged_def)
  from timeouts_send_again [OF this, of n] assms(10,11)
  have rounds: "unacknowledged env a pub 0 ((step ^^ n) c)"
    "out ((step ^^ n) c) = out c @ replicate n (Out_Send (PublishMsg_CL pub) 0)" by simp_all
  have "ops_wf (view c)" using client_reachable_inv [OF assms(1)] by (simp add: client_inv_def)
  then have "ops_wf (view ((step ^^ n) c))" using timeouts_keep assms(11) unfolding keeps_def steady_def by blast
  from timeout_gives_up [OF rounds(1) this] rounds(2) assms(11) show ?thesis by simp
qed

section \<open>A publication with its registration\<close>

lemma lower_bound_insert: "lower_bound key (key x) (before_lower_bound key (key x) xs @ x # ys) = x # ys"
proof (induction xs)
  case (Cons y xs)
  then show ?case by (cases "key y < key x") (simp_all add: lower_bound_def before_lower_bound_def)
qed (simp add: lower_bound_def before_lower_bound_def)

lemma storeOutRegTopic_lookup:
  assumes "0 < m_outRegTopicsLimit st"
  shows "\<exists>regs x xs. storeOutRegTopic t topic topicId st = Some regs \<and>
    lower_bound rt_topic topic (m_outRegTopics regs) = x # xs \<and> rt_topic x = topic \<and> rt_topicId x = topicId"
proof (cases "lower_bound rt_topic topic (m_outRegTopics st) \<noteq> [] \<and> rt_topic (hd (lower_bound rt_topic topic (m_outRegTopics st))) = topic")
  case True
  then show ?thesis
    using lower_bound_insert [of rt_topic "(hd (lower_bound rt_topic topic (m_outRegTopics st)))\<lparr>rt_topicId := topicId, rt_timestamp := t\<rparr>"]
    by (auto simp: storeOutRegTopic_def Let_def)
next
  case False
  have "removeLeastRecentlyUsedRegTopicInfoIfNeeded (m_outRegTopics st) (m_outRegTopicsLimit st) \<noteq> None"
    using assms by (simp add: removeLeastRecentlyUsedRegTopicInfoIfNeeded_def)
  then obtain b topics where "removeLeastRecentlyUsedRegTopicInfoIfNeeded (m_outRegTopics st) (m_outRegTopicsLimit st) = Some (b, topics)"
    by auto
  then show ?thesis
    using False lower_bound_insert [of rt_topic "\<lparr>rt_timestamp = t, rt_topic = topic, rt_topicId = topicId\<rparr>" topics]
    by (auto simp: storeOutRegTopic_def Let_def)
qed

text \<open>REGACK: the id is remembered, and the publication is sent with it.\<close>

lemma regack_publishes:
  assumes so: "obj_at a (m_sendOps c) = Some so" "sn_stage so = Stage_Register" "\<not> sn_suspended so"
    and qos: "sp_qos (sn_pub so) \<noteq> SN_AtMostOnceDelivery" and valid: "isValidTopicId topicId"
    and limit: "0 < m_outRegTopicsLimit (m_regs c)" and pub: "pub = (sn_pub so)\<lparr>sp_topicId := topicId\<rparr>"
    and fits: "env_frameLen env (PublishMsg_CL pub) \<le> env_bufSize env"
    and d: "d = SendOp_handle_Regack env topicId (sn_regMsgId so) Accepted a c"
  shows "out d = out c @ [Out_Send (PublishMsg_CL pub) 0] \<and>
    (\<exists>x xs. lower_bound rt_topic (sn_regTopic so) (m_outRegTopics (m_regs d)) = x # xs \<and>
       rt_topic x = sn_regTopic so \<and> rt_topicId x = topicId) \<and>
    obj_at a (m_sendOps d) = Some (so\<lparr>sn_stage := Stage_Publish, sn_pub := pub, ob_retryCount := sn_origRetryCount so\<rparr>)"
proof -
  obtain fs where fs: "cl_assert ''handle_Regack: topicStr'' (sn_regTopic so \<noteq> []) c = c\<lparr>cl_faults := fs\<rparr>"
    using assert_faults by blast
  obtain regs x xs where regs: "storeOutRegTopic (m_timestamp c) (sn_regTopic so) topicId (m_regs c) = Some regs"
      "lower_bound rt_topic (sn_regTopic so) (m_outRegTopics regs) = x # xs" "rt_topic x = sn_regTopic so" "rt_topicId x = topicId"
    using storeOutRegTopic_lookup [OF limit] by blast
  define y where "y = so\<lparr>sn_stage := Stage_Publish, sn_pub := pub, ob_retryCount := sn_origRetryCount so\<rparr>"
  define e where "e = upd_send a (\<lambda>so. so\<lparr>sn_stage := Stage_Publish, sn_pub := (sn_pub so)\<lparr>sp_topicId := topicId\<rparr>,
      ob_retryCount := sn_origRetryCount so\<rparr>) (c\<lparr>cl_faults := fs, m_regs := regs\<rparr>)"
  have y: "obj_at a (m_sendOps e) = Some y" using so by (simp add: e_def y_def upd_send_def obj_at_update pub)
  moreover have "sn_stage y = Stage_Publish" "\<not> sn_suspended y" "sp_qos (sn_pub y) \<noteq> SN_AtMostOnceDelivery"
    "pub = (if ob_retryCount y < sn_origRetryCount y then (sn_pub y)\<lparr>sp_dup := True\<rparr> else sn_pub y)"
    using so qos by (simp_all add: y_def pub)
  ultimately obtain tm fs' where sent: "SendOp_sendInternal env a e = (Ec_Success, e\<lparr>m_sendOps :=
      obj_update a (\<lambda>so. so\<lparr>sn_pub := pub\<rparr>) (m_sendOps e), m_timerMgr := tm, cl_faults := fs',
      out := out e @ [Out_Send (PublishMsg_CL pub) 0]\<rparr>)"
    using sendInternal_Publish_sends [of a e y] fits by blast
  have "d = SendOp_sendOrComplete env a e"
    using so valid by (simp add: d SendOp_handle_Regack_def on_obj_def fs ClientImpl_storeOutRegTopic_def regs(1) e_def Let_def)
  then have "d = e\<lparr>m_sendOps := obj_update a (\<lambda>so. so\<lparr>sn_pub := pub\<rparr>) (m_sendOps e), m_timerMgr := tm, cl_faults := fs',
      out := out e @ [Out_Send (PublishMsg_CL pub) 0]\<rparr>"
    using sent by (simp add: SendOp_sendOrComplete_def)
  then have "obj_at a (m_sendOps d) = Some y" "m_regs d = m_regs e" "out d = out e @ [Out_Send (PublishMsg_CL pub) 0]"
    using y by (simp_all add: obj_at_update y_def)
  moreover have "m_regs e = regs" "out e = out c" by (simp_all add: e_def upd_send_def)
  ultimately show ?thesis using regs by (simp add: y_def)
qed

lemma puback_completes:
  assumes so: "obj_at a (m_sendOps c) = Some so" "sn_stage so = Stage_Publish" "\<not> sn_suspended so" "sn_cb so"
    and qos: "sp_qos (sn_pub so) = SN_AtLeastOnceDelivery" and wf: "ops_wf (view c)"
    and rc: "rc \<noteq> InvalidTopicId \<or> sp_topicIdType (sn_pub so) \<noteq> Normal \<or> sn_fullRetryRemCount so = 0"
    and d: "d = SendOp_handle_Puback env (sp_topicId (sn_pub so)) (sp_msgId (sn_pub so)) rc a c"
  shows "last (out d) = Out_PublishComplete a St_Complete (Some rc) \<and> obj_at a (m_sendOps d) = None"
proof -
  have d': "d = SendOp_completeOpInternal env St_Complete (Some rc) a c"
    using so qos rc by (auto simp: d SendOp_handle_Puback_def on_obj_def)
  then have "last (out d) = Out_PublishComplete a St_Complete (Some rc)"
    using so by (simp add: SendOp_completeOpInternal_def SendOp_completeOpInternal_with_def on_obj_def Let_def cl_emit_def)
  moreover have "obj_at a (m_sendOps d) = None"
    using SendOp_completes [of a c env St_Complete "Some rc"] wf unfolding d'
    by (auto simp: completes_def keeps_def steady_def intro: send_gone)
  ultimately show ?thesis by blast
qed

lemma allocPacketId_effect:
  "m_sendOps (snd (ClientImpl_allocPacketId env c)) = m_sendOps c" "out (snd (ClientImpl_allocPacketId env c)) = out c"
  by (simp_all add: ClientImpl_allocPacketId_def cl_fault_def split_beta split: option.split)

text \<open>New packet ids change the operation in its ids only.\<close>

lemma allocPacketIds_effect:
  assumes "obj_at a (m_sendOps c) = Some so" "sn_stage so = Stage_Register" "sp_qos (sn_pub so) \<noteq> SN_AtMostOnceDelivery"
  shows "\<exists>i j. obj_at a (m_sendOps (SendOp_allocPacketIdsInternal env a c)) =
      Some (so\<lparr>sn_regMsgId := i, sn_pub := (sn_pub so)\<lparr>sp_msgId := j\<rparr>\<rparr>) \<and>
    out (SendOp_allocPacketIdsInternal env a c) = out c"
proof -
  obtain i c1 where c1: "ClientImpl_allocPacketId env c = (i, c1)" by fastforce
  define c2 where "c2 = upd_send a (\<lambda>so. so\<lparr>sn_regMsgId := i\<rparr>) c1"
  obtain j c3 where c3: "ClientImpl_allocPacketId env c2 = (j, c3)" by fastforce
  have "m_sendOps c1 = m_sendOps c" "out c1 = out c" "m_sendOps c3 = m_sendOps c2" "out c3 = out c2"
    using allocPacketId_effect [of env c] allocPacketId_effect [of env c2] c1 c3 by simp_all
  then have "obj_at a (m_sendOps c3) = Some (so\<lparr>sn_regMsgId := i\<rparr>)" "out c3 = out c"
    using assms(1) by (simp_all add: c2_def upd_send_def obj_at_update)
  moreover have "SendOp_allocPacketIdsInternal env a c = upd_send a (\<lambda>so. so\<lparr>sn_pub := (sn_pub so)\<lparr>sp_msgId := j\<rparr>\<rparr>) c3"
    using assms c1 c3 by (simp add: SendOp_allocPacketIdsInternal_def on_obj_def c2_def Let_def)
  ultimately show ?thesis by (auto simp: upd_send_def obj_at_update)
qed

text \<open>PUBACK with the answer that the topic id is invalid: the topic is registered again.\<close>

lemma puback_registers:
  assumes so: "obj_at a (m_sendOps c) = Some so" "sn_stage so = Stage_Publish" "\<not> sn_suspended so"
    and qos: "sp_qos (sn_pub so) = SN_AtLeastOnceDelivery" and normal: "sp_topicIdType (sn_pub so) = Normal"
    and rem: "sn_fullRetryRemCount so \<noteq> 0"
    and fits: "\<forall>i. env_frameLen env (RegisterMsg_CL 0 i (sn_regTopic so)) \<le> env_bufSize env"
    and d: "d = SendOp_handle_Puback env (sp_topicId (sn_pub so)) (sp_msgId (sn_pub so)) InvalidTopicId a c"
  shows "\<exists>x. obj_at a (m_sendOps d) = Some x \<and> sn_stage x = Stage_Register \<and> sn_cb x = sn_cb so \<and>
    sn_regTopic x = sn_regTopic so \<and> sn_fullRetryRemCount x = sn_fullRetryRemCount so - 1 \<and>
    out d = out c @ [Out_Send (RegisterMsg_CL 0 (sn_regMsgId x) (sn_regTopic so)) 0]"
proof -
  define y where "y = so\<lparr>sn_fullRetryRemCount := sn_fullRetryRemCount so - 1, sn_stage := Stage_Register,
      sn_pub := (sn_pub so)\<lparr>sp_dup := False\<rparr>\<rparr>"
  define c1 where "c1 = SendOp_releasePacketIdsInternal so (upd_send a (\<lambda>so. so\<lparr>sn_fullRetryRemCount :=
      sn_fullRetryRemCount so - 1, sn_stage := Stage_Register, sn_pub := (sn_pub so)\<lparr>sp_dup := False\<rparr>\<rparr>) c)"
  have c1: "obj_at a (m_sendOps c1) = Some y" "out c1 = out c"
    using so by (simp_all add: c1_def y_def upd_send_def obj_at_update SendOp_releasePacketIdsInternal_def
        ClientImpl_releasePacketId_def)
  define c2 where "c2 = SendOp_allocPacketIdsInternal env a c1"
  obtain i j where c2: "obj_at a (m_sendOps c2) = Some (y\<lparr>sn_regMsgId := i, sn_pub := (sn_pub y)\<lparr>sp_msgId := j\<rparr>\<rparr>)"
      "out c2 = out c"
    using allocPacketIds_effect [OF c1(1), of env] qos c1(2) unfolding c2_def by (auto simp: y_def)
  define c3 where "c3 = upd_send a (\<lambda>so. so\<lparr>ob_retryCount := sn_origRetryCount so\<rparr>) c2"
  define x where "x = y\<lparr>sn_regMsgId := i, sn_pub := (sn_pub y)\<lparr>sp_msgId := j\<rparr>, ob_retryCount := sn_origRetryCount so\<rparr>"
  have c3: "obj_at a (m_sendOps c3) = Some x" "out c3 = out c"
    using c2 by (simp_all add: c3_def x_def y_def upd_send_def obj_at_update)
  have "env_frameLen env (RegisterMsg_CL 0 i (sn_regTopic so)) \<le> env_bufSize env" using fits by blast
  then obtain tm fs where sent: "ClientImpl_sendMessage env (RegisterMsg_CL 0 i (sn_regTopic so)) 0 c3 =
      (Ec_Success, c3\<lparr>m_timerMgr := tm, cl_faults := fs, out := out c3 @ [Out_Send (RegisterMsg_CL 0 i (sn_regTopic so)) 0]\<rparr>)"
    using sendMessage_fits by blast
  have x: "sn_stage x = Stage_Register" "\<not> sn_suspended x" "sn_regMsgId x = i" "sn_regTopic x = sn_regTopic so"
    using so by (simp_all add: x_def y_def)
  then have "SendOp_sendInternal env a c3 = (Ec_Success, SendOp_restartTimer a x
      (c3\<lparr>m_timerMgr := tm, cl_faults := fs, out := out c3 @ [Out_Send (RegisterMsg_CL 0 i (sn_regTopic so)) 0]\<rparr>))"
    using c3(1) sent by (simp add: SendOp_sendInternal_def SendOp_sendInternal_with_def on_obj_ec_def
        SendOp_sendInternal_Register_def)
  moreover have "d = snd (SendOp_sendInternal env a c3)" if "fst (SendOp_sendInternal env a c3) = Ec_Success"
    using so qos normal rem that
    by (simp add: d SendOp_handle_Puback_def on_obj_def c1_def [symmetric] c2_def [symmetric] c3_def [symmetric] Let_def split_beta)
  ultimately have "obj_at a (m_sendOps d) = Some x" "out d = out c @ [Out_Send (RegisterMsg_CL 0 i (sn_regTopic so)) 0]"
    using c3 by (simp_all add: SendOp_restartTimer_def timer_wait_def)
  then show ?thesis using x by (auto simp: x_def y_def)
qed

text \<open>
  C10. A publication with quality of service 1 on a topic without an id. REGACK makes the client remember
  the id of the topic and send the publication with it. PUBACK completes the operation with the answer of the
  gateway, whether it is positive or not, with one exception: when the gateway does not know the
  topic id and a full retry is left, the client registers the topic again, with one full retry less, and
  reports nothing. The messages fit the buffer and the allocation of packet ids returns.
\<close>

theorem client_publish_handshake:
  assumes "client_reachable env c" "obj_at a (m_sendOps c) = Some so" "sn_stage so = Stage_Register" "\<not> sn_suspended so"
    "sn_cb so" "sp_qos (sn_pub so) = SN_AtLeastOnceDelivery" "isValidTopicId topicId" "0 < m_outRegTopicsLimit (m_regs c)"
    "pub = (sn_pub so)\<lparr>sp_topicId := topicId\<rparr>" "env_frameLen env (PublishMsg_CL pub) \<le> env_bufSize env"
    "\<forall>i. env_frameLen env (RegisterMsg_CL 0 i (sn_regTopic so)) \<le> env_bufSize env"
    "d = SendOp_handle_Regack env topicId (sn_regMsgId so) Accepted a c"
    "e = SendOp_handle_Puback env topicId (sp_msgId (sn_pub so)) rc a d" "defined_run e"
  shows "out d = out c @ [Out_Send (PublishMsg_CL pub) 0] \<and>
    (\<exists>x xs. lower_bound rt_topic (sn_regTopic so) (m_outRegTopics (m_regs d)) = x # xs \<and>
       rt_topic x = sn_regTopic so \<and> rt_topicId x = topicId) \<and>
    (if rc = InvalidTopicId \<and> sp_topicIdType (sn_pub so) = Normal \<and> sn_fullRetryRemCount so \<noteq> 0
     then \<exists>x. obj_at a (m_sendOps e) = Some x \<and> sn_stage x = Stage_Register \<and> sn_cb x \<and>
       sn_fullRetryRemCount x = sn_fullRetryRemCount so - 1 \<and>
       out e = out d @ [Out_Send (RegisterMsg_CL 0 (sn_regMsgId x) (sn_regTopic so)) 0]
     else last (out e) = Out_PublishComplete a St_Complete (Some rc) \<and> obj_at a (m_sendOps e) = None)"
proof -
  define y where "y = so\<lparr>sn_stage := Stage_Publish, sn_pub := pub, ob_retryCount := sn_origRetryCount so\<rparr>"
  have d: "out d = out c @ [Out_Send (PublishMsg_CL pub) 0]"
    "\<exists>x xs. lower_bound rt_topic (sn_regTopic so) (m_outRegTopics (m_regs d)) = x # xs \<and>
       rt_topic x = sn_regTopic so \<and> rt_topicId x = topicId" "obj_at a (m_sendOps d) = Some y"
    using regack_publishes [OF assms(2,3,4) _ assms(7,8,9,10,12)] assms(6) by (auto simp: y_def)
  have y: "sn_stage y = Stage_Publish" "\<not> sn_suspended y" "sn_cb y" "sp_qos (sn_pub y) = SN_AtLeastOnceDelivery"
    "sp_topicIdType (sn_pub y) = sp_topicIdType (sn_pub so)" "sn_fullRetryRemCount y = sn_fullRetryRemCount so"
    "sn_regTopic y = sn_regTopic so" "e = SendOp_handle_Puback env (sp_topicId (sn_pub y)) (sp_msgId (sn_pub y)) rc a d"
    using assms by (simp_all add: y_def)
  show ?thesis
  proof (cases "rc = InvalidTopicId \<and> sp_topicIdType (sn_pub so) = Normal \<and> sn_fullRetryRemCount so \<noteq> 0")
    case True
    then have normal: "sp_topicIdType (sn_pub y) = Normal" "sn_fullRetryRemCount y \<noteq> 0"
      "e = SendOp_handle_Puback env (sp_topicId (sn_pub y)) (sp_msgId (sn_pub y)) InvalidTopicId a d" using y by simp_all
    from puback_registers [OF d(3) y(1,2,4) normal(1,2) _ normal(3)] show ?thesis using True d(1,2) y(3,6,7) assms(11) by auto
  next
    case False
    have "ops_wf (view c)" using client_reachable_inv [OF assms(1)] by (simp add: client_inv_def)
    moreover have "keeps c d" unfolding assms(12) by (rule keep.after_Send(2)) (simp add: keeps_view)
    ultimately have "ops_wf (view d)" unfolding keeps_def steady_def by blast
    from puback_completes [OF d(3) y(1-4) this _ y(8)] False d(1,2) y(5,6) show ?thesis by auto
  qed
qed

section \<open>A gateway that stays silent\<close>

text \<open>The timer that waits for PINGRESP has run out, and its callback is called.\<close>

definition ping_timeout :: "cl_env \<Rightarrow> nat \<Rightarrow> u32 \<Rightarrow> client \<Rightarrow> client" where
  "ping_timeout env k t c = KeepAliveOp_pingTimeoutInternal env k (timer_cancel t c)"

lemma timer_active_cancel: "\<not> timer_active t (timer_cancel t c)"
  by (auto simp: timer_active_def timer_cancel_def timerIsActive_def timerCancel_def tm_assert_def set_timer_def timer_at_def
      Let_def)

text \<open>A keep alive operation with the retries it has left, and the ping it sends.\<close>

definition pinging :: "cl_env \<Rightarrow> nat \<Rightarrow> u32 \<Rightarrow> string \<Rightarrow> u32 \<Rightarrow> client \<Rightarrow> bool" where
  "pinging env k t cid n c \<longleftrightarrow> (\<exists>ko. obj_at k (m_keepAliveOps c) = Some ko \<and> ko_respTimer ko = t \<and> ob_retryCount ko = n) \<and>
     cid = (if se_connectionStatus (m_sessionState c) = Asleep then se_clientId (m_sessionState c) else []) \<and>
     env_frameLen env (PingreqMsg_CL cid) \<le> env_bufSize env"

lemma ping_timeout_pings:
  assumes "pinging env k t cid n c" "n \<noteq> 0"
  shows "pinging env k t cid (n - 1) (ping_timeout env k t c) \<and>
    out (ping_timeout env k t c) = out c @ [Out_Send (PingreqMsg_CL cid) 0]"
proof -
  obtain ko where ko: "obj_at k (m_keepAliveOps c) = Some ko" "ko_respTimer ko = t" "ob_retryCount ko = n"
    and cid: "cid = (if se_connectionStatus (m_sessionState c) = Asleep then se_clientId (m_sessionState c) else [])"
    and fits: "env_frameLen env (PingreqMsg_CL cid) \<le> env_bufSize env"
    using assms(1) by (auto simp: pinging_def)
  define d where "d = upd_keepalive k (\<lambda>ko. ko\<lparr>ob_retryCount := ob_retryCount ko - 1\<rparr>) (timer_cancel t c)"
  have d: "obj_at k (m_keepAliveOps d) = Some (ko\<lparr>ob_retryCount := n - 1\<rparr>)" "m_sessionState d = m_sessionState c"
      "out d = out c" "\<not> timer_active t d"
    using ko timer_active_cancel [of t c] by (simp_all add: d_def upd_keepalive_def timer_cancel_def obj_at_update timer_active_def)
  obtain tm fs where sent: "ClientImpl_sendMessage env (PingreqMsg_CL cid) 0 d =
      (Ec_Success, d\<lparr>m_timerMgr := tm, cl_faults := fs, out := out d @ [Out_Send (PingreqMsg_CL cid) 0]\<rparr>)"
    using sendMessage_fits [OF fits] by blast
  have "ping_timeout env k t c = KeepAliveOp_sendPing env k d"
    using ko assms(2) timer_active_cancel [of t c]
    by (simp add: ping_timeout_def KeepAliveOp_pingTimeoutInternal_def on_obj_def timer_cancel_def cl_assert_def d_def Let_def)
  moreover have "KeepAliveOp_sendPing env k d = KeepAliveOp_restartRespTimer k (ko\<lparr>ob_retryCount := n - 1\<rparr>)
      (d\<lparr>m_timerMgr := tm, cl_faults := fs, out := out d @ [Out_Send (PingreqMsg_CL cid) 0]\<rparr>)"
    using d ko(2) sent cid by (cases "se_connectionStatus (m_sessionState c) = Asleep") (simp_all add: KeepAliveOp_sendPing_def on_obj_def Let_def)
  ultimately show ?thesis
    using d ko(2) cid fits by (auto simp: pinging_def KeepAliveOp_restartRespTimer_def timer_wait_def)
qed

lemma ping_timeouts_ping:
  "pinging env k t cid n c \<Longrightarrow> j \<le> unat n \<Longrightarrow> pinging env k t cid (n - of_nat j) ((ping_timeout env k t ^^ j) c) \<and>
   out ((ping_timeout env k t ^^ j) c) = out c @ replicate j (Out_Send (PingreqMsg_CL cid) 0)"
proof (induction j)
  case (Suc j)
  then have IH: "pinging env k t cid (n - of_nat j) ((ping_timeout env k t ^^ j) c)"
    "out ((ping_timeout env k t ^^ j) c) = out c @ replicate j (Out_Send (PingreqMsg_CL cid) 0)" by simp_all
  have "n - of_nat j \<noteq> 0" using Suc.prems(2) by (rule retries_left)
  from ping_timeout_pings [OF IH(1) this] show ?case
    using IH(2) by (simp add: replicate_append_same diff_diff_eq add.commute)
qed simp

lemma ping_timeouts_keep: "keeps c ((ping_timeout env k t ^^ j) c)"
  by (induction j) (simp_all add: ping_timeout_def keeps_view keep.after_KeepAlive_timeout keep.after_views)

text \<open>
  C12. A gateway that does not answer is given up: for every retry that is left the client sends one more
  PINGREQ, which carries its id when it sleeps, and then it destroys all operations and reports the
  disconnection as the last thing it does.
\<close>

theorem client_silent_gateway_given_up:
  assumes "client_reachable env c" "obj_at k (m_keepAliveOps c) = Some ko"
    "cid = (if se_connectionStatus (m_sessionState c) = Asleep then se_clientId (m_sessionState c) else [])"
    "env_frameLen env (PingreqMsg_CL cid) \<le> env_bufSize env" "n = unat (ob_retryCount ko)"
    "step = (\<lambda>c. KeepAliveOp_pingTimeoutInternal env k (timer_cancel (ko_respTimer ko) c))"
  shows "out ((step ^^ n) c) = out c @ replicate n (Out_Send (PingreqMsg_CL cid) 0) \<and>
    last (out ((step ^^ Suc n) c)) = Out_GatewayDisconnected Reason_NoGatewayResponse \<and>
    (\<forall>ty. objs ty ((step ^^ Suc n) c) = [])"
proof -
  have step: "step = ping_timeout env k (ko_respTimer ko)" by (simp add: assms(6) ping_timeout_def fun_eq_iff)
  have "pinging env k (ko_respTimer ko) cid (ob_retryCount ko) c" using assms by (simp add: pinging_def)
  from ping_timeouts_ping [OF this, of n] assms(5)
  have rounds: "pinging env k (ko_respTimer ko) cid 0 ((step ^^ n) c)"
    "out ((step ^^ n) c) = out c @ replicate n (Out_Send (PingreqMsg_CL cid) 0)" by (simp_all add: step)
  have "ops_wf (view c)" using client_reachable_inv [OF assms(1)] by (simp add: client_inv_def)
  then have wf: "ops_wf (view ((step ^^ n) c))" using ping_timeouts_keep step unfolding keeps_def steady_def by blast
  define d where "d = timer_cancel (ko_respTimer ko) ((step ^^ n) c)"
  have "ops_wf (view d)" using wf by (simp add: d_def view_simps)
  moreover have last: "step ((step ^^ n) c) = ClientImpl_gatewayDisconnected env (Some Reason_NoGatewayResponse) St_GatewayDisconnected d"
    using rounds(1) timer_active_cancel [of "ko_respTimer ko" "(step ^^ n) c"]
    by (auto simp: pinging_def assms(6) KeepAliveOp_pingTimeoutInternal_def on_obj_def timer_cancel_def cl_assert_def d_def Let_def)
  ultimately have "\<forall>ty. objs ty (step ((step ^^ n) c)) = []"
    using gatewayDisconnected_clears [of d env "Some Reason_NoGatewayResponse" St_GatewayDisconnected] by simp
  moreover have "last (out (step ((step ^^ n) c))) = Out_GatewayDisconnected Reason_NoGatewayResponse"
    unfolding last by (simp add: ClientImpl_gatewayDisconnected_def cl_emit_def Let_def)
  ultimately show ?thesis using rounds(2) by simp
qed

section \<open>Unsubscribing\<close>

text \<open>
  C19. A subscription is not forgotten: what the client does with the filters when it unsubscribes from a
  topic leaves a filter that is present as it is, and when the topic has no filter, the filter that
  comes behind its place is removed instead.
\<close>

theorem unsubscribe_keeps_filter:
  "subFilters_remove (Some t) i (subFilters_add (Some t) j fs) = subFilters_add (Some t) j fs \<and>
   (\<forall>xs u ys. (\<forall>x \<in> set xs. sf_topic x < t) \<and> t < sf_topic u \<longrightarrow>
      subFilters_remove (Some t) i (xs @ u # ys) = xs @ ys)"
proof -
  have "subFilters_remove (Some t) i (subFilters_add (Some t) j fs) = subFilters_add (Some t) j fs"
  proof (cases "lower_bound sf_topic t fs = [] \<or> sf_topic (hd (lower_bound sf_topic t fs)) \<noteq> t")
    case True
    then show ?thesis
      using lower_bound_insert [of sf_topic "\<lparr>sf_topic = t, sf_topicId = 0\<rparr>" fs "lower_bound sf_topic t fs"]
      by (simp add: subFilters_remove_def subFilters_add_def Let_def)
  qed (simp add: subFilters_remove_def subFilters_add_def Let_def)
  moreover have "subFilters_remove (Some t) i (xs @ u # ys) = xs @ ys"
    if "\<forall>x \<in> set xs. sf_topic x < t" "t < sf_topic u" for xs u ys
  proof -
    have "lower_bound sf_topic t (xs @ u # ys) = u # ys" "before_lower_bound sf_topic t (xs @ u # ys) = xs"
      using that by (simp_all add: lower_bound_def before_lower_bound_def dropWhile_append3 takeWhile_append order_less_not_sym)
    then show ?thesis using that(2) by (simp add: subFilters_remove_def Let_def)
  qed
  ultimately show ?thesis by blast
qed

section \<open>Receiving a publication again\<close>

text \<open>The reports of publications with quality of service 2.\<close>

fun is_received2 :: "cl_out \<Rightarrow> bool" where
  "is_received2 (Out_MessageReceived _ _ _ qos _) = (qos = SN_ExactlyOnceDelivery)"
| "is_received2 _ = False"

text \<open>What the reception of publications depends on and changes.\<close>

definition reception :: "client \<Rightarrow> cl_session_state \<times> u16 \<times> cl_out list" where
  "reception c = (m_sessionState c, m_lastRecvMsgId c, filter is_received2 (out c))"

lemma reception_upd [simp]:
  "reception (c\<lparr>m_timerMgr := tm\<rparr>) = reception c" "reception (c\<lparr>cl_faults := fs\<rparr>) = reception c"
  "reception (c\<lparr>m_regs := rs\<rparr>) = reception c" "reception (cl_fault f c) = reception c" "reception (cl_assert s b c) = reception c"
  by (simp_all add: reception_def cl_fault_def cl_assert_def)

lemma reception_sendMessage: "reception (snd (ClientImpl_sendMessage env msg r c)) = reception c"
proof (cases "env_frameLen env msg \<le> env_bufSize env")
  case True
  then obtain tm fs where "ClientImpl_sendMessage env msg r c =
      (Ec_Success, c\<lparr>m_timerMgr := tm, cl_faults := fs, out := out c @ [Out_Send msg r]\<rparr>)"
    using sendMessage_fits by blast
  then show ?thesis by (simp add: reception_def)
qed (simp add: ClientImpl_sendMessage_def)

text \<open>The client without its timers and recorded faults: what the keep alive operations do not touch.\<close>

definition still :: "client \<Rightarrow> client" where
  "still c = c\<lparr>m_timerMgr := TimerMgr_init, cl_faults := []\<rparr>"

lemma still_upd [simp]: "still (c\<lparr>m_timerMgr := tm\<rparr>) = still c" "still (c\<lparr>cl_faults := fs\<rparr>) = still c"
  by (simp_all add: still_def)

lemma still_dispatch_keepAlive: "still (dispatch_keepAlive env (PublishMsg_CL pub) c) = still c"
proof -
  have "still (Op_handle env (PublishMsg_CL pub) (Type_KeepAlive, a) c) = still c" for a c
    by (simp add: Op_handle_def KeepAliveOp_handle_ProtMessage_def on_obj_def KeepAliveOp_restartRespTimer_def
        KeepAliveOp_restartRecvTimer_def timer_wait_def cl_fault_def Let_def split: option.split)
  then have "still (fold (\<lambda>(a, _). Op_handle env (PublishMsg_CL pub) (Type_KeepAlive, a)) ks c) = still c"
    for ks :: "(nat \<times> keepalive_op) list"
    by (induction ks arbitrary: c) (simp_all add: split_beta)
  then show ?thesis by (simp add: dispatch_keepAlive_def)
qed

lemma still_fields:
  assumes "still d = still c"
  shows "reception d = reception c" "m_regs d = m_regs c" "m_subFilters d = m_subFilters c" "m_configState d = m_configState c"
proof -
  have "reception (still c) = reception c" "m_regs (still c) = m_regs c" "m_subFilters (still c) = m_subFilters c"
    "m_configState (still c) = m_configState c" for c
    by (simp_all add: still_def)
  then show "reception d = reception c" "m_regs d = m_regs c" "m_subFilters d = m_subFilters c" "m_configState d = m_configState c"
    using assms by metis+
qed

text \<open>The lookup of the topic and the check of the subscription.\<close>

lemma publish_topic_effect:
  "reception (snd (publish_topic pub c)) = reception c" "m_subFilters (snd (publish_topic pub c)) = m_subFilters c"
  "m_configState (snd (publish_topic pub c)) = m_configState c"
  by (simp_all add: publish_topic_def ClientImpl_storeInRegTopic_def cl_fault_def cl_assert_def reception_def
      split: option.split topic_id_type.split)

lemma publish_topic_regs: "m_regs d = m_regs c \<Longrightarrow> fst (publish_topic pub d) = fst (publish_topic pub c)"
  by (simp add: publish_topic_def split: option.split topic_id_type.split)

lemma reception_publish_subscribed: "reception (snd (publish_subscribed pub t c)) = reception c"
proof -
  have "reception (snd (find_matching_filter fs t c)) = reception c" for fs
    by (induction fs arbitrary: c) (auto split: option.split bool.split)
  then show ?thesis by (simp add: publish_subscribed_def)
qed

lemma publish_subscribed_filters:
  "m_subFilters d = m_subFilters c \<Longrightarrow> m_configState d = m_configState c \<Longrightarrow>
   fst (publish_subscribed pub t d) = fst (publish_subscribed pub t c)"
proof -
  have "fst (find_matching_filter fs t d) = fst (find_matching_filter fs t c)" for fs c d
    by (induction fs arbitrary: c d) (auto split: option.split bool.split)
  then show "m_subFilters d = m_subFilters c \<Longrightarrow> m_configState d = m_configState c \<Longrightarrow>
      fst (publish_subscribed pub t d) = fst (publish_subscribed pub t c)"
    by (simp add: publish_subscribed_def)
qed

text \<open>A publication with quality of service 2 whose id is the one that waits for PUBREL is not reported.\<close>

lemma publish_again:
  assumes "m_lastRecvMsgId c = sp_msgId pub" "sp_msgId pub \<noteq> 0" "sp_qos pub = SN_ExactlyOnceDelivery"
  shows "reception (ClientImpl_handle_Publish env pub c) = reception c"
proof -
  define d where "d = dispatch_keepAlive env (PublishMsg_CL pub) c"
  have d: "reception d = reception c" using still_fields [OF still_dispatch_keepAlive] by (simp add: d_def)
  have topic: "reception (snd (publish_topic pub d)) = reception c" using d by (simp add: publish_topic_effect)
  have sub: "reception (snd (publish_subscribed pub t (snd (publish_topic pub d)))) = reception c" for t
    using topic by (simp add: reception_publish_subscribed)
  then have "m_lastRecvMsgId (snd (publish_subscribed pub t (snd (publish_topic pub d)))) = sp_msgId pub" for t
    using assms(1) by (simp add: reception_def)
  then have "reception (publish_qos2 env pub t (snd (publish_subscribed pub t (snd (publish_topic pub d))))) = reception c" for t
    using sub assms(2) by (simp add: publish_qos2_def send_pubrec_def reception_sendMessage)
  then show ?thesis
    using assms(3) topic sub
    by (simp add: ClientImpl_handle_Publish_def d_def [symmetric] Let_def split_beta send_puback_def reception_sendMessage
        split: option.split)
qed

lemma publish_first:
  assumes "from_gateway c" "m_lastRecvMsgId c \<noteq> sp_msgId pub" "sp_qos pub = SN_ExactlyOnceDelivery"
    "fst (publish_topic pub c) = Some topic" "fst (publish_subscribed pub topic c)"
  shows "reception (ClientImpl_handle_Publish env pub c) = (m_sessionState c, sp_msgId pub, filter is_received2 (out c) @
    [Out_MessageReceived (c_str topic) (if topic = [] then sp_topicId pub else 0) (sp_data pub) (sp_qos pub) (sp_retain pub)])"
proof -
  define d where "d = dispatch_keepAlive env (PublishMsg_CL pub) c"
  note d = still_fields [OF still_dispatch_keepAlive, of env pub c, folded d_def]
  define e where "e = snd (publish_subscribed pub topic (snd (publish_topic pub d)))"
  have topic: "fst (publish_topic pub d) = Some topic" using publish_topic_regs [OF d(2)] assms(4) by simp
  have sub: "fst (publish_subscribed pub topic (snd (publish_topic pub d)))"
    using publish_subscribed_filters [of "snd (publish_topic pub d)" c pub topic] d(3,4) assms(5) by (simp add: publish_topic_effect)
  have e: "reception e = reception c" using d(1) by (simp add: e_def reception_publish_subscribed publish_topic_effect)
  define f where "f = send_pubrec env pub (e\<lparr>m_lastRecvMsgId := sp_msgId pub\<rparr>)"
  have f: "reception f = (m_sessionState c, sp_msgId pub, filter is_received2 (out c))"
    using e by (simp add: f_def send_pubrec_def reception_sendMessage) (simp add: reception_def)
  obtain t1 where t1: "publish_topic pub d = (Some topic, t1)" using topic by (metis prod.collapse)
  then have "publish_subscribed pub topic t1 = (True, e)" using sub by (metis e_def prod.collapse snd_conv)
  with t1 have "ClientImpl_handle_Publish env pub c = publish_qos2 env pub topic e"
    using assms(1,3) by (simp add: ClientImpl_handle_Publish_def d_def)
  also have "\<dots> = report_publish pub topic f"
    using e assms(2) by (simp add: publish_qos2_def f_def reception_def)
  also have "reception \<dots> = (m_sessionState c, sp_msgId pub, filter is_received2 (out c) @
    [Out_MessageReceived (c_str topic) (if topic = [] then sp_topicId pub else 0) (sp_data pub) (sp_qos pub) (sp_retain pub)])"
    using f assms(3) by (simp add: report_publish_def cl_emit_def reception_def cl_assert_def cl_fault_def)
  finally show ?thesis .
qed

text \<open>A publication with quality of service 0 leaves this alone.\<close>

lemma publish_qos0:
  assumes "sp_qos pub = SN_AtMostOnceDelivery"
  shows "reception (ClientImpl_handle_Publish env pub c) = reception c"
proof -
  define d where "d = dispatch_keepAlive env (PublishMsg_CL pub) c"
  have d: "reception d = reception c" using still_fields [OF still_dispatch_keepAlive] by (simp add: d_def)
  have report: "reception (report_publish pub t e) = reception e" for t e
    using assms by (simp add: report_publish_def cl_emit_def reception_def cl_assert_def cl_fault_def)
  show ?thesis using assms d
    by (simp add: ClientImpl_handle_Publish_def d_def [symmetric] report Let_def split_beta send_puback_def
        reception_sendMessage reception_publish_subscribed publish_topic_effect split: option.split)
qed

text \<open>
  C9. A publication with quality of service 2 is reported once, however often the gateway repeats it before
  it releases it, and whatever publications with quality of service 0 arrive in between: of the first
  reception and all repetitions the application sees one message, with topic, data and flags of the
  publication, and PUBREL frees its id. Publications with another quality of service or id are not among those that
  may come in between: they make the client forget the id.
\<close>

theorem client_qos2_reported_once:
  assumes "from_gateway c" "sp_qos pub = SN_ExactlyOnceDelivery" "sp_msgId pub \<noteq> 0" "m_lastRecvMsgId c \<noteq> sp_msgId pub"
    "fst (publish_topic pub c) = Some topic" "fst (publish_subscribed pub topic c)"
    "\<forall>p \<in> set later. sp_qos p = SN_ExactlyOnceDelivery \<and> sp_msgId p = sp_msgId pub \<or> sp_qos p = SN_AtMostOnceDelivery"
    "d = fold (ClientImpl_handle_Publish env) (pub # later) c"
  shows "filter is_received2 (out d) = filter is_received2 (out c) @
      [Out_MessageReceived (c_str topic) (if topic = [] then sp_topicId pub else 0) (sp_data pub) (sp_qos pub) (sp_retain pub)] \<and>
    m_lastRecvMsgId (ClientImpl_handle_Pubrel env (sp_msgId pub) d) = 0"
proof -
  have later: "m_lastRecvMsgId e = sp_msgId pub \<Longrightarrow> set ps \<subseteq> set later \<Longrightarrow>
      reception (fold (ClientImpl_handle_Publish env) ps e) = reception e" for ps e
  proof (induction ps arbitrary: e)
    case (Cons p ps)
    have "reception (ClientImpl_handle_Publish env p e) = reception e"
      using publish_again [of e p env] publish_qos0 [of p env e] Cons.prems assms(3,7) by auto
    then show ?case using Cons.IH [of "ClientImpl_handle_Publish env p e"] Cons.prems by (simp add: reception_def)
  qed simp
  note first = publish_first [OF assms(1,4,2,5,6), of env]
  have d: "reception d = reception (ClientImpl_handle_Publish env pub c)"
    using later first assms(8) by (simp add: reception_def)
  then have "from_gateway d" "m_lastRecvMsgId d = sp_msgId pub" using first assms(1) by (simp_all add: reception_def from_gateway_def)
  then have "m_lastRecvMsgId (ClientImpl_handle_Pubrel env (sp_msgId pub) d) = 0"
    using reception_sendMessage [of env "PubcompMsg_CL (sp_msgId pub)" 0 "d\<lparr>m_lastRecvMsgId := 0\<rparr>"]
    by (simp add: ClientImpl_handle_Pubrel_def Let_def reception_def)
  then show ?thesis using d first by (simp add: reception_def)
qed

text \<open>A publication with quality of service 1 in between makes the client forget the id, so that a
  repetition is reported a second time.\<close>

lemma publish_qos1_forgets:
  assumes "from_gateway c" "sp_qos pub = SN_AtLeastOnceDelivery" "fst (publish_topic pub c) = Some topic"
    "fst (publish_subscribed pub topic c)"
  shows "m_lastRecvMsgId (ClientImpl_handle_Publish env pub c) = 0"
proof -
  define d where "d = dispatch_keepAlive env (PublishMsg_CL pub) c"
  note d = still_fields [OF still_dispatch_keepAlive, of env pub c, folded d_def]
  obtain t1 where t1: "publish_topic pub d = (Some topic, t1)" using publish_topic_regs [OF d(2)] assms(3) by (metis prod.collapse)
  then have "m_subFilters t1 = m_subFilters c" "m_configState t1 = m_configState c"
    using publish_topic_effect(2,3) [of pub d] d(3,4) by simp_all
  then obtain e where "publish_subscribed pub topic t1 = (True, e)"
    using publish_subscribed_filters [of t1 c pub topic] assms(4) by (metis prod.collapse)
  then have "ClientImpl_handle_Publish env pub c = report_publish pub topic (send_puback env pub Accepted (e\<lparr>m_lastRecvMsgId := 0\<rparr>))"
    using assms(1,2) t1 by (simp add: ClientImpl_handle_Publish_def d_def)
  moreover have "reception (send_puback env pub Accepted (e\<lparr>m_lastRecvMsgId := 0\<rparr>)) = reception (e\<lparr>m_lastRecvMsgId := 0\<rparr>)"
    by (simp add: send_puback_def reception_sendMessage)
  ultimately show ?thesis
    by (simp add: report_publish_def cl_emit_def reception_def cl_assert_def cl_fault_def)
qed

theorem client_qos2_reported_again:
  assumes "from_gateway c" "sp_qos other = SN_AtLeastOnceDelivery" "fst (publish_topic other c) = Some topic1"
    "fst (publish_subscribed other topic1 c)" "d = ClientImpl_handle_Publish env other c"
    "from_gateway d" "sp_qos pub = SN_ExactlyOnceDelivery" "sp_msgId pub \<noteq> 0"
    "fst (publish_topic pub d) = Some topic" "fst (publish_subscribed pub topic d)"
  shows "filter is_received2 (out (ClientImpl_handle_Publish env pub d)) = filter is_received2 (out d) @
    [Out_MessageReceived (c_str topic) (if topic = [] then sp_topicId pub else 0) (sp_data pub) (sp_qos pub) (sp_retain pub)]"
proof -
  have "m_lastRecvMsgId d \<noteq> sp_msgId pub" using publish_qos1_forgets [OF assms(1-4), of env] assms(5,8) by simp
  from publish_first [OF assms(6) this assms(7,9,10), of env] show ?thesis by (simp add: reception_def)
qed

end
