(* ===== verification/Cl_Example.thy ===== *)
theory Cl_Example
  imports Cl_Exchanges
begin

text \<open>
  Evaluation of the model of the client, and a run of it: a client connects, pings its gateway, subscribes
  and publishes. \<open>client_eval\<close> has the definitions of the model; with the congruences \<open>client_weak\<close> the
  simplifier evaluates the arguments of a call before it looks into its body.
\<close>

lemma InvalidIdx_eval: "InvalidIdx = 0xFFFFFFFF"
  by (simp add: InvalidIdx_def)

lemma word_max_eval:
  "ucast (- 1 :: u32) = (0xFFFFFFFF :: u64)" "(- 1 :: u64) = 0xFFFFFFFFFFFFFFFF" "(- 1 :: u32) = 0xFFFFFFFF"
  "(- 1 :: u16) = 0xFFFF"
  by (simp_all add: unsigned_minus_1_eq_mask mask_eq_exp_minus_1)

lemmas client_eval = Let_def lower_bound_def verifyPubTopic_loop.simps verifySubFilter_loop.simps InvalidIdx_eval word_max_eval min_def max_def allocPacketId_loop.simps
    TimerInfo_def TimerMgr_init_def Timer_isValid_def tm_assert_def timer_at_def set_timer_def createTimer_def
    allocTimer_def freeTimer_def Timer_destroy_def timerWait_def timerCancel_def timerIsActive_def
    timer_skipped_def tick_round_def [THEN fun_cong] TimerMgr_tick_def getMinWait_def pid_assert_def
    insert_at_lower_bound_def erase_at_lower_bound_def wrapPacketId_def allocPacketId_def releasePacketId_def
    TopicSep_def MultLevelWildcard_def SingleLevelWildcard_def c_char_def c_str_def isValidTopicId_def
    isShortTopic_def verifySubFilterInternal_def verifyPubTopicInternal_def erase_at_def
    removeLeastRecentlyUsedRegTopicInfoIfNeeded_def before_lower_bound_def storeInRegTopic_def
    removeInRegTopic_def findInRegTopicId_def storeOutRegTopic_def setIncomingRegTopicsLimit_def
    setOutgoingRegTopicsLimit_def reg_topics_init_def ConfigState_init_def cl_SessionState_init_def
    WillInfo_init_def cl_emit_def cl_fault_def cl_assert_def obj_at_def obj_update_def obj_erase_def
    timer_wait_def timer_cancel_def timer_active_def timer_alloc_def timer_free_def on_obj_def on_obj_ec_def
    upd_search_def upd_connect_def upd_keepalive_def upd_disconnect_def upd_subscribe_def upd_unsubscribe_def
    upd_send_def upd_will_def KeepAliveOp_restartPingTimer_def KeepAliveOp_restartRecvTimer_def
    KeepAliveOp_restartRespTimer_def KeepAliveOp_messageSent_def ClientImpl_sendMessage_def
    ClientImpl_releasePacketId_def ClientImpl_allocPacketId_def opComplete_mark_def eraseFromList_assert_def
    opComplete_Search_def opComplete_Connect_def opComplete_KeepAlive_def opComplete_Disconnect_def
    opComplete_Will_def SendOp_releasePacketIdsInternal_def opComplete_Send_with_def SendOp_opComplete_with_def
    SendOp_completeOpInternal_with_def SendOp_restartTimer_def SendOp_sendInternal_Register_def
    SendOp_sendInternal_Publish_with_def SendOp_sendInternal_Pubrel_def
    SendOp_sendInternal_with_def [THEN fun_cong] SendOp_resume_with_def [THEN fun_cong] send_depth_def
    SendOp_opComplete_def SendOp_completeOpInternal_def SendOp_sendInternal_def subscribe_msg_def
    unsubscribe_msg_def SubscribeOp_restartTimer_def SubscribeOp_sendInternal_def [THEN fun_cong]
    UnsubscribeOp_restartTimer_def UnsubscribeOp_sendInternal_def [THEN fun_cong] is_sub_unsub_def
    first_sub_unsub_def finaliseSupUnsubOp_with_def opComplete_Subscribe_with_def opComplete_Unsubscribe_with_def
    SubscribeOp_opComplete_with_def UnsubscribeOp_opComplete_with_def
    SubscribeOp_completeOpInternal_with_def [THEN fun_cong]
    UnsubscribeOp_completeOpInternal_with_def [THEN fun_cong] SubscribeOp_resume_with_def [THEN fun_cong]
    UnsubscribeOp_resume_with_def [THEN fun_cong] sub_depth_def SubscribeOp_opComplete_def
    UnsubscribeOp_opComplete_def SubscribeOp_completeOpInternal_def UnsubscribeOp_completeOpInternal_def
    SearchOp_opComplete_def SearchOp_completeOpInternal_def [THEN fun_cong] ConnectOp_opComplete_def
    ConnectOp_completeOpInternal_def [THEN fun_cong] KeepAliveOp_opComplete_def DisconnectOp_opComplete_def
    DisconnectOp_completeOpInternal_def [THEN fun_cong] WillOp_opComplete_def
    WillOp_completeOpInternal_def [THEN fun_cong] Op_terminateOp_def [THEN fun_cong] ClientImpl_terminateOps_def
    upd_session_def ClientImpl_gatewayDisconnected_def KeepAliveOp_new_def
    ClientImpl_createKeepAliveOpIfNeeded_def ClientImpl_gatewayConnected_def ClientImpl_enterSleepMode_def
    KeepAliveOp_sendPing_def [THEN fun_cong] KeepAliveOp_pingTimeoutInternal_def [THEN fun_cong]
    KeepAliveOp_handle_Pingreq_def [THEN fun_cong] KeepAliveOp_handle_Pingresp_def [THEN fun_cong]
    KeepAliveOp_handle_ProtMessage_def [THEN fun_cong] SearchOp_restartTimer_def
    SearchOp_sendInternal_def [THEN fun_cong] SearchOp_timeoutInternal_def [THEN fun_cong]
    SearchOp_handle_Advertise_def [THEN fun_cong] SearchOp_handle_Gwinfo_def [THEN fun_cong]
    ConnectOp_restartTimer_def ConnectOp_getMsg_def ConnectOp_sendInternal_def [THEN fun_cong]
    ConnectOp_sendOrComplete_def ConnectOp_timeoutInternal_def [THEN fun_cong]
    ConnectOp_handle_Willtopicreq_def [THEN fun_cong] ConnectOp_handle_Willmsgreq_def [THEN fun_cong]
    ConnectOp_handle_Connack_def [THEN fun_cong] DisconnectOp_restartTimer_def
    DisconnectOp_sendInternal_def [THEN fun_cong] DisconnectOp_timeoutInternal_def [THEN fun_cong]
    DisconnectOp_handle_Disconnect_def [THEN fun_cong] SubscribeOp_timeoutInternal_def [THEN fun_cong]
    short_topic_def subscribe_topic_def ClientImpl_storeInRegTopic_def ClientImpl_storeOutRegTopic_def
    subFilters_add_def SubscribeOp_handle_Suback_def [THEN fun_cong]
    UnsubscribeOp_timeoutInternal_def [THEN fun_cong] UnsubscribeOp_handle_Unsuback_def [THEN fun_cong]
    SendOp_sendOrComplete_def SendOp_timeoutInternal_def [THEN fun_cong]
    SendOp_allocPacketIdsInternal_def [THEN fun_cong] SendOp_handle_Regack_def [THEN fun_cong]
    SendOp_handle_Puback_def [THEN fun_cong] SendOp_handle_Pubrec_def [THEN fun_cong]
    SendOp_handle_Pubcomp_def [THEN fun_cong] WillOp_restartTimer_def WillOp_getMsg_def
    WillOp_sendInternal_def [THEN fun_cong] WillOp_sendOrComplete_def WillOp_timeoutInternal_def [THEN fun_cong]
    WillOp_handle_Willtopicresp_def [THEN fun_cong] WillOp_handle_Willmsgresp_def [THEN fun_cong]
    Op_handle_def [THEN fun_cong] dispatch_keepAlive_def ClientImpl_reportGwStatus_def
    ClientImpl_monitorGatewayExpiry_def gwExpiry_round_def [THEN fun_cong] ClientImpl_gwExpiryTimeout_def
    gwinfo_less_def ClientImpl_sendGwinfo_def dispatch_search_def report_opt_def ClientImpl_handle_Advertise_def
    ClientImpl_handle_Searchgw_def ClientImpl_handle_Gwinfo_def from_gateway_def ClientImpl_verifyPubTopic_def
    ClientImpl_handle_Register_def send_puback_def inReg_lookup_def outReg_lookup_def publish_topic_def
    publish_subscribed_def report_publish_def send_pubrec_def publish_qos2_def ClientImpl_handle_Publish_def
    ClientImpl_handle_Puback_def ClientImpl_handle_Pubrel_def ClientImpl_handle_Pingreq_def
    ClientImpl_handle_Disconnect_def ClientImpl_handle_ProtMessage_def ClientImpl_handle_def [THEN fun_cong]
    timer_callback_def [THEN fun_cong] cl_tick_timers_def ClientImpl_doApiEnter_def ClientImpl_cleanOps_def
    ClientImpl_doApiExit_def ClientImpl_tick_def ClientImpl_processData_def callbacks_none_def
    ClientImpl_init_def ClientImpl_setNextTickProgramCallback_def ClientImpl_setCancelNextTickWaitCallback_def
    ClientImpl_setSendOutputDataCallback_def ClientImpl_setGatewayStatusReportCallback_def
    ClientImpl_setGatewayDisconnectedReportCallback_def ClientImpl_setMessageReceivedCallback_def
    ClientImpl_setGwinfoDelayReqCb_def ClientImpl_allowNextPrepare_def ClientImpl_initInternal_def
    init_if_needed_def ClientImpl_destroy_def prepare_checks_def op_created_def ClientImpl_searchPrepare_def
    ClientImpl_connectPrepare_def ClientImpl_disconnectPrepare_def ClientImpl_subscribePrepare_def
    ClientImpl_unsubscribePrepare_def publish_default_def ClientImpl_publishPrepare_def
    ClientImpl_willPrepare_def ClientImpl_asleepCheckMessages_def empty_topic_def short_topic_id_def
    SendOp_config_def [THEN fun_cong] SubscribeOp_config_def [THEN fun_cong]
    UnsubscribeOp_config_def [THEN fun_cong] ConnectOp_config_def [THEN fun_cong]
    ConnectOp_willConfig_def [THEN fun_cong] DisconnectOp_config_def [THEN fun_cong]
    WillOp_config_def [THEN fun_cong] with_guards_def SearchOp_send_def reuse_reset_def ConnectOp_send_def
    DisconnectOp_send_def SubscribeOp_send_def subFilters_remove_def unsubscribe_forget_def
    UnsubscribeOp_send_def SendOp_send_def will_same_topic_def WillOp_send_def unlock_unsent_def
    SearchOp_cancel_def [THEN fun_cong] ConnectOp_cancel_def [THEN fun_cong]
    DisconnectOp_cancel_def [THEN fun_cong] SubscribeOp_cancel_def [THEN fun_cong]
    UnsubscribeOp_cancel_def [THEN fun_cong] SendOp_cancel_def [THEN fun_cong] WillOp_cancel_def [THEN fun_cong]
    Op_setRetryPeriod_def [THEN fun_cong] Op_setRetryCount_def [THEN fun_cong]
    SearchOp_setBroadcastRadius_def [THEN fun_cong]

lemma client_weak:
  "c = d \<Longrightarrow> on_obj ty ops a f c = on_obj ty ops a f d" "c = d \<Longrightarrow> on_obj_ec ty ops a g c = on_obj_ec ty ops a g d"
  "c = d \<Longrightarrow> with_guards env el h k c = with_guards env el h k d" "xs = ys \<Longrightarrow> u = v \<Longrightarrow> fold l xs u = fold l ys v"
  "s = t \<Longrightarrow> Let s m = Let t m"
  by simp_all

section \<open>A run\<close>

definition w_env :: cl_env where
  "w_env = \<lparr>env_opsLimit = 10, env_pool = (\<lambda>_. 5), env_timers = 8, env_packetIds = 100, env_gwInfos = 5,
     env_gwAddr = 4, env_gwinfoAddr = 4, env_bufSize = 100, env_frameLen = (\<lambda>_. 10)\<rparr>"

text \<open>A client with its callbacks and no retries.\<close>

definition w_ready :: client where
  "w_ready = (ClientImpl_setNextTickProgramCallback True (ClientImpl_setCancelNextTickWaitCallback True
     (ClientImpl_setSendOutputDataCallback True (ClientImpl_setGatewayDisconnectedReportCallback True
     (ClientImpl_setMessageReceivedCallback True (ClientImpl_init w_env 5 5))))))
     \<lparr>m_configState := ConfigState_init\<lparr>cfg_retryCount := 0\<rparr>\<rparr>"

text \<open>It sends CONNECT and gets CONNACK.\<close>

definition w_connecting :: client where
  "w_connecting = snd (ConnectOp_send w_env 0 True 0 (snd (ConnectOp_config
     (Some \<lparr>cc_clientId = Some ''id'', cc_duration = 60, cc_cleanSession = True\<rparr>) 0
     (snd (ClientImpl_connectPrepare w_env 0 w_ready)))))"

definition w_connected :: client where
  "w_connected = ClientImpl_processData w_env 5 (Some (ConnackMsg_CL Accepted)) Origin_ConnectedGw w_connecting"

text \<open>Time passes until PINGREQ is sent; then it subscribes, with a longer retry period, and publishes.\<close>

definition w_pinging :: client where
  "w_pinging = ClientImpl_tick w_env 60000 w_connected"

definition w_subscribing :: client where
  "w_subscribing = snd (SubscribeOp_send w_env 0 True 2 (Op_setRetryPeriod 20000 (Type_Subscribe, 2)
     (snd (SubscribeOp_config (Some \<lparr>sc_topic = None, sc_topicId = 7, sc_qos = SN_AtLeastOnceDelivery\<rparr>) 2
     (snd (ClientImpl_subscribePrepare w_env w_pinging))))))"

definition w_publishing :: client where
  "w_publishing = snd (SendOp_send w_env 0 True 3 (snd (SendOp_config
     (Some \<lparr>pc_data = Some [1], pc_dataLen = 1, pc_topic = None, pc_topicId = 7, pc_qos = SN_AtLeastOnceDelivery,
       pc_retain = False\<rparr>) 3 (snd (ClientImpl_publishPrepare w_env w_subscribing)))))"

lemmas w_defs = w_env_def w_ready_def w_connecting_def w_connected_def w_pinging_def w_subscribing_def w_publishing_def

section \<open>Its states are reachable\<close>

lemma reachable_calls: "client_call env c d \<Longrightarrow> client_reachable env c \<Longrightarrow> client_reachable env d"
  by (rule client_reachable.call)

lemma w_connecting_reachable: "client_reachable w_env w_connecting"
  unfolding w_connecting_def w_ready_def
  by (intro client_reachable.init client_call.intros [THEN reachable_calls])

lemma w_connected_reachable: "client_reachable w_env w_connected"
  unfolding w_connected_def by (rule client_call.processData [THEN reachable_calls, OF w_connecting_reachable])

lemma w_publishing_reachable: "client_reachable w_env w_publishing"
  unfolding w_publishing_def w_subscribing_def w_pinging_def
  by (intro w_connected_reachable client_call.intros [THEN reachable_calls])

section \<open>What they hold\<close>

lemma w_connecting_waiting: "waiting (Type_Connect, 0) (view w_connecting)"
  by (simp add: w_defs client_eval waiting_def view_def cong: client_weak)

lemma w_connected_holds: "m_connectOps w_connected = []" "cl_faults w_connected = []"
  by (simp_all add: w_defs client_eval cong: client_weak)

lemma w_pinging_holds: "cb_nextTickProgram (cbs w_pinging)" "m_allocatedTimers (m_timerMgr w_pinging) \<noteq> 0"
    "map m_timeoutMs (running_timers (m_timerMgr w_pinging)) = [60000, 10000]"
  by (simp_all add: w_defs client_eval running_timers_def cong: client_weak)

lemma w_publishing_holds:
  "fst (TimerMgr_tick 10000 (m_timerMgr w_publishing)) = [(Cb_pingTimeout, Some 1), (Cb_send, Some 3)]"
  "map_option ob_retryCount (obj_at 1 (m_keepAliveOps w_publishing)) = Some 0"
  "waiting (Type_Subscribe, 2) (view w_publishing)"
  by (simp_all add: w_defs client_eval waiting_def view_def cong: client_weak)

section \<open>The properties of the reachable states on the run\<close>

theorem client_pointers_typed_witness:
  "client_reachable w_env w_publishing \<and> (\<forall>ty. addrs ty (m_ops w_publishing) = map fst (objs ty w_publishing)) \<and>
    filter severe (cl_faults w_publishing) = []"
  using client_pointers_typed [OF w_publishing_reachable] w_publishing_reachable by blast

theorem client_reports_once_witness:
  "client_reachable w_env w_connected \<and>
    length (filter (\<lambda>e. completion e = Some (Type_Connect, 0)) (out w_connected)) \<le> 1"
  using client_reports_once [OF w_connected_reachable] w_connected_reachable by blast

theorem client_operation_ends_in_one_report_witness:
  "waiting (Type_Connect, 0) (view w_connecting) \<and> \<not> waiting (Type_Connect, 0) (view w_connected) \<and>
    length (filter (\<lambda>e. completion e = Some (Type_Connect, 0)) (out w_connected)) = 1"
proof -
  have gone: "\<not> waiting (Type_Connect, 0) (view w_connected)"
    using w_connected_holds(1) by (simp add: waiting_def view_def)
  show ?thesis
    using client_operation_ends_in_one_report [OF w_connecting_reachable disjI2 [OF w_connected_def] w_connecting_waiting]
      gone w_connecting_waiting w_connected_holds(2) by (simp add: defined_run_def)
qed

theorem client_publications_never_stall_witness:
  "\<exists>so. m_sendOps w_publishing = [(3, so)] \<and> \<not> sn_suspended so"
proof -
  obtain so where "m_sendOps w_publishing = [(3, so)]"
    by (simp add: w_defs client_eval cong: client_weak)
  then show ?thesis using client_publications_never_stall [OF w_publishing_reachable] by blast
qed

theorem client_disconnection_ends_all_operations_witness:
  "waiting (Type_Subscribe, 2) (view w_publishing) \<and>
    (\<exists>e \<in> set (out (ClientImpl_gatewayDisconnected w_env (Some Reason_NoGatewayResponse) St_Aborted w_publishing)).
       completion e = Some (Type_Subscribe, 2))"
proof -
  let ?d = "ClientImpl_gatewayDisconnected w_env (Some Reason_NoGatewayResponse) St_Aborted w_publishing"
  have "length (filter (\<lambda>e. completion e = Some (Type_Subscribe, 2)) (out ?d)) > 0"
    using client_disconnection_ends_all_operations [OF w_publishing_reachable refl] w_publishing_holds(3) by simp
  then show ?thesis using w_publishing_holds(3) by (auto simp: filter_empty_conv)
qed

theorem client_programs_next_tick_witness:
  "\<exists>wait. last (out w_pinging) = Out_ProgramTick wait \<and> unat wait = 10000"
proof -
  have ms: "m_timeoutMs ` set (running_timers (m_timerMgr w_pinging)) = {60000, 10000}"
    using arg_cong [OF w_pinging_holds(3), of set] by simp
  have "\<exists>t \<in> m_timeoutMs ` set (running_timers (m_timerMgr w_pinging)). t \<noteq> - 1"
    "\<forall>t \<in> m_timeoutMs ` set (running_timers (m_timerMgr w_pinging)). t \<noteq> 0"
    unfolding ms by simp_all
  then have "\<exists>info \<in> set (running_timers (m_timerMgr w_pinging)). m_timeoutMs info \<noteq> - 1"
    "\<forall>info \<in> set (running_timers (m_timerMgr w_pinging)). m_timeoutMs info \<noteq> 0" by blast+
  from client_programs_next_tick [OF w_connected_reachable disjI1 [OF w_pinging_def] w_pinging_holds(1,2) this]
  obtain wait where w: "last (out w_pinging) = Out_ProgramTick wait"
    "\<forall>ms \<in> m_timeoutMs ` set (running_timers (m_timerMgr w_pinging)). unat wait \<le> unat ms"
    "(\<exists>ms \<in> m_timeoutMs ` set (running_timers (m_timerMgr w_pinging)). unat wait = unat ms) \<or> wait = - 1" by auto
  then show ?thesis unfolding ms
    by (auto simp: unsigned_minus_1_eq_mask mask_eq_exp_minus_1)
qed

theorem client_tick_uses_destroyed_operation_witness:
  "client_reachable w_env w_publishing \<and>
    UseAfterFree (Type_Send, 3) \<in> set (cl_faults (ClientImpl_tick w_env 10000 w_publishing))"
proof -
  obtain tm where "TimerMgr_tick 10000 (m_timerMgr w_publishing) = ([(Cb_pingTimeout, Some 1), (Cb_send, Some 3)], tm)"
    using w_publishing_holds(1) by (metis prod.collapse)
  moreover obtain ko where "obj_at 1 (m_keepAliveOps w_publishing) = Some ko" "ob_retryCount ko = 0"
    using w_publishing_holds(2) by auto
  ultimately show ?thesis
    using client_tick_uses_destroyed_operation [OF w_publishing_reachable] w_publishing_reachable by blast
qed

section \<open>Exchanges on the run\<close>

text \<open>A publication with two retries, and one on a topic that has to be registered.\<close>

definition w_retrying :: client where
  "w_retrying = snd (SendOp_send w_env 0 True 2 (snd (SendOp_config
     (Some \<lparr>pc_data = Some [1], pc_dataLen = 1, pc_topic = None, pc_topicId = 7, pc_qos = SN_AtLeastOnceDelivery,
       pc_retain = False\<rparr>) 2 (Op_setRetryCount 2 (Type_Send, 2) (snd (ClientImpl_publishPrepare w_env w_connected))))))"

definition w_registering :: client where
  "w_registering = snd (SendOp_send w_env 0 True 2 (snd (SendOp_config
     (Some \<lparr>pc_data = Some [1], pc_dataLen = 1, pc_topic = Some ''a/b'', pc_topicId = 0, pc_qos = SN_AtLeastOnceDelivery,
       pc_retain = False\<rparr>) 2 (Op_setRetryCount 1 (Type_Send, 2) (snd (ClientImpl_publishPrepare w_env w_connected))))))"

definition w_silent :: client where
  "w_silent = Op_setRetryCount 1 (Type_KeepAlive, 1) w_pinging"

lemma w_exchange_reachable: "client_reachable w_env w_retrying" "client_reachable w_env w_registering" "client_reachable w_env w_silent"
  unfolding w_retrying_def w_registering_def w_silent_def w_pinging_def
  by (intro w_connected_reachable client_call.intros [THEN reachable_calls])+

definition w_pub :: sn_publish where
  "w_pub = \<lparr>sp_topicIdType = PredefinedTopicId, sp_retain = False, sp_qos = SN_AtLeastOnceDelivery, sp_dup = False,
     sp_topicId = 7, sp_msgId = 1, sp_data = [1]\<rparr>"

lemma w_retrying_holds: "\<exists>so. obj_at 2 (m_sendOps w_retrying) = Some so \<and> sn_stage so = Stage_Publish \<and> \<not> sn_suspended so \<and>
    sn_cb so \<and> sn_pub so = w_pub \<and> ob_retryCount so = 2 \<and> sn_origRetryCount so = 2"
  by (simp add: w_retrying_def w_pub_def w_defs client_eval cong: client_weak)

lemma w_registering_holds: "\<exists>so. obj_at 2 (m_sendOps w_registering) = Some so \<and> sn_stage so = Stage_Register \<and> \<not> sn_suspended so \<and>
    sn_cb so \<and> sn_regTopic so = ''a/b'' \<and> sn_regMsgId so = 1 \<and> sn_fullRetryRemCount so \<noteq> 0 \<and> sn_pub so = w_pub\<lparr>sp_topicIdType := Normal, sp_topicId := 0, sp_msgId := 2\<rparr> \<and>
    0 < m_outRegTopicsLimit (m_regs w_registering)"
  by (simp add: w_registering_def w_pub_def w_defs client_eval cong: client_weak)

lemma w_silent_holds: "\<exists>ko. obj_at 1 (m_keepAliveOps w_silent) = Some ko \<and> ob_retryCount ko = 1 \<and>
    se_connectionStatus (m_sessionState w_silent) = Connected"
  by (simp add: w_silent_def w_defs client_eval cong: client_weak)

theorem client_publication_given_up_witness:
  "out ((SendOp_timeoutInternal w_env 2 ^^ 2) w_retrying) =
     out w_retrying @ replicate 2 (Out_Send (PublishMsg_CL (w_pub\<lparr>sp_dup := True\<rparr>)) 0) \<and>
   last (out ((SendOp_timeoutInternal w_env 2 ^^ Suc 2) w_retrying)) = Out_PublishComplete 2 St_Timeout None"
proof -
  obtain so where so: "obj_at 2 (m_sendOps w_retrying) = Some so" "sn_stage so = Stage_Publish" "\<not> sn_suspended so"
      "sn_cb so" "sn_pub so = w_pub" "ob_retryCount so = 2" "sn_origRetryCount so = 2"
    using w_retrying_holds by blast
  have "sp_qos (sn_pub so) \<noteq> SN_AtMostOnceDelivery" "ob_retryCount so \<le> sn_origRetryCount so"
    "env_frameLen w_env (PublishMsg_CL ((sn_pub so)\<lparr>sp_dup := True\<rparr>)) \<le> env_bufSize w_env"
    using so by (simp_all add: w_pub_def w_env_def)
  moreover have "2 = unat (ob_retryCount so)" using so(6) by simp
  ultimately show ?thesis
    using client_publication_given_up [OF w_exchange_reachable(1) so(1-4) _ _ refl _ _ refl] so(5) by metis
qed

text \<open>The gateway takes the registration and then does not know the id.\<close>

definition w_refused :: client where
  "w_refused = SendOp_handle_Puback w_env 9 2 InvalidTopicId 2 (SendOp_handle_Regack w_env 9 1 Accepted 2 w_registering)"

lemma w_refused_holds: "cl_faults w_refused = []"
  by (simp add: w_refused_def w_registering_def w_defs client_eval cong: client_weak)

theorem client_publish_handshake_witness:
  "\<exists>so x d. obj_at 2 (m_sendOps w_registering) = Some so \<and> d = SendOp_handle_Regack w_env 9 1 Accepted 2 w_registering \<and>
    out d = out w_registering @ [Out_Send (PublishMsg_CL ((sn_pub so)\<lparr>sp_topicId := 9\<rparr>)) 0] \<and>
    obj_at 2 (m_sendOps w_refused) = Some x \<and> sn_stage x = Stage_Register \<and>
    out w_refused = out d @ [Out_Send (RegisterMsg_CL 0 (sn_regMsgId x) ''a/b'') 0]"
proof -
  obtain so where so: "obj_at 2 (m_sendOps w_registering) = Some so" "sn_stage so = Stage_Register" "\<not> sn_suspended so"
      "sn_cb so" "sp_qos (sn_pub so) = SN_AtLeastOnceDelivery" "0 < m_outRegTopicsLimit (m_regs w_registering)"
      "sn_regTopic so = ''a/b''" "sn_regMsgId so = 1" "sp_msgId (sn_pub so) = 2" "sn_fullRetryRemCount so \<noteq> 0"
      "sp_topicIdType (sn_pub so) = Normal"
    using w_registering_holds by (auto simp: w_pub_def)
  define d where "d = SendOp_handle_Regack w_env 9 1 Accepted 2 w_registering"
  have d: "d = SendOp_handle_Regack w_env 9 (sn_regMsgId so) Accepted 2 w_registering"
    "w_refused = SendOp_handle_Puback w_env 9 (sp_msgId (sn_pub so)) InvalidTopicId 2 d"
    using so by (simp_all add: d_def w_refused_def)
  have "isValidTopicId 9" "env_frameLen w_env (PublishMsg_CL ((sn_pub so)\<lparr>sp_topicId := 9\<rparr>)) \<le> env_bufSize w_env"
    "\<forall>i. env_frameLen w_env (RegisterMsg_CL 0 i (sn_regTopic so)) \<le> env_bufSize w_env" "defined_run w_refused"
    by (simp_all add: isValidTopicId_def w_env_def defined_run_def w_refused_holds)
  from client_publish_handshake [OF w_exchange_reachable(2) so(1-5) this(1) so(6) refl this(2,3) d this(4)] so(1,7,10,11)
  show ?thesis by (auto simp: d_def)
qed

theorem client_silent_gateway_given_up_witness:
  "\<exists>ko step. obj_at 1 (m_keepAliveOps w_silent) = Some ko \<and>
    step = (\<lambda>c. KeepAliveOp_pingTimeoutInternal w_env 1 (timer_cancel (ko_respTimer ko) c)) \<and>
    out ((step ^^ 1) w_silent) = out w_silent @ [Out_Send (PingreqMsg_CL []) 0] \<and>
    last (out ((step ^^ 2) w_silent)) = Out_GatewayDisconnected Reason_NoGatewayResponse"
proof -
  obtain ko where ko: "obj_at 1 (m_keepAliveOps w_silent) = Some ko" "ob_retryCount ko = 1"
      "se_connectionStatus (m_sessionState w_silent) = Connected"
    using w_silent_holds by blast
  have "env_frameLen w_env (PingreqMsg_CL cid) \<le> env_bufSize w_env" for cid by (simp add: w_env_def)
  from client_silent_gateway_given_up [OF w_exchange_reachable(3) ko(1) refl this refl refl] ko(2,3)
  have "out (((\<lambda>c. KeepAliveOp_pingTimeoutInternal w_env 1 (timer_cancel (ko_respTimer ko) c)) ^^ 1) w_silent) =
      out w_silent @ [Out_Send (PingreqMsg_CL []) 0]"
    "last (out (((\<lambda>c. KeepAliveOp_pingTimeoutInternal w_env 1 (timer_cancel (ko_respTimer ko) c)) ^^ Suc 1) w_silent)) =
      Out_GatewayDisconnected Reason_NoGatewayResponse"
    by (simp_all del: funpow.simps)
  with ko(1) show ?thesis by (metis Suc_1)
qed

text \<open>A publication on the short topic \<open>ab\<close>, received twice with another one in between by a client that does
  not check its filters.\<close>

theorem client_qos2_reported_once_witness:
  "filter is_received2 (out (fold (ClientImpl_handle_Publish w_env)
       [w_pub\<lparr>sp_qos := SN_ExactlyOnceDelivery, sp_topicIdType := ShortTopicName, sp_topicId := 0x6162\<rparr>,
        w_pub\<lparr>sp_qos := SN_AtMostOnceDelivery\<rparr>,
        w_pub\<lparr>sp_qos := SN_ExactlyOnceDelivery, sp_topicIdType := ShortTopicName, sp_topicId := 0x6162, sp_dup := True\<rparr>]
       (w_connected\<lparr>m_configState := ConfigState_init\<lparr>cfg_verifySubFilter := False\<rparr>\<rparr>))) =
     [Out_MessageReceived ''ab'' 0 [1] SN_ExactlyOnceDelivery False]"
proof -
  define pub where "pub = w_pub\<lparr>sp_qos := SN_ExactlyOnceDelivery, sp_topicIdType := ShortTopicName, sp_topicId := 0x6162\<rparr>"
  define c where "c = w_connected\<lparr>m_configState := ConfigState_init\<lparr>cfg_verifySubFilter := False\<rparr>\<rparr>"
  have held: "from_gateway w_connected" "m_lastRecvMsgId w_connected = 0" "filter is_received2 (out w_connected) = []"
    by (simp_all add: w_defs client_eval cong: client_weak)
  have c: "from_gateway c" "m_lastRecvMsgId c \<noteq> sp_msgId pub" "filter is_received2 (out c) = []"
    using held by (simp_all add: c_def pub_def w_pub_def from_gateway_def)
  have pub: "sp_qos pub = SN_ExactlyOnceDelivery" "sp_msgId pub \<noteq> 0" "fst (publish_topic pub c) = Some ''ab''"
    "fst (publish_subscribed pub ''ab'' c)"
    "\<forall>p \<in> set [w_pub\<lparr>sp_qos := SN_AtMostOnceDelivery\<rparr>, pub\<lparr>sp_dup := True\<rparr>].
       sp_qos p = SN_ExactlyOnceDelivery \<and> sp_msgId p = sp_msgId pub \<or> sp_qos p = SN_AtMostOnceDelivery"
    by (simp_all add: pub_def w_pub_def c_def publish_topic_def publish_subscribed_def char_of_def bit_0)
  from client_qos2_reported_once [OF c(1) pub(1,2) c(2) pub(3-5) refl] c(3)
  have "filter is_received2 (out (fold (ClientImpl_handle_Publish w_env) [pub, w_pub\<lparr>sp_qos := SN_AtMostOnceDelivery\<rparr>, pub\<lparr>sp_dup := True\<rparr>] c)) =
      [Out_MessageReceived ''ab'' 0 [1] SN_ExactlyOnceDelivery False]"
    by (simp add: pub_def w_pub_def c_str_def)
  then show ?thesis by (simp add: pub_def c_def)
qed

theorem unsubscribe_keeps_filter_witness:
  "subFilters_remove (Some ''b'') 0 [\<lparr>sf_topic = ''a'', sf_topicId = 0\<rparr>, \<lparr>sf_topic = ''c'', sf_topicId = 0\<rparr>] =
     [\<lparr>sf_topic = ''a'', sf_topicId = 0\<rparr>] \<and>
   subFilters_remove (Some ''b'') 0 (subFilters_add (Some ''b'') 0 []) = [\<lparr>sf_topic = ''b'', sf_topicId = 0\<rparr>]"
proof -
  have "\<forall>x \<in> set [\<lparr>sf_topic = ''a'', sf_topicId = 0\<rparr>]. sf_topic x < ''b''" "''b'' < sf_topic \<lparr>sf_topic = ''c'', sf_topicId = 0\<rparr>"
    by simp_all
  then show ?thesis
    using unsubscribe_keeps_filter [of "''b''" 0 0 "[]"] by (fastforce simp: subFilters_add_def before_lower_bound_def lower_bound_def)
qed

end
