(* ===== verification/Ap_Client.thy ===== *)
theory Ap_Client
  imports Cl_Api
begin

text \<open>
  The command line programs over the client library, \<^verbatim>\<open>src/client/app\<close>: what they share
  (\<^verbatim>\<open>common/AppClient.cpp\<close>, \<^verbatim>\<open>common/Session.cpp\<close>), the publisher (\<^verbatim>\<open>pub/Pub.cpp\<close>), the subscriber (\<^verbatim>\<open>sub/Sub.cpp\<close>) and the
  discovery of gateways (\<^verbatim>\<open>gw_discover/GwDiscover.cpp\<close>). A program calls the library and is called back
  by it; what the library answers to a call is a function of the calls so far and a parameter, and so
  are the values of the command line options. The event loop stops when the program asks for it.
\<close>

section \<open>Binary data in text\<close>

text \<open>One step of the loop: the bytes it adds and how far it goes.\<close>

definition parse_step :: "string \<Rightarrow> nat \<Rightarrow> u8 \<times> nat" where
  "parse_step val pos =
     (let ch = val ! pos;
          addChar = (of_char ch, pos + 1);
          nextPos = pos + 1
      in if ch \<noteq> CHR 0x5C then addChar
         else if length val \<le> nextPos then addChar
         else if val ! nextPos = CHR 0x5C then (of_char ch, pos + 2)
         else if val ! nextPos \<noteq> CHR ''x'' then addChar
         else
           let bytePos = nextPos + 1
           in if length val < bytePos + 2 then addChar
              else case stoul 16 (take 2 (drop bytePos val)) of
                Some n \<Rightarrow> (ucast n, bytePos + 2)
              | None \<Rightarrow> addChar)"

lemma parse_step_forward: "pos < snd (parse_step val pos)"
  by (simp add: parse_step_def Let_def split: option.split)

function parseBinaryData_loop :: "string \<Rightarrow> nat \<Rightarrow> data_buf \<Rightarrow> data_buf" where
  "parseBinaryData_loop val pos result =
     (if pos < length val
      then parseBinaryData_loop val (snd (parse_step val pos)) (result @ [fst (parse_step val pos)])
      else result)"
  by pat_completeness auto
termination
proof (relation "measure (\<lambda>(val, pos, result). length val - pos)")
  fix val :: string and pos :: nat and result :: data_buf
  assume "pos < length val"
  then show "((val, snd (parse_step val pos), result @ [fst (parse_step val pos)]), (val, pos, result))
      \<in> measure (\<lambda>(val, pos, result). length val - pos)"
    using parse_step_forward [of pos val] by simp
qed simp

declare parseBinaryData_loop.simps [simp del]

definition parseBinaryData :: "string \<Rightarrow> data_buf" where
  "parseBinaryData val = parseBinaryData_loop val 0 []"

text \<open>Printing of data: as text when all bytes are printable, else in hexadecimal.\<close>

definition isprint :: "u8 \<Rightarrow> bool" where
  "isprint b \<longleftrightarrow> 0x20 \<le> b \<and> b \<le> 0x7E"

definition hex_digit :: "nat \<Rightarrow> char" where
  "hex_digit n = (if n < 10 then char_of (n + 48) else char_of (n + 87))"

definition hex2 :: "u8 \<Rightarrow> string" where
  "hex2 b = [hex_digit (unat b div 16), hex_digit (unat b mod 16)]"

definition toString_data :: "data_buf \<Rightarrow> bool \<Rightarrow> string" where
  "toString_data data forceBinary =
     (let binary = (forceBinary \<or> list_ex (\<lambda>byte. \<not> isprint byte \<or> byte > 0x7E) data)
      in if \<not> binary then map (\<lambda>b. char_of (unat b)) data
         else concat (map (\<lambda>b. hex2 b @ '' '') data))"

section \<open>Forwarder encapsulation\<close>

definition FwdEncMsgType :: u8 where
  "FwdEncMsgType = 0xFE"

text \<open>The prefix made at the start; none without a node id.\<close>

definition fwdEncPrefix :: "data_buf \<Rightarrow> data_buf" where
  "fwdEncPrefix nodeId =
     (if nodeId = [] then []
      else let prefixLen = 3 + length nodeId
           in [of_nat prefixLen, FwdEncMsgType, 0] @ nodeId)"

definition sendData_enc :: "data_buf \<Rightarrow> data_buf \<Rightarrow> data_buf" where
  "sendData_enc pre buf = (if pre = [] then buf else pre @ buf)"

text \<open>The bytes handed to the library for a received datagram, none when it is ignored. The control
  byte of the prefix is not compared.\<close>

definition dataReport_dec :: "data_buf \<Rightarrow> data_buf \<Rightarrow> data_buf option" where
  "dataReport_dec pre buf =
     (if pre = [] then Some buf
      else if length buf \<le> length pre then None
      else if take 2 buf \<noteq> take 2 pre then None
      else if take (length pre - 3) (drop 3 buf) \<noteq> drop 3 pre then None
      else Some (drop (length pre) buf))"

section \<open>The program\<close>

text \<open>The options of the command line that the programs read.\<close>

record app_opts =
  ao_connectClientId :: string
  ao_connectKeepAlive :: u32
  ao_connectNoCleanSession :: bool
  ao_willTopic :: string
  ao_willMessage :: string
  ao_willQos :: u32
  ao_fwdEncNodeId :: string
  ao_pubTopic :: string
  ao_pubTopicId :: u16
  ao_pubMessage :: string
  ao_pubQos :: u32
  ao_pubRetain :: bool
  ao_pubNoDisconnect :: bool
  ao_pubCount :: u32
  ao_pubDelay :: u32
  ao_subTopics :: "string list"
  ao_subTopicIds :: "u16 list"
  ao_subQos :: u32
  ao_subNoRetained :: bool
  ao_subBinary :: bool
  ao_discoverExitOnFirst :: bool
  ao_discoverTimeout :: u32

text \<open>The values when the command line gives none.\<close>

definition ProgramOptions_defaults :: app_opts where
  "ProgramOptions_defaults = \<lparr>ao_connectClientId = '''', ao_connectKeepAlive = 60,
     ao_connectNoCleanSession = False, ao_willTopic = '''', ao_willMessage = '''', ao_willQos = 0,
     ao_fwdEncNodeId = '''', ao_pubTopic = '''', ao_pubTopicId = 0, ao_pubMessage = '''', ao_pubQos = 0,
     ao_pubRetain = False, ao_pubNoDisconnect = False, ao_pubCount = 1, ao_pubDelay = 100,
     ao_subTopics = [], ao_subTopicIds = [], ao_subQos = 2, ao_subNoRetained = False,
     ao_subBinary = False, ao_discoverExitOnFirst = False, ao_discoverTimeout = 0\<rparr>"

text \<open>The cast of a number to the enumeration of the library. The last value stands for every number
  the library refuses.\<close>

definition qos_of :: "u32 \<Rightarrow> sn_qos" where
  "qos_of n = (if n = 0 then SN_AtMostOnceDelivery else if n = 1 then SN_AtLeastOnceDelivery
     else if n = 2 then SN_ExactlyOnceDelivery else SN_NoGwPublish)"

datatype lib_call =
    Call_verifySubscribed bool
  | Call_connect connect_config "will_config option"
  | Call_disconnect
  | Call_publish publish_config
  | Call_subscribe subscribe_config
  | Call_search
  | Call_setGatewayInfo u8 data_buf

type_synonym library = "lib_call list \<Rightarrow> lib_call \<Rightarrow> error_code"

record app_client =
  ap_calls :: "lib_call list"
  ap_due :: "lib_call list"
  ap_result :: int
  ap_stopped :: bool
  ap_posted :: nat
  ap_fwdEncPrefix :: data_buf
  ap_lastAddr :: data_buf
  ap_networkError :: bool
  ap_tickWait :: bool
  ap_lastWaitProgram :: nat
  ap_output :: "string list"
  ap_remCount :: u32
  ap_delayWait :: bool
  ap_subCount :: u32
  ap_asserts :: bool

definition AppClient_init :: app_client where
  "AppClient_init = \<lparr>ap_calls = [], ap_due = [], ap_result = 0, ap_stopped = False, ap_posted = 0,
     ap_fwdEncPrefix = [], ap_lastAddr = [], ap_networkError = False, ap_tickWait = False, ap_lastWaitProgram = 0, ap_output = [], ap_remCount = 0,
     ap_delayWait = False, ap_subCount = 0, ap_asserts = True\<rparr>"

text \<open>A call of the library. When it is accepted and asynchronous the report of its end is due.\<close>

fun is_async :: "lib_call \<Rightarrow> bool" where
  "is_async (Call_verifySubscribed b) = False"
| "is_async (Call_setGatewayInfo i addr) = False"
| "is_async c = True"

definition app_call :: "library \<Rightarrow> lib_call \<Rightarrow> app_client \<Rightarrow> error_code \<times> app_client" where
  "app_call lib c a =
     (let ec = lib (ap_calls a) c
      in (ec, a\<lparr>ap_calls := ap_calls a @ [c],
              ap_due := (if ec = Ec_Success \<and> is_async c then ap_due a @ [c] else ap_due a)\<rparr>))"

definition app_print :: "string \<Rightarrow> app_client \<Rightarrow> app_client" where
  "app_print s a = a\<lparr>ap_output := ap_output a @ [s]\<rparr>"

definition AppClient_doTerminate :: "int \<Rightarrow> app_client \<Rightarrow> app_client" where
  "AppClient_doTerminate result a = a\<lparr>ap_result := result, ap_stopped := True\<rparr>"

definition AppClient_doComplete :: "app_client \<Rightarrow> app_client" where
  "AppClient_doComplete a = a\<lparr>ap_posted := ap_posted a + 1\<rparr>"

definition AppClient_posted :: "app_client \<Rightarrow> app_client" where
  "AppClient_posted a = AppClient_doTerminate 0 (a\<lparr>ap_posted := ap_posted a - 1\<rparr>)"

definition connect_config_of :: "app_opts \<Rightarrow> connect_config" where
  "connect_config_of opts =
     \<lparr>cc_clientId = (if ao_connectClientId opts \<noteq> '''' then Some (ao_connectClientId opts) else None),
      cc_duration = ao_connectKeepAlive opts, cc_cleanSession = \<not> ao_connectNoCleanSession opts\<rparr>"

definition will_config_of :: "app_opts \<Rightarrow> will_config option" where
  "will_config_of opts =
     (let willData = parseBinaryData (ao_willMessage opts)
      in if ao_willTopic opts = '''' then None
         else Some \<lparr>wc_topic = Some (ao_willTopic opts), wc_data = Some willData,
                wc_dataLen = length willData, wc_qos = qos_of (ao_willQos opts), wc_retain = False\<rparr>)"

definition AppClient_doConnect :: "library \<Rightarrow> app_opts \<Rightarrow> app_client \<Rightarrow> bool \<times> app_client" where
  "AppClient_doConnect lib opts a =
     (let (ec, a) = app_call lib (Call_connect (connect_config_of opts) (will_config_of opts)) a
      in (ec = Ec_Success, a))"

definition AppClient_doDisconnect :: "library \<Rightarrow> app_client \<Rightarrow> bool \<times> app_client" where
  "AppClient_doDisconnect lib a =
     (let (ec, a) = app_call lib Call_disconnect a in (ec = Ec_Success, a))"

text \<open>The start, up to the part of the particular program. Whether the session to the network can be
  created and started is the argument \<open>sessionStarted\<close>. The answer to the call that switches the
  verification off is only logged.\<close>

definition AppClient_start ::
    "library \<Rightarrow> bool \<Rightarrow> (app_client \<Rightarrow> bool \<times> app_client) \<Rightarrow> bool \<Rightarrow> app_opts \<Rightarrow> app_client \<Rightarrow> bool \<times> app_client" where
  "AppClient_start lib sessionStarted startImpl help opts a =
     (if help then (True, a\<lparr>ap_stopped := True\<rparr>)
      else
        let a = a\<lparr>ap_fwdEncPrefix := fwdEncPrefix (parseBinaryData (ao_fwdEncNodeId opts))\<rparr>
        in if \<not> sessionStarted then (False, a)
           else
             let a = (if ao_connectNoCleanSession opts
                      then snd (app_call lib (Call_verifySubscribed False) a) else a)
             in startImpl a)"

text \<open>The timer of the library. The clock is an argument, in milliseconds; the answer to a cancelled
  wait is the time that has passed, as a 32 bit number. The flag of the timer's end says whether the
  library is to be told that the time has passed.\<close>

datatype timer_result = Timer_expired | Timer_aborted | Timer_error

definition AppClient_nextTickProgram :: "nat \<Rightarrow> app_client \<Rightarrow> app_client" where
  "AppClient_nextTickProgram now a = a\<lparr>ap_lastWaitProgram := now, ap_tickWait := True\<rparr>"

definition AppClient_tickTimer :: "timer_result \<Rightarrow> app_client \<Rightarrow> bool \<times> app_client" where
  "AppClient_tickTimer ec a =
     (let a = a\<lparr>ap_tickWait := False\<rparr>
      in case ec of
        Timer_aborted \<Rightarrow> (False, a)
      | Timer_error \<Rightarrow> (False, AppClient_doTerminate 1 a)
      | Timer_expired \<Rightarrow> (True, a))"

definition AppClient_cancelNextTickWait :: "nat \<Rightarrow> app_client \<Rightarrow> u32 \<times> app_client" where
  "AppClient_cancelNextTickWait now a =
     (of_nat (now - ap_lastWaitProgram a), a\<lparr>ap_tickWait := False\<rparr>)"

text \<open>The datagram socket: where a datagram goes, with its hop limit, and whose a received one is.\<close>

definition UdpSession_target ::
    "u32 \<times> u16 \<Rightarrow> u32 \<times> u16 \<Rightarrow> u32 \<Rightarrow> (u32 \<times> u16) \<times> u32" where
  "UdpSession_target remoteEndpoint broadcastEndpoint broadcastRadius =
     (if broadcastRadius > 0 then (broadcastEndpoint, broadcastRadius) else (remoteEndpoint, 128))"

definition UdpSession_origin :: "u32 \<times> u16 \<Rightarrow> u32 \<times> u16 \<Rightarrow> data_origin" where
  "UdpSession_origin remoteEndpoint senderEndpoint =
     (if senderEndpoint = remoteEndpoint then Origin_ConnectedGw else Origin_Any)"

text \<open>Reports of the network.\<close>

definition Session_reportNetworkError :: "app_client \<Rightarrow> app_client" where
  "Session_reportNetworkError a =
     (if ap_networkError a then a
      else AppClient_doTerminate 1 (a\<lparr>ap_networkError := True\<rparr>))"

definition AppClient_dataReport :: "data_buf \<Rightarrow> data_buf \<Rightarrow> app_client \<Rightarrow> data_buf option \<times> app_client" where
  "AppClient_dataReport buf addr a =
     (dataReport_dec (ap_fwdEncPrefix a) buf, a\<lparr>ap_lastAddr := addr\<rparr>)"

text \<open>Reports of the library. The part of the particular program is an argument.\<close>

definition AppClient_connectComplete ::
    "(app_client \<Rightarrow> app_client) \<Rightarrow> async_op_status \<Rightarrow> return_code \<Rightarrow> app_client \<Rightarrow> app_client" where
  "AppClient_connectComplete connectCompleteImpl status returnCode a =
     (if status \<noteq> St_Complete then AppClient_doTerminate 1 a
      else if returnCode \<noteq> Accepted then AppClient_doTerminate 1 a
      else connectCompleteImpl a)"

definition AppClient_disconnectComplete :: "async_op_status \<Rightarrow> app_client \<Rightarrow> app_client" where
  "AppClient_disconnectComplete status a =
     (if status \<noteq> St_Complete then AppClient_doTerminate 1 a else AppClient_doComplete a)"

definition AppClient_gwDisconnectedReport :: "app_client \<Rightarrow> app_client" where
  "AppClient_gwDisconnectedReport a = AppClient_doTerminate 1 a"

section \<open>The publisher\<close>

definition Pub_startImpl :: "library \<Rightarrow> app_opts \<Rightarrow> app_client \<Rightarrow> bool \<times> app_client" where
  "Pub_startImpl lib opts a =
     (let topic = ao_pubTopic opts; topicId = ao_pubTopicId opts
      in if topic = '''' \<and> topicId = 0 then (False, a)
         else if topic \<noteq> '''' \<and> topicId \<noteq> 0 then (False, a)
         else
           let a = a\<lparr>ap_remCount := ao_pubCount opts\<rparr>
           in if ap_remCount a = 0 then (False, a) else AppClient_doConnect lib opts a)"

definition publish_config_of :: "app_opts \<Rightarrow> publish_config" where
  "publish_config_of opts =
     (let data = parseBinaryData (ao_pubMessage opts)
      in \<lparr>pc_data = Some data, pc_dataLen = length data,
          pc_topic = (if ao_pubTopic opts \<noteq> '''' then Some (ao_pubTopic opts) else None),
          pc_topicId = ao_pubTopicId opts, pc_qos = qos_of (ao_pubQos opts),
          pc_retain = ao_pubRetain opts\<rparr>)"

definition Pub_doPublish :: "library \<Rightarrow> app_opts \<Rightarrow> app_client \<Rightarrow> app_client" where
  "Pub_doPublish lib opts a =
     (let (ec, a) = app_call lib (Call_publish (publish_config_of opts)) a
      in if ec = Ec_Success then a else AppClient_doTerminate 1 a)"

definition Pub_doCompleteInternal :: "library \<Rightarrow> app_opts \<Rightarrow> app_client \<Rightarrow> app_client" where
  "Pub_doCompleteInternal lib opts a =
     (if ao_pubNoDisconnect opts then AppClient_doComplete a
      else snd (AppClient_doDisconnect lib a))"

definition Pub_publishComplete ::
    "library \<Rightarrow> app_opts \<Rightarrow> async_op_status \<Rightarrow> return_code option \<Rightarrow> app_client \<Rightarrow> app_client" where
  "Pub_publishComplete lib opts status info a =
     (if status \<noteq> St_Complete then AppClient_doTerminate 1 a
      else if info \<noteq> None \<and> info \<noteq> Some Accepted then AppClient_doTerminate 1 a
      else
        let a = (if ap_remCount a > 0 then a else a\<lparr>ap_asserts := False\<rparr>);
            a = a\<lparr>ap_remCount := ap_remCount a - 1\<rparr>
        in if ap_remCount a = 0 then Pub_doCompleteInternal lib opts a
           else if ao_pubDelay opts = 0 then Pub_doPublish lib opts a
           else a\<lparr>ap_delayWait := True\<rparr>)"

definition Pub_delayTimer :: "library \<Rightarrow> app_opts \<Rightarrow> bool \<Rightarrow> app_client \<Rightarrow> app_client" where
  "Pub_delayTimer lib opts aborted a =
     (let a = a\<lparr>ap_delayWait := False\<rparr>
      in if aborted then a else Pub_doPublish lib opts a)"

section \<open>The subscriber\<close>

definition subscribe_config_of :: "app_opts \<Rightarrow> string \<Rightarrow> u16 \<Rightarrow> subscribe_config" where
  "subscribe_config_of opts topic topicId =
     \<lparr>sc_topic = (if topic \<noteq> '''' then Some topic else None),
      sc_topicId = (if topic \<noteq> '''' then 0 else topicId), sc_qos = qos_of (ao_subQos opts)\<rparr>"

definition Sub_doSubscribe :: "library \<Rightarrow> app_opts \<Rightarrow> string \<Rightarrow> u16 \<Rightarrow> app_client \<Rightarrow> app_client" where
  "Sub_doSubscribe lib opts topic topicId a =
     (let (ec, a) = app_call lib (Call_subscribe (subscribe_config_of opts topic topicId)) a
      in if ec \<noteq> Ec_Success then a else a\<lparr>ap_subCount := ap_subCount a + 1\<rparr>)"

definition Sub_connectCompleteImpl :: "library \<Rightarrow> app_opts \<Rightarrow> app_client \<Rightarrow> app_client" where
  "Sub_connectCompleteImpl lib opts a =
     (if ao_subTopics opts = [] \<and> ao_subTopicIds opts = [] then a
      else
        let a = fold (\<lambda>t. Sub_doSubscribe lib opts t 0) (ao_subTopics opts) a
        in fold (\<lambda>i. Sub_doSubscribe lib opts '''' i) (ao_subTopicIds opts) a)"

definition Sub_startImpl :: "library \<Rightarrow> app_opts \<Rightarrow> app_client \<Rightarrow> bool \<times> app_client" where
  "Sub_startImpl lib opts a = AppClient_doConnect lib opts a"

definition Sub_subscribeComplete :: "app_client \<Rightarrow> app_client" where
  "Sub_subscribeComplete a = a\<lparr>ap_subCount := ap_subCount a - 1\<rparr>"

text \<open>A message as it is printed without the verbose option.\<close>

definition Sub_messageReceived :: "app_opts \<Rightarrow> string \<Rightarrow> data_buf \<Rightarrow> bool \<Rightarrow> app_client \<Rightarrow> app_client" where
  "Sub_messageReceived opts topic data retained a =
     (if retained \<and> ao_subNoRetained opts then a
      else app_print (topic @ '': '' @ toString_data data (ao_subBinary opts)) a)"

section \<open>The discovery of gateways\<close>

definition addrToString_ipv4 :: "data_buf \<Rightarrow> string" where
  "addrToString_ipv4 addr =
     foldl (\<lambda>result b. (if result \<noteq> '''' then result @ ''.'' else result) @ decimal (unat b)) ''''
       (take 4 addr)"

fun gw_status_mark :: "gw_status \<Rightarrow> char \<times> string" where
  "gw_status_mark Gw_AddedByGateway = (CHR ''+'', '' (gw)'')"
| "gw_status_mark Gw_AddedByClient = (CHR ''+'', '' (client)'')"
| "gw_status_mark Gw_UpdatedByClient = (CHR ''='', '' (client)'')"
| "gw_status_mark Gw_Alive = (CHR ''='', '''')"
| "gw_status_mark Gw_Tentative = (CHR ''?'', '''')"
| "gw_status_mark Gw_Removed = (CHR ''-'', '''')"

definition GwDiscover_startImpl :: "library \<Rightarrow> app_opts \<Rightarrow> app_client \<Rightarrow> bool \<times> app_client" where
  "GwDiscover_startImpl lib opts a =
     (let a = (if ao_discoverTimeout opts > 0 then a\<lparr>ap_delayWait := True\<rparr> else a)
      in (True, snd (app_call lib Call_search a)))"

definition GwDiscover_timeout :: "bool \<Rightarrow> app_client \<Rightarrow> app_client" where
  "GwDiscover_timeout aborted a =
     (let a = a\<lparr>ap_delayWait := False\<rparr>
      in if aborted then a else AppClient_doTerminate 0 a)"

definition GwDiscover_gwStatusReport ::
    "library \<Rightarrow> app_opts \<Rightarrow> gw_status \<Rightarrow> u8 \<Rightarrow> data_buf \<Rightarrow> app_client \<Rightarrow> app_client" where
  "GwDiscover_gwStatusReport lib opts status gwId addr a =
     (let (addr, a) = (if status \<in> {Gw_AddedByGateway, Gw_Alive}
            then let (ec, a) = app_call lib (Call_setGatewayInfo gwId (ap_lastAddr a)) a
                 in (ap_lastAddr a, if ec = Ec_Success then a else a\<lparr>ap_asserts := False\<rparr>)
            else (addr, a));
          (mark, suffix) = gw_status_mark status;
          a = app_print ([mark, CHR '' ''] @ decimal (unat gwId) @ '': '' @ addrToString_ipv4 addr @ suffix) a
      in if ao_discoverExitOnFirst opts then AppClient_doTerminate 0 a else a)"

section \<open>Round trips\<close>

subsection \<open>Binary data\<close>

lemma parse_step_bound: "pos < length val \<Longrightarrow> snd (parse_step val pos) \<le> length val"
  by (simp add: parse_step_def Let_def split: option.split)

lemma parse_step_drop:
  assumes "pos < length val"
  shows "parse_step val pos = (fst (parse_step (drop pos val) 0), pos + snd (parse_step (drop pos val) 0))"
proof -
  have "length val - pos \<le> 1 \<longleftrightarrow> length val \<le> pos + 1" "length val - pos < 4 \<longleftrightarrow> length val < pos + 4"
    using assms by auto
  moreover have "take 2 (drop (pos + 2) val) = take 2 (drop 2 (drop pos val))" by (simp add: add.commute)
  ultimately show ?thesis using assms
    by (simp add: parse_step_def Let_def eval_nat_numeral split: option.split)
qed

text \<open>The text read from its first character on.\<close>

function parse_text :: "string \<Rightarrow> data_buf" where
  "parse_text s =
     (if s = [] then [] else fst (parse_step s 0) # parse_text (drop (snd (parse_step s 0)) s))"
  by pat_completeness auto
termination
proof (relation "measure length")
  fix s :: string assume "s \<noteq> []"
  then show "(drop (snd (parse_step s 0)) s, s) \<in> measure length"
    using parse_step_forward [of 0 s] by simp
qed simp

declare parse_text.simps [simp del]

lemma parse_loop_text:
  "pos \<le> length val \<Longrightarrow> parseBinaryData_loop val pos r = r @ parse_text (drop pos val)"
proof (induction val pos r rule: parseBinaryData_loop.induct)
  case (1 val pos r)
  show ?case
  proof (cases "pos < length val")
    case True
    then have "parseBinaryData_loop val pos r =
        (r @ [fst (parse_step val pos)]) @ parse_text (drop (snd (parse_step val pos)) val)"
      using 1 parse_step_bound [OF True] by (subst parseBinaryData_loop.simps) simp
    then show ?thesis using True parse_step_drop [OF True]
      by (subst parse_text.simps) (simp add: add.commute)
  qed (use 1 in \<open>simp add: parseBinaryData_loop.simps parse_text.simps\<close>)
qed

lemma parseBinaryData_text: "parseBinaryData val = parse_text val"
  using parse_loop_text [of 0 val "[]"] by (simp add: parseBinaryData_def)

text \<open>The two digits of a byte are read back.\<close>

lemma hex_digit_value: "n < 16 \<Longrightarrow> digit_value (hex_digit n) = int n \<and> \<not> isspace (hex_digit n) \<and>
    hex_digit n \<noteq> CHR ''-'' \<and> hex_digit n \<noteq> CHR ''+''"
proof -
  have "list_all (\<lambda>n. digit_value (hex_digit n) = int n \<and> \<not> isspace (hex_digit n) \<and>
      hex_digit n \<noteq> CHR ''-'' \<and> hex_digit n \<noteq> CHR ''+'') [0..<16]"
    by code_simp
  then show "n < 16 \<Longrightarrow> ?thesis" by (simp add: list_all_iff)
qed

lemma stoul_hex2: "stoul 16 (hex2 b) = Some (ucast b)"
proof -
  have u: "unat b < 256" using unsigned_less [of b] by simp
  then have d: "unat b div 16 < 16" "unat b mod 16 < 16" by auto
  note v = hex_digit_value [OF d(1)] hex_digit_value [OF d(2)]
  have "int (unat b div 16) * 16 + int (unat b mod 16) = int (unat b)"
    by presburger
  moreover have "word_of_int (int (unat b)) = (ucast b :: u64)" by (metis of_int_of_nat_eq of_nat_unat)
  moreover have "uint b < 256" using uint_lt2p [of b] by simp
  ultimately show ?thesis using v d
    by (simp add: stoul_def hex2_def is_digit_def digits_value_def Let_def)
qed

fun escape_hex :: "data_buf \<Rightarrow> string" where
  "escape_hex [] = ''''"
| "escape_hex (b # bs) = [CHR 0x5C, CHR ''x''] @ hex2 b @ escape_hex bs"

fun escape_backslash :: "string \<Rightarrow> string" where
  "escape_backslash [] = ''''"
| "escape_backslash (c # s) = (if c = CHR 0x5C then [c, c] else [c]) @ escape_backslash s"

lemma parse_text_hex: "parse_text ([CHR 0x5C, CHR ''x''] @ hex2 b @ s) = b # parse_text s"
proof -
  obtain x y where xy: "hex2 b = [x, y]" by (simp add: hex2_def)
  have "parse_step (CHR 0x5C # CHR ''x'' # x # y # s) 0 = (ucast (ucast b :: u64), 4)"
    using stoul_hex2 [of b] by (simp add: parse_step_def xy)
  moreover have "ucast (ucast b :: u64) = b" by (rule bit_word_eqI) (simp add: bit_ucast_iff)
  ultimately show ?thesis by (subst parse_text.simps) (simp add: xy)
qed

lemma parse_text_char:
  "c \<noteq> CHR 0x5C \<Longrightarrow> parse_text (c # s) = of_char c # parse_text s"
  "parse_text (CHR 0x5C # CHR 0x5C # s) = 0x5C # parse_text s"
  by (subst parse_text.simps, simp add: parse_step_def)+

text \<open>Data on the command line. Bytes written in hexadecimal, each with the prefix of a backslash and
  the letter x, are read back as these bytes, and so is a text in which every backslash is doubled.\<close>

theorem binary_data_roundtrip:
  "parseBinaryData (escape_hex bs) = bs \<and> parseBinaryData (escape_backslash s) = map of_char s"
proof
  show "parseBinaryData (escape_hex bs) = bs" unfolding parseBinaryData_text
  proof (induction bs)
    case (Cons b bs)
    then show ?case by (simp only: escape_hex.simps parse_text_hex)
  qed (simp add: parse_text.simps)
  show "parseBinaryData (escape_backslash s) = map of_char s" unfolding parseBinaryData_text
    by (induction s) (simp_all add: parse_text_char parse_text.simps [of "[]"])
qed

text \<open>A malformed byte is not kept as text: the number ends at the first character that is no digit,
  and both characters are consumed.\<close>

theorem malformed_hex_byte_accepted:
  "parseBinaryData [CHR 0x5C, CHR ''x'', CHR ''5'', CHR ''g''] = [5] \<and>
   parseBinaryData [CHR 0x5C, CHR ''x'', CHR ''-'', CHR ''1''] = [0xFF]"
  by code_simp

subsection \<open>Forwarder encapsulation\<close>

text \<open>The encapsulation of a payload for a node, with any control byte.\<close>

definition encapsulated :: "u8 \<Rightarrow> data_buf \<Rightarrow> data_buf \<Rightarrow> data_buf" where
  "encapsulated ctrl nodeId buf = [of_nat (3 + length nodeId), FwdEncMsgType, ctrl] @ nodeId @ buf"

text \<open>C35. Forwarder encapsulation. What the program sends is the encapsulation of the data for its own
  node. A received datagram is given to the library exactly when it is an encapsulation, for that node,
  of data that are not empty, whatever the control byte; then these data are given. The length
  field of the encapsulation holds its length exactly for node ids of less than 253 bytes.\<close>

theorem encapsulation_roundtrip:
  assumes "nodeId \<noteq> []"
  shows "sendData_enc (fwdEncPrefix nodeId) buf = encapsulated 0 nodeId buf \<and>
    (dataReport_dec (fwdEncPrefix nodeId) dgram = Some buf \<longleftrightarrow>
       buf \<noteq> [] \<and> (\<exists>ctrl. dgram = encapsulated ctrl nodeId buf)) \<and>
    (unat (hd (fwdEncPrefix nodeId)) = length (fwdEncPrefix nodeId) \<longleftrightarrow> length nodeId < 253)"
proof -
  let ?len = "of_nat (3 + length nodeId) :: u8"
  have pre: "fwdEncPrefix nodeId = ?len # FwdEncMsgType # 0 # nodeId"
    using assms(1) by (simp add: fwdEncPrefix_def Let_def)
  have sent: "sendData_enc (fwdEncPrefix nodeId) buf = encapsulated 0 nodeId buf"
    by (simp add: sendData_enc_def pre encapsulated_def)
  have "unat ?len = (3 + length nodeId) mod 256" by (simp only: unat_of_nat) simp
  moreover have "(3 + n) mod 256 = 3 + n \<longleftrightarrow> n < 253" for n :: nat
    using mod_less_divisor [of 256 "3 + n"] by (cases "n < 253") (simp, linarith)
  moreover have "length (fwdEncPrefix nodeId) = 3 + length nodeId" "hd (fwdEncPrefix nodeId) = ?len"
    by (simp_all add: pre)
  ultimately have length: "unat (hd (fwdEncPrefix nodeId)) = length (fwdEncPrefix nodeId) \<longleftrightarrow> length nodeId < 253"
    by (simp only:)
  have "dataReport_dec (fwdEncPrefix nodeId) dgram = Some buf \<longleftrightarrow>
      buf \<noteq> [] \<and> (\<exists>ctrl. dgram = encapsulated ctrl nodeId buf)" (is "?got \<longleftrightarrow> ?enc")
  proof
    assume got: ?got
    then have len: "length nodeId + 3 < length dgram" by (simp add: dataReport_dec_def pre split: if_splits)
    then obtain a b c rest where d: "dgram = a # b # c # rest" "length nodeId < length rest"
      by (cases dgram; cases "tl dgram"; cases "tl (tl dgram)") auto
    have "a = ?len" "b = FwdEncMsgType" "take (length nodeId) rest = nodeId" "buf = drop (length nodeId) rest"
      using got by (simp_all add: dataReport_dec_def pre d split: if_splits)
    then have "dgram = encapsulated c nodeId buf" "buf \<noteq> []"
      using d append_take_drop_id [of "length nodeId" rest] by (simp_all add: encapsulated_def)
    then show ?enc by blast
  next
    assume ?enc
    then show ?got by (auto simp: dataReport_dec_def pre encapsulated_def)
  qed
  with sent length show ?thesis by blast
qed

theorem encapsulation_roundtrip_witness:
  "sendData_enc (fwdEncPrefix [7]) [2, 24] = [4, 0xFE, 0, 7, 2, 24] \<and>
   dataReport_dec (fwdEncPrefix [7]) [4, 0xFE, 3, 7, 2, 22] = Some [2, 22]"
proof -
  have "[4, 0xFE, 3, 7, 2, 22] = encapsulated 3 [7] [2, 22]"
    by (simp add: encapsulated_def FwdEncMsgType_def)
  then show ?thesis using encapsulation_roundtrip [of "[7]" "[2, 24]"]
      encapsulation_roundtrip [of "[7]" "[2, 22]" "[4, 0xFE, 3, 7, 2, 22]"]
    by (auto simp: encapsulated_def FwdEncMsgType_def)
qed

section \<open>The publisher, step by step\<close>

fun is_connect :: "lib_call \<Rightarrow> bool" where
  "is_connect (Call_connect c w) = True"
| "is_connect c = False"

fun is_publish :: "lib_call \<Rightarrow> bool" where
  "is_publish (Call_publish c) = True"
| "is_publish c = False"

datatype pub_event =
    Pe_connectComplete async_op_status return_code
  | Pe_publishComplete async_op_status "return_code option"
  | Pe_delay
  | Pe_disconnectComplete async_op_status
  | Pe_gwDisconnected
  | Pe_networkError
  | Pe_posted

text \<open>The library reports the end of an operation once and only for an accepted call; a timer and a
  posted callback run only when they are armed and posted.\<close>

fun pub_enabled :: "pub_event \<Rightarrow> app_client \<Rightarrow> bool" where
  "pub_enabled (Pe_connectComplete st rc) a \<longleftrightarrow> list_ex is_connect (ap_due a)"
| "pub_enabled (Pe_publishComplete st info) a \<longleftrightarrow> list_ex is_publish (ap_due a)"
| "pub_enabled Pe_delay a \<longleftrightarrow> ap_delayWait a"
| "pub_enabled (Pe_disconnectComplete st) a \<longleftrightarrow> Call_disconnect \<in> set (ap_due a)"
| "pub_enabled Pe_gwDisconnected a \<longleftrightarrow> True"
| "pub_enabled Pe_networkError a \<longleftrightarrow> True"
| "pub_enabled Pe_posted a \<longleftrightarrow> 0 < ap_posted a"

definition due_done :: "(lib_call \<Rightarrow> bool) \<Rightarrow> app_client \<Rightarrow> app_client" where
  "due_done P a = a\<lparr>ap_due := erase_first P (ap_due a)\<rparr>"

fun pub_handler :: "library \<Rightarrow> app_opts \<Rightarrow> pub_event \<Rightarrow> app_client \<Rightarrow> app_client" where
  "pub_handler lib opts (Pe_connectComplete st rc) a =
     AppClient_connectComplete (Pub_doPublish lib opts) st rc (due_done is_connect a)"
| "pub_handler lib opts (Pe_publishComplete st info) a =
     Pub_publishComplete lib opts st info (due_done is_publish a)"
| "pub_handler lib opts Pe_delay a = Pub_delayTimer lib opts False a"
| "pub_handler lib opts (Pe_disconnectComplete st) a =
     AppClient_disconnectComplete st (due_done (\<lambda>c. c = Call_disconnect) a)"
| "pub_handler lib opts Pe_gwDisconnected a = AppClient_gwDisconnectedReport a"
| "pub_handler lib opts Pe_networkError a = Session_reportNetworkError a"
| "pub_handler lib opts Pe_posted a = AppClient_posted a"

text \<open>A publication has been completed with success.\<close>

fun pub_success :: "pub_event \<Rightarrow> bool" where
  "pub_success (Pe_publishComplete st info) \<longleftrightarrow> st = St_Complete \<and> (info = None \<or> info = Some Accepted)"
| "pub_success e \<longleftrightarrow> False"

text \<open>Runs of the program until the event loop stops, with the number of publications that have been
  completed.\<close>

inductive pub_run :: "library \<Rightarrow> app_opts \<Rightarrow> nat \<Rightarrow> app_client \<Rightarrow> bool" for lib opts where
  pub_started: "AppClient_start lib True (Pub_startImpl lib opts) False opts AppClient_init = (True, a) \<Longrightarrow>
     pub_run lib opts 0 a"
| pub_step: "pub_run lib opts k a \<Longrightarrow> \<not> ap_stopped a \<Longrightarrow> pub_enabled e a \<Longrightarrow>
     pub_run lib opts (if pub_success e then k + 1 else k) (pub_handler lib opts e a)"

definition published :: "app_client \<Rightarrow> nat" where
  "published a = length (filter is_publish (ap_calls a))"

text \<open>Where the program is, told by what it waits for. The last line is the program whose request to
  disconnect has been refused.\<close>

fun pub_phase :: "nat \<Rightarrow> lib_call list \<Rightarrow> app_client \<Rightarrow> bool" where
  "pub_phase k [c] a \<longleftrightarrow> \<not> ap_delayWait a \<and> ap_posted a = 0 \<and>
     (is_connect c \<and> published a = 0 \<and> k = 0 \<and> ap_remCount a \<noteq> 0 \<or>
      is_publish c \<and> published a = k + 1 \<and> ap_remCount a \<noteq> 0 \<or>
      c = Call_disconnect \<and> published a = k \<and> ap_remCount a = 0)"
| "pub_phase k [] a \<longleftrightarrow> published a = k \<and>
     (ap_delayWait a \<and> ap_posted a = 0 \<and> ap_remCount a \<noteq> 0 \<or>
      \<not> ap_delayWait a \<and> ap_posted a = 1 \<and> ap_remCount a = 0 \<or>
      \<not> ap_delayWait a \<and> ap_posted a = 0 \<and> ap_remCount a = 0 \<and> Call_disconnect \<in> set (ap_calls a))"
| "pub_phase k _ a \<longleftrightarrow> False"

definition pub_inv :: "app_opts \<Rightarrow> nat \<Rightarrow> app_client \<Rightarrow> bool" where
  "pub_inv opts k a \<longleftrightarrow> ap_asserts a \<and> unat (ap_remCount a) + k = unat (ao_pubCount opts) \<and>
     (if ap_stopped a
      then k \<le> published a \<and> published a \<le> unat (ao_pubCount opts) \<and> (ap_result a = 0 \<longrightarrow> ap_remCount a = 0)
      else pub_phase k (ap_due a) a)"

lemmas pub_defs = AppClient_connectComplete_def Pub_publishComplete_def Pub_delayTimer_def
  AppClient_disconnectComplete_def AppClient_gwDisconnectedReport_def Session_reportNetworkError_def
  AppClient_posted_def AppClient_doTerminate_def AppClient_doComplete_def Pub_doPublish_def
  Pub_doCompleteInternal_def AppClient_doDisconnect_def app_call_def due_done_def Let_def

lemma pub_published [simp]:
  "published (a\<lparr>ap_due := d\<rparr>) = published a" "published (a\<lparr>ap_posted := p\<rparr>) = published a"
  "published (a\<lparr>ap_delayWait := w\<rparr>) = published a" "published (a\<lparr>ap_remCount := r\<rparr>) = published a"
  "published (a\<lparr>ap_networkError := n\<rparr>) = published a" "published (a\<lparr>ap_asserts := n\<rparr>) = published a"
  "published (a\<lparr>ap_result := i, ap_stopped := s\<rparr>) = published a"
  by (simp_all add: published_def)

text \<open>A phase is told by the list of calls that are due.\<close>

lemma pub_phase_due:
  "pub_phase k d a \<Longrightarrow> d = [] \<or> (\<exists>c. d = [c])"
  by (cases "(k, d, a)" rule: pub_phase.cases) auto

lemma rem_pred:
  "ap_remCount a \<noteq> 0 \<Longrightarrow> unat (ap_remCount a) + k = n \<Longrightarrow> unat (ap_remCount a - 1) + (k + 1) = n"
  using unat_gt_0 [of "ap_remCount a"] by (simp add: unat_minus_one)

lemma call_kinds:
  "is_connect c \<longleftrightarrow> (\<exists>cc w. c = Call_connect cc w)" "is_publish c \<longleftrightarrow> (\<exists>pc. c = Call_publish pc)"
  by (cases c; simp)+

lemma pub_inv_publish:
  assumes "ap_asserts a" "unat (ap_remCount a) + k = unat (ao_pubCount opts)" "published a = k"
    "ap_remCount a \<noteq> 0" "\<not> ap_stopped a" "\<not> ap_delayWait a" "ap_posted a = 0" "ap_due a = []"
  shows "pub_inv opts k (Pub_doPublish lib opts a)"
proof -
  have "0 < unat (ap_remCount a)" using assms(4) by (simp add: unat_gt_0)
  then show ?thesis using assms
    by (simp add: pub_inv_def Pub_doPublish_def app_call_def AppClient_doTerminate_def published_def Let_def)
qed

lemma pub_inv_finish:
  assumes "ap_asserts a" "unat (ap_remCount a) + k = unat (ao_pubCount opts)" "published a = k"
    "ap_remCount a = 0" "\<not> ap_stopped a" "\<not> ap_delayWait a" "ap_posted a = 0" "ap_due a = []"
  shows "pub_inv opts k (Pub_doCompleteInternal lib opts a)"
  using assms
  by (simp add: pub_inv_def Pub_doCompleteInternal_def AppClient_doComplete_def AppClient_doDisconnect_def
      app_call_def published_def Let_def)

lemma pub_inv_stop:
  assumes "ap_asserts a" "unat (ap_remCount a) + k = unat (ao_pubCount opts)" "k \<le> published a"
    "published a \<le> unat (ao_pubCount opts)"
  shows "pub_inv opts k (AppClient_doTerminate 1 a)"
  using assms by (simp add: pub_inv_def AppClient_doTerminate_def)

text \<open>What the invariant says of a program that runs.\<close>

lemma pub_inv_counts:
  assumes "pub_inv opts k a" "\<not> ap_stopped a"
  shows "ap_asserts a" "unat (ap_remCount a) + k = unat (ao_pubCount opts)" "k \<le> published a"
    "published a \<le> unat (ao_pubCount opts)"
proof -
  have phase: "pub_phase k (ap_due a) a" using assms by (simp add: pub_inv_def)
  show c: "ap_asserts a" "unat (ap_remCount a) + k = unat (ao_pubCount opts)"
    using assms by (simp_all add: pub_inv_def)
  have "ap_remCount a \<noteq> 0 \<Longrightarrow> 0 < unat (ap_remCount a)" by (simp add: unat_gt_0)
  then have "k \<le> published a \<and> published a \<le> unat (ao_pubCount opts)"
    using pub_phase_due [OF phase] phase c(2) by auto
  then show "k \<le> published a" "published a \<le> unat (ao_pubCount opts)" by simp_all
qed

lemma pub_inv_step:
  assumes inv: "pub_inv opts k a" and run: "\<not> ap_stopped a" and en: "pub_enabled e a"
  shows "pub_inv opts (if pub_success e then k + 1 else k) (pub_handler lib opts e a)"
proof -
  note c = pub_inv_counts [OF inv run]
  have phase: "pub_phase k (ap_due a) a" using inv run by (simp add: pub_inv_def)
  show ?thesis
  proof (cases e)
    case (Pe_connectComplete st rc)
    then obtain cc w where due: "ap_due a = [Call_connect cc w]"
      using en pub_phase_due [OF phase] by (auto simp: call_kinds)
    have "pub_inv opts k (Pub_doPublish lib opts (due_done is_connect a))"
      using phase c run by (intro pub_inv_publish) (auto simp: due due_done_def)
    moreover have "pub_inv opts k (AppClient_doTerminate 1 (due_done is_connect a))"
      using c by (intro pub_inv_stop) (auto simp: due_done_def)
    ultimately show ?thesis by (simp add: Pe_connectComplete AppClient_connectComplete_def)
  next
    case (Pe_publishComplete st info)
    then obtain pc where due: "ap_due a = [Call_publish pc]"
      using en pub_phase_due [OF phase] by (auto simp: call_kinds)
    have rem: "ap_remCount a \<noteq> 0" "published a = k + 1" "\<not> ap_delayWait a" "ap_posted a = 0"
      using phase by (simp_all add: due)
    let ?a = "(due_done is_publish a)\<lparr>ap_remCount := ap_remCount a - 1\<rparr>"
    have ?thesis if "\<not> pub_success e"
    proof -
      have "pub_inv opts k (AppClient_doTerminate 1 (due_done is_publish a))"
        using c by (intro pub_inv_stop) (auto simp: due_done_def)
      then show ?thesis using that by (auto simp: Pe_publishComplete Pub_publishComplete_def)
    qed
    moreover have ?thesis if ok: "pub_success e"
    proof -
      have fin: "pub_inv opts (k + 1) (Pub_doCompleteInternal lib opts ?a)" if "ap_remCount a - 1 = 0"
        using that c rem run rem_pred [OF rem(1) c(2)] by (intro pub_inv_finish) (simp_all add: due_done_def due)
      have again: "pub_inv opts (k + 1) (Pub_doPublish lib opts ?a)" if "ap_remCount a - 1 \<noteq> 0"
        using that c rem run rem_pred [OF rem(1) c(2)] by (intro pub_inv_publish) (simp_all add: due_done_def due)
      have wait: "pub_inv opts (k + 1) (?a\<lparr>ap_delayWait := True\<rparr>)" if "ap_remCount a - 1 \<noteq> 0"
        using that c rem run rem_pred [OF rem(1) c(2)] by (simp add: pub_inv_def due_done_def due)
      show ?thesis using ok fin again wait rem(1)
        by (auto simp: Pe_publishComplete Pub_publishComplete_def due_done_def Let_def word_gt_0)
    qed
    ultimately show ?thesis by blast
  next
    case Pe_delay
    then have due: "ap_due a = []" using en phase pub_phase_due [OF phase] by auto
    then have "pub_inv opts k (Pub_doPublish lib opts (a\<lparr>ap_delayWait := False\<rparr>))"
      using phase c run en Pe_delay by (intro pub_inv_publish) auto
    then show ?thesis by (simp add: Pe_delay Pub_delayTimer_def)
  next
    case (Pe_disconnectComplete st)
    then have due: "ap_due a = [Call_disconnect]" using en pub_phase_due [OF phase] by auto
    then show ?thesis using phase c run pub_inv_stop [of "due_done (\<lambda>c. c = Call_disconnect) a"]
      by (simp add: Pe_disconnectComplete AppClient_disconnectComplete_def pub_inv_def AppClient_doComplete_def due_done_def)
  next
    case Pe_gwDisconnected
    then show ?thesis using pub_inv_stop [OF c] by (simp add: AppClient_gwDisconnectedReport_def)
  next
    case Pe_networkError
    then show ?thesis using inv pub_inv_stop [of "a\<lparr>ap_networkError := True\<rparr>"] c
      by (simp add: Session_reportNetworkError_def)
  next
    case Pe_posted
    then have due: "ap_due a = []" using en phase pub_phase_due [OF phase] by auto
    then show ?thesis using phase c en Pe_posted
      by (auto simp: AppClient_posted_def AppClient_doTerminate_def pub_inv_def)
  qed
qed

lemma pub_started_inv:
  assumes "AppClient_start lib True (Pub_startImpl lib opts) False opts AppClient_init = (True, a)"
  shows "pub_inv opts 0 a"
  using assms
  by (auto simp: AppClient_start_def Pub_startImpl_def AppClient_doConnect_def app_call_def
      AppClient_init_def pub_inv_def published_def Let_def split: if_splits)

lemma pub_run_inv: "pub_run lib opts k a \<Longrightarrow> pub_inv opts k a"
  by (induction rule: pub_run.induct) (rule pub_started_inv pub_inv_step; assumption)+

text \<open>At any time at most one publication is not completed, also when the program has stopped.\<close>

lemma pub_run_one: "pub_run lib opts k a \<Longrightarrow> published a \<le> k + 1"
proof (induction rule: pub_run.induct)
  case (pub_started a)
  then show ?case using pub_started_inv [OF pub_started]
    by (auto simp: AppClient_start_def Pub_startImpl_def AppClient_doConnect_def app_call_def
        AppClient_init_def published_def Let_def split: if_splits)
next
  case (pub_step k a e)
  have phase: "pub_phase k (ap_due a) a" using pub_run_inv [OF pub_step(1)] pub_step(2) by (simp add: pub_inv_def)
  show ?case using pub_phase_due [OF phase] phase pub_step(3)
    by (cases e) (auto simp: pub_defs published_def call_kinds split: if_splits)
qed

text \<open>C17. The publisher publishes the number of times it was told. However the library and the
  network answer, its assertion holds, at most the requested number of publications is started and at
  most one of them is not completed; and when the program ends with the result 0, all of them have been started and
  completed with success.\<close>

theorem pub_publishes_count:
  assumes "pub_run lib opts k a"
  shows "ap_asserts a \<and> published a \<le> unat (ao_pubCount opts) \<and> k \<le> published a \<and> published a \<le> k + 1 \<and>
    (ap_stopped a \<and> ap_result a = 0 \<longrightarrow>
       published a = unat (ao_pubCount opts) \<and> k = unat (ao_pubCount opts))"
proof -
  have inv: "pub_inv opts k a" using assms by (rule pub_run_inv)
  have one: "published a \<le> k + 1" using assms by (rule pub_run_one)
  show ?thesis
  proof (cases "ap_stopped a")
    case True
    then show ?thesis using inv one by (auto simp: pub_inv_def)
  next
    case False
    then show ?thesis using pub_inv_counts [OF inv False] one by simp
  qed
qed

text \<open>The publisher waits for nothing only at the end. While it runs, something it has asked for is
  under way; the one exception is the program whose request to disconnect the library has refused after the last
  publication: the answer is not looked at, and the program stays.\<close>

theorem pub_progress:
  assumes "pub_run lib opts k a" "\<not> ap_stopped a"
  shows "ap_due a \<noteq> [] \<or> ap_delayWait a \<or> 0 < ap_posted a \<or>
    k = unat (ao_pubCount opts) \<and> Call_disconnect \<in> set (ap_calls a)"
proof -
  have inv: "pub_inv opts k a" using assms(1) by (rule pub_run_inv)
  then show ?thesis using assms(2) by (cases "ap_due a") (auto simp: pub_inv_def)
qed

text \<open>Runs can be executed.\<close>

fun pub_exec :: "library \<Rightarrow> app_opts \<Rightarrow> pub_event list \<Rightarrow> nat \<Rightarrow> app_client \<Rightarrow> (nat \<times> app_client) option" where
  "pub_exec lib opts [] k a = Some (k, a)"
| "pub_exec lib opts (e # es) k a =
     (if ap_stopped a \<or> \<not> pub_enabled e a then None
      else pub_exec lib opts es (if pub_success e then k + 1 else k) (pub_handler lib opts e a))"

lemma pub_exec_run:
  "pub_run lib opts k a \<Longrightarrow> pub_exec lib opts es k a = Some (k', a') \<Longrightarrow> pub_run lib opts k' a'"
  by (induction lib opts es k a rule: pub_exec.induct) (auto dest: pub_step split: if_splits)

definition ex_opts :: app_opts where
  "ex_opts = ProgramOptions_defaults\<lparr>ao_connectClientId := ''pub'', ao_pubTopic := ''a/b'',
     ao_pubMessage := ''hi'', ao_pubQos := 1, ao_pubCount := 2\<rparr>"

definition ex_publish_events :: "pub_event list" where
  "ex_publish_events = [Pe_connectComplete St_Complete Accepted, Pe_publishComplete St_Complete (Some Accepted),
     Pe_delay, Pe_publishComplete St_Complete (Some Accepted)]"

definition ex_pub :: "library \<Rightarrow> app_client" where
  "ex_pub lib = snd (AppClient_start lib True (Pub_startImpl lib ex_opts) False ex_opts AppClient_init)"

text \<open>Two publications and the disconnection.\<close>

theorem pub_publishes_count_witness:
  "let lib = (\<lambda>_ _. Ec_Success);
       a = snd (the (pub_exec lib ex_opts (ex_publish_events @ [Pe_disconnectComplete St_Complete, Pe_posted]) 0 (ex_pub lib)))
   in ap_stopped a \<and> ap_result a = 0 \<and> published a = 2"
proof -
  let ?lib = "\<lambda>_ _. Ec_Success"
  let ?x = "pub_exec ?lib ex_opts (ex_publish_events @ [Pe_disconnectComplete St_Complete, Pe_posted]) 0 (ex_pub ?lib)"
  have "AppClient_start ?lib True (Pub_startImpl ?lib ex_opts) False ex_opts AppClient_init = (True, ex_pub ?lib)"
    by (simp add: ex_pub_def prod_eq_iff) code_simp
  then have start: "pub_run ?lib ex_opts 0 (ex_pub ?lib)" by (rule pub_started)
  have x: "?x \<noteq> None" "ap_stopped (snd (the ?x))" "ap_result (snd (the ?x)) = 0" "unat (ao_pubCount ex_opts) = 2"
    by code_simp+
  then obtain k a where ka: "?x = Some (k, a)" by auto
  from pub_publishes_count [OF pub_exec_run [OF start ka]] x ka show ?thesis by (simp add: Let_def)
qed

text \<open>The library accepts everything but the disconnection: the program waits for nothing.\<close>

theorem pub_progress_witness:
  "let lib = (\<lambda>_ c. if c = Call_disconnect then Ec_Disconnecting else Ec_Success);
       a = snd (the (pub_exec lib ex_opts ex_publish_events 0 (ex_pub lib)))
   in \<not> ap_stopped a \<and> ap_due a = [] \<and> \<not> ap_delayWait a \<and> ap_posted a = 0 \<and>
      Call_disconnect \<in> set (ap_calls a)"
proof -
  let ?lib = "\<lambda>_ c. if c = Call_disconnect then Ec_Disconnecting else Ec_Success"
  let ?x = "pub_exec ?lib ex_opts ex_publish_events 0 (ex_pub ?lib)"
  have "AppClient_start ?lib True (Pub_startImpl ?lib ex_opts) False ex_opts AppClient_init = (True, ex_pub ?lib)"
    by (simp add: ex_pub_def prod_eq_iff) code_simp
  then have start: "pub_run ?lib ex_opts 0 (ex_pub ?lib)" by (rule pub_started)
  have x: "?x \<noteq> None" "\<not> ap_stopped (snd (the ?x))" "ap_due (snd (the ?x)) = []" "\<not> ap_delayWait (snd (the ?x))"
    "ap_posted (snd (the ?x)) = 0"
    by code_simp+
  then obtain k a where ka: "?x = Some (k, a)" by auto
  from pub_progress [OF pub_exec_run [OF start ka]] x ka show ?thesis by (simp add: Let_def)
qed

section \<open>The subscriber and the discovery\<close>

lemma doSubscribe_due:
  "ap_calls (Sub_doSubscribe lib opts t i a) = ap_calls a @ [Call_subscribe (subscribe_config_of opts t i)]"
  "\<exists>d. ap_due (Sub_doSubscribe lib opts t i a) = ap_due a @ d \<and>
     ap_subCount (Sub_doSubscribe lib opts t i a) = ap_subCount a + of_nat (length d)"
  by (auto simp: Sub_doSubscribe_def app_call_def Let_def)

lemma doSubscribe_fold:
  "ap_calls (fold (\<lambda>x. Sub_doSubscribe lib opts (f x) (g x)) xs a) =
     ap_calls a @ map (\<lambda>x. Call_subscribe (subscribe_config_of opts (f x) (g x))) xs \<and>
   (\<exists>d. ap_due (fold (\<lambda>x. Sub_doSubscribe lib opts (f x) (g x)) xs a) = ap_due a @ d \<and>
     ap_subCount (fold (\<lambda>x. Sub_doSubscribe lib opts (f x) (g x)) xs a) = ap_subCount a + of_nat (length d))"
proof (induction xs arbitrary: a)
  case (Cons x xs)
  let ?a = "Sub_doSubscribe lib opts (f x) (g x) a"
  obtain d where d: "ap_due ?a = ap_due a @ d" "ap_subCount ?a = ap_subCount a + of_nat (length d)"
    using doSubscribe_due(2) by blast
  from Cons [of ?a] obtain d' where
    "ap_due (fold (\<lambda>x. Sub_doSubscribe lib opts (f x) (g x)) xs ?a) = ap_due ?a @ d'"
    "ap_subCount (fold (\<lambda>x. Sub_doSubscribe lib opts (f x) (g x)) xs ?a) = ap_subCount ?a + of_nat (length d')"
    by blast
  then have "ap_due (fold (\<lambda>x. Sub_doSubscribe lib opts (f x) (g x)) (x # xs) a) = ap_due a @ (d @ d')"
    "ap_subCount (fold (\<lambda>x. Sub_doSubscribe lib opts (f x) (g x)) (x # xs) a) = ap_subCount a + of_nat (length (d @ d'))"
    using d by simp_all
  then show ?case using Cons [of ?a] doSubscribe_due(1) [of lib opts "f x" "g x" a]
    by (metis (no_types, lifting) append.assoc append_Cons append_Nil fold_simps(2) list.map(2))
qed simp

text \<open>The subscriber asks for every topic and then for every topic id of its command line, once and
  in order, whatever the library answers, and counts exactly the subscriptions whose report is due.\<close>

theorem sub_subscribes_all:
  "let a' = Sub_connectCompleteImpl lib opts a in
   ap_calls a' = ap_calls a @
     map (\<lambda>t. Call_subscribe (subscribe_config_of opts t 0)) (ao_subTopics opts) @
     map (\<lambda>i. Call_subscribe (subscribe_config_of opts '''' i)) (ao_subTopicIds opts) \<and>
   ap_subCount a' = ap_subCount a + of_nat (length (ap_due a') - length (ap_due a)) \<and>
   length (ap_due a) \<le> length (ap_due a')"
proof -
  let ?b = "fold (\<lambda>t. Sub_doSubscribe lib opts t 0) (ao_subTopics opts) a"
  let ?c = "fold (\<lambda>i. Sub_doSubscribe lib opts '''' i) (ao_subTopicIds opts) ?b"
  have "?c = Sub_connectCompleteImpl lib opts a"
    by (simp add: Sub_connectCompleteImpl_def Let_def)
  moreover obtain d where "ap_due ?b = ap_due a @ d" "ap_subCount ?b = ap_subCount a + of_nat (length d)"
    using doSubscribe_fold [of lib opts "\<lambda>t. t" "\<lambda>_. 0" "ao_subTopics opts" a] by blast
  moreover obtain d' where "ap_due ?c = ap_due ?b @ d'" "ap_subCount ?c = ap_subCount ?b + of_nat (length d')"
    using doSubscribe_fold [of lib opts "\<lambda>_. ''''" "\<lambda>i. i" "ao_subTopicIds opts" ?b] by blast
  ultimately show ?thesis
    using doSubscribe_fold [of lib opts "\<lambda>t. t" "\<lambda>_. 0" "ao_subTopics opts" a]
      doSubscribe_fold [of lib opts "\<lambda>_. ''''" "\<lambda>i. i" "ao_subTopicIds opts" ?b]
    by (simp add: Let_def)
qed

theorem addrToString_dotted:
  "addrToString_ipv4 [a, b, c, d] =
     decimal (unat a) @ ''.'' @ decimal (unat b) @ ''.'' @ decimal (unat c) @ ''.'' @ decimal (unat d)"
  by (simp add: addrToString_ipv4_def decimal_nonempty del: decimal.simps)

end
