(* ===== verification/Spec2Isabelle.thy ===== *)
theory Spec2Isabelle
  imports Gw_Flows Gw_Supervision Ga_Startup Cl_Example Ap_Client
begin

text \<open>
  \<^bold>\<open>Verification of the MQTT-SN gateway and client of cc.mqttsn.libs.\<close>

  The repository holds a gateway library (\<^verbatim>\<open>src/gateway/lib\<close>) that translates between MQTT-SN clients
  and an MQTT broker, an application over it (\<^verbatim>\<open>src/gateway/app\<close>), and a client library with its
  applications (\<^verbatim>\<open>src/client\<close>). This development models both libraries and their applications: of the
  gateway the session of a client with its operations, the registry of topics, the configuration
  reader and the advertiser; of the client its operations, timers, tables of topics and the calls of
  the application; of the gateway application its sockets, its sessions and its start; of the client
  applications the publisher, the subscriber and the discovery of gateways.

  \<^bold>\<open>The program.\<close> A \<^verbatim>\<open>Session\<close> (\<^verbatim>\<open>SessionImpl\<close>) serves one client. The application calls it with bytes
  from the client, bytes from the broker, a change of the broker connection, or the expiry of a timer.
  Every call is bracketed by \<^verbatim>\<open>apiCall\<close> and its exit: the pending tick is taken back, the clock
  advances, and at the end the earliest timer is programmed. Within the bracket a message is handed to
  each \<^verbatim>\<open>SessionOp\<close> in turn; an operation keeps its own data and at most one timer, changes the shared
  \<^verbatim>\<open>SessionState\<close>, and calls services of the session (sending a message, asking for a reconnection,
  a termination). \<^verbatim>\<open>RegMgr\<close> maps topics to numeric ids. \<^verbatim>\<open>Encapsulate\<close> owns further sessions, one per
  node behind a forwarder, to which it hands the bytes that follow a FWD message, and so on to any depth.
  The application (\<^verbatim>\<open>GatewayApp\<close>) owns one \<^verbatim>\<open>GatewaySession\<close> per client address and, below each, one per node of
  a forwarder. An acceptor shares one UDP socket among the sessions; each session has a TCP socket to
  the broker, whose stream it puts together for the library. All of it runs on one event loop, to which
  callbacks are posted.

  \<^bold>\<open>Theories and sources\<close> (under \<^verbatim>\<open>src/gateway/lib/src\<close> unless said otherwise).
  \<^item> \<open>Gw_Prelude\<close>, \<open>Gw_Messages\<close>: integers, ordered maps, \<^verbatim>\<open>messages.h\<close>, the QoS types of \<^verbatim>\<open>common.h\<close>.
  \<^item> \<open>Gw_Registry\<close>, \<open>Gw_RegMgr\<close>: \<^verbatim>\<open>RegMgr.{h,cpp}\<close>. The list of registrations is an explicit store of
    nodes with addresses, so that an iterator may dangle. The locale \<open>topic_registry\<close> states what the
    session relies on and is interpreted on the model.
  \<^item> \<open>Gw_State\<close>, \<open>Gw_SessionOp\<close>: \<^verbatim>\<open>SessionState\<close>, the data of the operations, the output, the faults;
    \<^verbatim>\<open>SessionOp.{h,cpp}\<close> and the services of \<^verbatim>\<open>SessionImpl\<close>. The locale \<open>session_op\<close> is the contract of an
    operation with the session: what it may change and what it may emit.
  \<^item> \<open>Gw_Ping\<close>, \<open>Gw_Connect\<close>, \<open>Gw_Disconnect\<close>, \<open>Gw_Asleep\<close>, \<open>Gw_AsleepMonitor\<close>, \<open>Gw_PubRecv\<close>, \<open>Gw_PubSend\<close>,
    \<open>Gw_Forward\<close>, \<open>Gw_WillUpdate\<close>: \<^verbatim>\<open>session_op/\<close>, one theory per class, each with an interpretation
    of \<open>session_op\<close>.
  \<^item> \<open>Gw_Session\<close>: \<^verbatim>\<open>SessionImpl.{h,cpp}\<close>, dispatching, the bracket of an API call, timers.
  \<^item> \<open>Gw_Encapsulate\<close>: \<^verbatim>\<open>session_op/Encapsulate.{h,cpp}\<close> and the read loop, over a tree of sessions.
  \<^item> \<open>Gw_Strings\<close>, \<open>Gw_Config\<close>: the standard library functions that the configuration uses,
    \<^verbatim>\<open>ConfigImpl.{h,cpp}\<close>. The laws of \<^verbatim>\<open>std::sort\<close> are the locale \<open>keyed_sort\<close>.
  \<^item> \<open>Gw_Gateway\<close>: \<^verbatim>\<open>GatewayImpl.{h,cpp}\<close>.
  \<^item> \<open>Gw_App\<close>: how \<^verbatim>\<open>src/gateway/app/gateway/GatewaySession.cpp\<close> configures a session.
  \<^item> \<open>Ga_Sockets\<close>: \<^verbatim>\<open>GatewayIoBrokerSocket*\<close>, \<^verbatim>\<open>GatewayIoClientSocket*\<close>, \<^verbatim>\<open>GatewayIoClientAcceptor*\<close> of the same
    directory. An asynchronous operation of the network library is a counter of operations under way, and its
    completion an event with any result. The locale \<open>fifo_channel\<close> is what the three queues have in common
    and is interpreted on each of them.
  \<^item> \<open>Ga_Sessions\<close>: the rest of \<^verbatim>\<open>GatewaySession.{h,cpp}\<close> and the sessions of \<^verbatim>\<open>GatewayApp.cpp\<close>, as a tree of
    sessions with the queue of posted callbacks; \<open>app_reachable\<close> are the states of the event loop.
  \<^item> \<open>Ga_Startup\<close>: \<^verbatim>\<open>GatewayApp::start\<close>, \<^verbatim>\<open>GatewayWrapper\<close>, \<^verbatim>\<open>GatewayLogger\<close> and \<^verbatim>\<open>main.cpp\<close>.
  \<^item> \<open>Gw_Witnesses\<close>: sample sessions and instances of the properties of the publication operations.
  \<^item> \<open>Gw_Flows\<close>, \<open>Gw_Supervision\<close>: exchanges that involve several operations of a session, and the
    supervision of client and publications as an invariant of all calls.

  The client library (\<^verbatim>\<open>src/client/lib/src\<close>). A \<^verbatim>\<open>ClientImpl\<close> owns the operations the application prepares,
  configures and sends; each has a timer and ends in one call of its completion callback.
  \<^item> \<open>Cl_TimerMgr\<close>: \<^verbatim>\<open>TimerMgr.{h,cpp}\<close>. \<open>Cl_PacketId\<close>, \<open>Cl_Topics\<close>: \<^verbatim>\<open>op/Op.{h,cpp}\<close>, and matching and checks
    of topics of \<^verbatim>\<open>ClientImpl.cpp\<close>. \<open>Cl_RegTopics\<close>: the tables of registered topics.
  \<^item> \<open>Cl_State\<close>: \<^verbatim>\<open>ClientImpl.h\<close>, \<^verbatim>\<open>ConfigState.h\<close>, \<^verbatim>\<open>SessionState.h\<close>, \<^verbatim>\<open>ClientState.h\<close>, \<^verbatim>\<open>ReuseState.h\<close>, the messages
    and the data of the operations. The lists that own operations map addresses to objects and \<^verbatim>\<open>m_ops\<close>
    has pointers, so that a call on a destroyed object is a fault the model can reach.
  \<^item> \<open>Cl_Services\<close>: sending, completing and resuming. \<open>Cl_Ops\<close>: the classes of \<^verbatim>\<open>op/\<close>. \<open>Cl_Client\<close>: the message
    handlers of \<^verbatim>\<open>ClientImpl\<close>, gateway discovery, ticks and the bracket of a call. \<open>Cl_Api\<close>, \<open>Cl_Send\<close>: the
    calls of the application (prepare, configure, send, cancel).
  \<^item> \<open>Cl_Frame\<close>, \<open>Cl_Reactions\<close>, \<open>Cl_Invariant\<close>: the invariant that pointers and objects agree. The locale
    \<open>ops_frame\<close> is the interface between completing an operation and everything that reacts to messages and
    timers, \<open>ops_frame_create\<close> extends it to reactions that create an operation; both are interpreted on the
    model. \<open>client_call\<close> is the step relation of the calls, \<open>client_reachable\<close> its reachable states. The chain
    of calls of \<^verbatim>\<open>resume()\<close> has a depth, and the number of operations is proved to be enough.
  \<^item> \<open>Cl_Safety\<close>, \<open>Cl_Exchanges\<close>: the properties of the client. \<open>Cl_Example\<close>: a run of it and their instances.
  \<^item> \<open>Ap_Client\<close>: \<^verbatim>\<open>src/client/app\<close>: \<^verbatim>\<open>common/AppClient.cpp\<close>, the datagram session, \<^verbatim>\<open>pub\<close>, \<^verbatim>\<open>sub\<close> and \<^verbatim>\<open>gw_discover\<close>.
    What the client library answers is a parameter, and its reports are events.

  \<^bold>\<open>Conventions.\<close> A method is a function that returns the updated state. A failed \<^verbatim>\<open>assert\<close> and an
  operation with no defined result are recorded as faults of the state, or are error values, and the
  theorems say when they do not occur. Integers have the width of the code. The message frames, which
  another project generates, the answers of the application's callbacks and \<^verbatim>\<open>std::sort\<close> are parameters.

  \<^bold>\<open>What is shown.\<close>
  \<^item> Structure: after any sequence of calls every session of the tree is idle, the asserts on the
    bracket never fail, and no armed timer is missed; the read loop ends. Its recursion goes down
    one level per encapsulation and per message, each of which takes a byte, so that a depth of
    \<open>2 * len + 1\<close> is enough for \<open>len\<close> bytes; this bound is proved to be enough, not assumed.
  \<^item> Registry: ids are fresh and in range, lookups give what was registered, the invariant is kept; the
    eviction and the search for gaps are shown to break it outside the stated conditions.
  \<^item> Publications: QoS 2 from the broker is queued exactly once, the queue is bounded and keeps the
    newest, QoS 0 is delivered in order, no queue waits for a free sender, what the client
    does not answer is sent again once per attempt and then given up.
  \<^item> Sessions: the handshake of a connection and a registration with its publication end to end, and in
    every reachable state the timers that supervise client and publications run; a silent client is
    terminated.
  \<^item> Client: timers are called on time and the next tick is asked for at the least time a timer has
    left; packet ids are the first free ones; topics match as the protocol says, level by level;
    pointers and objects agree, an operation ends in exactly one report as long as no destroyed
    operation is called, publications never stall, the end of the connection leaves nothing behind;
    registration, publication and acknowledgement, retries, a silent gateway, publications received
    twice. Defects of the client have theorems: a callback of a tick on a destroyed operation, the
    filter that unsubscribing leaves, the positions where matching fails, a publication reported
    again after another one.
  \<^item> Configuration: the reader gives every key the values of its lines, which are cut as a
    specification in words says, predefined topics survive a
    round trip through the file, the range of ids is valid, the binary searches over the sorted lists
    find exactly the entries of a client; the advertiser sends the current message in every state.
  \<^item> Gateway application: no socket loses, doubles or reorders data, and at most one operation of each kind
    is under way; the acceptor knows exactly the sockets of the sessions; no two primary sessions serve the
    same client; the broker's stream is reassembled from any pieces; a start with a valid configuration
    ends with ADVERTISE on its way. Its defects have theorems too: a posted termination on a destroyed
    session, bytes that survive a reconnection, the refused advertise period 0.
  \<^item> Client applications: the publisher publishes as often as it was told, the subscriber asks for
    every topic once, encapsulation and binary data on the command line survive a round trip.

  \<^bold>\<open>Not modelled.\<close> Calls of the application back into a session from inside a callback; the bytes of a
  serialised message; memory exhaustion; the wrappers of the public interfaces (\<^verbatim>\<open>Session.cpp\<close>,
  \<^verbatim>\<open>Gateway.cpp\<close>, \<^verbatim>\<open>Config.cpp\<close>, \<^verbatim>\<open>gateway_all.cpp\<close>), which only forward; of the applications the parsing of the
  command line and the network, which are libraries, the text of log messages and most of what
  is printed; tests and fuzzing. Of the client library: calls of the application from inside a
  callback, the C interface the build generates from a template, builds with features left out, and
  the error log.
\<close>

end
